(* ===== verification/Prelude.thy ===== *)
theory Prelude
  imports Main "HOL-Library.Sublist" "HOL-Library.Char_ord" "HOL-Library.List_Lexorder"
    "HOL-Library.Product_Lexorder"
begin

text \<open>
  Shared ground of the BidProof development: the exceptions the services raise, Python text and
  its whitespace rules, the meaning of the SQL statements the data layer issues on a table (a list
  of rows), and the interface locales the components interpret.

  Text that the code inspects character by character is \<open>ustr\<close>, the list of its Unicode code
  points. Identifiers and other text that is only stored and compared are \<open>string\<close>. A point in
  time is a \<open>timestamp\<close>, the number of microseconds since an epoch; the program stores it as an ISO
  string in UTC and compares it in that form, which gives the same order.
\<close>

named_theorems sql_defs \<open>definitions of the table operations\<close>
named_theorems row_simps \<open>rewrite rules about table operations\<close>

section \<open>Exceptions and results\<close>

datatype error =
    HTTPException nat
  | LeaseLost
  | IntegrityError
  | TypeError
  | ValueError
  | KeyError
  | AttributeError
  | IndexError
  | RuntimeError
  | InvalidToken

type_synonym 'a result = "error + 'a"
type_synonym ustr = "nat list"
type_synonym timestamp = int
type_synonym ident = string

text \<open>A handler that reads and writes the database. What a handler wrote before it raised stays
  written, because every data-layer call commits its own transaction.\<close>

type_synonym ('s, 'a) handler = "'s \<Rightarrow> 'a result \<times> 's"

definition raise_error :: "error \<Rightarrow> ('s, 'a) handler" where
  "raise_error e s = (Inl e, s)"

definition return_value :: "'a \<Rightarrow> ('s, 'a) handler" where
  "return_value x s = (Inr x, s)"

definition and_then :: "('s, 'a) handler \<Rightarrow> ('a \<Rightarrow> ('s, 'b) handler) \<Rightarrow> ('s, 'b) handler" where
  "and_then m k s = (case m s of (Inl e, s') \<Rightarrow> (Inl e, s') | (Inr x, s') \<Rightarrow> k x s')"

lemma and_then_simps [simp]:
  "and_then (return_value x) k = k x"
  "and_then (raise_error e) k = raise_error e"
  by (auto simp: and_then_def return_value_def raise_error_def)

lemma and_then_Inr:
  "and_then m k s = (Inr y, t) \<longleftrightarrow> (\<exists>x s'. m s = (Inr x, s') \<and> k x s' = (Inr y, t))"
  by (auto simp: and_then_def split: prod.splits sum.splits)

definition fetch :: "('s \<Rightarrow> 'a) \<Rightarrow> ('s, 'a) handler" where
  "fetch f d = (Inr (f d), d)"

definition perform :: "('s \<Rightarrow> 'a \<times> 's) \<Rightarrow> ('s, 'a) handler" where
  "perform m d = (Inr (fst (m d)), snd (m d))"

definition change :: "('s \<Rightarrow> 's) \<Rightarrow> ('s, unit) handler" where
  "change f d = (Inr (), f d)"

definition attempt :: "('s \<Rightarrow> 'a result) \<Rightarrow> ('s, 'a) handler" where
  "attempt f d = (f d, d)"

definition refuse_if :: "bool \<Rightarrow> nat \<Rightarrow> ('s, unit) handler" where
  "refuse_if b n = (if b then raise_error (HTTPException n) else return_value ())"

text \<open>\<open>uow.transaction\<close>: an exception rolls back everything the block wrote.\<close>

definition atomically :: "('s, 'a) handler \<Rightarrow> ('s, 'a) handler" where
  "atomically m d = (case m d of (Inl e, _) \<Rightarrow> (Inl e, d) | (Inr x, d') \<Rightarrow> (Inr x, d'))"

definition integrity_as :: "nat \<Rightarrow> ('s, 'a) handler \<Rightarrow> ('s, 'a) handler" where
  "integrity_as n m d = (case m d of (Inl IntegrityError, d') \<Rightarrow> (Inl (HTTPException n), d') | r \<Rightarrow> r)"

text \<open>Evaluation of a flow step by step.\<close>

named_theorems flow_simps

lemma and_then_fetch [flow_simps]: "and_then (fetch f) k d = k (f d) d"
  by (simp add: and_then_def fetch_def)

lemma and_then_perform [flow_simps]: "and_then (perform m) k d = k (fst (m d)) (snd (m d))"
  by (simp add: and_then_def perform_def)

lemma and_then_change [flow_simps]: "and_then (change f) k d = k () (f d)"
  by (simp add: and_then_def change_def)

lemma and_then_attempt [flow_simps]: "and_then (attempt f) k d = (case f d of Inl e \<Rightarrow> (Inl e, d) | Inr x \<Rightarrow> k x d)"
  by (simp add: and_then_def attempt_def)

lemma and_then_refuse [flow_simps]: "and_then (refuse_if b n) k d = (if b then (Inl (HTTPException n), d) else k () d)"
  by (simp add: refuse_if_def raise_error_def)

lemma raise_fail [flow_simps]: "raise_error e d = (Inl e, d)" "return_value x d = (Inr x, d)"
  by (simp_all add: raise_error_def return_value_def)

text \<open>A step keeps a part of the state. The rules follow the structure of a flow.\<close>

definition keeps :: "('s \<Rightarrow> 'x) \<Rightarrow> ('s, 'a) handler \<Rightarrow> bool" where
  "keeps f m \<longleftrightarrow> (\<forall>d. f (snd (m d)) = f d)"

named_theorems keeps_intros

lemma keepsD: "keeps f m \<Longrightarrow> m d = (r, d') \<Longrightarrow> f d' = f d"
  by (metis keeps_def snd_conv)

lemma keeps_and_then [keeps_intros]: "keeps f m \<Longrightarrow> (\<And>x. keeps f (k x)) \<Longrightarrow> keeps f (and_then m k)"
  by (auto simp: keeps_def and_then_def split: prod.splits sum.splits) (metis snd_conv)+

lemma keeps_basic [keeps_intros]:
  "keeps f (return_value x)" "keeps f (raise_error e)" "keeps f (fetch g)" "keeps f (attempt h)" "keeps f (refuse_if b n)"
  by (simp_all add: keeps_def return_value_def raise_error_def fetch_def attempt_def refuse_if_def)

lemma keeps_change [keeps_intros]: "(\<And>d. f (g d) = f d) \<Longrightarrow> keeps f (change g)"
  by (simp add: keeps_def change_def)

lemma keeps_perform [keeps_intros]: "(\<And>d. f (snd (g d)) = f d) \<Longrightarrow> keeps f (perform g)"
  by (simp add: keeps_def perform_def)

lemma keeps_branch [keeps_intros]:
  "keeps f m \<Longrightarrow> keeps f n \<Longrightarrow> keeps f (if b then m else n)"
  "keeps f m \<Longrightarrow> (\<And>x. keeps f (k x)) \<Longrightarrow> keeps f (case opt of None \<Rightarrow> m | Some x \<Rightarrow> k x)"
  by (simp_all split: option.split)

text \<open>Triples with two postconditions, one for the value and one for the exception. They are total: a
  flow always ends, and it ends in one of the two.\<close>

definition triple :: "('s \<Rightarrow> bool) \<Rightarrow> ('s, 'a) handler \<Rightarrow> ('a \<Rightarrow> 's \<Rightarrow> bool) \<Rightarrow> (error \<Rightarrow> 's \<Rightarrow> bool) \<Rightarrow> bool" where
  "triple P m Q E \<longleftrightarrow> (\<forall>s. P s \<longrightarrow> (case m s of (Inr x, t) \<Rightarrow> Q x t | (Inl e, t) \<Rightarrow> E e t))"

named_theorems triple_intros

lemma tripleI: "(\<And>s x t. P s \<Longrightarrow> m s = (Inr x, t) \<Longrightarrow> Q x t) \<Longrightarrow> (\<And>s e t. P s \<Longrightarrow> m s = (Inl e, t) \<Longrightarrow> E e t) \<Longrightarrow> triple P m Q E"
  by (auto simp: triple_def split: prod.splits sum.splits)

lemma tripleD:
  assumes "triple P m Q E" and "P s"
  shows "m s = (Inr x, t) \<Longrightarrow> Q x t" and "m s = (Inl e, t) \<Longrightarrow> E e t"
  using assms by (auto simp: triple_def split: prod.splits sum.splits)

lemma triple_and_then [triple_intros]:
  assumes "triple P m R E" and "\<And>x. triple (R x) (k x) Q E"
  shows "triple P (and_then m k) Q E"
  using assms by (fastforce simp: triple_def and_then_def split: prod.splits sum.splits)

lemma triple_basic [triple_intros]:
  "(\<And>s. P s \<Longrightarrow> Q x s) \<Longrightarrow> triple P (return_value x) Q E"
  "(\<And>s. P s \<Longrightarrow> E e s) \<Longrightarrow> triple P (raise_error e) Q E"
  "(\<And>s. P s \<Longrightarrow> Q (f s) s) \<Longrightarrow> triple P (fetch f) Q E"
  "(\<And>s. P s \<Longrightarrow> U () (g s)) \<Longrightarrow> triple P (change g) U E"
  "(\<And>s. P s \<Longrightarrow> case h s of Inr x \<Rightarrow> Q x s | Inl e \<Rightarrow> E e s) \<Longrightarrow> triple P (attempt h) Q E"
  "(\<And>s. P s \<Longrightarrow> if b then E (HTTPException n) s else U () s) \<Longrightarrow> triple P (refuse_if b n) U E"
  by (auto simp: triple_def return_value_def raise_error_def fetch_def change_def attempt_def refuse_if_def split: sum.splits)

lemma triple_perform [triple_intros]: "(\<And>s. P s \<Longrightarrow> Q (fst (g s)) (snd (g s))) \<Longrightarrow> triple P (perform g) Q E"
  by (simp add: triple_def perform_def)

lemma triple_weaken:
  assumes "triple P m Q E" and "\<And>s. P' s \<Longrightarrow> P s" and "\<And>x s. Q x s \<Longrightarrow> Q' x s" and "\<And>e s. E e s \<Longrightarrow> E' e s"
  shows "triple P' m Q' E'"
  using assms by (fastforce simp: triple_def split: prod.splits sum.splits)

text \<open>A step that keeps what a predicate reads keeps the predicate.\<close>

lemma triple_keeps:
  assumes "keeps f m" and "\<And>s t. f t = f s \<Longrightarrow> P s \<Longrightarrow> P t"
  shows "triple P m (\<lambda>_. P) (\<lambda>_. P)"
  using assms by (auto simp: triple_def split: prod.splits sum.splits dest: keepsD)

text \<open>Sequencing of computations that may raise but write nothing.\<close>

definition bind_result :: "'a result \<Rightarrow> ('a \<Rightarrow> 'b result) \<Rightarrow> 'b result" where
  "bind_result r f = (case r of Inl e \<Rightarrow> Inl e | Inr x \<Rightarrow> f x)"

lemma bind_result_simps [simp]: "bind_result (Inl e) f = Inl e" "bind_result (Inr x) f = f x"
  by (simp_all add: bind_result_def)

lemma bind_result_Inr: "bind_result r f = Inr y \<longleftrightarrow> (\<exists>x. r = Inr x \<and> f x = Inr y)"
  by (auto simp: bind_result_def split: sum.splits)

fun map_result :: "('a \<Rightarrow> 'b result) \<Rightarrow> 'a list \<Rightarrow> 'b list result" where
  "map_result f [] = Inr []"
| "map_result f (x # xs) = bind_result (f x) (\<lambda>y. bind_result (map_result f xs) (\<lambda>ys. Inr (y # ys)))"

lemma map_result_Inr: "map_result f xs = Inr ys \<longleftrightarrow> map f xs = map Inr ys"
  by (induction xs arbitrary: ys) (auto simp: bind_result_Inr Cons_eq_map_conv map_eq_Cons_conv)

section \<open>Python text\<close>

definition asc :: "string \<Rightarrow> ustr" where
  "asc s = map of_char s"

text \<open>\<open>str.isspace\<close>, \<open>str.split()\<close> and the regular-expression class \<open>\s\<close> share this set.\<close>

definition is_space :: "nat \<Rightarrow> bool" where
  "is_space c \<longleftrightarrow> (9 \<le> c \<and> c \<le> 13) \<or> (28 \<le> c \<and> c \<le> 32) \<or> c = 133 \<or> c = 160 \<or> c = 5760
     \<or> (8192 \<le> c \<and> c \<le> 8202) \<or> c = 8232 \<or> c = 8233 \<or> c = 8239 \<or> c = 8287 \<or> c = 12288"

definition lstrip :: "ustr \<Rightarrow> ustr" where
  "lstrip s = dropWhile is_space s"

definition strip :: "ustr \<Rightarrow> ustr" where
  "strip s = rev (lstrip (rev (lstrip s)))"

definition remove_spaces :: "ustr \<Rightarrow> ustr" where
  "remove_spaces s = filter (\<lambda>c. \<not> is_space c) s"

text \<open>\<open>str.split()\<close> with no argument: the maximal runs of non-space characters.\<close>

fun split_words :: "ustr \<Rightarrow> ustr \<Rightarrow> ustr list" where
  "split_words [] w = (if w = [] then [] else [rev w])"
| "split_words (c # s) w =
     (if is_space c then (if w = [] then split_words s [] else rev w # split_words s [])
      else split_words s (c # w))"

definition py_split :: "ustr \<Rightarrow> ustr list" where
  "py_split s = split_words s []"

fun join :: "'a list \<Rightarrow> 'a list list \<Rightarrow> 'a list" where
  "join sep [] = []"
| "join sep [x] = x"
| "join sep (x # y # ys) = x @ sep @ join sep (y # ys)"

definition squeeze :: "ustr \<Rightarrow> ustr" where
  "squeeze s = join [32] (py_split s)"

text \<open>\<open>p in s\<close> on strings and byte strings.\<close>

fun contains :: "'a list \<Rightarrow> 'a list \<Rightarrow> bool" where
  "contains p [] = (p = [])"
| "contains p (x # xs) = (prefix p (x # xs) \<or> contains p xs)"

lemma contains_iff_sublist: "contains p s \<longleftrightarrow> sublist p s"
  by (induction s) (auto simp: sublist_Cons_right)

text \<open>\<open>list(dict.fromkeys(xs))\<close>: duplicates dropped, first occurrences kept in order.\<close>

definition dedup :: "'a list \<Rightarrow> 'a list" where
  "dedup xs = rev (remdups (rev xs))"

lemma set_dedup [simp]: "set (dedup xs) = set xs"
  by (simp add: dedup_def)

lemma distinct_dedup [simp]: "distinct (dedup xs)"
  by (simp add: dedup_def)

lemma dedup_Nil [simp]: "dedup [] = []"
  by (simp add: dedup_def)

section \<open>Decimal numerals\<close>

fun decimal :: "nat \<Rightarrow> string" where
  "decimal n = (if n < 10 then [char_of (48 + n)] else decimal (n div 10) @ [char_of (48 + n mod 10)])"

declare decimal.simps [simp del]

definition is_ascii_digit :: "char \<Rightarrow> bool" where
  "is_ascii_digit c \<longleftrightarrow> 48 \<le> (of_char c :: nat) \<and> (of_char c :: nat) \<le> 57"

definition zfill :: "nat \<Rightarrow> string \<Rightarrow> string" where
  "zfill n s = replicate (n - length s) CHR ''0'' @ s"

lemma of_char_digit: "d < 10 \<Longrightarrow> of_char (char_of (48 + d :: nat) :: char) = 48 + d"
  by simp

lemma decimal_digits: "list_all is_ascii_digit (decimal n) \<and> decimal n \<noteq> []"
proof (induction n rule: decimal.induct)
  case (1 n)
  have "is_ascii_digit (char_of (48 + n mod 10))" using of_char_digit [of "n mod 10"] by (simp add: is_ascii_digit_def)
  moreover have "is_ascii_digit (char_of (48 + n))" if "n < 10" using that of_char_digit [of n] by (simp add: is_ascii_digit_def)
  ultimately show ?case using 1 by (subst (1 2) decimal.simps) auto
qed

lemma decimal_value: "foldl (\<lambda>n c. n * 10 + (of_char c - 48)) 0 (decimal n) = n"
proof (induction n rule: decimal.induct)
  case (1 n)
  show ?case
  proof (cases "n < 10")
    case True
    then show ?thesis using of_char_digit [of n] by (subst decimal.simps) simp
  next
    case False
    then show ?thesis using 1 of_char_digit [of "n mod 10"] by (subst decimal.simps) simp
  qed
qed

lemma decimal_length: "n < 10 ^ k \<Longrightarrow> 0 < k \<Longrightarrow> length (decimal n) \<le> k"
proof (induction k arbitrary: n)
  case (Suc k)
  show ?case
  proof (cases "n < 10")
    case True
    then show ?thesis by (subst decimal.simps) simp
  next
    case False
    with Suc.prems have "0 < k" by (cases k) auto
    moreover from Suc.prems have "n div 10 < 10 ^ k" by (simp add: div_less_iff_less_mult mult.commute)
    ultimately have "length (decimal (n div 10)) \<le> k" using Suc.IH by blast
    with False show ?thesis by (subst decimal.simps) simp
  qed
qed simp

text \<open>A zero-padded numeral determines its number.\<close>

lemma zfill_value: "foldl (\<lambda>n c. n * 10 + (of_char c - 48)) 0 (zfill k (decimal n)) = n"
proof -
  have "foldl (\<lambda>n c. n * 10 + (of_char c - 48)) 0 (replicate m CHR ''0'') = (0 :: nat)" for m
    by (induction m) simp_all
  then show ?thesis by (simp add: zfill_def decimal_value)
qed

lemma zfill_inj: "zfill k (decimal m) = zfill k (decimal n) \<longleftrightarrow> m = n"
  using zfill_value [of k m] zfill_value [of k n] by metis

text \<open>\<open>str\<close> of an integer.\<close>

definition str_int :: "int \<Rightarrow> string" where
  "str_int n = (if n < 0 then CHR ''-'' # decimal (nat (- n)) else decimal (nat n))"

section \<open>Tables\<close>

text \<open>
  A table is the list of its rows in insertion order. \<open>sql_update\<close>, \<open>sql_delete\<close> and
  \<open>sql_select\<close> take the WHERE clause as a predicate; \<open>sql_count\<close> is the row count such a
  statement reports. A scan without ORDER BY reads rows in insertion order, and ORDER BY is a
  stable sort; facts that must not depend on how a database breaks ties say so.
\<close>

definition sql_select :: "('r \<Rightarrow> bool) \<Rightarrow> 'r list \<Rightarrow> 'r list" where
  [sql_defs]: "sql_select P t = filter P t"

definition sql_first :: "('r \<Rightarrow> bool) \<Rightarrow> 'r list \<Rightarrow> 'r option" where
  [sql_defs]: "sql_first P t = find P t"

definition sql_count :: "('r \<Rightarrow> bool) \<Rightarrow> 'r list \<Rightarrow> nat" where
  [sql_defs]: "sql_count P t = length (filter P t)"

definition sql_update :: "('r \<Rightarrow> bool) \<Rightarrow> ('r \<Rightarrow> 'r) \<Rightarrow> 'r list \<Rightarrow> 'r list" where
  [sql_defs]: "sql_update P f t = map (\<lambda>r. if P r then f r else r) t"

definition sql_delete :: "('r \<Rightarrow> bool) \<Rightarrow> 'r list \<Rightarrow> 'r list" where
  [sql_defs]: "sql_delete P t = filter (\<lambda>r. \<not> P r) t"

definition sql_insert :: "'r \<Rightarrow> 'r list \<Rightarrow> 'r list" where
  [sql_defs]: "sql_insert r t = t @ [r]"

text \<open>INSERT into a table with unique constraints: \<open>clash r r'\<close> holds for rows that violate one.\<close>

definition sql_insert_unique :: "('r \<Rightarrow> 'r \<Rightarrow> bool) \<Rightarrow> 'r \<Rightarrow> 'r list \<Rightarrow> 'r list result" where
  "sql_insert_unique clash r t = (if list_ex (clash r) t then Inl IntegrityError else Inr (t @ [r]))"

text \<open>INSERT ... ON CONFLICT DO UPDATE.\<close>

definition sql_upsert :: "('r \<Rightarrow> bool) \<Rightarrow> ('r \<Rightarrow> 'r) \<Rightarrow> 'r \<Rightarrow> 'r list \<Rightarrow> 'r list" where
  "sql_upsert same merge r t = (if list_ex same t then sql_update same merge t else sql_insert r t)"

definition order_by :: "('r \<Rightarrow> 'k::linorder) \<Rightarrow> 'r list \<Rightarrow> 'r list" where
  "order_by k t = sort_key k t"

definition order_by_desc :: "('r \<Rightarrow> 'k::linorder) \<Rightarrow> 'r list \<Rightarrow> 'r list" where
  "order_by_desc k t = rev (sort_key k (rev t))"

lemma set_order_by [simp]: "set (order_by k t) = set t" "set (order_by_desc k t) = set t"
  by (simp_all add: order_by_def order_by_desc_def)

lemma sorted_order_by: "sorted (map k (order_by k t))" "sorted (map k (rev (order_by_desc k t)))"
  by (simp_all add: order_by_def order_by_desc_def)

lemma sql_update_Nil [simp]: "sql_update P f [] = []"
  by (simp add: sql_update_def)

lemma sql_update_Cons [simp]:
  "sql_update P f (r # t) = (if P r then f r else r) # sql_update P f t"
  by (simp add: sql_update_def)

lemma map_sql_update:
  assumes "\<And>r. P r \<Longrightarrow> g (f r) = g r"
  shows "map g (sql_update P f t) = map g t"
  using assms by (simp add: sql_update_def)

lemma in_sql_update:
  "r \<in> set (sql_update P f t) \<longleftrightarrow> (\<exists>r0 \<in> set t. r = (if P r0 then f r0 else r0))"
  by (auto simp: sql_update_def)

lemma ball_sql_update:
  "(\<forall>r \<in> set (sql_update P f t). Q r) \<longleftrightarrow> (\<forall>r \<in> set t. Q (if P r then f r else r))"
  by (auto simp: sql_update_def)

lemma set_sql_delete [simp]: "set (sql_delete P t) = {r \<in> set t. \<not> P r}"
  by (auto simp: sql_delete_def)

lemma set_sql_select [simp]: "set (sql_select P t) = {r \<in> set t. P r}"
  by (auto simp: sql_select_def)

lemma set_sql_insert [simp]: "set (sql_insert r t) = insert r (set t)"
  by (auto simp: sql_insert_def)

lemma sql_count_0_iff: "sql_count P t = 0 \<longleftrightarrow> (\<forall>r \<in> set t. \<not> P r)"
  by (auto simp: sql_count_def filter_empty_conv)

lemma sql_update_no_match: "sql_count P t = 0 \<Longrightarrow> sql_update P f t = t"
  by (induction t) (auto simp: sql_count_def split: if_splits)

lemma sql_first_Some: "sql_first P t = Some r \<Longrightarrow> r \<in> set t \<and> P r"
  by (auto simp: sql_first_def find_Some_iff)

lemma sql_first_None: "sql_first P t = None \<longleftrightarrow> (\<forall>r \<in> set t. \<not> P r)"
  by (auto simp: sql_first_def find_None_iff)

text \<open>A primary key identifies a row.\<close>

lemma distinct_key_eq:
  assumes "distinct (map key t)" "r \<in> set t" "r' \<in> set t" "key r = key r'"
  shows "r = r'"
  using assms by (metis distinct_map inj_onD)

lemma sql_first_key:
  assumes "distinct (map key t)" "r \<in> set t"
  shows "sql_first (\<lambda>x. key x = key r) t = Some r"
proof (cases "sql_first (\<lambda>x. key x = key r) t")
  case None
  with assms(2) show ?thesis by (auto simp: sql_first_None)
next
  case (Some x)
  then have "x \<in> set t" "key x = key r" by (auto dest: sql_first_Some)
  with assms Some show ?thesis by (auto dest: distinct_key_eq)
qed

lemma sql_first_update:
  assumes "\<And>r. P r \<Longrightarrow> key (f r) = key r"
  shows "sql_first (\<lambda>r. key r = k) (sql_update P f t)
    = map_option (\<lambda>r. if P r then f r else r) (sql_first (\<lambda>r. key r = k) t)"
  using assms by (induction t) (auto simp: sql_first_def)

lemma sql_first_delete:
  "(\<And>r. r \<in> set t \<Longrightarrow> Q r \<Longrightarrow> \<not> P r) \<Longrightarrow> sql_first Q (sql_delete P t) = sql_first Q t"
  by (induction t) (auto simp: sql_first_def sql_delete_def)

lemma sql_first_insert:
  "sql_first P (sql_insert r t) = (case sql_first P t of Some x \<Rightarrow> Some x | None \<Rightarrow> if P r then Some r else None)"
  by (induction t) (auto simp: sql_first_def sql_insert_def)

lemma sql_first_upsert:
  assumes "\<And>r. same r \<longleftrightarrow> key r = k" and "key row = k"
  shows "sql_first (\<lambda>r. key r = k) (sql_upsert same (\<lambda>_. row) row t) = Some row"
  using assms
  by (induction t) (auto simp: sql_upsert_def sql_first_def sql_insert_def split: if_splits)

lemma sql_count_key_le_1:
  assumes "distinct (map key t)"
  shows "sql_count (\<lambda>r. key r = k \<and> P r) t \<le> 1"
  using assms
proof (induction t)
  case Nil
  show ?case by (simp add: sql_count_def)
next
  case (Cons r t)
  show ?case
  proof (cases "key r = k \<and> P r")
    case True
    with Cons.prems have "sql_count (\<lambda>r. key r = k \<and> P r) t = 0"
      by (auto simp: sql_count_0_iff image_iff)
    with True show ?thesis by (simp add: sql_count_def)
  next
    case False
    with Cons show ?thesis by (auto simp: sql_count_def)
  qed
qed

lemma sql_count_key:
  assumes "distinct (map key t)"
  shows "sql_count (\<lambda>r. key r = k \<and> P r) t
    = (case sql_first (\<lambda>r. key r = k) t of None \<Rightarrow> 0 | Some r \<Rightarrow> if P r then 1 else 0)"
  using assms
proof (induction t)
  case Nil
  show ?case by (simp add: sql_count_def sql_first_def)
next
  case (Cons r t)
  show ?case
  proof (cases "key r = k")
    case True
    with Cons.prems have "sql_count (\<lambda>r. key r = k \<and> P r) t = 0"
      by (auto simp: sql_count_0_iff image_iff)
    with True show ?thesis by (auto simp: sql_count_def sql_first_def)
  next
    case False
    with Cons show ?thesis by (auto simp: sql_count_def sql_first_def)
  qed
qed

section \<open>Interfaces\<close>

text \<open>
  A conditional write that claims something once: reset links, login flows, one-time codes, the
  publication of a scan. \<open>consume q s\<close> is one request with argument \<open>q\<close> (its time, its
  digest) and answers \<open>Some\<close> when the request won; \<open>spent\<close> says that the thing is gone.
\<close>

primrec run_all :: "('q \<Rightarrow> 's \<Rightarrow> 'r option \<times> 's) \<Rightarrow> 'q list \<Rightarrow> 's \<Rightarrow> 'r option list" where
  "run_all consume [] s = []"
| "run_all consume (q # qs) s = fst (consume q s) # run_all consume qs (snd (consume q s))"

locale one_shot =
  fixes consume :: "'q \<Rightarrow> 's \<Rightarrow> 'r option \<times> 's"
    and spent :: "'s \<Rightarrow> bool"
  assumes consume_spends: "fst (consume q s) = Some r \<Longrightarrow> spent (snd (consume q s))"
    and spent_refuses: "spent s \<Longrightarrow> fst (consume q s) = None"
    and spent_stays: "spent s \<Longrightarrow> spent (snd (consume q s))"
begin

lemma run_all_spent: "spent s \<Longrightarrow> filter (\<lambda>r. r \<noteq> None) (run_all consume qs s) = []"
  by (induction qs arbitrary: s) (auto simp: spent_refuses spent_stays)

lemma at_most_one_winner: "length (filter (\<lambda>r. r \<noteq> None) (run_all consume qs s)) \<le> 1"
proof (induction qs arbitrary: s)
  case Nil
  show ?case by simp
next
  case (Cons q qs)
  show ?case
  proof (cases "fst (consume q s)")
    case None
    with Cons.IH show ?thesis by simp
  next
    case (Some r)
    then have "spent (snd (consume q s))" by (rule consume_spends)
    with Some show ?thesis by (simp add: run_all_spent [simplified])
  qed
qed

end

text \<open>An event system with an invariant, for components that run as a sequence of steps.\<close>

locale inv_system =
  fixes step :: "'s \<Rightarrow> 'e \<Rightarrow> 's \<Rightarrow> bool"
    and inv :: "'s \<Rightarrow> bool"
  assumes step_inv: "step s e t \<Longrightarrow> inv s \<Longrightarrow> inv t"
begin

lemma reach_inv: "(\<lambda>s t. \<exists>e. step s e t)\<^sup>*\<^sup>* s t \<Longrightarrow> inv s \<Longrightarrow> inv t"
  by (induction rule: rtranclp_induct) (auto intro: step_inv)

end

end
