(* ===== verification/Models.thy ===== *)
theory Models
  imports Prelude
begin

text \<open>
  The schema of \<open>src/app/models.py\<close>: one record per table, with the columns of the table as its
  fields, and the record \<open>db\<close> of all tables. A nullable column is an \<open>option\<close>; an integer
  column used as a flag is a \<open>bool\<close>; a JSON column has the type of the document the code keeps in
  it. The documents of a run (requirements with their citations, reviews, the decision, the research
  state) are records with the keys the code writes. Documents may be stored encrypted
  (\<open>src/app/crypto.py\<close>), so a stored document is of type \<open>stored\<close>.
\<close>

section \<open>JSON values\<close>

datatype json =
    JNull
  | JBool bool
  | JInt int
  | JStr ustr
  | JList "json list"
  | JObj "(string \<times> json) list"

section \<open>Documents of a run\<close>

datatype category = QUALIFICATION | FATAL | SCORING | DEADLINE | SIGNATURE | BOND | CREDENTIAL

datatype req_status = PASS | FAIL | UNKNOWN | NEEDS_REVIEW

datatype severity = HIGH | MEDIUM

datatype criticality = HARD | SOFT

datatype polarity = NEGATIVE_OR_EXCLUSION | OBLIGATION | NEUTRAL

text \<open>Where a quotation stands: the kind of place, the label shown to the user (empty when it is
  missing) and the remaining keys.\<close>

record locator =
  loc_kind :: string
  loc_label :: ustr
  loc_fields :: "(string \<times> json) list"

record block =
  blk_text :: ustr
  blk_locator :: "locator option"

record page =
  pg_page :: int
  pg_text :: ustr
  pg_locator :: "locator option"
  pg_blocks :: "block list"
  pg_has_text :: bool
  pg_ocr_required :: bool
  pg_low_text_confidence :: bool
  pg_char_count :: nat
  pg_ocr_status :: "string option"
  pg_ocr_provider :: "string option"
  pg_ocr_confidence :: "json option"
  pg_source_id :: "string option"
  pg_source_filename :: "string option"

text \<open>The locator of a page, or the one made from its number: the label is the ordinal of the page.\<close>

definition page_locator :: "page \<Rightarrow> locator" where
  "page_locator p =
     (case pg_locator p of
        Some l \<Rightarrow> l
      | None \<Rightarrow> \<lparr>loc_kind = ''page'', loc_label = [31532, 32] @ asc (str_int (pg_page p)) @ [32, 39029],
                loc_fields = [(''index'', JInt (pg_page p))]\<rparr>)"

text \<open>The entry of a page in the index that is stored with its document.\<close>

record page_entry =
  pi_page :: int
  pi_locator :: locator
  pi_char_count :: nat
  pi_ocr_required :: bool
  pi_low_text_confidence :: bool
  pi_ocr_status :: string
  pi_ocr_provider :: "string option"
  pi_ocr_confidence :: "json option"
  pi_block_count :: nat

record scan_quality_doc =
  sq_total_pages :: nat
  sq_text_pages :: nat
  sq_ocr_required_pages :: nat
  sq_ocr_failed_pages :: nat
  sq_low_text_confidence_pages :: nat

record citation =
  cit_source_id :: string
  cit_page :: int
  cit_locator :: locator
  cit_quote :: ustr

record evidence_item =
  ev_filename :: string
  ev_page :: int
  ev_locator :: locator
  ev_quote :: ustr
  ev_matched_terms :: "ustr list"
  ev_match_method :: string

record requirement =
  rq_requirement_id :: string
  rq_label :: ustr
  rq_category :: category
  rq_title :: ustr
  rq_source :: citation
  rq_evidence :: "evidence_item list"
  rq_status :: req_status
  rq_severity :: severity
  rq_criticality :: criticality
  rq_detection_method :: string
  rq_polarity :: polarity
  rq_rule_score :: nat
  rq_suggested_status :: "req_status option"
  rq_match_review_status :: "string option"

record review_item =
  ri_requirement_id :: string
  ri_decision :: string
  ri_old_status :: req_status
  ri_new_status :: req_status
  ri_note :: ustr
  ri_reviewed_at :: timestamp

record review_doc =
  rv_items :: "review_item list"
  rv_updated_at :: timestamp

record decision_doc =
  dc_decision :: string
  dc_note :: ustr
  dc_unresolved_requirement_ids :: "string list"
  dc_recorded_at :: timestamp

record action_entry =
  ac_action :: string
  ac_owner :: string
  ac_created_at :: timestamp
  ac_note :: ustr

record source_doc =
  sd_source_id :: string
  sd_role :: string
  sd_filename :: string
  sd_file_type :: string
  sd_sha256 :: string
  sd_pages :: nat
  sd_page_index :: "page_entry list"

record asset =
  as_asset_id :: string
  as_source_id :: string
  as_filename :: string
  as_file_type :: string
  as_sha256 :: string
  as_category :: string
  as_valid_until :: "string option"
  as_pages :: nat
  as_page_index :: "page_entry list"
  as_indexed_at :: timestamp

record evidence_file =
  ef_path :: string
  ef_asset :: asset

record research_state =
  rs_run_id :: string
  rs_status :: string
  rs_run_stage :: string
  rs_company_name :: "ustr option"
  rs_source_documents :: "source_doc list"
  rs_evidence_assets :: "asset list"
  rs_evidence_matrix :: "requirement list"
  rs_review_events :: "review_item list"
  rs_decision_record :: "decision_doc option"
  rs_action_plan :: "action_entry list"
  rs_scan_quality :: "scan_quality_doc option"
  rs_created_at :: timestamp
  rs_updated_at :: timestamp

section \<open>Stored documents\<close>

datatype document =
    EvidenceFilesDoc "evidence_file list"
  | StateDoc research_state
  | RequirementsDoc "requirement list"
  | ReviewDoc review_doc
  | SourcesDoc "source_doc list"
  | AssetsDoc "asset list"
  | DecisionDoc "decision_doc option"

datatype stored = Clear document | Fernet_v1 string

section \<open>Tables\<close>

record workspace_row =
  ws_workspace_id :: string
  ws_name :: ustr
  ws_retention_days :: int
  ws_created_at :: timestamp

record user_row =
  us_user_id :: string
  us_workspace_id :: string
  us_username :: string
  us_password_hash :: string
  us_role :: string
  us_active :: bool
  us_created_at :: timestamp

record member_row =
  wm_workspace_id :: string
  wm_user_id :: string
  wm_role :: string
  wm_created_at :: timestamp

record project_row =
  pj_project_id :: string
  pj_workspace_id :: string
  pj_name :: ustr
  pj_code :: string
  pj_archived_at :: "timestamp option"
  pj_created_at :: timestamp
  pj_updated_at :: timestamp

record run_row =
  rr_run_id :: string
  rr_created_at :: timestamp
  rr_updated_at :: timestamp
  rr_status :: string
  rr_archived_at :: "timestamp option"
  rr_workspace_id :: string
  rr_owner_id :: string
  rr_parent_run_id :: "string option"
  rr_version_number :: int
  rr_job_id :: "string option"
  rr_assignee_id :: "string option"
  rr_reviewer_id :: "string option"
  rr_tags_json :: "ustr list"
  rr_favorite :: bool
  rr_project_id :: "string option"
  rr_tender_sha256 :: "string option"
  rr_duplicate_run_ids_json :: "string list"
  rr_tender_filename :: string
  rr_tender_path :: string
  rr_evidence_files :: stored
  rr_state_json :: stored
  rr_requirements_json :: stored
  rr_review_json :: stored
  rr_source_documents_json :: stored
  rr_evidence_assets_json :: stored
  rr_decision_json :: stored
  rr_requirement_count :: nat
  rr_unresolved_count :: nat
  rr_blocker_count :: nat
  rr_fatal_risk_count :: nat
  rr_revision :: int

datatype job_status = PENDING | RUNNING | COMPLETED | FAILED | CANCELLED | DEAD

record job_payload =
  jp_tender_path :: string
  jp_tender_filename :: string
  jp_evidence :: "(string \<times> string) list"
  jp_company_name :: ustr
  jp_evidence_metadata :: "ustr option"
  jp_user_id :: string
  jp_role :: string
  jp_project_id :: "string option"
  jp_parent_run_id :: "string option"

record scan_job =
  sj_job_id :: string
  sj_workspace_id :: string
  sj_run_id :: "string option"
  sj_status :: job_status
  sj_attempts :: nat
  sj_error :: "string option"
  sj_progress_current :: nat
  sj_progress_total :: nat
  sj_progress_message :: ustr
  sj_cancel_requested :: bool
  sj_lease_token :: "string option"
  sj_payload_json :: "job_payload option"
  sj_created_at :: timestamp
  sj_updated_at :: timestamp

record audit_event =
  ae_event_id :: string
  ae_workspace_id :: string
  ae_run_id :: "string option"
  ae_user_id :: string
  ae_event_type :: string
  ae_payload_json :: json
  ae_created_at :: string
  ae_actor_ip :: "string option"
  ae_user_agent :: "string option"
  ae_request_id :: "string option"
  ae_outcome :: string
  ae_prev_hash :: "string option"
  ae_event_hash :: "string option"

record api_token =
  at_token_id :: string
  at_token_hash :: string
  at_workspace_id :: string
  at_user_id :: string
  at_name :: ustr
  at_role :: string
  at_permissions_json :: "string list"
  at_token_prefix :: string
  at_expires_at :: "timestamp option"
  at_revoked_at :: "timestamp option"
  at_last_used_at :: "timestamp option"
  at_created_by :: string
  at_created_at :: timestamp

record mfa_row =
  mf_user_id :: string
  mf_secret :: string
  mf_confirmed_at :: "timestamp option"
  mf_last_counter :: int
  mf_recovery_codes_json :: "string list"
  mf_created_at :: timestamp

record binding_row =
  ib_binding_id :: string
  ib_user_id :: string
  ib_provider :: string
  ib_issuer :: string
  ib_subject :: string
  ib_created_at :: timestamp
  ib_last_seen_at :: "timestamp option"

record login_flow =
  lf_state :: string
  lf_provider :: string
  lf_code_verifier :: string
  lf_redirect_uri :: string
  lf_nonce :: string
  lf_expires_at :: timestamp
  lf_consumed_at :: "timestamp option"
  lf_created_at :: timestamp

record rate_limit_hit =
  rl_hit_id :: string
  rl_scope :: string
  rl_bucket :: string
  rl_occurred_at :: timestamp

record comment_row =
  cm_comment_id :: string
  cm_workspace_id :: string
  cm_run_id :: string
  cm_user_id :: string
  cm_body :: ustr
  cm_created_at :: timestamp

record remediation_row =
  rm_remediation_id :: string
  rm_workspace_id :: string
  rm_run_id :: string
  rm_requirement_id :: "string option"
  rm_title :: ustr
  rm_owner_id :: "string option"
  rm_due_date :: "string option"
  rm_status :: string
  rm_note :: ustr
  rm_created_at :: timestamp
  rm_updated_at :: timestamp

record feedback_row =
  fb_feedback_id :: string
  fb_workspace_id :: string
  fb_run_id :: string
  fb_requirement_id :: "string option"
  fb_feedback_key :: string
  fb_category :: string
  fb_predicted :: string
  fb_actual :: string
  fb_locator_label :: "ustr option"
  fb_quote :: "ustr option"
  fb_note :: ustr
  fb_reviewer_id :: string
  fb_dataset_scope :: string
  fb_review_complete :: bool
  fb_created_at :: timestamp

record session_row =
  se_token_hash :: string
  se_user_id :: string
  se_expires_at :: timestamp
  se_created_at :: timestamp

record action_token =
  tk_token_hash :: string
  tk_workspace_id :: string
  tk_purpose :: string
  tk_username :: "string option"
  tk_user_id :: "string option"
  tk_role :: "string option"
  tk_expires_at :: timestamp
  tk_used_at :: "timestamp option"
  tk_created_by :: string
  tk_created_at :: timestamp

record project_member =
  pm_project_id :: string
  pm_user_id :: string
  pm_role :: string
  pm_created_at :: timestamp

record idempotency_key =
  ik_record_id :: string
  ik_workspace_id :: string
  ik_key :: string
  ik_method :: string
  ik_path :: string
  ik_request_hash :: string
  ik_status_code :: nat
  ik_response_json :: json
  ik_created_at :: timestamp

record challenge_row =
  ch_challenge_id :: string
  ch_channel :: string
  ch_identifier :: string
  ch_identifier_digest :: string
  ch_code_digest :: string
  ch_attempts :: nat
  ch_delivered :: bool
  ch_expires_at :: timestamp
  ch_created_at :: timestamp
  ch_consumed_at :: "timestamp option"

record delivery_guard =
  dg_bucket :: string
  dg_sent_at :: timestamp

record auth_rate_limit =
  ar_bucket :: string
  ar_window_started_at :: timestamp
  ar_hits :: int

record db =
  workspaces :: "workspace_row list"
  users :: "user_row list"
  workspace_members :: "member_row list"
  projects :: "project_row list"
  runs :: "run_row list"
  scan_jobs :: "scan_job list"
  audit_events :: "audit_event list"
  api_tokens :: "api_token list"
  user_mfa :: "mfa_row list"
  identity_bindings :: "binding_row list"
  login_flows :: "login_flow list"
  rate_limit_hits :: "rate_limit_hit list"
  comments :: "comment_row list"
  remediations :: "remediation_row list"
  accuracy_feedback :: "feedback_row list"
  auth_sessions :: "session_row list"
  auth_action_tokens :: "action_token list"
  project_members :: "project_member list"
  idempotency_keys :: "idempotency_key list"
  auth_challenges :: "challenge_row list"
  auth_delivery_guards :: "delivery_guard list"
  auth_rate_limits :: "auth_rate_limit list"

definition empty_db :: db where
  "empty_db = \<lparr>workspaces = [], users = [], workspace_members = [], projects = [], runs = [],
     scan_jobs = [], audit_events = [], api_tokens = [], user_mfa = [], identity_bindings = [],
     login_flows = [], rate_limit_hits = [], comments = [], remediations = [],
     accuracy_feedback = [], auth_sessions = [], auth_action_tokens = [], project_members = [],
     idempotency_keys = [], auth_challenges = [], auth_delivery_guards = [],
     auth_rate_limits = []\<rparr>"

text \<open>The caller a route has resolved; \<open>pr_permissions\<close> is present for an API token only.\<close>

record principal =
  pr_workspace_id :: string
  pr_user_id :: string
  pr_role :: string
  pr_permissions :: "string list option"

end
