(* ===== verification/Workspaces.thy ===== *)
theory Workspaces
  imports Models
begin

text \<open>
  Workspaces, their members and projects: the data-layer functions of \<open>src/app/db.py\<close> (section
  "Workspaces, projects and members") and the project access rule. Times and fresh identifiers the
  code draws from the clock and from \<open>uuid4\<close> are arguments.
\<close>

section \<open>Workspaces\<close>

definition new_workspace :: "string \<Rightarrow> ustr \<Rightarrow> timestamp \<Rightarrow> workspace_row" where
  "new_workspace w name now = \<lparr>ws_workspace_id = w, ws_name = name, ws_retention_days = 365,
     ws_created_at = now\<rparr>"

text \<open>INSERT ... ON CONFLICT DO NOTHING on the primary key.\<close>

definition insert_workspace :: "workspace_row \<Rightarrow> db \<Rightarrow> db" where
  "insert_workspace r d =
     (if list_ex (\<lambda>x. ws_workspace_id x = ws_workspace_id r) (workspaces d) then d
      else d\<lparr>workspaces := sql_insert r (workspaces d)\<rparr>)"

definition ensure_workspace_row :: "timestamp \<Rightarrow> string \<Rightarrow> db \<Rightarrow> db" where
  "ensure_workspace_row now w d =
     (if w = '''' \<or> w = ''-'' then d else insert_workspace (new_workspace w (asc w) now) d)"

definition ensure_workspace ::
  "string \<Rightarrow> string \<Rightarrow> string \<Rightarrow> ustr option \<Rightarrow> timestamp \<Rightarrow> db \<Rightarrow> db" where
  "ensure_workspace w user role name now d =
     (let label = (case name of Some n \<Rightarrow> if n = [] then asc w else n | None \<Rightarrow> asc w);
          d1 = insert_workspace (new_workspace w label now) d;
          member = \<lparr>wm_workspace_id = w, wm_user_id = user, wm_role = role, wm_created_at = now\<rparr>
      in d1\<lparr>workspace_members :=
           sql_upsert (\<lambda>m. wm_workspace_id m = w \<and> wm_user_id m = user)
             (\<lambda>m. m\<lparr>wm_role := role\<rparr>) member (workspace_members d1)\<rparr>)"

definition primary_workspace_id :: "db \<Rightarrow> string option" where
  "primary_workspace_id d =
     (case order_by ws_created_at (workspaces d) of [] \<Rightarrow> None | r # _ \<Rightarrow> Some (ws_workspace_id r))"

definition get_workspace_settings :: "string \<Rightarrow> db \<Rightarrow> workspace_row option" where
  "get_workspace_settings w d = sql_first (\<lambda>r. ws_workspace_id r = w) (workspaces d)"

definition update_workspace_settings ::
  "string \<Rightarrow> int \<Rightarrow> db \<Rightarrow> workspace_row option \<times> db" where
  "update_workspace_settings w days d =
     (let d' = d\<lparr>workspaces := sql_update (\<lambda>r. ws_workspace_id r = w)
                   (\<lambda>r. r\<lparr>ws_retention_days := days\<rparr>) (workspaces d)\<rparr>
      in (get_workspace_settings w d', d'))"

record usage =
  ug_runs :: nat
  ug_members :: nat
  ug_scan_jobs :: nat
  ug_audit_events :: nat
  ug_feedback :: nat
  ug_remediations :: nat

definition workspace_usage :: "string \<Rightarrow> db \<Rightarrow> usage" where
  "workspace_usage w d =
     \<lparr>ug_runs = sql_count (\<lambda>r. rr_workspace_id r = w) (runs d),
      ug_members = sql_count (\<lambda>r. us_workspace_id r = w) (users d),
      ug_scan_jobs = sql_count (\<lambda>r. sj_workspace_id r = w) (scan_jobs d),
      ug_audit_events = sql_count (\<lambda>r. ae_workspace_id r = w) (audit_events d),
      ug_feedback = sql_count (\<lambda>r. fb_workspace_id r = w) (accuracy_feedback d),
      ug_remediations = sql_count (\<lambda>r. rm_workspace_id r = w) (remediations d)\<rparr>"

section \<open>Projects\<close>

text \<open>\<open>str.upper\<close> on a project code; \<open>ProjectCreateRequest\<close> admits ASCII codes only.\<close>

definition ascii_upper :: "string \<Rightarrow> string" where
  "ascii_upper s = map (\<lambda>c. if CHR ''a'' \<le> c \<and> c \<le> CHR ''z'' then char_of (of_char c - (32::nat)) else c) s"

definition project_clash :: "project_row \<Rightarrow> project_row \<Rightarrow> bool" where
  "project_clash a b \<longleftrightarrow> pj_project_id a = pj_project_id b
     \<or> (pj_workspace_id a = pj_workspace_id b \<and> pj_code a = pj_code b)"

definition create_project ::
  "string \<Rightarrow> ustr \<Rightarrow> string \<Rightarrow> string \<Rightarrow> timestamp \<Rightarrow> (db, project_row) handler" where
  "create_project w name code new_id now d =
     (let item = \<lparr>pj_project_id = new_id, pj_workspace_id = w, pj_name = name,
                  pj_code = ascii_upper code, pj_archived_at = None,
                  pj_created_at = now, pj_updated_at = now\<rparr>;
          d1 = ensure_workspace_row now w d
      in case sql_insert_unique project_clash item (projects d1) of
           Inl e \<Rightarrow> (Inl e, d)
         | Inr t \<Rightarrow> (Inr item, d1\<lparr>projects := t\<rparr>))"

definition default_project_name :: ustr where
  "default_project_name = [40664, 35748, 39033, 30446]"

definition ensure_default_project ::
  "string \<Rightarrow> string \<Rightarrow> timestamp \<Rightarrow> (db, project_row) handler" where
  "ensure_default_project w new_id now d =
     (case sql_first (\<lambda>p. pj_workspace_id p = w \<and> pj_code p = ''DEFAULT'') (projects d) of
        Some p \<Rightarrow> (Inr p, d)
      | None \<Rightarrow> create_project w default_project_name ''DEFAULT'' new_id now d)"

definition list_projects :: "string \<Rightarrow> bool \<Rightarrow> db \<Rightarrow> project_row list" where
  "list_projects w include_archived d =
     order_by pj_created_at
       (sql_select (\<lambda>p. pj_workspace_id p = w \<and> (include_archived \<or> pj_archived_at p = None))
         (projects d))"

definition load_project :: "string \<Rightarrow> db \<Rightarrow> project_row option" where
  "load_project p d = sql_first (\<lambda>r. pj_project_id r = p) (projects d)"

definition update_project ::
  "string \<Rightarrow> ustr option \<Rightarrow> bool option \<Rightarrow> timestamp \<Rightarrow> db \<Rightarrow> project_row option \<times> db" where
  "update_project p name archived now d =
     (case load_project p d of
        None \<Rightarrow> (None, d)
      | Some r \<Rightarrow>
          let new_name = (case name of Some n \<Rightarrow> if n = [] then pj_name r else n | None \<Rightarrow> pj_name r);
              arch = (case archived of None \<Rightarrow> pj_archived_at r
                      | Some b \<Rightarrow> if b then Some now else None);
              r' = r\<lparr>pj_name := new_name, pj_archived_at := arch, pj_updated_at := now\<rparr>
          in (Some r', d\<lparr>projects := sql_update (\<lambda>x. pj_project_id x = p)
                (\<lambda>x. x\<lparr>pj_name := new_name, pj_archived_at := arch, pj_updated_at := now\<rparr>)
                (projects d)\<rparr>))"

definition list_project_members :: "string \<Rightarrow> db \<Rightarrow> project_member list" where
  "list_project_members p d = sql_select (\<lambda>m. pm_project_id m = p) (project_members d)"

definition member_clash :: "project_member \<Rightarrow> project_member \<Rightarrow> bool" where
  "member_clash a b \<longleftrightarrow> pm_project_id a = pm_project_id b \<and> pm_user_id a = pm_user_id b"

fun insert_members ::
  "string \<Rightarrow> (string \<times> string option) list \<Rightarrow> timestamp \<Rightarrow> project_member list
     \<Rightarrow> project_member list result" where
  "insert_members p [] now t = Inr t"
| "insert_members p ((user, role) # ms) now t =
     (let r = (case role of Some x \<Rightarrow> if x = '''' then ''REVIEWER'' else x | None \<Rightarrow> ''REVIEWER'')
      in case sql_insert_unique member_clash
                \<lparr>pm_project_id = p, pm_user_id = user, pm_role = r, pm_created_at = now\<rparr> t of
           Inl e \<Rightarrow> Inl e
         | Inr t' \<Rightarrow> insert_members p ms now t')"

text \<open>One transaction: a duplicate member rolls the deletion back.\<close>

definition replace_project_members ::
  "string \<Rightarrow> (string \<times> string option) list \<Rightarrow> timestamp \<Rightarrow> (db, unit) handler" where
  "replace_project_members p ms now d =
     (case insert_members p ms now (sql_delete (\<lambda>m. pm_project_id m = p) (project_members d)) of
        Inl e \<Rightarrow> (Inl e, d)
      | Inr t \<Rightarrow> (Inr (), d\<lparr>project_members := t\<rparr>))"

definition user_can_access_project :: "principal \<Rightarrow> string option \<Rightarrow> db \<Rightarrow> bool" where
  "user_can_access_project pr project d =
     (case project of
        None \<Rightarrow> True
      | Some p \<Rightarrow>
          p = '''' \<or> pr_role pr \<in> {''OWNER'', ''ADMIN''}
          \<or> (let ms = list_project_members p d
             in ms = [] \<or> list_ex (\<lambda>m. pm_user_id m = pr_user_id pr) ms))"

section \<open>Properties\<close>

lemma ensure_workspace_row_tables [simp]:
  "scan_jobs (ensure_workspace_row now w d) = scan_jobs d"
  "runs (ensure_workspace_row now w d) = runs d"
  "users (ensure_workspace_row now w d) = users d"
  "projects (ensure_workspace_row now w d) = projects d"
  "audit_events (ensure_workspace_row now w d) = audit_events d"
  "auth_sessions (ensure_workspace_row now w d) = auth_sessions d"
  by (simp_all add: ensure_workspace_row_def insert_workspace_def)

definition project_users :: "string \<Rightarrow> project_member list \<Rightarrow> string set" where
  "project_users p t = {u. \<exists>m \<in> set t. pm_project_id m = p \<and> pm_user_id m = u}"

lemma project_users_append [simp]:
  "project_users p (t @ t') = project_users p t \<union> project_users p t'"
  by (auto simp: project_users_def)

lemma project_users_single [simp]:
  "project_users p [m] = (if pm_project_id m = p then {pm_user_id m} else {})"
  by (auto simp: project_users_def)

lemma insert_members_users:
  "insert_members p ms now t = Inr t' \<Longrightarrow> project_users p t' = project_users p t \<union> fst ` set ms"
proof (induction ms arbitrary: t)
  case Nil
  then show ?case by simp
next
  case (Cons m ms)
  obtain user role where m: "m = (user, role)" by (cases m)
  from Cons.prems obtain x where "insert_members p ms now (t @ [x]) = Inr t'"
    and "pm_project_id x = p" "pm_user_id x = user"
    by (auto simp: m sql_insert_unique_def Let_def split: if_splits)
  with Cons.IH show ?case by (auto simp: m)
qed

lemma insert_members_other:
  assumes "insert_members p ms now t = Inr t'" and "q \<noteq> p"
  shows "filter (\<lambda>m. pm_project_id m = q) t' = filter (\<lambda>m. pm_project_id m = q) t"
  using assms
  by (induction ms arbitrary: t) (auto simp: sql_insert_unique_def Let_def split: if_splits)

lemma access_after_replace:
  assumes "replace_project_members p ms now d = (Inr (), d')"
    and "p \<noteq> ''''" and "pr_role pr \<notin> {''OWNER'', ''ADMIN''}" and "ms \<noteq> []"
  shows "user_can_access_project pr (Some p) d' \<longleftrightarrow> pr_user_id pr \<in> fst ` set ms"
proof -
  let ?t0 = "sql_delete (\<lambda>m. pm_project_id m = p) (project_members d)"
  from assms(1) obtain t where ins: "insert_members p ms now ?t0 = Inr t"
    and d': "d' = d\<lparr>project_members := t\<rparr>"
    by (auto simp: replace_project_members_def split: sum.splits)
  have "project_users p t = fst ` set ms"
    using insert_members_users [OF ins] by (simp add: project_users_def)
  moreover have "user_can_access_project pr (Some p) d'
      \<longleftrightarrow> project_users p t = {} \<or> pr_user_id pr \<in> project_users p t"
    using assms(2,3)
    by (auto simp: user_can_access_project_def list_project_members_def sql_select_def d'
        project_users_def list_ex_iff Let_def filter_empty_conv)
  ultimately show ?thesis using assms(4) by simp
qed

end
