(* ===== verification/Jobs.thy ===== *)
theory Jobs
  imports Workspaces
begin

text \<open>
  The durable scan queue: the scan-job functions of \<open>src/app/db.py\<close> and the leases of
  \<open>src/app/job_leases.py\<close>. A worker claims the oldest pending job and receives a lease token; every
  later write of that worker is conditional on the token, so a worker whose job was cancelled,
  requeued or finished cannot change it any more. \<open>job_step\<close> is the step relation of the queue, one
  rule per call the program makes; its ghost fields record the tokens already drawn and the
  publications.
\<close>

section \<open>Operations\<close>

definition MAX_JOB_ATTEMPTS :: nat where
  "MAX_JOB_ATTEMPTS = 5"

definition create_scan_job ::
  "string \<Rightarrow> string \<Rightarrow> string option \<Rightarrow> job_status \<Rightarrow> job_payload option \<Rightarrow> timestamp \<Rightarrow> db \<Rightarrow> db" where
  "create_scan_job job w run status payload now d =
     (let d1 = ensure_workspace_row now w d;
          row = \<lparr>sj_job_id = job, sj_workspace_id = w, sj_run_id = run, sj_status = status,
                 sj_attempts = 0, sj_error = None, sj_progress_current = 0, sj_progress_total = 0,
                 sj_progress_message = [], sj_cancel_requested = False, sj_lease_token = None,
                 sj_payload_json = payload, sj_created_at = now, sj_updated_at = now\<rparr>
      in d1\<lparr>scan_jobs := sql_upsert (\<lambda>r. sj_job_id r = job)
             (\<lambda>r. r\<lparr>sj_workspace_id := w, sj_run_id := run, sj_status := status, sj_attempts := 0,
                    sj_error := None, sj_payload_json := payload, sj_created_at := now,
                    sj_updated_at := now\<rparr>)
             row (scan_jobs d1)\<rparr>)"

text \<open>The keyword arguments of the update calls; a column whose argument is absent keeps its value.\<close>

record job_fields =
  jf_attempts :: "nat option"
  jf_error :: "string option option"
  jf_progress_current :: "nat option"
  jf_progress_total :: "nat option"
  jf_progress_message :: "ustr option"
  jf_cancel_requested :: "bool option"

definition no_fields :: job_fields where
  "no_fields = \<lparr>jf_attempts = None, jf_error = None, jf_progress_current = None,
     jf_progress_total = None, jf_progress_message = None, jf_cancel_requested = None\<rparr>"

definition keep :: "'a option \<Rightarrow> 'a \<Rightarrow> 'a" where
  "keep new old = (case new of None \<Rightarrow> old | Some x \<Rightarrow> x)"

definition set_fields :: "job_fields \<Rightarrow> scan_job \<Rightarrow> scan_job" where
  "set_fields f r = r\<lparr>sj_attempts := keep (jf_attempts f) (sj_attempts r),
     sj_error := keep (jf_error f) (sj_error r),
     sj_progress_current := keep (jf_progress_current f) (sj_progress_current r),
     sj_progress_total := keep (jf_progress_total f) (sj_progress_total r),
     sj_progress_message := keep (jf_progress_message f) (sj_progress_message r),
     sj_cancel_requested := keep (jf_cancel_requested f) (sj_cancel_requested r)\<rparr>"

text \<open>\<open>update_scan_job\<close> always writes the error column: an absent \<open>error\<close> argument clears it.\<close>

definition update_scan_job ::
  "string \<Rightarrow> job_status \<Rightarrow> job_fields \<Rightarrow> timestamp \<Rightarrow> db \<Rightarrow> db" where
  "update_scan_job job status f now d =
     d\<lparr>scan_jobs := sql_update
         (\<lambda>r. sj_job_id r = job \<and> (sj_status r \<noteq> CANCELLED \<or> status = CANCELLED))
         (\<lambda>r. (set_fields f r)\<lparr>sj_status := status, sj_error := keep (jf_error f) None,
                sj_updated_at := now\<rparr>)
         (scan_jobs d)\<rparr>"

definition load_scan_job :: "string \<Rightarrow> db \<Rightarrow> scan_job option" where
  "load_scan_job job d = sql_first (\<lambda>r. sj_job_id r = job) (scan_jobs d)"

definition msg_cancelled :: ustr where
  "msg_cancelled = [24050, 21462, 28040]"

definition cancel_scan_job :: "string \<Rightarrow> timestamp \<Rightarrow> db \<Rightarrow> scan_job option \<times> db" where
  "cancel_scan_job job now d =
     (let d' = d\<lparr>scan_jobs := sql_update
            (\<lambda>r. sj_job_id r = job \<and> sj_status r \<in> {PENDING, RUNNING})
            (\<lambda>r. r\<lparr>sj_status := CANCELLED, sj_cancel_requested := True, sj_error := None,
                   sj_progress_message := msg_cancelled, sj_updated_at := now\<rparr>)
            (scan_jobs d)\<rparr>
      in (load_scan_job job d', d'))"

definition start_scan_job ::
  "string \<Rightarrow> nat option \<Rightarrow> nat option \<Rightarrow> ustr option \<Rightarrow> timestamp \<Rightarrow> db \<Rightarrow> bool \<times> db" where
  "start_scan_job job attempts prog_total message now d =
     (let P = (\<lambda>r. sj_job_id r = job \<and> sj_status r = PENDING \<and> \<not> sj_cancel_requested r)
      in (sql_count P (scan_jobs d) = 1,
          d\<lparr>scan_jobs := sql_update P
             (\<lambda>r. (set_fields (no_fields\<lparr>jf_attempts := attempts, jf_progress_total := prog_total,
                                         jf_progress_message := message\<rparr>) r)
                    \<lparr>sj_status := RUNNING, sj_updated_at := now\<rparr>) (scan_jobs d)\<rparr>))"

definition link_scan_job :: "string \<Rightarrow> string \<Rightarrow> db \<Rightarrow> db" where
  "link_scan_job job run d =
     d\<lparr>scan_jobs := sql_update (\<lambda>r. sj_job_id r = job) (\<lambda>r. r\<lparr>sj_run_id := Some run\<rparr>) (scan_jobs d)\<rparr>"

definition msg_dead :: ustr where
  "msg_dead = [36229, 36807, 37325, 35797, 19978, 38480, 65292, 24050, 36716, 20837, 27515, 20449]"

definition msg_requeued :: ustr where
  "msg_requeued = [24037, 20316, 36827, 31243, 20013, 26029, 65292, 24050, 37325, 26032, 25490, 38431]"

definition is_stale :: "timestamp \<Rightarrow> scan_job \<Rightarrow> bool" where
  "is_stale cutoff r \<longleftrightarrow> sj_status r = RUNNING \<and> \<not> sj_cancel_requested r \<and> sj_updated_at r < cutoff"

definition requeue_row :: "timestamp \<Rightarrow> scan_job \<Rightarrow> scan_job" where
  "requeue_row now r = r\<lparr>sj_status := PENDING, sj_lease_token := None,
     sj_progress_message := msg_requeued, sj_updated_at := now\<rparr>"

definition bury_row :: "timestamp \<Rightarrow> scan_job \<Rightarrow> scan_job" where
  "bury_row now r = r\<lparr>sj_status := DEAD, sj_lease_token := None,
     sj_progress_message := msg_dead, sj_updated_at := now\<rparr>"

text \<open>The loop over the stale rows that were selected, with the count of requeued rows.\<close>

fun requeue_each ::
  "timestamp \<Rightarrow> timestamp \<Rightarrow> scan_job list \<Rightarrow> scan_job list \<Rightarrow> nat \<Rightarrow> nat \<times> scan_job list" where
  "requeue_each cutoff now [] t n = (n, t)"
| "requeue_each cutoff now (job # stale) t n =
     (let P = (\<lambda>r. sj_job_id r = sj_job_id job \<and> sj_status r = RUNNING \<and> sj_updated_at r < cutoff)
      in if sj_attempts job \<ge> MAX_JOB_ATTEMPTS
         then requeue_each cutoff now stale (sql_update P (bury_row now) t) n
         else requeue_each cutoff now stale (sql_update P (requeue_row now) t) (n + sql_count P t))"

definition requeue_stale_scan_jobs :: "int \<Rightarrow> timestamp \<Rightarrow> db \<Rightarrow> nat \<times> db" where
  "requeue_stale_scan_jobs max_age_seconds now d =
     (let cutoff = now - max_age_seconds * 1000000;
          (n, t) = requeue_each cutoff now (sql_select (is_stale cutoff) (scan_jobs d)) (scan_jobs d) 0
      in (n, d\<lparr>scan_jobs := t\<rparr>))"

definition queue_order :: "scan_job \<Rightarrow> timestamp \<times> string" where
  "queue_order r = (sj_created_at r, sj_job_id r)"

definition claim_next_scan_job :: "timestamp \<Rightarrow> db \<Rightarrow> scan_job option \<times> db" where
  "claim_next_scan_job now d =
     (case order_by queue_order
             (sql_select (\<lambda>r. sj_status r = PENDING \<and> \<not> sj_cancel_requested r) (scan_jobs d)) of
        [] \<Rightarrow> (None, d)
      | row # _ \<Rightarrow>
          let P = (\<lambda>r. sj_job_id r = sj_job_id row \<and> sj_status r = PENDING);
              d' = d\<lparr>scan_jobs := sql_update P (\<lambda>r. r\<lparr>sj_status := RUNNING, sj_updated_at := now\<rparr>)
                      (scan_jobs d)\<rparr>
          in if sql_count P (scan_jobs d) \<noteq> 1 then (None, d')
             else (load_scan_job (sj_job_id row) d', d'))"

definition list_recoverable_jobs :: "db \<Rightarrow> scan_job list" where
  "list_recoverable_jobs d =
     order_by sj_created_at (sql_select (\<lambda>r. sj_status r \<in> {PENDING, RUNNING}) (scan_jobs d))"

definition list_scan_jobs :: "string \<Rightarrow> nat \<Rightarrow> db \<Rightarrow> scan_job list" where
  "list_scan_jobs w limit d =
     take limit (order_by (\<lambda>r. - sj_created_at r) (sql_select (\<lambda>r. sj_workspace_id r = w) (scan_jobs d)))"

definition scan_job_status_counts :: "db \<Rightarrow> job_status \<Rightarrow> nat" where
  "scan_job_status_counts d st = sql_count (\<lambda>r. sj_status r = st) (scan_jobs d)"

section \<open>Leases\<close>

definition attempt_run_id :: "(string \<Rightarrow> string) \<Rightarrow> string \<Rightarrow> string \<Rightarrow> string" where
  "attempt_run_id uuid5 job token = uuid5 (''bidproof:'' @ job @ '':'' @ token)"

definition msg_retry :: ustr where
  "msg_retry = [24050, 37325, 26032, 25490, 38431]"

definition retry :: "string \<Rightarrow> timestamp \<Rightarrow> db \<Rightarrow> bool \<times> db" where
  "retry job now d =
     (let P = (\<lambda>r. sj_job_id r = job \<and> sj_status r \<in> {FAILED, PENDING}
                 \<and> \<not> sj_cancel_requested r \<and> sj_attempts r < MAX_JOB_ATTEMPTS)
      in (sql_count P (scan_jobs d) = 1,
          d\<lparr>scan_jobs := sql_update P
             (\<lambda>r. r\<lparr>sj_status := PENDING, sj_lease_token := None, sj_error := None,
                    sj_progress_message := msg_retry, sj_updated_at := now\<rparr>) (scan_jobs d)\<rparr>))"

definition claimable :: "scan_job \<Rightarrow> bool" where
  "claimable r \<longleftrightarrow> sj_status r = PENDING \<and> \<not> sj_cancel_requested r \<and> sj_attempts r < MAX_JOB_ATTEMPTS"

definition msg_claimed :: ustr where
  "msg_claimed = [20934, 22791, 35299, 26512, 25991, 20214]"

definition claim_row :: "string \<Rightarrow> timestamp \<Rightarrow> scan_job \<Rightarrow> scan_job" where
  "claim_row token now r = r\<lparr>sj_status := RUNNING, sj_lease_token := Some token,
     sj_attempts := sj_attempts r + 1, sj_updated_at := now, sj_error := None,
     sj_progress_message := msg_claimed\<rparr>"

definition claim :: "string option \<Rightarrow> string \<Rightarrow> timestamp \<Rightarrow> db \<Rightarrow> scan_job option \<times> db" where
  "claim job token now d =
     (case order_by queue_order
             (sql_select (\<lambda>r. claimable r \<and> (job = None \<or> job = Some (sj_job_id r))) (scan_jobs d)) of
        [] \<Rightarrow> (None, d)
      | row # _ \<Rightarrow>
          let P = (\<lambda>r. sj_job_id r = sj_job_id row \<and> sj_status r = PENDING \<and> \<not> sj_cancel_requested r);
              d' = d\<lparr>scan_jobs := sql_update P (claim_row token now) (scan_jobs d)\<rparr>
          in if sql_count P (scan_jobs d) \<noteq> 1 then (None, d')
             else (Some (row\<lparr>sj_status := RUNNING, sj_lease_token := Some token,
                             sj_attempts := sj_attempts row + 1, sj_updated_at := now\<rparr>), d'))"

text \<open>The condition of every write made under a lease.\<close>

definition holds_lease :: "string \<Rightarrow> string option \<Rightarrow> scan_job \<Rightarrow> bool" where
  "holds_lease job token r \<longleftrightarrow> sj_job_id r = job \<and> sj_status r = RUNNING
     \<and> \<not> sj_cancel_requested r \<and> sj_lease_token r = token"

definition lease_update ::
  "string \<Rightarrow> string \<Rightarrow> job_status option \<Rightarrow> job_fields \<Rightarrow> timestamp \<Rightarrow> db \<Rightarrow> bool \<times> db" where
  "lease_update job token status f now d =
     (sql_count (holds_lease job (Some token)) (scan_jobs d) = 1,
      d\<lparr>scan_jobs := sql_update (holds_lease job (Some token))
          (\<lambda>r. (set_fields f r)\<lparr>sj_status := keep status (sj_status r), sj_updated_at := now\<rparr>)
          (scan_jobs d)\<rparr>)"

definition fence_publication :: "string \<Rightarrow> string option \<Rightarrow> timestamp \<Rightarrow> (db, unit) handler" where
  "fence_publication job token now d =
     (let tok = (case token of Some x \<Rightarrow> if x = '''' then None else Some x | None \<Rightarrow> None)
      in if sql_count (holds_lease job tok) (scan_jobs d) \<noteq> 1 then (Inl LeaseLost, d)
         else (Inr (), d\<lparr>scan_jobs := sql_update (holds_lease job tok)
                           (\<lambda>r. r\<lparr>sj_updated_at := now\<rparr>) (scan_jobs d)\<rparr>))"

section \<open>Facts about single operations\<close>

lemmas job_ops = create_scan_job_def update_scan_job_def cancel_scan_job_def link_scan_job_def
  retry_def lease_update_def Let_def

lemma keep_simps [simp]: "keep None x = x" "keep (Some y) x = y"
  by (simp_all add: keep_def)

lemma set_fields_frame [simp]:
  "sj_job_id (set_fields f r) = sj_job_id r"
  "sj_payload_json (set_fields f r) = sj_payload_json r"
  "sj_status (set_fields f r) = sj_status r"
  "sj_lease_token (set_fields f r) = sj_lease_token r"
  "sj_attempts (set_fields f r) = keep (jf_attempts f) (sj_attempts r)"
  "sj_cancel_requested (set_fields f r) = keep (jf_cancel_requested f) (sj_cancel_requested r)"
  by (simp_all add: set_fields_def)

lemma claim_row_frame [simp]:
  "sj_job_id (claim_row token now r) = sj_job_id r"
  "sj_payload_json (claim_row token now r) = sj_payload_json r"
  "sj_status (claim_row token now r) = RUNNING"
  "sj_lease_token (claim_row token now r) = Some token"
  "sj_attempts (claim_row token now r) = sj_attempts r + 1"
  "sj_cancel_requested (claim_row token now r) = sj_cancel_requested r"
  by (simp_all add: claim_row_def)

lemma requeue_row_frame [simp]:
  "sj_job_id (requeue_row now r) = sj_job_id r"
  "sj_payload_json (requeue_row now r) = sj_payload_json r"
  "sj_status (requeue_row now r) = PENDING"
  "sj_lease_token (requeue_row now r) = None"
  "sj_attempts (requeue_row now r) = sj_attempts r"
  "sj_cancel_requested (requeue_row now r) = sj_cancel_requested r"
  by (simp_all add: requeue_row_def)

lemma bury_row_frame [simp]:
  "sj_job_id (bury_row now r) = sj_job_id r"
  "sj_payload_json (bury_row now r) = sj_payload_json r"
  "sj_status (bury_row now r) = DEAD"
  "sj_lease_token (bury_row now r) = None"
  "sj_attempts (bury_row now r) = sj_attempts r"
  "sj_cancel_requested (bury_row now r) = sj_cancel_requested r"
  by (simp_all add: bury_row_def)

text \<open>What the requeue pass does to one row.\<close>

definition requeued :: "timestamp \<Rightarrow> timestamp \<Rightarrow> scan_job \<Rightarrow> scan_job" where
  "requeued cutoff now r =
     (if is_stale cutoff r then if sj_attempts r \<ge> MAX_JOB_ATTEMPTS then bury_row now r
                                else requeue_row now r
      else r)"

lemma requeued_frame [simp]:
  "sj_job_id (requeued cutoff now r) = sj_job_id r"
  "sj_payload_json (requeued cutoff now r) = sj_payload_json r"
  "sj_attempts (requeued cutoff now r) = sj_attempts r"
  "sj_cancel_requested (requeued cutoff now r) = sj_cancel_requested r"
  by (simp_all add: requeued_def)

lemma update_one_row:
  assumes "distinct (map key t)" and "job \<in> set t" and "\<And>r. P r \<longleftrightarrow> key r = key job \<and> Q r" and "Q job"
  shows "sql_update P f t = map (\<lambda>r. if r = job then f r else r) t" and "sql_count P t = 1"
proof -
  have P: "P r \<longleftrightarrow> r = job" if "r \<in> set t" for r
    using that assms by (auto dest: distinct_key_eq)
  then show "sql_update P f t = map (\<lambda>r. if r = job then f r else r) t"
    by (simp add: sql_update_def)
  from assms(1) have "distinct t" by (simp add: distinct_map)
  then have "length (filter (\<lambda>r. r = job) t) = 1"
    using assms(2) by (induction t) (auto simp: filter_empty_conv)
  moreover have "filter P t = filter (\<lambda>r. r = job) t"
    using P by (rule filter_cong [OF refl])
  ultimately show "sql_count P t = 1" by (simp add: sql_count_def)
qed

lemma requeue_each_map:
  assumes "distinct (map sj_job_id t)" and "distinct stale" and "set stale \<subseteq> set t"
    and "\<forall>j \<in> set stale. is_stale cutoff j"
  shows "requeue_each cutoff now stale t n
    = (n + length (filter (\<lambda>j. sj_attempts j < MAX_JOB_ATTEMPTS) stale),
       map (\<lambda>r. if r \<in> set stale then requeued cutoff now r else r) t)"
  using assms
proof (induction stale arbitrary: t n)
  case Nil
  then show ?case by simp
next
  case (Cons job stale)
  let ?P = "\<lambda>r. sj_job_id r = sj_job_id job \<and> sj_status r = RUNNING \<and> sj_updated_at r < cutoff"
  let ?g = "\<lambda>r. if r = job then requeued cutoff now r else r"
  let ?t = "map ?g t"
  have stale: "is_stale cutoff job" and job: "job \<in> set t" using Cons.prems by auto
  have upd: "sql_update ?P f t = map (\<lambda>r. if r = job then f r else r) t" "sql_count ?P t = 1" for f
    using update_one_row [OF Cons.prems(1) job, of ?P "\<lambda>r. sj_status r = RUNNING \<and> sj_updated_at r < cutoff"]
      stale by (auto simp: is_stale_def)
  have step: "requeue_each cutoff now (job # stale) t n
      = requeue_each cutoff now stale ?t (n + (if sj_attempts job < MAX_JOB_ATTEMPTS then 1 else 0))"
    using stale by (auto simp: upd Let_def requeued_def cong: if_cong)
  have "map sj_job_id ?t = map sj_job_id t" by simp
  then have "distinct (map sj_job_id ?t)" using Cons.prems(1) by (simp only:)
  moreover have sub: "set stale \<subseteq> set ?t" using Cons.prems(2,3) by (force simp: image_iff)
  ultimately have ih: "requeue_each cutoff now stale ?t m = (m + length (filter (\<lambda>j. sj_attempts j < MAX_JOB_ATTEMPTS) stale),
       map (\<lambda>r. if r \<in> set stale then requeued cutoff now r else r) ?t)" for m
    using Cons.IH [of ?t m] Cons.prems(2,4) by simp
  have "requeued cutoff now job \<notin> set stale"
    using Cons.prems stale by (auto simp: requeued_def is_stale_def)
  then show ?case
    using Cons.prems(2) unfolding step ih by auto
qed

lemma requeue_stale_eq:
  assumes "distinct (map sj_job_id (scan_jobs d))"
    and cutoff: "cutoff = now - max_age * 1000000"
  shows "requeue_stale_scan_jobs max_age now d
    = (sql_count (\<lambda>r. is_stale cutoff r \<and> sj_attempts r < MAX_JOB_ATTEMPTS) (scan_jobs d),
       d\<lparr>scan_jobs := map (requeued cutoff now) (scan_jobs d)\<rparr>)"
proof -
  let ?stale = "sql_select (is_stale cutoff) (scan_jobs d)"
  have "distinct ?stale" using assms(1) by (simp add: sql_select_def distinct_map)
  then have "requeue_each cutoff now ?stale (scan_jobs d) 0
      = (0 + length (filter (\<lambda>j. sj_attempts j < MAX_JOB_ATTEMPTS) ?stale),
         map (\<lambda>r. if r \<in> set ?stale then requeued cutoff now r else r) (scan_jobs d))"
    by (intro requeue_each_map [OF assms(1)]) auto
  moreover have "map (\<lambda>r. if r \<in> set ?stale then requeued cutoff now r else r) (scan_jobs d)
      = map (requeued cutoff now) (scan_jobs d)"
    by (simp add: requeued_def)
  moreover have "length (filter (\<lambda>j. sj_attempts j < MAX_JOB_ATTEMPTS) ?stale)
      = sql_count (\<lambda>r. is_stale cutoff r \<and> sj_attempts r < MAX_JOB_ATTEMPTS) (scan_jobs d)"
    by (simp add: sql_count_def sql_select_def)
  ultimately show ?thesis
    unfolding requeue_stale_scan_jobs_def Let_def cutoff [symmetric] by (simp only: prod.case add_0)
qed

lemma order_by_head:
  assumes "order_by k t = r # rest"
  shows "r \<in> set t" and "\<And>x. x \<in> set t \<Longrightarrow> k r \<le> k x"
proof -
  have set: "set t = set (r # rest)" and sorted: "sorted (map k (r # rest))"
    using assms by (metis order_by_def set_sort, metis order_by_def sorted_sort_key)
  from set show "r \<in> set t" by simp
  from sorted show "k r \<le> k x" if "x \<in> set t" for x
    using that set by auto
qed

lemma order_by_Nil_iff [simp]: "order_by k t = [] \<longleftrightarrow> t = []"
  by (metis order_by_def set_sort set_empty)

definition claim_candidate :: "string option \<Rightarrow> scan_job \<Rightarrow> bool" where
  "claim_candidate job r \<longleftrightarrow> claimable r \<and> (job = None \<or> job = Some (sj_job_id r))"

lemma claim_candidate_fold:
  "(\<lambda>r. claimable r \<and> (job = None \<or> job = Some (sj_job_id r))) = claim_candidate job"
  by (simp add: claim_candidate_def fun_eq_iff)

lemma claim_eq:
  assumes "distinct (map sj_job_id (scan_jobs d))"
  shows "(\<exists>r \<in> set (scan_jobs d). claim_candidate job r
      \<and> (\<forall>x \<in> set (scan_jobs d). claim_candidate job x \<longrightarrow> queue_order r \<le> queue_order x)
      \<and> claim job token now d =
          (Some (r\<lparr>sj_status := RUNNING, sj_lease_token := Some token,
                   sj_attempts := sj_attempts r + 1, sj_updated_at := now\<rparr>),
           d\<lparr>scan_jobs := map (\<lambda>x. if x = r then claim_row token now x else x) (scan_jobs d)\<rparr>))
    \<or> (claim job token now d = (None, d) \<and> (\<forall>r \<in> set (scan_jobs d). \<not> claim_candidate job r))"
proof (cases "order_by queue_order (sql_select (claim_candidate job) (scan_jobs d))")
  case Nil
  then have "\<forall>r \<in> set (scan_jobs d). \<not> claim_candidate job r"
    by (simp add: sql_select_def filter_empty_conv)
  moreover from Nil have "claim job token now d = (None, d)"
    unfolding claim_def claim_candidate_fold by (simp add: order_by_def)
  ultimately show ?thesis by blast
next
  case (Cons r rest)
  let ?P = "\<lambda>x. sj_job_id x = sj_job_id r \<and> sj_status x = PENDING \<and> \<not> sj_cancel_requested x"
  have r: "r \<in> set (scan_jobs d)" "claim_candidate job r"
    and least: "\<forall>x \<in> set (scan_jobs d). claim_candidate job x \<longrightarrow> queue_order r \<le> queue_order x"
    using order_by_head [OF Cons] by auto
  have upd: "sql_update ?P (claim_row token now) (scan_jobs d)
      = map (\<lambda>x. if x = r then claim_row token now x else x) (scan_jobs d)"
    "sql_count ?P (scan_jobs d) = 1"
    using update_one_row [OF assms r(1), of ?P "\<lambda>x. sj_status x = PENDING \<and> \<not> sj_cancel_requested x"]
      r(2) by (auto simp: claim_candidate_def claimable_def)
  have "claim job token now d =
      (Some (r\<lparr>sj_status := RUNNING, sj_lease_token := Some token,
               sj_attempts := sj_attempts r + 1, sj_updated_at := now\<rparr>),
       d\<lparr>scan_jobs := map (\<lambda>x. if x = r then claim_row token now x else x) (scan_jobs d)\<rparr>)"
    using Cons unfolding claim_def claim_candidate_fold Let_def by (simp add: upd)
  with r least show ?thesis by blast
qed

end
