(* ===== verification/Job_Queue.thy ===== *)
theory Job_Queue
  imports Jobs
begin

text \<open>
  The queue as a state machine. \<open>job_step\<close> has one rule per call that writes the \<open>scan_jobs\<close> table,
  in any interleaving: staging a job (\<open>stage_job\<close>), opening a direct scan (\<open>create_run\<close> without a
  queued job), its failure and its publication, claims, lease-bound writes and the publication of a
  claimed job, retry, cancellation, the requeue pass and the deletion of a run's jobs. Publication is
  one transaction (\<open>uow.transaction\<close> in \<open>src/app/services/scan_service.py\<close>). The ghost fields of
  \<open>queue\<close> hold the identifiers and tokens drawn from \<open>uuid4\<close>, whose freshness is the rules' premise,
  the direct scans still open, and the log of publications.
\<close>

record queue =
  q_db :: db
  q_jobs :: "string set"
  q_tokens :: "string set"
  q_direct :: "string set"
  q_published :: "string list"

definition init_queue :: queue where
  "init_queue = \<lparr>q_db = empty_db, q_jobs = {}, q_tokens = {}, q_direct = {}, q_published = []\<rparr>"

text \<open>The job part of the publication transaction: fence, link, completion.\<close>

definition publish_job ::
  "string \<Rightarrow> string option \<Rightarrow> string \<Rightarrow> job_fields \<Rightarrow> timestamp \<Rightarrow> (db, unit) handler" where
  "publish_job job token run f now d =
     (case fence_publication job token now d of
        (Inl e, _) \<Rightarrow> (Inl e, d)
      | (Inr _, d1) \<Rightarrow>
          let d2 = link_scan_job job run d1
          in case token of
               Some tok \<Rightarrow>
                 (case lease_update job tok (Some COMPLETED) f now d2 of
                    (True, d3) \<Rightarrow> (Inr (), d3) | (False, _) \<Rightarrow> (Inl LeaseLost, d))
             | None \<Rightarrow> (Inr (), update_scan_job job COMPLETED f now d2))"

text \<open>\<open>stage_job\<close> makes the job visible and then writes its progress.\<close>

definition stage_writes ::
  "string \<Rightarrow> string \<Rightarrow> job_payload \<Rightarrow> job_fields \<Rightarrow> timestamp \<Rightarrow> timestamp \<Rightarrow> db \<Rightarrow> db" where
  "stage_writes job w payload f now1 now2 d =
     update_scan_job job PENDING f now2 (create_scan_job job w None PENDING (Some payload) now1 d)"

datatype job_event =
    Stage string
  | OpenDirect string
  | FailDirect string
  | PublishDirect string
  | Claim string
  | LeaseWrite string string
  | Publish string string
  | Retry string
  | Cancel string
  | Requeue
  | DeleteRun string

definition progress_only :: "job_fields \<Rightarrow> bool" where
  "progress_only f \<longleftrightarrow> jf_attempts f = None \<and> jf_cancel_requested f = None"

definition one_attempt :: "job_fields \<Rightarrow> bool" where
  "one_attempt f \<longleftrightarrow> jf_attempts f = Some 1 \<and> jf_cancel_requested f = None"

inductive job_step :: "queue \<Rightarrow> job_event \<Rightarrow> queue \<Rightarrow> bool" where
  stage: "job \<notin> q_jobs s \<Longrightarrow> progress_only f \<Longrightarrow>
    job_step s (Stage job) (s\<lparr>q_db := stage_writes job w p f now1 now2 (q_db s),
      q_jobs := insert job (q_jobs s)\<rparr>)"
| open_direct: "job \<notin> q_jobs s \<Longrightarrow>
    job_step s (OpenDirect job) (s\<lparr>q_db := create_scan_job job w None RUNNING None now (q_db s),
      q_jobs := insert job (q_jobs s), q_direct := insert job (q_direct s)\<rparr>)"
| fail_direct: "job \<in> q_direct s \<Longrightarrow> one_attempt f \<Longrightarrow>
    job_step s (FailDirect job) (s\<lparr>q_db := update_scan_job job FAILED f now (q_db s),
      q_direct := q_direct s - {job}\<rparr>)"
| publish_direct: "job \<in> q_direct s \<Longrightarrow> one_attempt f \<Longrightarrow>
    publish_job job None run f now (q_db s) = (Inr (), d) \<Longrightarrow>
    job_step s (PublishDirect job) (s\<lparr>q_db := d, q_direct := q_direct s - {job},
      q_published := job # q_published s\<rparr>)"
| claim: "token \<notin> q_tokens s \<Longrightarrow> token \<noteq> '''' \<Longrightarrow>
    job_step s (Claim token) (s\<lparr>q_db := snd (claim job token now (q_db s)),
      q_tokens := insert token (q_tokens s)\<rparr>)"
| lease_write: "status \<in> {None, Some RUNNING, Some FAILED} \<Longrightarrow> progress_only f \<Longrightarrow>
    job_step s (LeaseWrite job token) (s\<lparr>q_db := snd (lease_update job token status f now (q_db s))\<rparr>)"
| publish: "\<forall>r. load_scan_job job (q_db s) = Some r \<longrightarrow> sj_payload_json r \<noteq> None \<Longrightarrow>
    progress_only f \<Longrightarrow> publish_job job (Some token) run f now (q_db s) = (Inr (), d) \<Longrightarrow>
    job_step s (Publish job token) (s\<lparr>q_db := d, q_published := job # q_published s\<rparr>)"
| retry: "job_step s (Retry job) (s\<lparr>q_db := snd (retry job now (q_db s))\<rparr>)"
| cancel: "job_step s (Cancel job) (s\<lparr>q_db := snd (cancel_scan_job job now (q_db s))\<rparr>)"
| requeue: "job_step s Requeue (s\<lparr>q_db := snd (requeue_stale_scan_jobs age now (q_db s))\<rparr>)"
| delete_run: "job_step s (DeleteRun run)
    (s\<lparr>q_db := (q_db s)\<lparr>scan_jobs := sql_delete (\<lambda>r. sj_run_id r = Some run) (scan_jobs (q_db s))\<rparr>\<rparr>)"

inductive_cases job_stepE: "job_step s e t"

section \<open>How a step changes rows\<close>

text \<open>
  Every step rewrites the rows it keeps one by one, adds at most one new row, and may delete rows.
  \<open>row_step\<close> lists what can happen to one row; the invariants below are checked on it once.
\<close>

inductive row_step :: "queue \<Rightarrow> queue \<Rightarrow> scan_job \<Rightarrow> scan_job \<Rightarrow> bool" for s t where
  unchanged: "row_step s t r r"
| progress: "progress_only f \<Longrightarrow> sj_status r = RUNNING \<Longrightarrow> st \<in> {RUNNING, FAILED} \<Longrightarrow>
    row_step s t r ((set_fields f r)\<lparr>sj_status := st, sj_updated_at := now\<rparr>)"
| direct_failed: "one_attempt f \<Longrightarrow> sj_job_id r \<in> q_direct s \<Longrightarrow> sj_status r \<noteq> CANCELLED \<Longrightarrow>
    row_step s t r ((set_fields f r)\<lparr>sj_status := FAILED, sj_error := e, sj_updated_at := now\<rparr>)"
| claimed: "claimable r \<Longrightarrow> token \<notin> q_tokens s \<Longrightarrow> token \<in> q_tokens t \<Longrightarrow> row_step s t r (claim_row token now r)"
| retried: "sj_status r \<in> {FAILED, PENDING} \<Longrightarrow> \<not> sj_cancel_requested r \<Longrightarrow>
    sj_attempts r < MAX_JOB_ATTEMPTS \<Longrightarrow>
    row_step s t r (r\<lparr>sj_status := PENDING, sj_lease_token := None, sj_error := None,
      sj_progress_message := msg, sj_updated_at := now\<rparr>)"
| cancelled: "sj_status r \<in> {PENDING, RUNNING} \<Longrightarrow>
    row_step s t r (r\<lparr>sj_status := CANCELLED, sj_cancel_requested := True, sj_error := None,
      sj_progress_message := msg, sj_updated_at := now\<rparr>)"
| requeued: "is_stale cutoff r \<Longrightarrow> row_step s t r (requeued cutoff now r)"
| completed: "sj_status r = RUNNING \<Longrightarrow> \<not> sj_cancel_requested r \<Longrightarrow> progress_only f \<or> one_attempt f \<Longrightarrow>
    sj_job_id r \<in> set (q_published t) \<Longrightarrow> sj_job_id r' = sj_job_id r \<Longrightarrow>
    sj_payload_json r' = sj_payload_json r \<Longrightarrow> sj_status r' = COMPLETED \<Longrightarrow>
    sj_lease_token r' = sj_lease_token r \<Longrightarrow> \<not> sj_cancel_requested r' \<Longrightarrow>
    sj_attempts r' = keep (jf_attempts f) (sj_attempts r) \<Longrightarrow> row_step s t r r'"

definition jobs_wf :: "queue \<Rightarrow> bool" where
  "jobs_wf s \<longleftrightarrow> distinct (map sj_job_id (scan_jobs (q_db s)))
     \<and> (\<forall>r \<in> set (scan_jobs (q_db s)). sj_job_id r \<in> q_jobs s)"

definition ghosts_ok :: "queue \<Rightarrow> bool" where
  "ghosts_ok s \<longleftrightarrow> q_direct s \<subseteq> q_jobs s \<and> set (q_published s) \<subseteq> q_jobs s
     \<and> distinct (q_published s) \<and> set (q_published s) \<inter> q_direct s = {}"

text \<open>The new row of a staging or of a direct scan.\<close>

definition fresh_row :: "queue \<Rightarrow> queue \<Rightarrow> scan_job \<Rightarrow> bool" where
  "fresh_row s t r \<longleftrightarrow> sj_job_id r \<notin> q_jobs s \<and> sj_attempts r = 0 \<and> sj_lease_token r = None
     \<and> \<not> sj_cancel_requested r
     \<and> sj_job_id r \<notin> set (q_published t)
     \<and> (sj_payload_json r \<noteq> None \<and> sj_status r = PENDING \<and> sj_job_id r \<notin> q_direct t
        \<or> sj_payload_json r = None \<and> sj_status r = RUNNING \<and> sj_job_id r \<in> q_direct t)"

lemma stage_writes_rows:
  assumes "\<forall>r \<in> set (scan_jobs d). sj_job_id r \<noteq> job" and "progress_only f"
  obtains r where "scan_jobs (stage_writes job w p f now1 now2 d) = scan_jobs d @ [r]"
    and "sj_job_id r = job" "sj_attempts r = 0" "sj_lease_token r = None" "\<not> sj_cancel_requested r"
    and "sj_payload_json r = Some p" "sj_status r = PENDING"
proof -
  let ?P = "\<lambda>r. sj_job_id r = job \<and> (sj_status r \<noteq> CANCELLED \<or> PENDING = CANCELLED)"
  have "sql_update ?P g (scan_jobs d) = scan_jobs d" for g
    using assms(1) by (intro sql_update_no_match) (auto simp: sql_count_0_iff)
  then show thesis
    using assms that
    by (auto simp: stage_writes_def update_scan_job_def create_scan_job_def Let_def sql_upsert_def
        list_ex_iff sql_insert_def sql_update_def progress_only_def)
qed

lemma create_direct_rows:
  assumes "\<forall>r \<in> set (scan_jobs d). sj_job_id r \<noteq> job"
  obtains r where "scan_jobs (create_scan_job job w None RUNNING None now d) = scan_jobs d @ [r]"
    and "sj_job_id r = job" "sj_attempts r = 0" "sj_lease_token r = None" "\<not> sj_cancel_requested r"
    and "sj_payload_json r = None" "sj_status r = RUNNING"
  using assms that
  by (auto simp: create_scan_job_def Let_def sql_upsert_def list_ex_iff sql_insert_def)

lemma fence_ok:
  assumes "fence_publication job token now d = (Inr (), d')"
  obtains tok where "tok = (case token of Some x \<Rightarrow> if x = '''' then None else Some x | None \<Rightarrow> None)"
    and "sql_count (holds_lease job tok) (scan_jobs d) = 1"
    and "d' = d\<lparr>scan_jobs := sql_update (holds_lease job tok) (\<lambda>r. r\<lparr>sj_updated_at := now\<rparr>) (scan_jobs d)\<rparr>"
  using assms by (auto simp: fence_publication_def Let_def split: if_splits)

text \<open>A successful publication completes exactly the row whose lease the caller holds.\<close>

lemma publish_job_rows:
  assumes "publish_job job token run f now d = (Inr (), d')"
    and wf: "distinct (map sj_job_id (scan_jobs d))"
    and f: "jf_cancel_requested f = None"
  obtains r g where "r \<in> set (scan_jobs d)" "holds_lease job token r"
    and "scan_jobs d' = map (\<lambda>x. if x = r then g x else x) (scan_jobs d)"
    and "\<And>x. sj_job_id (g x) = sj_job_id x" "\<And>x. sj_payload_json (g x) = sj_payload_json x"
    and "\<And>x. sj_status (g x) = COMPLETED" "\<And>x. sj_lease_token (g x) = sj_lease_token x"
    and "\<And>x. sj_cancel_requested (g x) = sj_cancel_requested x"
    and "\<And>x. sj_attempts (g x) = keep (jf_attempts f) (sj_attempts x)"
proof -
  let ?tok = "case token of Some x \<Rightarrow> if x = '''' then None else Some x | None \<Rightarrow> None"
  from assms(1) obtain d1 where fence: "fence_publication job token now d = (Inr (), d1)"
    by (auto simp: publish_job_def split: prod.splits sum.splits)
  then have cnt: "sql_count (holds_lease job ?tok) (scan_jobs d) = 1"
    and d1: "scan_jobs d1 = sql_update (holds_lease job ?tok) (\<lambda>r. r\<lparr>sj_updated_at := now\<rparr>) (scan_jobs d)"
    by (auto elim: fence_ok)
  from cnt obtain r where r: "r \<in> set (scan_jobs d)" "holds_lease job ?tok r"
    using sql_count_0_iff [of "holds_lease job ?tok" "scan_jobs d"] by auto
  have only: "sj_job_id x = job \<longleftrightarrow> x = r" if "x \<in> set (scan_jobs d)" for x
    using that r wf by (auto simp: holds_lease_def dest: distinct_key_eq)
  have "scan_jobs d1 = map (\<lambda>x. if x = r then x\<lparr>sj_updated_at := now\<rparr> else x) (scan_jobs d)"
    using only r(2) by (auto simp: d1 sql_update_def holds_lease_def)
  then have d2: "scan_jobs (link_scan_job job run d1)
      = map (\<lambda>x. if x = r then x\<lparr>sj_updated_at := now, sj_run_id := Some run\<rparr> else x) (scan_jobs d)"
    using only r by (auto simp: link_scan_job_def sql_update_def)
  have tok: "token = ?tok"
  proof (cases "token = Some ''''")
    case True
    have "sql_count (holds_lease job (Some '''')) (scan_jobs (link_scan_job job run d1)) = 0"
      using only r(2) True by (auto simp: sql_count_0_iff d2 holds_lease_def)
    with assms(1) fence True show ?thesis by (auto simp: publish_job_def lease_update_def Let_def)
  qed (auto split: option.splits)
  let ?g = "\<lambda>x. if token = None
      then (set_fields f (x\<lparr>sj_updated_at := now, sj_run_id := Some run\<rparr>))
             \<lparr>sj_status := COMPLETED, sj_error := keep (jf_error f) None, sj_updated_at := now\<rparr>
      else (set_fields f (x\<lparr>sj_updated_at := now, sj_run_id := Some run\<rparr>))
             \<lparr>sj_status := COMPLETED, sj_updated_at := now\<rparr>"
  have row: "holds_lease job ?tok r" "holds_lease job token r" using r tok by simp_all
  have "scan_jobs d' = map (\<lambda>x. if x = r then ?g x else x) (scan_jobs d)"
  proof (cases token)
    case None
    with assms(1) fence have "d' = update_scan_job job COMPLETED f now (link_scan_job job run d1)"
      by (simp add: publish_job_def Let_def)
    then show ?thesis
      using only row None by (auto simp: update_scan_job_def d2 sql_update_def holds_lease_def)
  next
    case (Some x)
    with assms(1) fence have "d' = snd (lease_update job x (Some COMPLETED) f now (link_scan_job job run d1))"
      by (auto simp: publish_job_def Let_def split: prod.splits bool.splits)
    then show ?thesis
      using only row Some by (auto simp: lease_update_def d2 sql_update_def holds_lease_def)
  qed
  then show thesis
    by (rule that [OF r(1) row(2)]) (auto simp: f)
qed

text \<open>The shape of a step: rows kept and rewritten by \<open>h\<close>, then at most one new row.\<close>

definition step_shape :: "queue \<Rightarrow> queue \<Rightarrow> bool" where
  "step_shape s t \<longleftrightarrow> (\<exists>h K new. scan_jobs (q_db t) = map h (filter K (scan_jobs (q_db s))) @ new
     \<and> (\<forall>r \<in> set (scan_jobs (q_db s)). row_step s t r (h r))
     \<and> length new \<le> 1 \<and> (\<forall>n \<in> set new. fresh_row s t n \<and> sj_job_id n \<in> q_jobs t))"

lemma step_shape_map:
  assumes "scan_jobs (q_db t) = map h (scan_jobs (q_db s))"
    and "\<And>r. r \<in> set (scan_jobs (q_db s)) \<Longrightarrow> row_step s t r (h r)"
  shows "step_shape s t"
  unfolding step_shape_def
  by (rule exI [of _ h], rule exI [of _ "\<lambda>_. True"], rule exI [of _ "[]"]) (use assms in auto)

lemma step_shape_new:
  assumes "scan_jobs (q_db t) = scan_jobs (q_db s) @ [n]" "fresh_row s t n" "sj_job_id n \<in> q_jobs t"
  shows "step_shape s t"
  unfolding step_shape_def
  by (rule exI [of _ "\<lambda>r. r"], rule exI [of _ "\<lambda>_. True"], rule exI [of _ "[n]"])
    (use assms in \<open>auto intro: row_step.unchanged\<close>)

lemma publish_shape:
  assumes "publish_job job token run f now (q_db s) = (Inr (), q_db t)" and "jobs_wf s"
    and "progress_only f \<or> one_attempt f" and "job \<in> set (q_published t)"
  shows "step_shape s t"
proof -
  have f: "jf_cancel_requested f = None" using assms(3) by (auto simp: progress_only_def one_attempt_def)
  have wf: "distinct (map sj_job_id (scan_jobs (q_db s)))" using assms(2) by (simp add: jobs_wf_def)
  show ?thesis
  proof (rule publish_job_rows [OF assms(1) wf f])
    fix r g
    assume r: "holds_lease job token r"
      and rows: "scan_jobs (q_db t) = map (\<lambda>x. if x = r then g x else x) (scan_jobs (q_db s))"
      and g: "\<And>x. sj_job_id (g x) = sj_job_id x" "\<And>x. sj_payload_json (g x) = sj_payload_json x"
      "\<And>x. sj_status (g x) = COMPLETED" "\<And>x. sj_lease_token (g x) = sj_lease_token x"
      "\<And>x. sj_cancel_requested (g x) = sj_cancel_requested x"
      "\<And>x. sj_attempts (g x) = keep (jf_attempts f) (sj_attempts x)"
    have "row_step s t r (g r)"
      using r assms(3,4) by (intro row_step.completed [of r f]) (auto simp: holds_lease_def g)
    then show ?thesis by (intro step_shape_map [OF rows]) (auto intro: row_step.unchanged)
  qed
qed

lemma publish_completes:
  assumes "publish_job job token run f now d = (Inr (), d')"
    and "distinct (map sj_job_id (scan_jobs d))" and "jf_cancel_requested f = None"
  shows "\<exists>r \<in> set (scan_jobs d). holds_lease job token r"
    and "\<forall>r \<in> set (scan_jobs d'). sj_job_id r = job \<longrightarrow> sj_status r = COMPLETED"
proof -
  show "\<exists>r \<in> set (scan_jobs d). holds_lease job token r"
    by (rule publish_job_rows [OF assms]) blast
  show "\<forall>r \<in> set (scan_jobs d'). sj_job_id r = job \<longrightarrow> sj_status r = COMPLETED"
  proof (rule publish_job_rows [OF assms])
    fix r g
    assume r: "r \<in> set (scan_jobs d)" "holds_lease job token r"
      and rows: "scan_jobs d' = map (\<lambda>x. if x = r then g x else x) (scan_jobs d)"
      and g: "\<And>x. sj_job_id (g x) = sj_job_id x" "\<And>x. sj_status (g x) = COMPLETED"
    have "x = r" if "x \<in> set (scan_jobs d)" "sj_job_id x = job" for x
      using that r assms(2) by (auto simp: holds_lease_def dest: distinct_key_eq)
    with g show ?thesis by (auto simp: rows)
  qed
qed

lemma claim_shape:
  assumes "jobs_wf s" and "q_db t = snd (claim job token now (q_db s))"
    and "token \<notin> q_tokens s" "token \<in> q_tokens t"
  shows "step_shape s t"
proof -
  from assms(1) have "distinct (map sj_job_id (scan_jobs (q_db s)))" by (simp add: jobs_wf_def)
  from claim_eq [OF this, of job token now] consider
    (won) r where "claimable r" "scan_jobs (q_db t)
       = map (\<lambda>x. if x = r then claim_row token now x else x) (scan_jobs (q_db s))"
  | (lost) "q_db t = q_db s"
    using assms(2) by (auto simp: claim_candidate_def)
  then show ?thesis
  proof cases
    case won
    then show ?thesis using assms(3,4)
      by (intro step_shape_map [OF won(2)]) (auto intro: row_step.unchanged row_step.claimed)
  next
    case lost
    then show ?thesis by (intro step_shape_map [of t "\<lambda>r. r"]) (auto intro: row_step.unchanged)
  qed
qed

lemma requeue_shape:
  assumes "jobs_wf s" and "q_db t = snd (requeue_stale_scan_jobs age now (q_db s))"
  shows "step_shape s t"
proof -
  let ?cutoff = "now - age * 1000000"
  have "scan_jobs (q_db t) = map (requeued ?cutoff now) (scan_jobs (q_db s))"
    using assms by (simp add: jobs_wf_def requeue_stale_eq [OF _ refl])
  moreover have "row_step s t r (requeued ?cutoff now r)" for r
  proof (cases "is_stale ?cutoff r")
    case True
    then show ?thesis by (rule row_step.requeued)
  next
    case False
    then show ?thesis by (simp add: requeued_def row_step.unchanged)
  qed
  ultimately show ?thesis by (rule step_shape_map)
qed

lemma update_shape:
  assumes "scan_jobs (q_db t) = sql_update P f (scan_jobs (q_db s))"
    and "\<And>r. r \<in> set (scan_jobs (q_db s)) \<Longrightarrow> P r \<Longrightarrow> row_step s t r (f r)"
  shows "step_shape s t"
  using assms by (intro step_shape_map [of t "\<lambda>r. if P r then f r else r"])
    (auto simp: sql_update_def intro: row_step.unchanged)

lemma job_step_shape:
  assumes "job_step s e t" and "jobs_wf s" and ok: "ghosts_ok s"
  shows "step_shape s t"
  using assms(1)
proof cases
  case (stage job f w p now1 now2)
  then have "\<forall>r \<in> set (scan_jobs (q_db s)). sj_job_id r \<noteq> job" using assms(2) by (auto simp: jobs_wf_def)
  from stage_writes_rows [OF this stage(4)] obtain r
    where "scan_jobs (stage_writes job w p f now1 now2 (q_db s)) = scan_jobs (q_db s) @ [r]"
      "sj_job_id r = job" "sj_attempts r = 0" "sj_lease_token r = None" "\<not> sj_cancel_requested r"
      "sj_payload_json r = Some p" "sj_status r = PENDING" .
  with stage ok show ?thesis by (intro step_shape_new) (auto simp: fresh_row_def ghosts_ok_def)
next
  case (open_direct job w now)
  then have "\<forall>r \<in> set (scan_jobs (q_db s)). sj_job_id r \<noteq> job" using assms(2) by (auto simp: jobs_wf_def)
  from create_direct_rows [OF this] obtain r
    where "scan_jobs (create_scan_job job w None RUNNING None now (q_db s)) = scan_jobs (q_db s) @ [r]"
      "sj_job_id r = job" "sj_attempts r = 0" "sj_lease_token r = None" "\<not> sj_cancel_requested r"
      "sj_payload_json r = None" "sj_status r = RUNNING" .
  with open_direct ok show ?thesis by (intro step_shape_new) (auto simp: fresh_row_def ghosts_ok_def)
next
  case (fail_direct job f now)
  then have "scan_jobs (q_db t) = sql_update (\<lambda>r. sj_job_id r = job \<and> sj_status r \<noteq> CANCELLED)
      (\<lambda>r. (set_fields f r)\<lparr>sj_status := FAILED, sj_error := keep (jf_error f) None, sj_updated_at := now\<rparr>)
      (scan_jobs (q_db s))"
    by (simp add: update_scan_job_def)
  then show ?thesis by (rule update_shape) (use fail_direct in \<open>auto intro: row_step.direct_failed\<close>)
next
  case (publish_direct job f run now d)
  then show ?thesis using assms(2) by (intro publish_shape) auto
next
  case (claim token job now)
  then show ?thesis using assms(2) by (intro claim_shape) auto
next
  case (lease_write status f job token now)
  then have "scan_jobs (q_db t) = sql_update (holds_lease job (Some token))
      (\<lambda>r. (set_fields f r)\<lparr>sj_status := keep status (sj_status r), sj_updated_at := now\<rparr>) (scan_jobs (q_db s))"
    by (simp add: lease_update_def)
  then show ?thesis
    by (rule update_shape) (use lease_write in \<open>auto simp: holds_lease_def intro: row_step.progress\<close>)
next
  case (publish job f token run now d)
  then show ?thesis using assms(2) by (intro publish_shape) auto
next
  case (retry job now)
  then have "scan_jobs (q_db t) = sql_update (\<lambda>r. sj_job_id r = job \<and> sj_status r \<in> {FAILED, PENDING}
        \<and> \<not> sj_cancel_requested r \<and> sj_attempts r < MAX_JOB_ATTEMPTS)
      (\<lambda>r. r\<lparr>sj_status := PENDING, sj_lease_token := None, sj_error := None,
             sj_progress_message := msg_retry, sj_updated_at := now\<rparr>) (scan_jobs (q_db s))"
    by (simp add: retry_def Let_def)
  then show ?thesis by (rule update_shape) (blast intro: row_step.retried)
next
  case (cancel job now)
  then have "scan_jobs (q_db t) = sql_update (\<lambda>r. sj_job_id r = job \<and> sj_status r \<in> {PENDING, RUNNING})
      (\<lambda>r. r\<lparr>sj_status := CANCELLED, sj_cancel_requested := True, sj_error := None,
             sj_progress_message := msg_cancelled, sj_updated_at := now\<rparr>) (scan_jobs (q_db s))"
    by (simp add: cancel_scan_job_def Let_def)
  then show ?thesis by (rule update_shape) (blast intro: row_step.cancelled)
next
  case (requeue age now)
  then show ?thesis using assms(2) by (intro requeue_shape) auto
next
  case (delete_run run)
  then show ?thesis unfolding step_shape_def
    by (intro exI [of _ "\<lambda>r. r"] exI [of _ "\<lambda>r. sj_run_id r \<noteq> Some run"] exI [of _ "[]"])
      (auto simp: sql_delete_def intro: row_step.unchanged)
qed

section \<open>The invariant\<close>

text \<open>
  What holds of each row: direct scans have no payload, a published queued job is completed, attempts
  stay within the bound and strictly within it while the job waits, a lease is a token that was drawn,
  and the cancel flag is set exactly when the job is cancelled.
\<close>

definition row_ok :: "queue \<Rightarrow> scan_job \<Rightarrow> bool" where
  "row_ok s r \<longleftrightarrow> (sj_job_id r \<in> q_direct s \<longrightarrow> sj_payload_json r = None)
     \<and> (sj_payload_json r \<noteq> None \<longrightarrow> sj_job_id r \<in> set (q_published s) \<longrightarrow> sj_status r = COMPLETED)
     \<and> sj_attempts r \<le> MAX_JOB_ATTEMPTS
     \<and> (sj_status r = PENDING \<longrightarrow> sj_attempts r < MAX_JOB_ATTEMPTS)
     \<and> (\<forall>token. sj_lease_token r = Some token \<longrightarrow> token \<in> q_tokens s)
     \<and> (sj_cancel_requested r \<longleftrightarrow> sj_status r = CANCELLED)"

definition queue_inv :: "queue \<Rightarrow> bool" where
  "queue_inv s \<longleftrightarrow> jobs_wf s \<and> ghosts_ok s \<and> (\<forall>r \<in> set (scan_jobs (q_db s)). row_ok s r)"

lemma row_step_id: "row_step s t r r' \<Longrightarrow> sj_job_id r' = sj_job_id r"
  by (erule row_step.cases) simp_all

lemma row_step_payload: "row_step s t r r' \<Longrightarrow> sj_payload_json r' = sj_payload_json r"
  by (erule row_step.cases) simp_all

lemma row_step_ok:
  assumes "row_step s t r r'" and "row_ok s r" and "q_tokens s \<subseteq> q_tokens t"
    and "sj_job_id r \<in> q_direct t \<Longrightarrow> sj_job_id r \<in> q_direct s"
    and "sj_job_id r \<in> set (q_published t) \<Longrightarrow> sj_job_id r \<notin> set (q_published s) \<Longrightarrow> sj_status r' = COMPLETED"
  shows "row_ok t r'"
proof -
  have "sj_job_id r' \<in> q_direct t \<longrightarrow> sj_payload_json r' = None"
    using assms row_step_payload [OF assms(1)] row_step_id [OF assms(1)] by (auto simp: row_ok_def)
  moreover have "sj_payload_json r' \<noteq> None \<longrightarrow> sj_job_id r' \<in> set (q_published t) \<longrightarrow> sj_status r' = COMPLETED"
    using assms(1,2,5)
    by cases (auto simp: row_ok_def claimable_def is_stale_def requeued_def split: if_splits)
  moreover have "sj_attempts r' \<le> MAX_JOB_ATTEMPTS
      \<and> (sj_status r' = PENDING \<longrightarrow> sj_attempts r' < MAX_JOB_ATTEMPTS)"
    using assms(1,2)
    by cases (auto simp: row_ok_def claimable_def is_stale_def requeued_def progress_only_def
        one_attempt_def MAX_JOB_ATTEMPTS_def)
  moreover have "\<forall>token. sj_lease_token r' = Some token \<longrightarrow> token \<in> q_tokens t"
    using assms(1-3) by cases (auto simp: row_ok_def requeued_def split: if_splits)
  moreover have "sj_cancel_requested r' \<longleftrightarrow> sj_status r' = CANCELLED"
    using assms(1,2)
    by cases (auto simp: row_ok_def claimable_def is_stale_def requeued_def progress_only_def
        one_attempt_def)
  ultimately show ?thesis by (simp add: row_ok_def)
qed

text \<open>What a step does to the ghosts.\<close>

lemma job_step_ghosts:
  assumes "job_step s e t" and "queue_inv s"
  shows "q_jobs s \<subseteq> q_jobs t" and "q_tokens s \<subseteq> q_tokens t"
    and "j \<in> q_direct t \<Longrightarrow> j \<in> q_jobs s \<Longrightarrow> j \<in> q_direct s"
    and "r \<in> set (scan_jobs (q_db t)) \<Longrightarrow> sj_job_id r \<in> set (q_published t)
      \<Longrightarrow> sj_job_id r \<notin> set (q_published s) \<Longrightarrow> sj_status r = COMPLETED"
    and "ghosts_ok t"
proof -
  have wf: "distinct (map sj_job_id (scan_jobs (q_db s)))" and ids: "\<forall>r \<in> set (scan_jobs (q_db s)). sj_job_id r \<in> q_jobs s"
    and ok: "ghosts_ok s" and rows: "\<forall>r \<in> set (scan_jobs (q_db s)). row_ok s r"
    using assms(2) by (simp_all add: queue_inv_def jobs_wf_def)
  show "q_jobs s \<subseteq> q_jobs t" "q_tokens s \<subseteq> q_tokens t"
    "j \<in> q_direct t \<Longrightarrow> j \<in> q_jobs s \<Longrightarrow> j \<in> q_direct s"
    using assms(1) by (auto elim!: job_stepE)
  show "r \<in> set (scan_jobs (q_db t)) \<Longrightarrow> sj_job_id r \<in> set (q_published t)
      \<Longrightarrow> sj_job_id r \<notin> set (q_published s) \<Longrightarrow> sj_status r = COMPLETED"
    using assms(1) publish_completes(2) [OF _ wf]
    by cases (auto simp: progress_only_def one_attempt_def)
  show "ghosts_ok t"
    using assms(1)
  proof cases
    case (publish job f token run now d)
    then obtain r where r: "r \<in> set (scan_jobs (q_db s))" "holds_lease job (Some token) r"
      using publish_completes(1) [OF publish(5) wf] by (auto simp: progress_only_def)
    then have "load_scan_job job (q_db s) = Some r"
      using sql_first_key [OF wf r(1)] by (simp add: load_scan_job_def holds_lease_def)
    with publish(3) have "sj_payload_json r \<noteq> None" by blast
    with r rows have "job \<notin> q_direct s" "job \<notin> set (q_published s)" "job \<in> q_jobs s"
      using ids by (auto simp: row_ok_def holds_lease_def)
    with ok publish(2) show ?thesis by (auto simp: ghosts_ok_def)
  qed (use ok in \<open>auto simp: ghosts_ok_def\<close>)
qed

lemma fresh_row_ok: "fresh_row s t r \<Longrightarrow> row_ok t r"
  by (auto simp: fresh_row_def row_ok_def MAX_JOB_ATTEMPTS_def)

lemma step_shape_wf:
  assumes "step_shape s t" and "jobs_wf s" and "q_jobs s \<subseteq> q_jobs t"
  shows "jobs_wf t"
proof -
  from assms(1) obtain h K new where rows: "scan_jobs (q_db t) = map h (filter K (scan_jobs (q_db s))) @ new"
    and h: "\<forall>r \<in> set (scan_jobs (q_db s)). row_step s t r (h r)" and len: "length new \<le> 1"
    and new: "\<forall>n \<in> set new. fresh_row s t n \<and> sj_job_id n \<in> q_jobs t"
    unfolding step_shape_def by blast
  have "map sj_job_id (map h (filter K (scan_jobs (q_db s)))) = map sj_job_id (filter K (scan_jobs (q_db s)))"
    using h by (auto intro: row_step_id)
  moreover have "distinct (map sj_job_id (filter K (scan_jobs (q_db s))))"
    using assms(2) by (auto simp: jobs_wf_def distinct_map inj_on_def)
  moreover have "distinct (map sj_job_id new)" using len by (cases new) (auto simp: Suc_le_eq)
  moreover have "\<forall>n \<in> set new. sj_job_id n \<notin> q_jobs s" using new by (simp add: fresh_row_def)
  moreover have ids: "\<forall>r \<in> set (scan_jobs (q_db s)). sj_job_id r \<in> q_jobs s \<and> sj_job_id (h r) = sj_job_id r"
    using assms(2) h row_step_id by (auto simp: jobs_wf_def)
  ultimately have "distinct (map sj_job_id (scan_jobs (q_db t)))"
    unfolding rows map_append distinct_append by (auto simp del: map_map)
  moreover have "\<forall>r \<in> set (scan_jobs (q_db t)). sj_job_id r \<in> q_jobs t"
    using ids new assms(3) unfolding rows by auto
  ultimately show ?thesis by (simp add: jobs_wf_def)
qed

lemma job_step_inv:
  assumes "job_step s e t" and "queue_inv s"
  shows "queue_inv t"
proof -
  note ghosts = job_step_ghosts [OF assms]
  from assms(2) have wf: "jobs_wf s" and ok: "ghosts_ok s"
    and rows: "\<forall>r \<in> set (scan_jobs (q_db s)). row_ok s r" by (simp_all add: queue_inv_def)
  have shape: "step_shape s t" using assms(1) wf ok by (rule job_step_shape)
  then obtain h K new where t: "scan_jobs (q_db t) = map h (filter K (scan_jobs (q_db s))) @ new"
    and h: "\<forall>r \<in> set (scan_jobs (q_db s)). row_step s t r (h r)"
    and new: "\<forall>n \<in> set new. fresh_row s t n \<and> sj_job_id n \<in> q_jobs t"
    unfolding step_shape_def by blast
  have kept: "row_ok t (h r)" if r: "r \<in> set (scan_jobs (q_db s))" "K r" for r
  proof (rule row_step_ok [OF h [rule_format, OF r(1)] rows [rule_format, OF r(1)] ghosts(2)])
    have id: "sj_job_id (h r) = sj_job_id r" using h r(1) row_step_id by blast
    have "h r \<in> set (scan_jobs (q_db t))" using r by (auto simp: t)
    then show "sj_status (h r) = COMPLETED"
      if "sj_job_id r \<in> set (q_published t)" "sj_job_id r \<notin> set (q_published s)"
      using that ghosts(4) [of "h r"] id by simp
    show "sj_job_id r \<in> q_direct s" if "sj_job_id r \<in> q_direct t"
      using that ghosts(3) wf r(1) by (auto simp: jobs_wf_def)
  qed
  show ?thesis
    using step_shape_wf [OF shape wf ghosts(1)] ghosts(5) kept new fresh_row_ok [of s t]
    by (auto simp: queue_inv_def t)
qed

lemma init_queue_inv: "queue_inv init_queue"
  by (simp add: queue_inv_def init_queue_def empty_db_def jobs_wf_def ghosts_ok_def)

definition job_reach :: "queue \<Rightarrow> queue \<Rightarrow> bool" where
  "job_reach = (\<lambda>s t. \<exists>e. job_step s e t)\<^sup>*\<^sup>*"

interpretation queue_sys: inv_system job_step queue_inv
  by unfold_locales (rule job_step_inv)

lemma job_reach_inv: "job_reach init_queue s \<Longrightarrow> queue_inv s"
  unfolding job_reach_def using queue_sys.reach_inv init_queue_inv by blast

lemma job_reach_refl [simp]: "job_reach s s"
  by (simp add: job_reach_def)

lemma job_reach_step: "job_reach s t \<Longrightarrow> job_step t e u \<Longrightarrow> job_reach s u"
  unfolding job_reach_def by (rule rtranclp.rtrancl_into_rtrancl) auto

text \<open>
  Two further invariants, of a job that was cancelled and of a lease that is no longer held. Both
  are kept by every step, so both are final.
\<close>

definition cancelled_for_good :: "string \<Rightarrow> queue \<Rightarrow> bool" where
  "cancelled_for_good job s \<longleftrightarrow> queue_inv s \<and> job \<in> q_jobs s \<and> job \<notin> set (q_published s)
     \<and> (\<forall>r \<in> set (scan_jobs (q_db s)). sj_job_id r = job \<longrightarrow> sj_status r = CANCELLED)"

definition lease_gone :: "string \<Rightarrow> string \<Rightarrow> queue \<Rightarrow> bool" where
  "lease_gone job token s \<longleftrightarrow> queue_inv s \<and> token \<in> q_tokens s
     \<and> (\<forall>r \<in> set (scan_jobs (q_db s)). \<not> holds_lease job (Some token) r)"

lemma row_step_cancelled:
  "row_step s t r r' \<Longrightarrow> sj_status r = CANCELLED \<Longrightarrow> sj_status r' = CANCELLED"
  by (erule row_step.cases) (auto simp: claimable_def is_stale_def)

lemma row_step_lease:
  "row_step s t r r' \<Longrightarrow> token \<in> q_tokens s \<Longrightarrow> holds_lease job (Some token) r'
    \<Longrightarrow> row_ok s r \<Longrightarrow> holds_lease job (Some token) r"
  by (erule row_step.cases)
    (auto simp: holds_lease_def requeued_def progress_only_def one_attempt_def split: if_splits)

lemma new_publication:
  assumes "job_step s e t" and "queue_inv s" and "j \<in> set (q_published t)" and "j \<notin> set (q_published s)"
  shows "\<exists>r \<in> set (scan_jobs (q_db s)). sj_job_id r = j \<and> sj_status r = RUNNING"
proof -
  have wf: "distinct (map sj_job_id (scan_jobs (q_db s)))"
    using assms(2) by (simp add: queue_inv_def jobs_wf_def)
  from assms(1,3,4) obtain token run f now d where
    "publish_job j token run f now (q_db s) = (Inr (), d)" "progress_only f \<or> one_attempt f"
    by cases auto
  with wf obtain r where "r \<in> set (scan_jobs (q_db s))" "holds_lease j token r"
    using publish_completes(1) by (metis progress_only_def one_attempt_def)
  then show ?thesis by (auto simp: holds_lease_def)
qed

lemma job_step_rows:
  assumes "job_step s e t" and "queue_inv s" and "r' \<in> set (scan_jobs (q_db t))"
  shows "(\<exists>r \<in> set (scan_jobs (q_db s)). row_step s t r r') \<or> fresh_row s t r'"
proof -
  have "step_shape s t" using assms by (intro job_step_shape) (auto simp: queue_inv_def)
  with assms(3) show ?thesis unfolding step_shape_def by fastforce
qed

interpretation cancelled_sys: inv_system job_step "cancelled_for_good job"
proof
  fix s e t
  assume step: "job_step s e t" and inv: "cancelled_for_good job s"
  then have q: "queue_inv s" by (simp add: cancelled_for_good_def)
  have "job \<notin> set (q_published t)"
    using new_publication [OF step q, of job] inv by (auto simp: cancelled_for_good_def)
  moreover have "sj_status r = CANCELLED" if "r \<in> set (scan_jobs (q_db t))" "sj_job_id r = job" for r
    using job_step_rows [OF step q that(1)]
  proof
    assume "\<exists>r0 \<in> set (scan_jobs (q_db s)). row_step s t r0 r"
    then show ?thesis
      using that(2) inv by (metis cancelled_for_good_def row_step_cancelled row_step_id)
  next
    assume "fresh_row s t r"
    then show ?thesis using that(2) inv by (simp add: cancelled_for_good_def fresh_row_def)
  qed
  ultimately show "cancelled_for_good job t"
    using job_step_ghosts(1) [OF step q] job_step_inv [OF step q] inv
    by (auto simp: cancelled_for_good_def)
qed

interpretation lease_sys: inv_system job_step "lease_gone job token"
proof
  fix s e t
  assume step: "job_step s e t" and inv: "lease_gone job token s"
  then have q: "queue_inv s" by (simp add: lease_gone_def)
  have "\<not> holds_lease job (Some token) r" if "r \<in> set (scan_jobs (q_db t))" for r
    using job_step_rows [OF step q that] inv
    by (auto simp: lease_gone_def fresh_row_def holds_lease_def queue_inv_def
        dest: row_step_lease [unfolded holds_lease_def])
  then show "lease_gone job token t"
    using job_step_ghosts(2) [OF step q] job_step_inv [OF step q] inv
    by (auto simp: lease_gone_def)
qed

section \<open>Properties of the queue\<close>

text \<open>A short run of the queue for the examples: one job is staged, claimed and published, and
  another one is staged and cancelled.\<close>

definition demo_payload :: job_payload where
  "demo_payload = \<lparr>jp_tender_path = ''p'', jp_tender_filename = ''f'', jp_evidence = [],
     jp_company_name = [], jp_evidence_metadata = None, jp_user_id = ''u'', jp_role = ''OWNER'',
     jp_project_id = None, jp_parent_run_id = None\<rparr>"

definition demo_staged :: queue where
  "demo_staged = init_queue\<lparr>q_db := stage_writes ''a'' ''w'' demo_payload no_fields 1 2 empty_db,
     q_jobs := {''a''}\<rparr>"

definition demo_claimed :: queue where
  "demo_claimed = demo_staged\<lparr>q_db := snd (claim None ''t'' 3 (q_db demo_staged)), q_tokens := {''t''}\<rparr>"

definition demo_published :: queue where
  "demo_published = demo_claimed\<lparr>q_db := snd (publish_job ''a'' (Some ''t'') ''r'' no_fields 4 (q_db demo_claimed)),
     q_published := [''a'']\<rparr>"

definition demo_cancelled :: queue where
  "demo_cancelled = demo_claimed\<lparr>q_db := snd (cancel_scan_job ''a'' 5 (q_db demo_claimed))\<rparr>"

lemma progress_only_no_fields [simp]: "progress_only no_fields"
  by (simp add: progress_only_def no_fields_def)

lemma demo_staged_reach: "job_reach init_queue demo_staged"
  unfolding demo_staged_def
  using job_step.stage [of "''a''" init_queue no_fields "''w''" demo_payload 1 2]
  by (intro job_reach_step [OF job_reach_refl]) (simp add: init_queue_def)

lemma demo_claimed_reach: "job_reach init_queue demo_claimed"
  unfolding demo_claimed_def
  using job_step.claim [of "''t''" demo_staged None 3]
  by (intro job_reach_step [OF demo_staged_reach]) (simp add: demo_staged_def init_queue_def)

definition demo_row :: scan_job where
  "demo_row = \<lparr>sj_job_id = ''a'', sj_workspace_id = ''w'', sj_run_id = None, sj_status = PENDING,
     sj_attempts = 0, sj_error = None, sj_progress_current = 0, sj_progress_total = 0,
     sj_progress_message = [], sj_cancel_requested = False, sj_lease_token = None,
     sj_payload_json = Some demo_payload, sj_created_at = 1, sj_updated_at = 2\<rparr>"

lemma order_by_single [simp]: "order_by k [r] = [r]"
  by (simp add: order_by_def)

lemma demo_staged_rows: "scan_jobs (q_db demo_staged) = [demo_row]"
  by (simp add: demo_staged_def stage_writes_def create_scan_job_def update_scan_job_def Let_def
      sql_upsert_def sql_insert_def empty_db_def demo_row_def set_fields_def no_fields_def
      ensure_workspace_row_def insert_workspace_def)

lemma demo_claimed_rows: "scan_jobs (q_db demo_claimed) = [claim_row ''t'' 3 demo_row]"
  by (simp add: demo_claimed_def claim_def demo_staged_rows sql_select_def claimable_def Let_def
      MAX_JOB_ATTEMPTS_def demo_row_def sql_count_def)

lemma demo_publish_ok:
  "publish_job ''a'' (Some ''t'') ''r'' no_fields 4 (q_db demo_claimed) = (Inr (), q_db demo_published)"
  by (simp add: demo_published_def publish_job_def fence_publication_def demo_claimed_rows Let_def
      sql_count_def holds_lease_def claim_row_def demo_row_def link_scan_job_def lease_update_def)

lemma demo_claimed_payload:
  "load_scan_job ''a'' (q_db demo_claimed) = Some r \<Longrightarrow> sj_payload_json r \<noteq> None"
  by (auto simp: load_scan_job_def demo_claimed_rows sql_first_def demo_row_def claim_row_def)

lemma demo_published_reach: "job_reach init_queue demo_published"
proof (rule job_reach_step [OF demo_claimed_reach])
  have "job_step demo_claimed (Publish ''a'' ''t'') (demo_claimed\<lparr>q_db := q_db demo_published,
      q_published := ''a'' # q_published demo_claimed\<rparr>)"
    using demo_claimed_payload
    by (intro job_step.publish [OF _ progress_only_no_fields demo_publish_ok]) auto
  then show "job_step demo_claimed (Publish ''a'' ''t'') demo_published"
    by (simp add: demo_published_def demo_claimed_def demo_staged_def init_queue_def)
qed

lemma demo_cancelled_reach: "job_reach demo_claimed demo_cancelled"
  unfolding demo_cancelled_def by (rule job_reach_step [OF job_reach_refl job_step.cancel])



text \<open>A job that is cancelled stays cancelled in every later state, and is never published
  afterwards, whatever its worker still does.\<close>

lemma cancelled_is_final:
  assumes "job_reach init_queue s" and "job_reach s t"
    and "r \<in> set (scan_jobs (q_db s))" and "sj_status r = CANCELLED"
    and "sj_job_id r \<notin> set (q_published s)"
  shows "sj_job_id r \<notin> set (q_published t)
    \<and> (\<forall>r' \<in> set (scan_jobs (q_db t)). sj_job_id r' = sj_job_id r \<longrightarrow> sj_status r' = CANCELLED)"
proof -
  have inv: "queue_inv s" using assms(1) by (rule job_reach_inv)
  then have "\<forall>r' \<in> set (scan_jobs (q_db s)). sj_job_id r' = sj_job_id r \<longrightarrow> sj_status r' = CANCELLED"
    using assms(3,4) by (auto simp: queue_inv_def jobs_wf_def dest: distinct_key_eq)
  then have "cancelled_for_good (sj_job_id r) s"
    using inv assms(3,5) by (simp add: cancelled_for_good_def queue_inv_def jobs_wf_def)
  with assms(2) have "cancelled_for_good (sj_job_id r) t"
    unfolding job_reach_def by (rule cancelled_sys.reach_inv)
  then show ?thesis by (simp add: cancelled_for_good_def)
qed

lemma demo_cancelled_rows:
  "map (\<lambda>r. (sj_job_id r, sj_status r)) (scan_jobs (q_db demo_cancelled)) = [(''a'', CANCELLED)]"
  by (simp add: demo_cancelled_def cancel_scan_job_def demo_claimed_rows Let_def demo_row_def claim_row_def)

lemma cancelled_is_final_example:
  "\<exists>r \<in> set (scan_jobs (q_db demo_cancelled)). sj_status r = CANCELLED
     \<and> sj_job_id r \<notin> set (q_published demo_cancelled)"
proof -
  from demo_cancelled_rows obtain r where r: "r \<in> set (scan_jobs (q_db demo_cancelled))"
    "sj_job_id r = ''a''" "sj_status r = CANCELLED" by auto
  have "q_published demo_cancelled = []"
    by (simp add: demo_cancelled_def demo_claimed_def demo_staged_def init_queue_def)
  moreover have "job_reach init_queue demo_cancelled"
    using demo_claimed_reach demo_cancelled_reach unfolding job_reach_def by (rule rtranclp_trans)
  ultimately show ?thesis
    using cancelled_is_final [of demo_cancelled demo_cancelled r] r by auto
qed

text \<open>Once a worker's lease is gone (its job was cancelled, requeued, finished, or handed to
  another attempt), it never comes back: every later write under that token reports failure and
  changes nothing, and every later publication under it raises \<open>LeaseLost\<close> and changes nothing.\<close>

lemma lost_lease_stays_lost:
  assumes "job_reach init_queue s" and "job_reach s t" and "token \<in> q_tokens s" and "token \<noteq> ''''"
    and "\<forall>r \<in> set (scan_jobs (q_db s)). \<not> holds_lease job (Some token) r"
  shows "lease_update job token status f now (q_db t) = (False, q_db t)
    \<and> publish_job job (Some token) run f now (q_db t) = (Inl LeaseLost, q_db t)"
proof -
  have "lease_gone job token s" using assms job_reach_inv by (simp add: lease_gone_def)
  with assms(2) have "lease_gone job token t"
    unfolding job_reach_def by (rule lease_sys.reach_inv)
  then have "sql_count (holds_lease job (Some token)) (scan_jobs (q_db t)) = 0"
    by (simp add: lease_gone_def sql_count_0_iff)
  then show ?thesis
    using assms(4) by (simp add: lease_update_def publish_job_def fence_publication_def sql_update_no_match)
qed

lemma lost_lease_stays_lost_example:
  "lease_update ''a'' ''t'' (Some COMPLETED) no_fields 9 (q_db demo_cancelled) = (False, q_db demo_cancelled)
   \<and> publish_job ''a'' (Some ''t'') ''r'' no_fields 9 (q_db demo_cancelled) = (Inl LeaseLost, q_db demo_cancelled)"
proof (rule lost_lease_stays_lost)
  show "job_reach init_queue demo_cancelled"
    using demo_claimed_reach demo_cancelled_reach unfolding job_reach_def by (rule rtranclp_trans)
  show "job_reach demo_cancelled demo_cancelled" by simp
  show "\<forall>r \<in> set (scan_jobs (q_db demo_cancelled)). \<not> holds_lease ''a'' (Some ''t'') r"
    using demo_cancelled_rows by (auto simp: holds_lease_def)
qed (simp_all add: demo_cancelled_def demo_claimed_def)



text \<open>\<open>claim\<close> takes the oldest claimable job (first by creation time, then by id), puts it under
  the caller's token with one more attempt and leaves every other job alone; it answers \<open>None\<close>, and
  writes nothing, exactly when no job is claimable.\<close>

lemma claim_takes_the_oldest:
  assumes "distinct (map sj_job_id (scan_jobs d))" and "claim job token now d = (answer, d')"
  shows "case answer of
      None \<Rightarrow> d' = d \<and> (\<forall>r \<in> set (scan_jobs d). \<not> claim_candidate job r)
    | Some row \<Rightarrow> \<exists>r \<in> set (scan_jobs d). claim_candidate job r
        \<and> (\<forall>x \<in> set (scan_jobs d). claim_candidate job x \<longrightarrow> queue_order r \<le> queue_order x)
        \<and> sj_job_id row = sj_job_id r \<and> sj_lease_token row = Some token \<and> sj_attempts row = sj_attempts r + 1
        \<and> d' = d\<lparr>scan_jobs := map (\<lambda>x. if x = r then claim_row token now x else x) (scan_jobs d)\<rparr>"
  using claim_eq [OF assms(1), of job token now] assms(2) by auto

lemma claim_takes_the_oldest_example:
  "\<exists>row. fst (claim None ''t'' 3 (q_db demo_staged)) = Some row \<and> sj_lease_token row = Some ''t''"
proof -
  have wf: "distinct (map sj_job_id (scan_jobs (q_db demo_staged)))" by (simp add: demo_staged_rows)
  have "claim_candidate None demo_row"
    by (simp add: claim_candidate_def claimable_def demo_row_def MAX_JOB_ATTEMPTS_def)
  with claim_takes_the_oldest [OF wf prod.collapse [symmetric], of None "''t''" 3]
  show ?thesis by (auto simp: demo_staged_rows split: option.splits)
qed

text \<open>The requeue pass touches exactly the running jobs, not cancelled, whose last write is older
  than the cutoff: such a job goes back to the queue without its lease while it has attempts left and
  is dead otherwise; the count it reports is the number of jobs put back, and every other job keeps
  its row.\<close>

lemma requeue_pass_exact:
  assumes "distinct (map sj_job_id (scan_jobs d))"
    and "requeue_stale_scan_jobs max_age now d = (n, d')" and "r \<in> set (scan_jobs d)"
  shows "n = sql_count (\<lambda>x. is_stale (now - max_age * 1000000) x \<and> sj_attempts x < MAX_JOB_ATTEMPTS) (scan_jobs d)
    \<and> load_scan_job (sj_job_id r) d' = Some
      (if is_stale (now - max_age * 1000000) r
       then if sj_attempts r < MAX_JOB_ATTEMPTS then requeue_row now r else bury_row now r else r)"
proof -
  let ?c = "now - max_age * 1000000"
  note eq = requeue_stale_eq [OF assms(1) refl, of max_age now]
  from eq assms(2) have n: "n = sql_count (\<lambda>x. is_stale ?c x \<and> sj_attempts x < MAX_JOB_ATTEMPTS) (scan_jobs d)"
    by simp
  have rows: "scan_jobs d' = map (requeued ?c now) (scan_jobs d)" using eq assms(2) by auto
  have "distinct (map sj_job_id (scan_jobs d'))" using assms(1) by (simp add: rows comp_def)
  moreover have "requeued ?c now r \<in> set (scan_jobs d')" using assms(3) by (simp add: rows)
  ultimately have "load_scan_job (sj_job_id r) d' = Some (requeued ?c now r)"
    using sql_first_key [of sj_job_id "scan_jobs d'" "requeued ?c now r"] by (simp add: load_scan_job_def)
  with n show ?thesis by (simp add: requeued_def not_le)
qed

lemma requeue_pass_exact_example:
  "load_scan_job ''a'' (snd (requeue_stale_scan_jobs 1 5000000 (q_db demo_claimed)))
     = Some (requeue_row 5000000 (claim_row ''t'' 3 demo_row))"
proof -
  let ?r = "claim_row ''t'' 3 demo_row"
  have "distinct (map sj_job_id (scan_jobs (q_db demo_claimed)))" "?r \<in> set (scan_jobs (q_db demo_claimed))"
    by (simp_all add: demo_claimed_rows)
  from requeue_pass_exact [OF this(1) prod.collapse [symmetric] this(2), of 1 5000000]
  show ?thesis by (simp add: is_stale_def claim_row_def demo_row_def MAX_JOB_ATTEMPTS_def)
qed

lemma claim_single:
  assumes "scan_jobs d = [r]" and "claimable r"
  obtains row d' where "claim None token now d = (Some row, d')" "sj_job_id row = sj_job_id r"
    "scan_jobs d' = [claim_row token now r]"
  using assms that by (simp add: claim_def sql_select_def Let_def sql_count_def claimable_def)

lemma publish_single:
  assumes "scan_jobs d = [r]" and "holds_lease job (Some token) r" and "token \<noteq> ''''"
  obtains d' where "publish_job job (Some token) run no_fields now d = (Inr (), d')"
    "scan_jobs d' = [r\<lparr>sj_updated_at := now, sj_run_id := Some run, sj_status := COMPLETED\<rparr>]"
  using assms that
  by (simp add: publish_job_def fence_publication_def Let_def sql_count_def holds_lease_def
      link_scan_job_def lease_update_def set_fields_def no_fields_def)

text \<open>The two writes of \<open>stage_job\<close> are separate transactions. When a worker claims and publishes
  the job between them, the second write, which sets \<open>PENDING\<close> again, puts the finished job back in the
  queue, and a second claim and a second publication succeed. (Properties over \<open>job_step\<close> therefore
  take the two writes of a staging as one step.)\<close>

lemma late_staging_write_republishes:
  "\<exists>row1 d1 d2 row2 d3 d4.
     claim None ''t'' 2 (create_scan_job ''a'' ''w'' None PENDING (Some demo_payload) 1 empty_db) = (Some row1, d1)
   \<and> publish_job ''a'' (Some ''t'') ''r1'' no_fields 3 d1 = (Inr (), d2)
   \<and> claim None ''u'' 5 (update_scan_job ''a'' PENDING (no_fields\<lparr>jf_progress_total := Some 2\<rparr>) 4 d2) = (Some row2, d3)
   \<and> publish_job ''a'' (Some ''u'') ''r2'' no_fields 6 d3 = (Inr (), d4)"
proof -
  let ?d0 = "create_scan_job ''a'' ''w'' None PENDING (Some demo_payload) 1 empty_db"
  let ?r0 = "demo_row\<lparr>sj_updated_at := 1\<rparr>"
  let ?f = "no_fields\<lparr>jf_progress_total := Some 2\<rparr>"
  have "scan_jobs ?d0 = [?r0]"
    by (simp add: create_scan_job_def Let_def sql_upsert_def sql_insert_def empty_db_def demo_row_def)
  moreover have "claimable ?r0" by (simp add: claimable_def demo_row_def MAX_JOB_ATTEMPTS_def)
  ultimately obtain row1 d1 where 1: "claim None ''t'' 2 ?d0 = (Some row1, d1)"
    "scan_jobs d1 = [claim_row ''t'' 2 ?r0]" by (rule claim_single)
  have "holds_lease ''a'' (Some ''t'') (claim_row ''t'' 2 ?r0)" by (simp add: holds_lease_def demo_row_def)
  from publish_single [OF 1(2) this] obtain d2
    where 2: "publish_job ''a'' (Some ''t'') ''r1'' no_fields 3 d1 = (Inr (), d2)"
      "scan_jobs d2 = [(claim_row ''t'' 2 ?r0)\<lparr>sj_updated_at := 3, sj_run_id := Some ''r1'', sj_status := COMPLETED\<rparr>]"
    by auto
  let ?d2 = "update_scan_job ''a'' PENDING ?f 4 d2"
  obtain r2 where r2: "scan_jobs ?d2 = [r2]" "claimable r2" "sj_job_id r2 = ''a''"
    by (simp add: update_scan_job_def 2(2) demo_row_def claimable_def MAX_JOB_ATTEMPTS_def no_fields_def)
  from r2(1,2) obtain row2 d3 where 3: "claim None ''u'' 5 ?d2 = (Some row2, d3)"
    "scan_jobs d3 = [claim_row ''u'' 5 r2]" by (rule claim_single)
  have "holds_lease ''a'' (Some ''u'') (claim_row ''u'' 5 r2)"
    using r2(2,3) by (simp add: holds_lease_def claimable_def)
  from publish_single [OF 3(2) this, of "''r2''" 6] obtain d4
    where "publish_job ''a'' (Some ''u'') ''r2'' no_fields 6 d3 = (Inr (), d4)" by auto
  with 1(1) 2(1) 3(1) show ?thesis by blast
qed

end
