(* ===== verification/Job_Life.thy ===== *)
theory Job_Life
  imports Job_Queue
begin

text \<open>
  The life of one job, as the users of the queue think of it, and the proof that the queue implements it: what any
  sequence of calls on the \<open>scan_jobs\<close> table does to a job is a path of the life cycle.
\<close>

section \<open>The life cycle\<close>

text \<open>A queued job waits, is worked on, and ends completed, failed, cancelled or dead; the number counts the
  attempts that were started. A direct scan has no life in the queue.\<close>

datatype life = New | Waiting nat | Working nat | Failed nat | Completed | Cancelled | Dead | Deleted | Direct

inductive life_step :: "life \<Rightarrow> life \<Rightarrow> bool" where
  staged: "life_step New (Waiting 0)"
| opened: "life_step New Direct"
| taken: "n < MAX_JOB_ATTEMPTS \<Longrightarrow> life_step (Waiting n) (Working (Suc n))"
| succeeded: "life_step (Working n) Completed"
| gave_up: "life_step (Working n) (Failed n)"
| put_back: "n < MAX_JOB_ATTEMPTS \<Longrightarrow> life_step (Working n) (Waiting n)"
| exhausted: "MAX_JOB_ATTEMPTS \<le> n \<Longrightarrow> life_step (Working n) Dead"
| retried: "n < MAX_JOB_ATTEMPTS \<Longrightarrow> life_step (Failed n) (Waiting n)"
| withdrawn: "l \<in> {Waiting n, Working n} \<Longrightarrow> life_step l Cancelled"
| deleted: "l \<notin> {New, Deleted} \<Longrightarrow> life_step l Deleted"

inductive_simps life_step_from: "life_step Completed l" "life_step Cancelled l" "life_step Dead l" "life_step Deleted l"

definition life_of_row :: "scan_job \<Rightarrow> life" where
  "life_of_row r =
     (if sj_payload_json r = None then Direct
      else case sj_status r of
        PENDING \<Rightarrow> Waiting (sj_attempts r)
      | RUNNING \<Rightarrow> Working (sj_attempts r)
      | FAILED \<Rightarrow> Failed (sj_attempts r)
      | COMPLETED \<Rightarrow> Completed
      | CANCELLED \<Rightarrow> Cancelled
      | DEAD \<Rightarrow> Dead)"

definition life_of :: "string \<Rightarrow> queue \<Rightarrow> life" where
  "life_of job s =
     (case load_scan_job job (q_db s) of
        Some r \<Rightarrow> life_of_row r
      | None \<Rightarrow> if job \<in> q_jobs s then Deleted else New)"

section \<open>The queue implements it\<close>

lemma row_step_life:
  assumes "row_step s t r r'" and "row_ok s r"
  shows "life_of_row r' = life_of_row r \<or> life_step (life_of_row r) (life_of_row r')"
proof (cases "sj_payload_json r = None")
  case True
  with row_step_payload [OF assms(1)] show ?thesis by (simp add: life_of_row_def)
next
  case False
  with assms show ?thesis
  proof cases
    case (retried msg now)
    then show ?thesis using False by (auto simp: life_of_row_def intro: life_step.retried)
  next
    case (requeued cutoff now)
    then show ?thesis using False
      by (auto simp: life_of_row_def is_stale_def requeued_def bury_row_def requeue_row_def intro: life_step.put_back life_step.exhausted)
  next
    case (cancelled msg now)
    then show ?thesis using False by (auto simp: life_of_row_def intro: life_step.withdrawn)
  next
    case (claimed token now)
    then show ?thesis using False by (auto simp: life_of_row_def claimable_def intro: life_step.taken)
  next
    case (progress f st now)
    then show ?thesis using False by (auto simp: life_of_row_def progress_only_def intro: life_step.gave_up)
  qed (auto simp: life_of_row_def row_ok_def intro: life_step.succeeded)
qed

lemma load_in: "load_scan_job job d = Some r \<Longrightarrow> r \<in> set (scan_jobs d) \<and> sj_job_id r = job"
  by (auto simp: load_scan_job_def dest: sql_first_Some)

lemma load_None: "load_scan_job job d = None \<longleftrightarrow> (\<forall>r \<in> set (scan_jobs d). sj_job_id r \<noteq> job)"
  by (simp add: load_scan_job_def sql_first_None)

lemma load_key: "distinct (map sj_job_id (scan_jobs d)) \<Longrightarrow> r \<in> set (scan_jobs d) \<Longrightarrow> load_scan_job (sj_job_id r) d = Some r"
  by (simp add: load_scan_job_def sql_first_key)

lemma life_of_row_alive [simp]: "life_of_row r \<noteq> New" "life_of_row r \<noteq> Deleted"
  by (simp_all add: life_of_row_def split: job_status.split)

text \<open>An id is first used together with the row that has it.\<close>

lemma job_step_new_id:
  assumes "job_step s e t" and wf: "jobs_wf s" and "job \<in> q_jobs t" and "job \<notin> q_jobs s"
  shows "\<exists>r \<in> set (scan_jobs (q_db t)). sj_job_id r = job"
proof -
  have none: "\<forall>r \<in> set (scan_jobs (q_db s)). sj_job_id r \<noteq> job" using assms(4) wf by (auto simp: jobs_wf_def)
  show ?thesis
    using assms(1)
  proof cases
    case (stage job' f w p now1 now2)
    with assms(3,4) have "job' = job" by auto
    from stage_writes_rows [OF none stage(4)] obtain r
      where "scan_jobs (stage_writes job w p f now1 now2 (q_db s)) = scan_jobs (q_db s) @ [r]" "sj_job_id r = job" .
    with stage \<open>job' = job\<close> show ?thesis by auto
  next
    case (open_direct job' w now)
    with assms(3,4) have "job' = job" by auto
    from create_direct_rows [OF none] obtain r
      where "scan_jobs (create_scan_job job w None RUNNING None now (q_db s)) = scan_jobs (q_db s) @ [r]" "sj_job_id r = job" .
    with open_direct \<open>job' = job\<close> show ?thesis by auto
  qed (use assms(3,4) in auto)
qed

lemma job_step_life:
  assumes "job_step s e t" and inv: "queue_inv s"
  shows "life_of job t = life_of job s \<or> life_step (life_of job s) (life_of job t)"
proof -
  have wf: "jobs_wf s" "ghosts_ok s" "\<forall>r \<in> set (scan_jobs (q_db s)). row_ok s r" using inv by (simp_all add: queue_inv_def)
  have wft: "distinct (map sj_job_id (scan_jobs (q_db t)))" using job_step_inv [OF assms] by (simp add: queue_inv_def jobs_wf_def)
  obtain h K new where t: "scan_jobs (q_db t) = map h (filter K (scan_jobs (q_db s))) @ new"
    and h: "\<forall>r \<in> set (scan_jobs (q_db s)). row_step s t r (h r)"
    and new: "\<forall>n \<in> set new. fresh_row s t n \<and> sj_job_id n \<in> q_jobs t"
    using job_step_shape [OF assms(1) wf(1,2)] by (auto simp: step_shape_def)
  have jobs: "q_jobs s \<subseteq> q_jobs t" by (rule job_step_ghosts(1) [OF assms])
  show ?thesis
  proof (cases "load_scan_job job (q_db s)")
    case (Some r)
    then have r: "r \<in> set (scan_jobs (q_db s))" "sj_job_id r = job" using load_in by blast+
    then have known: "job \<in> q_jobs s" using wf(1) by (auto simp: jobs_wf_def)
    have step: "row_step s t r (h r)" using h r(1) by blast
    show ?thesis
    proof (cases "K r")
      case True
      with r(1) have "h r \<in> set (scan_jobs (q_db t))" by (simp add: t)
      with load_key [OF wft] row_step_id [OF step] r(2) have "load_scan_job job (q_db t) = Some (h r)" by metis
      with Some row_step_life [OF step] wf(3) r(1) show ?thesis by (simp add: life_of_def)
    next
      case False
      have "x = r" if "x \<in> set (scan_jobs (q_db s))" "sj_job_id (h x) = job" for x
        using that r wf(1) h row_step_id by (metis distinct_key_eq jobs_wf_def)
      with False have "\<forall>x \<in> set (scan_jobs (q_db t)). sj_job_id x \<noteq> job"
        using new known by (auto simp: t fresh_row_def)
      then have "load_scan_job job (q_db t) = None" by (simp add: load_None)
      moreover have "job \<in> q_jobs t" using known jobs by blast
      ultimately have "life_of job t = Deleted" by (simp add: life_of_def)
      with Some show ?thesis by (simp add: life_of_def life_step.deleted)
    qed
  next
    case None
    then have old: "\<forall>r \<in> set (scan_jobs (q_db s)). sj_job_id (h r) \<noteq> job" using h row_step_id by (metis load_None)
    show ?thesis
    proof (cases "load_scan_job job (q_db t)")
      case None
      with job_step_new_id [OF assms(1) wf(1), of job] jobs have "job \<in> q_jobs t \<longleftrightarrow> job \<in> q_jobs s"
        by (auto simp: load_None)
      with None \<open>load_scan_job job (q_db s) = None\<close> show ?thesis by (simp add: life_of_def)
    next
      case (Some r)
      with load_in have "r \<in> set (scan_jobs (q_db t))" "sj_job_id r = job" by blast+
      with old have "r \<in> set new" by (auto simp: t)
      with new \<open>sj_job_id r = job\<close> have f: "fresh_row s t r" "job \<notin> q_jobs s" by (auto simp: fresh_row_def)
      then have "life_of_row r \<in> {Waiting 0, Direct}" by (auto simp: fresh_row_def life_of_row_def)
      with Some None f(2) show ?thesis by (auto simp: life_of_def intro: life_step.intros)
    qed
  qed
qed

lemma job_reach_life:
  assumes "job_reach s t" and "queue_inv s"
  shows "life_step\<^sup>*\<^sup>* (life_of job s) (life_of job t)"
  using assms(1)
  unfolding job_reach_def
proof (induction rule: rtranclp_induct)
  case (step t u)
  then obtain e where e: "job_step t e u" by blast
  have "queue_inv t" using step(1) assms(2) queue_sys.reach_inv by (auto simp: job_reach_def)
  with job_step_life [OF e this, of job] step(3) show ?case by (metis rtranclp.rtrancl_into_rtrancl)
qed simp

section \<open>Properties\<close>



end
