(* ===== verification/Run_Store.thy ===== *)
theory Run_Store
  imports Workspaces
begin

text \<open>
  Runs as the code holds them in memory and as it stores them: field encryption
  (\<open>src/app/crypto.py\<close>), the translation to and from a row, saving with and without an expected
  revision, loading, the paged listing and deletion (\<open>src/app/db.py\<close>, section "Runs"). Fernet is a
  parameter: \<open>None\<close> is the configuration without a key.
\<close>

section \<open>Field encryption\<close>

record fernet =
  fe_encrypt :: "document \<Rightarrow> string"
  fe_decrypt :: "string \<Rightarrow> document option"

definition protect :: "fernet option \<Rightarrow> document \<Rightarrow> stored" where
  "protect client x = (case client of None \<Rightarrow> Clear x | Some f \<Rightarrow> Fernet_v1 (fe_encrypt f x))"

definition reveal :: "fernet option \<Rightarrow> stored \<Rightarrow> document result" where
  "reveal client x =
     (case x of
        Clear doc \<Rightarrow> Inr doc
      | Fernet_v1 token \<Rightarrow>
          (case client of
             None \<Rightarrow> Inl RuntimeError
           | Some f \<Rightarrow> (case fe_decrypt f token of None \<Rightarrow> Inl InvalidToken | Some doc \<Rightarrow> Inr doc)))"

text \<open>What Fernet promises: a token decrypts to what was encrypted under the same key.\<close>

definition fernet_ok :: "fernet option \<Rightarrow> bool" where
  "fernet_ok client \<longleftrightarrow> (\<forall>f x. client = Some f \<longrightarrow> fe_decrypt f (fe_encrypt f x) = Some x)"

section \<open>Runs in memory\<close>

text \<open>The run as a dictionary. \<open>rn_state\<close> is \<open>None\<close> for the empty dictionary a listing yields.\<close>

record run_doc =
  rn_run_id :: string
  rn_created_at :: timestamp
  rn_updated_at :: timestamp
  rn_status :: string
  rn_archived_at :: "timestamp option"
  rn_workspace_id :: string
  rn_owner_id :: string
  rn_parent_run_id :: "string option"
  rn_version_number :: int
  rn_job_id :: "string option"
  rn_assignee_id :: "string option"
  rn_reviewer_id :: "string option"
  rn_tags :: "ustr list"
  rn_favorite :: bool
  rn_project_id :: "string option"
  rn_tender_sha256 :: "string option"
  rn_duplicate_run_ids :: "string list"
  rn_tender_filename :: string
  rn_tender_path :: string
  rn_evidence_files :: "evidence_file list"
  rn_state :: "research_state option"
  rn_requirements :: "requirement list"
  rn_review :: review_doc
  rn_source_documents :: "source_doc list"
  rn_evidence_assets :: "asset list"
  rn_decision :: "decision_doc option"
  rn_requirement_count :: nat
  rn_unresolved_count :: nat
  rn_blocker_count :: nat
  rn_fatal_risk_count :: nat
  rn_revision :: int

definition unresolved :: "requirement \<Rightarrow> bool" where
  "unresolved q \<longleftrightarrow> rq_status q \<in> {UNKNOWN, NEEDS_REVIEW}"

definition blocker :: "requirement \<Rightarrow> bool" where
  "blocker q \<longleftrightarrow> rq_category q \<in> {FATAL, QUALIFICATION} \<and> rq_status q \<in> {FAIL, UNKNOWN, NEEDS_REVIEW}"

definition requirement_counts :: "requirement list \<Rightarrow> nat \<times> nat \<times> nat \<times> nat" where
  "requirement_counts items =
     (length items, length (filter unresolved items), length (filter blocker items),
      length (filter (\<lambda>q. rq_category q = FATAL) items))"

text \<open>A run without a state cannot be stored: \<open>run["state"]\<close> of a listed run is the empty
  dictionary, which no caller saves.\<close>

definition run_to_storage :: "fernet option \<Rightarrow> run_doc \<Rightarrow> run_row result" where
  "run_to_storage client run =
     (case rn_state run of
        None \<Rightarrow> Inl KeyError
      | Some st \<Rightarrow>
          let (n, unres, block, fatal) = requirement_counts (rn_requirements run)
          in Inr \<lparr>rr_run_id = rn_run_id run, rr_created_at = rn_created_at run,
               rr_updated_at = rn_updated_at run, rr_status = rn_status run,
               rr_archived_at = rn_archived_at run, rr_workspace_id = rn_workspace_id run,
               rr_owner_id = rn_owner_id run, rr_parent_run_id = rn_parent_run_id run,
               rr_version_number = rn_version_number run, rr_job_id = rn_job_id run,
               rr_assignee_id = rn_assignee_id run, rr_reviewer_id = rn_reviewer_id run,
               rr_tags_json = rn_tags run, rr_favorite = rn_favorite run,
               rr_project_id = rn_project_id run, rr_tender_sha256 = rn_tender_sha256 run,
               rr_duplicate_run_ids_json = rn_duplicate_run_ids run,
               rr_tender_filename = rn_tender_filename run, rr_tender_path = rn_tender_path run,
               rr_evidence_files = protect client (EvidenceFilesDoc (rn_evidence_files run)),
               rr_state_json = protect client (StateDoc st),
               rr_requirements_json = protect client (RequirementsDoc (rn_requirements run)),
               rr_review_json = protect client (ReviewDoc (rn_review run)),
               rr_source_documents_json = protect client (SourcesDoc (rn_source_documents run)),
               rr_evidence_assets_json = protect client (AssetsDoc (rn_evidence_assets run)),
               rr_decision_json = protect client (DecisionDoc (rn_decision run)),
               rr_requirement_count = n, rr_unresolved_count = unres, rr_blocker_count = block,
               rr_fatal_risk_count = fatal, rr_revision = rn_revision run\<rparr>)"

text \<open>Readers of the stored columns; a column holds the kind of document its writer put there.\<close>

definition reveal_as :: "fernet option \<Rightarrow> (document \<Rightarrow> 'a option) \<Rightarrow> stored \<Rightarrow> 'a result" where
  "reveal_as client pick x =
     bind_result (reveal client x) (\<lambda>doc. case pick doc of None \<Rightarrow> Inl TypeError | Some y \<Rightarrow> Inr y)"

definition as_files :: "document \<Rightarrow> evidence_file list option" where
  "as_files doc = (case doc of EvidenceFilesDoc x \<Rightarrow> Some x | _ \<Rightarrow> None)"

definition as_state :: "document \<Rightarrow> research_state option" where
  "as_state doc = (case doc of StateDoc x \<Rightarrow> Some x | _ \<Rightarrow> None)"

definition as_requirements :: "document \<Rightarrow> requirement list option" where
  "as_requirements doc = (case doc of RequirementsDoc x \<Rightarrow> Some x | _ \<Rightarrow> None)"

definition as_review :: "document \<Rightarrow> review_doc option" where
  "as_review doc = (case doc of ReviewDoc x \<Rightarrow> Some x | _ \<Rightarrow> None)"

definition as_sources :: "document \<Rightarrow> source_doc list option" where
  "as_sources doc = (case doc of SourcesDoc x \<Rightarrow> Some x | _ \<Rightarrow> None)"

definition as_assets :: "document \<Rightarrow> asset list option" where
  "as_assets doc = (case doc of AssetsDoc x \<Rightarrow> Some x | _ \<Rightarrow> None)"

definition as_decision :: "document \<Rightarrow> decision_doc option option" where
  "as_decision doc = (case doc of DecisionDoc x \<Rightarrow> Some x | _ \<Rightarrow> None)"

text \<open>The plain columns of a row, with the revealed documents filled in.\<close>

definition run_of_row ::
  "run_row \<Rightarrow> evidence_file list \<Rightarrow> research_state option \<Rightarrow> requirement list \<Rightarrow> review_doc
     \<Rightarrow> source_doc list \<Rightarrow> asset list \<Rightarrow> decision_doc option \<Rightarrow> run_doc" where
  "run_of_row r files st reqs rvw sources assets dec =
     \<lparr>rn_run_id = rr_run_id r, rn_created_at = rr_created_at r, rn_updated_at = rr_updated_at r,
      rn_status = rr_status r, rn_archived_at = rr_archived_at r,
      rn_workspace_id = rr_workspace_id r, rn_owner_id = rr_owner_id r,
      rn_parent_run_id = rr_parent_run_id r, rn_version_number = rr_version_number r,
      rn_job_id = rr_job_id r, rn_assignee_id = rr_assignee_id r,
      rn_reviewer_id = rr_reviewer_id r, rn_tags = rr_tags_json r, rn_favorite = rr_favorite r,
      rn_project_id = rr_project_id r, rn_tender_sha256 = rr_tender_sha256 r,
      rn_duplicate_run_ids = rr_duplicate_run_ids_json r,
      rn_tender_filename = rr_tender_filename r, rn_tender_path = rr_tender_path r,
      rn_evidence_files = files, rn_state = st, rn_requirements = reqs, rn_review = rvw,
      rn_source_documents = sources, rn_evidence_assets = assets, rn_decision = dec,
      rn_requirement_count = rr_requirement_count r, rn_unresolved_count = rr_unresolved_count r,
      rn_blocker_count = rr_blocker_count r, rn_fatal_risk_count = rr_fatal_risk_count r,
      rn_revision = (if rr_revision r = 0 then 1 else rr_revision r)\<rparr>"

definition run_from_storage :: "fernet option \<Rightarrow> run_row \<Rightarrow> run_doc result" where
  "run_from_storage client r =
     bind_result (reveal_as client as_state (rr_state_json r)) (\<lambda>st.
     bind_result (reveal_as client as_requirements (rr_requirements_json r)) (\<lambda>reqs.
     bind_result (reveal_as client as_review (rr_review_json r)) (\<lambda>rvw.
     bind_result (reveal_as client as_sources (rr_source_documents_json r)) (\<lambda>sources.
     bind_result (reveal_as client as_assets (rr_evidence_assets_json r)) (\<lambda>assets.
     bind_result (reveal_as client as_decision (rr_decision_json r)) (\<lambda>dec.
     bind_result (reveal_as client as_files (rr_evidence_files r)) (\<lambda>files.
       Inr (run_of_row r files (Some st) reqs rvw sources assets dec))))))))"

text \<open>The same function on a row of a listing, which selects \<open>RUN_LIST_COLUMNS\<close> only: the missing
  documents are replaced by empty ones.\<close>

definition listed_run :: "fernet option \<Rightarrow> run_row \<Rightarrow> run_doc result" where
  "listed_run client r =
     bind_result (reveal_as client as_decision (rr_decision_json r)) (\<lambda>dec.
     bind_result (reveal_as client as_files (rr_evidence_files r)) (\<lambda>files.
       Inr (run_of_row r files None [] \<lparr>rv_items = [], rv_updated_at = rr_updated_at r\<rparr> [] [] dec)))"

section \<open>Operations\<close>

definition save_run ::
  "fernet option \<Rightarrow> timestamp \<Rightarrow> run_doc \<Rightarrow> int option \<Rightarrow> (db, run_doc) handler" where
  "save_run client now run expected d =
     (case run_to_storage client run of
        Inl e \<Rightarrow> (Inl e, d)
      | Inr row \<Rightarrow>
          let d1 = ensure_workspace_row now (rn_workspace_id run) d
          in case expected of
               None \<Rightarrow>
                 (Inr run, d1\<lparr>runs := sql_upsert (\<lambda>r. rr_run_id r = rr_run_id row) (\<lambda>_. row) row (runs d1)\<rparr>)
             | Some n \<Rightarrow>
                 let P = (\<lambda>r. rr_run_id r = rr_run_id row \<and> rr_revision r = n)
                 in if sql_count P (runs d1) \<noteq> 1 then (Inl (HTTPException 409), d)
                    else (Inr (run\<lparr>rn_revision := n + 1\<rparr>),
                          d1\<lparr>runs := sql_update P (\<lambda>_. row\<lparr>rr_revision := n + 1\<rparr>) (runs d1)\<rparr>))"

definition load_run :: "fernet option \<Rightarrow> string \<Rightarrow> db \<Rightarrow> run_doc option result" where
  "load_run client run d =
     (case sql_first (\<lambda>r. rr_run_id r = run) (runs d) of
        None \<Rightarrow> Inr None
      | Some r \<Rightarrow> bind_result (run_from_storage client r) (\<lambda>x. Inr (Some x)))"

record run_query =
  qy_workspace_id :: "string option"
  qy_include_archived :: bool
  qy_project_id :: "string option"
  qy_limit :: "nat option"
  qy_offset :: nat
  qy_after_created_at :: "timestamp option"
  qy_after_run_id :: "string option"

definition run_order :: "run_row \<Rightarrow> timestamp \<times> string" where
  "run_order r = (rr_created_at r, rr_run_id r)"

definition run_filter :: "run_query \<Rightarrow> run_row \<Rightarrow> bool" where
  "run_filter q r \<longleftrightarrow> (qy_workspace_id q = None \<or> qy_workspace_id q = Some (rr_workspace_id r))
     \<and> (qy_include_archived q \<or> rr_archived_at r = None)
     \<and> (qy_project_id q = None \<or> qy_project_id q = Some '''' \<or> qy_project_id q = rr_project_id r)"

definition list_run_rows :: "run_query \<Rightarrow> db \<Rightarrow> run_row list" where
  "list_run_rows q d =
     (let rows = order_by_desc run_order (sql_select (run_filter q) (runs d));
          rows1 = (case (qy_after_created_at q, qy_after_run_id q) of
                     (Some t, Some x) \<Rightarrow>
                       if x = '''' then drop (qy_offset q) rows else filter (\<lambda>r. run_order r < (t, x)) rows
                   | _ \<Rightarrow> drop (qy_offset q) rows)
      in case qy_limit q of None \<Rightarrow> rows1 | Some n \<Rightarrow> take n rows1)"

definition list_runs :: "fernet option \<Rightarrow> run_query \<Rightarrow> db \<Rightarrow> run_doc list result" where
  "list_runs client q d = map_result (listed_run client) (list_run_rows q d)"

definition list_evidence_assets :: "fernet option \<Rightarrow> string \<Rightarrow> db \<Rightarrow> (string \<times> asset) list result" where
  "list_evidence_assets client w d =
     bind_result
       (map_result (\<lambda>r. bind_result (reveal_as client as_assets (rr_evidence_assets_json r))
                         (\<lambda>assets. Inr (map (Pair (rr_run_id r)) assets)))
         (sql_select (\<lambda>r. rr_workspace_id r = w) (runs d)))
       (\<lambda>xss. Inr (concat xss))"

definition delete_run :: "string \<Rightarrow> db \<Rightarrow> bool \<times> db" where
  "delete_run run d =
     (sql_count (\<lambda>r. rr_run_id r = run) (runs d) > 0,
      d\<lparr>comments := sql_delete (\<lambda>c. cm_run_id c = run) (comments d),
        remediations := sql_delete (\<lambda>m. rm_run_id m = run) (remediations d),
        accuracy_feedback := sql_delete (\<lambda>f. fb_run_id f = run) (accuracy_feedback d),
        scan_jobs := sql_delete (\<lambda>j. sj_run_id j = Some run) (scan_jobs d),
        runs := sql_delete (\<lambda>r. rr_run_id r = run) (runs d)\<rparr>)"

definition find_duplicate_run_ids :: "string \<Rightarrow> string \<Rightarrow> db \<Rightarrow> string list" where
  "find_duplicate_run_ids w sha d =
     map rr_run_id (order_by_desc rr_created_at
       (sql_select (\<lambda>r. rr_workspace_id r = w \<and> rr_tender_sha256 r = Some sha) (runs d)))"

definition archived_time :: "run_row \<Rightarrow> timestamp" where
  "archived_time r = (case rr_archived_at r of Some t \<Rightarrow> t | None \<Rightarrow> 0)"

definition list_expired_archived_run_ids :: "string \<Rightarrow> timestamp \<Rightarrow> db \<Rightarrow> string list" where
  "list_expired_archived_run_ids w cutoff d =
     map rr_run_id (order_by archived_time
       (sql_select (\<lambda>r. rr_workspace_id r = w \<and> rr_archived_at r \<noteq> None \<and> archived_time r < cutoff) (runs d)))"

section \<open>Scoped access\<close>

definition require :: "fernet option \<Rightarrow> string \<Rightarrow> db \<Rightarrow> run_doc result" where
  "require client run d =
     bind_result (load_run client run d) (\<lambda>x. case x of None \<Rightarrow> Inl (HTTPException 404) | Some r \<Rightarrow> Inr r)"

definition require_scoped :: "fernet option \<Rightarrow> string \<Rightarrow> principal \<Rightarrow> db \<Rightarrow> run_doc result" where
  "require_scoped client run pr d =
     bind_result (require client run d) (\<lambda>r.
       if rn_workspace_id r \<noteq> pr_workspace_id pr then Inl (HTTPException 404)
       else if \<not> user_can_access_project pr (rn_project_id r) d then Inl (HTTPException 404)
       else Inr r)"

section \<open>Facts\<close>

lemma reveal_protect [simp]:
  assumes "fernet_ok client"
  shows "reveal client (protect client x) = Inr x"
  using assms by (auto simp: reveal_def protect_def fernet_ok_def split: option.splits)

lemma reveal_as_protect [simp]:
  "fernet_ok client \<Longrightarrow> reveal_as client pick (protect client x)
     = (case pick x of None \<Rightarrow> Inl TypeError | Some y \<Rightarrow> Inr y)"
  by (simp add: reveal_as_def)

lemma as_simps [simp]:
  "as_files (EvidenceFilesDoc a) = Some a" "as_state (StateDoc b) = Some b"
  "as_requirements (RequirementsDoc c) = Some c" "as_review (ReviewDoc e) = Some e"
  "as_sources (SourcesDoc f) = Some f" "as_assets (AssetsDoc g) = Some g"
  "as_decision (DecisionDoc h) = Some h"
  by (simp_all add: as_files_def as_state_def as_requirements_def as_review_def as_sources_def
      as_assets_def as_decision_def)

text \<open>The counters a save recomputes.\<close>

definition recount :: "run_doc \<Rightarrow> run_doc" where
  "recount run = (let (n, unres, block, fatal) = requirement_counts (rn_requirements run)
     in run\<lparr>rn_requirement_count := n, rn_unresolved_count := unres, rn_blocker_count := block,
            rn_fatal_risk_count := fatal\<rparr>)"

lemma storage_roundtrip:
  assumes "fernet_ok client" and "run_to_storage client run = Inr row" and "k \<noteq> 0"
  shows "run_from_storage client (row\<lparr>rr_revision := k\<rparr>) = Inr ((recount run)\<lparr>rn_revision := k\<rparr>)"
  using assms
  by (auto simp: run_to_storage_def run_from_storage_def run_of_row_def recount_def Let_def
      split: option.splits prod.splits)

lemma run_to_storage_Some:
  "rn_state run \<noteq> None \<Longrightarrow> \<exists>row. run_to_storage client run = Inr row"
  by (auto simp: run_to_storage_def Let_def split: prod.splits)

lemma run_to_storage_fields [simp]:
  assumes "run_to_storage client run = Inr row"
  shows "rr_run_id row = rn_run_id run" "rr_revision row = rn_revision run"
    "rr_workspace_id row = rn_workspace_id run"
  using assms by (auto simp: run_to_storage_def Let_def split: option.splits prod.splits)

lemma runs_ensure_workspace [simp]: "runs (ensure_workspace_row now w d) = runs d"
  by (fact ensure_workspace_row_tables)

definition stored_revision :: "string \<Rightarrow> db \<Rightarrow> int option" where
  "stored_revision run d = map_option rr_revision (sql_first (\<lambda>r. rr_run_id r = run) (runs d))"

definition runs_wf :: "db \<Rightarrow> bool" where
  "runs_wf d \<longleftrightarrow> distinct (map rr_run_id (runs d))"

lemma count_stored:
  assumes "runs_wf d"
  shows "sql_count (\<lambda>r. rr_run_id r = run \<and> rr_revision r = n) (runs d)
    = (if stored_revision run d = Some n then 1 else 0)"
  using assms sql_count_key [of rr_run_id "runs d" run "\<lambda>r. rr_revision r = n"]
  by (simp add: runs_wf_def stored_revision_def split: option.splits)

text \<open>A conditional save wins exactly when the stored revision is the expected one.\<close>

lemma save_run_cas:
  assumes "runs_wf d" and "rn_state run \<noteq> None"
  shows "fst (save_run client now run (Some n) d)
      = (if stored_revision (rn_run_id run) d = Some n then Inr (run\<lparr>rn_revision := n + 1\<rparr>) else Inl (HTTPException 409))"
    and "stored_revision (rn_run_id run) d \<noteq> Some n \<Longrightarrow> snd (save_run client now run (Some n) d) = d"
    and "stored_revision (rn_run_id run) d = Some n
      \<Longrightarrow> stored_revision (rn_run_id run) (snd (save_run client now run (Some n) d)) = Some (n + 1)"
    and "runs_wf (snd (save_run client now run (Some n) d))"
proof -
  from assms(2) obtain row where row: "run_to_storage client run = Inr row"
    using run_to_storage_Some by blast
  let ?P = "\<lambda>r. rr_run_id r = rn_run_id run \<and> rr_revision r = n"
  have cnt: "sql_count ?P (runs d) = (if stored_revision (rn_run_id run) d = Some n then 1 else 0)"
    using assms(1) by (rule count_stored)
  have first: "sql_first (\<lambda>r. rr_run_id r = rn_run_id run) (sql_update ?P (\<lambda>_. row\<lparr>rr_revision := n + 1\<rparr>) (runs d))
      = map_option (\<lambda>r. if ?P r then row\<lparr>rr_revision := n + 1\<rparr> else r) (sql_first (\<lambda>r. rr_run_id r = rn_run_id run) (runs d))"
    using row by (intro sql_first_update) simp
  show "fst (save_run client now run (Some n) d)
      = (if stored_revision (rn_run_id run) d = Some n then Inr (run\<lparr>rn_revision := n + 1\<rparr>) else Inl (HTTPException 409))"
    using row cnt by (simp add: save_run_def Let_def)
  show "stored_revision (rn_run_id run) d \<noteq> Some n \<Longrightarrow> snd (save_run client now run (Some n) d) = d"
    using row cnt by (simp add: save_run_def Let_def)
  show "stored_revision (rn_run_id run) d = Some n
      \<Longrightarrow> stored_revision (rn_run_id run) (snd (save_run client now run (Some n) d)) = Some (n + 1)"
  proof -
    assume stored: "stored_revision (rn_run_id run) d = Some n"
    then obtain z where "sql_first (\<lambda>r. rr_run_id r = rn_run_id run) (runs d) = Some z" "rr_revision z = n"
      by (auto simp: stored_revision_def)
    moreover from this have "rr_run_id z = rn_run_id run" by (auto dest: sql_first_Some)
    ultimately have "sql_first (\<lambda>r. rr_run_id r = rn_run_id run)
        (sql_update ?P (\<lambda>_. row\<lparr>rr_revision := n + 1\<rparr>) (runs d)) = Some (row\<lparr>rr_revision := n + 1\<rparr>)"
      using first by simp
    then show ?thesis
      using row cnt stored by (simp add: save_run_def Let_def stored_revision_def)
  qed
  have "map rr_run_id (sql_update ?P (\<lambda>_. row\<lparr>rr_revision := n + 1\<rparr>) (runs d)) = map rr_run_id (runs d)"
    using row by (intro map_sql_update) simp
  then show "runs_wf (snd (save_run client now run (Some n) d))"
    using assms(1) row by (simp add: save_run_def Let_def runs_wf_def)
qed

text \<open>Saving against one revision, as a one-shot operation: whoever saves first against revision
  \<open>n\<close> of a run spends it.\<close>

definition cas :: "fernet option \<Rightarrow> string \<Rightarrow> int \<Rightarrow> timestamp \<times> run_doc \<Rightarrow> db \<Rightarrow> run_doc option \<times> db" where
  "cas client run n q d =
     (case save_run client (fst q) ((snd q)\<lparr>rn_run_id := run\<rparr>) (Some n) d of
        (Inl _, d') \<Rightarrow> (None, d') | (Inr r, d') \<Rightarrow> (Some r, d'))"

definition revision_spent :: "string \<Rightarrow> int \<Rightarrow> db \<Rightarrow> bool" where
  "revision_spent run n d \<longleftrightarrow> sql_count (\<lambda>r. rr_run_id r = run \<and> rr_revision r = n) (runs d) \<noteq> 1"

lemma cas_cases:
  obtains (refused) "cas client run n q d = (None, d)"
  | (won) r d' where "cas client run n q d = (Some r, d')" "\<not> revision_spent run n d" "revision_spent run n d'"
proof (cases "run_to_storage client ((snd q)\<lparr>rn_run_id := run\<rparr>)")
  case (Inl e)
  then show thesis by (intro refused) (simp add: cas_def save_run_def)
next
  case (Inr row)
  then have id: "rr_run_id row = run" by simp
  let ?P = "\<lambda>r. rr_run_id r = run \<and> rr_revision r = n"
  let ?t = "sql_update ?P (\<lambda>_. row\<lparr>rr_revision := n + 1\<rparr>) (runs d)"
  have "\<not> ?P (if ?P r then row\<lparr>rr_revision := n + 1\<rparr> else r)" for r by simp
  then have "sql_count ?P ?t = 0" by (simp only: sql_count_def sql_update_def filter_map comp_def) simp
  then show thesis
    using Inr id refused won
    by (cases "sql_count ?P (runs d) = 1") (auto simp: cas_def save_run_def Let_def revision_spent_def)
qed

interpretation revision_cas: one_shot "cas client run n" "revision_spent run n"
proof
  fix q d r
  show "revision_spent run n (snd (cas client run n q d))" if "fst (cas client run n q d) = Some r"
    using that by (cases rule: cas_cases [of client run n q d]) auto
  show "fst (cas client run n q d) = None" if "revision_spent run n d"
    using that by (cases rule: cas_cases [of client run n q d]) auto
  show "revision_spent run n (snd (cas client run n q d))" if "revision_spent run n d"
    using that by (cases rule: cas_cases [of client run n q d]) auto
qed

section \<open>Properties\<close>

lemma save_then_load:
  assumes "fernet_ok client" and "runs_wf d" and "rn_revision run \<noteq> 0" and "\<forall>n. expected = Some n \<longrightarrow> n \<noteq> -1"
    and "save_run client now run expected d = (Inr run', d')"
  shows "load_run client (rn_run_id run) d' = Inr (Some (recount run'))"
proof -
  obtain row where row: "run_to_storage client run = Inr row"
    using assms(5) by (auto simp: save_run_def split: sum.splits)
  show ?thesis
  proof (cases expected)
    case None
    have "sql_first (\<lambda>r. rr_run_id r = rn_run_id run) (runs d') = Some row"
      using assms(5) row None sql_first_upsert [of "\<lambda>r. rr_run_id r = rn_run_id run" rr_run_id "rn_run_id run" row]
      by (auto simp: save_run_def Let_def)
    moreover have "run' = run" using assms(5) row None by (simp add: save_run_def Let_def)
    moreover have "run_from_storage client row = Inr (recount run)"
    proof -
      have "row\<lparr>rr_revision := rn_revision run\<rparr> = row" using row by (metis run_to_storage_fields(2) run_row.surjective run_row.update_convs(31))
      then show ?thesis
        using storage_roundtrip [OF assms(1) row assms(3)] by (simp add: recount_def split: prod.splits)
    qed
    ultimately show ?thesis by (simp add: load_run_def)
  next
    case (Some n)
    let ?P = "\<lambda>r. rr_run_id r = rn_run_id run \<and> rr_revision r = n"
    let ?row = "row\<lparr>rr_revision := n + 1\<rparr>"
    have cnt: "sql_count ?P (runs d) = 1" and d': "runs d' = sql_update ?P (\<lambda>_. ?row) (runs d)"
      and run': "run' = run\<lparr>rn_revision := n + 1\<rparr>"
      using assms(5) row Some by (auto simp: save_run_def Let_def split: if_splits)
    from cnt obtain z where z: "sql_first (\<lambda>r. rr_run_id r = rn_run_id run) (runs d) = Some z" "rr_revision z = n"
      unfolding count_stored [OF assms(2)] by (auto simp: stored_revision_def split: if_splits)
    then have "rr_run_id z = rn_run_id run" by (auto dest: sql_first_Some)
    then have "sql_first (\<lambda>r. rr_run_id r = rn_run_id run) (runs d') = Some ?row"
      using z row sql_first_update [of ?P rr_run_id "\<lambda>_. ?row" "rn_run_id run" "runs d"] by (simp add: d')
    moreover have "run_from_storage client ?row = Inr ((recount run)\<lparr>rn_revision := n + 1\<rparr>)"
      using storage_roundtrip [OF assms(1) row, of "n + 1"] assms(4) Some by simp
    ultimately show ?thesis by (simp add: load_run_def run' recount_def split: prod.splits)
  qed
qed

text \<open>C24: What is saved is what is loaded, with field encryption on or off: after a successful
  save, loading the run gives the saved document with its counters recomputed (and the new revision
  after a conditional save).\<close>

theorem save_load_roundtrip:
  assumes "fernet_ok client" and "runs_wf d" and "rn_revision run \<noteq> 0" and "\<forall>n. expected = Some n \<longrightarrow> n \<noteq> -1"
    and "save_run client now run expected d = (Inr run', d')"
  shows "load_run client (rn_run_id run) d' = Inr (Some (recount run'))"
  using assms by (rule save_then_load)

text \<open>C30: Optimistic locking has one winner: of any sequence of saves against the same revision of
  a run, at most one succeeds.\<close>

theorem one_writer_per_revision:
  "length (filter (\<lambda>r. r \<noteq> None) (run_all (cas client run n) saves d)) \<le> 1"
  by (rule revision_cas.at_most_one_winner)

text \<open>A conditional save succeeds exactly when the stored revision is the expected one, and then
  advances it by one; otherwise it raises 409 and the database is unchanged.\<close>

lemma conditional_save_exact:
  assumes "runs_wf d" and "rn_state run \<noteq> None"
  shows "case save_run client now run (Some n) d of
      (Inr run', d') \<Rightarrow> stored_revision (rn_run_id run) d = Some n \<and> rn_revision run' = n + 1
        \<and> stored_revision (rn_run_id run) d' = Some (n + 1) \<and> runs_wf d'
    | (Inl e, d') \<Rightarrow> stored_revision (rn_run_id run) d \<noteq> Some n \<and> e = HTTPException 409 \<and> d' = d"
  using save_run_cas [OF assms, where client = client and now = now and n = n]
  by (cases "stored_revision (rn_run_id run) d = Some n") (auto split: prod.splits sum.splits)

lemma filter_below_nth:
  fixes k :: "'a \<Rightarrow> 'b::linorder"
  assumes "sorted_wrt (\<lambda>a b. k b < k a) xs" and "i < length xs"
  shows "filter (\<lambda>x. k x < k (xs ! i)) xs = drop (Suc i) xs"
  using assms
proof (induction xs arbitrary: i)
  case (Cons a xs)
  show ?case
  proof (cases i)
    case 0
    with Cons.prems(1) show ?thesis by (simp add: filter_id_conv)
  next
    case (Suc j)
    with Cons.prems have "\<not> k a < k (xs ! j)" by (simp add: not_less less_imp_le)
    with Suc Cons show ?thesis by simp
  qed
qed simp

lemma order_by_desc_strict:
  assumes "distinct (map k t)"
  shows "sorted_wrt (\<lambda>a b. k b < k a) (order_by_desc k t)"
proof -
  have "distinct (map k (sort_key k (rev t)))" using assms by (simp add: distinct_map)
  then have "sorted_wrt (\<lambda>a b. a < b) (map k (sort_key k (rev t)))"
    by (simp add: strict_sorted_iff)
  then show ?thesis by (simp add: order_by_desc_def sorted_wrt_map sorted_wrt_rev)
qed

text \<open>C35: Keyset pagination is exact: after a page of \<open>n\<close> rows, the page that starts from the cursor
  of its last row is the next part of the full listing, so pages neither repeat nor lose a run.\<close>

theorem keyset_pages_partition_the_listing:
  assumes "runs_wf d" and "qy_after_created_at q = None" and "qy_offset q = 0" and "qy_limit q = None"
    and "rows = list_run_rows q d" and "0 < n" and "n \<le> length rows" and "r = last (take n rows)"
    and "rr_run_id r \<noteq> ''''"
  shows "list_run_rows (q\<lparr>qy_limit := Some n\<rparr>) d = take n rows
    \<and> list_run_rows (q\<lparr>qy_after_created_at := Some (rr_created_at r), qy_after_run_id := Some (rr_run_id r),
        qy_limit := lim\<rparr>) d = (case lim of None \<Rightarrow> drop n rows | Some m \<Rightarrow> take m (drop n rows))"
proof -
  let ?t = "sql_select (run_filter q) (runs d)"
  have rows: "rows = order_by_desc run_order ?t"
    using assms(2-5) by (simp add: list_run_rows_def)
  have "distinct (map run_order ?t)"
    using assms(1) by (auto simp: runs_wf_def sql_select_def run_order_def distinct_map inj_on_def)
  then have "sorted_wrt (\<lambda>a b. run_order b < run_order a) rows"
    unfolding rows by (rule order_by_desc_strict)
  moreover have "r = rows ! (n - 1)"
    using assms(6-8) by (subst assms(8), subst last_conv_nth) auto
  ultimately have "filter (\<lambda>x. run_order x < run_order r) rows = drop n rows"
    using filter_below_nth [of run_order rows "n - 1"] assms(6,7) by simp
  moreover have "run_filter (q\<lparr>qy_after_created_at := a, qy_after_run_id := b, qy_limit := c\<rparr>) = run_filter q"
    "run_filter (q\<lparr>qy_limit := c\<rparr>) = run_filter q" for a b c
    by (simp_all add: run_filter_def fun_eq_iff)
  ultimately show ?thesis
    using assms(2,3,9) rows by (simp add: list_run_rows_def run_order_def split: option.splits)
qed

section \<open>An example\<close>

definition demo_state :: research_state where
  "demo_state = \<lparr>rs_run_id = ''r1'', rs_status = ''AUDIT'', rs_run_stage = ''SCAN'', rs_company_name = None,
     rs_source_documents = [], rs_evidence_assets = [], rs_evidence_matrix = [], rs_review_events = [],
     rs_decision_record = None, rs_action_plan = [], rs_scan_quality = None, rs_created_at = 0, rs_updated_at = 0\<rparr>"

definition demo_run :: run_doc where
  "demo_run = \<lparr>rn_run_id = ''r1'', rn_created_at = 10, rn_updated_at = 10, rn_status = ''AUDIT'',
     rn_archived_at = None, rn_workspace_id = ''w'', rn_owner_id = ''u'', rn_parent_run_id = None,
     rn_version_number = 1, rn_job_id = None, rn_assignee_id = None, rn_reviewer_id = None, rn_tags = [],
     rn_favorite = False, rn_project_id = None, rn_tender_sha256 = None, rn_duplicate_run_ids = [],
     rn_tender_filename = ''t.pdf'', rn_tender_path = ''/d/r1/t.pdf'', rn_evidence_files = [],
     rn_state = Some demo_state, rn_requirements = [], rn_review = \<lparr>rv_items = [], rv_updated_at = 10\<rparr>,
     rn_source_documents = [], rn_evidence_assets = [], rn_decision = None, rn_requirement_count = 0,
     rn_unresolved_count = 0, rn_blocker_count = 0, rn_fatal_risk_count = 0, rn_revision = 1\<rparr>"

definition demo_db :: db where
  "demo_db = snd (save_run None 10 demo_run None empty_db)"

lemma demo_run_row: "\<exists>row. run_to_storage None demo_run = Inr row"
  by (rule run_to_storage_Some) (simp add: demo_run_def)

lemma demo_db_runs: "\<exists>row. runs demo_db = [row] \<and> run_to_storage None demo_run = Inr row"
  using demo_run_row
  by (auto simp: demo_db_def save_run_def Let_def sql_upsert_def sql_insert_def empty_db_def)

lemma demo_db_wf: "runs_wf demo_db"
  using demo_db_runs by (auto simp: runs_wf_def)

lemma demo_revision: "stored_revision ''r1'' demo_db = Some 1"
  using demo_db_runs
  by (auto simp: stored_revision_def sql_first_def demo_run_def dest: run_to_storage_fields)

theorem save_load_roundtrip_witness:
  "load_run None ''r1'' (snd (save_run None 11 demo_run (Some 1) demo_db)) = Inr (Some (recount (demo_run\<lparr>rn_revision := 2\<rparr>)))"
proof -
  have id: "rn_run_id demo_run = ''r1''" "rn_state demo_run \<noteq> None" by (simp_all add: demo_run_def)
  have "fst (save_run None 11 demo_run (Some 1) demo_db) = Inr (demo_run\<lparr>rn_revision := 2\<rparr>)"
    using save_run_cas(1) [OF demo_db_wf id(2), where client = None and now = 11 and n = 1] demo_revision id by simp
  then have "save_run None 11 demo_run (Some 1) demo_db
      = (Inr (demo_run\<lparr>rn_revision := 2\<rparr>), snd (save_run None 11 demo_run (Some 1) demo_db))"
    by (metis prod.collapse)
  from save_load_roundtrip [OF _ demo_db_wf _ _ this] show ?thesis
    by (simp add: id fernet_ok_def) (simp add: demo_run_def)
qed

lemma conditional_save_exact_example:
  "case save_run None 11 demo_run (Some 7) demo_db of (Inr _, _) \<Rightarrow> False | (Inl e, d') \<Rightarrow> e = HTTPException 409 \<and> d' = demo_db"
  using conditional_save_exact [OF demo_db_wf, where run = demo_run and client = None and now = 11 and n = 7] demo_revision
  by (simp add: demo_run_def split: prod.splits sum.splits)

theorem keyset_pages_partition_the_listing_witness:
  "\<exists>q rows. rows = list_run_rows q demo_db \<and> length rows = 1
     \<and> list_run_rows (q\<lparr>qy_after_created_at := Some 10, qy_after_run_id := Some ''r1'', qy_limit := None\<rparr>) demo_db = []"
proof -
  let ?q = "\<lparr>qy_workspace_id = Some ''w'', qy_include_archived = True, qy_project_id = None, qy_limit = None,
    qy_offset = 0, qy_after_created_at = None, qy_after_run_id = None\<rparr>"
  obtain row where row: "runs demo_db = [row]" "rr_run_id row = ''r1''" "rr_created_at row = 10" "rr_workspace_id row = ''w''"
    using demo_db_runs by (auto simp: run_to_storage_def demo_run_def Let_def split: prod.splits)
  have rows: "list_run_rows ?q demo_db = [row]"
    by (simp add: list_run_rows_def row sql_select_def run_filter_def order_by_desc_def)
  have "list_run_rows (?q\<lparr>qy_after_created_at := Some 10, qy_after_run_id := Some ''r1'', qy_limit := None\<rparr>) demo_db = []"
    using keyset_pages_partition_the_listing [OF demo_db_wf _ _ _ rows [symmetric], where n = 1 and r = row and lim = None]
      row by simp
  with rows show ?thesis by (metis One_nat_def length_Cons list.size(3))
qed

end
