(* ===== verification/Presenters.thy ===== *)
theory Presenters
  imports Run_Store
begin

text \<open>
  The projections of \<open>src/app/presenters.py\<close>: what the API shows of a run, when a review may pass a
  requirement, and the texts of the report rows. Chinese literals are given by their code points. The
  quality-gate snapshot and the fixed explanation that the code adds to a quality summary are left out.
\<close>

section \<open>Pages\<close>

definition missing_locator :: ustr where
  "missing_locator = [23450, 20301, 32570, 22833]"

definition label_or_missing :: "ustr \<Rightarrow> ustr" where
  "label_or_missing l = (if l = [] then missing_locator else l)"

definition locator_label :: "locator \<Rightarrow> ustr" where
  "locator_label l = label_or_missing (loc_label l)"

definition page_index_entry :: "page \<Rightarrow> page_entry" where
  "page_index_entry p =
     \<lparr>pi_page = pg_page p, pi_locator = page_locator p, pi_char_count = pg_char_count p,
      pi_ocr_required = pg_ocr_required p, pi_low_text_confidence = pg_low_text_confidence p,
      pi_ocr_status = (case pg_ocr_status p of None \<Rightarrow> ''NOT_REQUIRED'' | Some s \<Rightarrow> s),
      pi_ocr_provider = pg_ocr_provider p, pi_ocr_confidence = pg_ocr_confidence p,
      pi_block_count = length (pg_blocks p)\<rparr>"

definition page_index :: "page list \<Rightarrow> page_entry list" where
  "page_index pages = map page_index_entry pages"

definition scan_quality :: "page list \<Rightarrow> page list \<Rightarrow> scan_quality_doc" where
  "scan_quality tender_pages evidence_pages =
     (let pages = tender_pages @ evidence_pages
      in \<lparr>sq_total_pages = length pages, sq_text_pages = length (filter pg_has_text pages),
          sq_ocr_required_pages = length (filter pg_ocr_required pages),
          sq_ocr_failed_pages = length (filter (\<lambda>p. pg_ocr_status p = Some ''FAILED'') pages),
          sq_low_text_confidence_pages = length (filter pg_low_text_confidence pages)\<rparr>)"

definition quality_for_run :: "run_doc \<Rightarrow> scan_quality_doc" where
  "quality_for_run run =
     (case rn_state run of
        Some st \<Rightarrow> (case rs_scan_quality st of Some q \<Rightarrow> q
           | None \<Rightarrow> (let n = sum_list (map sd_pages (rn_source_documents run))
               in \<lparr>sq_total_pages = n, sq_text_pages = n, sq_ocr_required_pages = 0,
                   sq_ocr_failed_pages = 0, sq_low_text_confidence_pages = 0\<rparr>))
      | None \<Rightarrow> (let n = sum_list (map sd_pages (rn_source_documents run))
           in \<lparr>sq_total_pages = n, sq_text_pages = n, sq_ocr_required_pages = 0,
               sq_ocr_failed_pages = 0, sq_low_text_confidence_pages = 0\<rparr>))"

section \<open>Run views\<close>

record run_summary =
  su_run_id :: string
  su_workspace_id :: string
  su_owner_id :: string
  su_parent_run_id :: "string option"
  su_version_number :: int
  su_job_id :: "string option"
  su_assignee_id :: "string option"
  su_reviewer_id :: "string option"
  su_tags :: "ustr list"
  su_favorite :: bool
  su_status :: string
  su_created_at :: timestamp
  su_updated_at :: timestamp
  su_tender_filename :: string
  su_requirement_count :: nat
  su_unresolved_count :: nat
  su_blocker_count :: nat
  su_fatal_risk_count :: nat
  su_decision :: "decision_doc option"
  su_archived_at :: "timestamp option"
  su_scan_quality :: scan_quality_doc
  su_revision :: int

definition summary_counts :: "run_doc \<Rightarrow> nat \<times> nat \<times> nat \<times> nat" where
  "summary_counts run =
     (let reqs = rn_requirements run
      in if reqs \<noteq> []
         then (length reqs, length (filter unresolved reqs), length (filter blocker reqs),
               length (filter (\<lambda>q. rq_category q = FATAL) reqs))
         else (rn_requirement_count run, rn_unresolved_count run, rn_blocker_count run, rn_fatal_risk_count run))"

definition public_summary :: "run_doc \<Rightarrow> run_summary" where
  "public_summary run =
     (let (n, unres, block, fatal) = summary_counts run
      in \<lparr>su_run_id = rn_run_id run, su_workspace_id = rn_workspace_id run, su_owner_id = rn_owner_id run,
          su_parent_run_id = rn_parent_run_id run, su_version_number = rn_version_number run,
          su_job_id = rn_job_id run, su_assignee_id = rn_assignee_id run,
          su_reviewer_id = rn_reviewer_id run, su_tags = rn_tags run, su_favorite = rn_favorite run,
          su_status = rn_status run, su_created_at = rn_created_at run, su_updated_at = rn_updated_at run,
          su_tender_filename = rn_tender_filename run, su_requirement_count = n,
          su_unresolved_count = unres, su_blocker_count = block, su_fatal_risk_count = fatal,
          su_decision = rn_decision run, su_archived_at = rn_archived_at run,
          su_scan_quality = quality_for_run run,
          su_revision = (if rn_revision run = 0 then 1 else rn_revision run)\<rparr>)"

record run_view =
  rw_summary :: run_summary
  rw_project_id :: "string option"
  rw_tender_sha256 :: "string option"
  rw_duplicate_run_ids :: "string list"
  rw_evidence_files :: "(string \<times> string \<times> string \<times> string \<times> string \<times> string option \<times> nat) list"
  rw_source_documents :: "source_doc list"
  rw_evidence_assets :: "asset list"
  rw_requirements :: "requirement list"
  rw_review :: review_doc
  rw_research_state :: "research_state option"

definition public_run :: "run_doc \<Rightarrow> run_view" where
  "public_run run =
     \<lparr>rw_summary = public_summary run, rw_project_id = rn_project_id run,
      rw_tender_sha256 = rn_tender_sha256 run, rw_duplicate_run_ids = rn_duplicate_run_ids run,
      rw_evidence_files = map (\<lambda>a. (as_asset_id a, as_filename a, as_file_type a, as_sha256 a,
                                    as_category a, as_valid_until a, as_pages a)) (rn_evidence_assets run),
      rw_source_documents = rn_source_documents run, rw_evidence_assets = rn_evidence_assets run,
      rw_requirements = rn_requirements run, rw_review = rn_review run, rw_research_state = rn_state run\<rparr>"

text \<open>\<open>casefold\<close> is \<open>str.casefold\<close>.\<close>

definition requirement_signature :: "(ustr \<Rightarrow> ustr) \<Rightarrow> requirement \<Rightarrow> category \<times> ustr" where
  "requirement_signature casefold q = (rq_category q, casefold (squeeze (rq_title q)))"

section \<open>Reviews\<close>

datatype review_decision = Verdict req_status | CONFIRM | REJECT | REQUEST_EVIDENCE

definition resolve_review_status :: "review_decision \<Rightarrow> req_status option \<Rightarrow> req_status \<Rightarrow> req_status" where
  "resolve_review_status decision new_status old_status =
     (case decision of
        Verdict s \<Rightarrow> s
      | CONFIRM \<Rightarrow> (case new_status of Some s \<Rightarrow> s
                     | None \<Rightarrow> if old_status \<in> {PASS, FAIL} then old_status else NEEDS_REVIEW)
      | REJECT \<Rightarrow> NEEDS_REVIEW
      | REQUEST_EVIDENCE \<Rightarrow> UNKNOWN)"

definition has_complete_citation :: "requirement \<Rightarrow> bool" where
  "has_complete_citation q \<longleftrightarrow>
     loc_label (cit_locator (rq_source q)) \<noteq> [] \<and> cit_quote (rq_source q) \<noteq> []
     \<and> list_ex (\<lambda>e. loc_label (ev_locator e) \<noteq> [] \<and> ev_quote e \<noteq> []) (rq_evidence q)"

section \<open>Report rows\<close>

definition evidence_gap :: "requirement \<Rightarrow> ustr" where
  "evidence_gap q =
     (if rq_status q = PASS \<and> rq_evidence q \<noteq> [] then
        [24050, 23450, 20301, 20225, 19994, 35777, 25454, 65292, 20173, 38656, 20154, 24037, 30830, 35748, 21407, 20214, 26377, 25928, 24615]
      else if rq_category q \<in> {QUALIFICATION, CREDENTIAL, BOND, SIGNATURE} then
        [26410, 23450, 20301, 21040, 21487, 26680, 39564, 30340, 20225, 19994, 35777, 25454]
      else
        [35813, 39033, 20027, 35201, 20381, 36182, 25307, 26631, 21407, 25991, 65292, 38656, 20154, 24037, 30830, 35748, 36866, 29992, 26465, 20214])"

definition risk_impact :: "requirement \<Rightarrow> ustr" where
  "risk_impact q =
     (if rq_category q = FATAL then [21487, 33021, 23548, 33268, 24223, 26631, 25110, 36164, 26684, 22833, 25928]
      else if rq_category q = QUALIFICATION then [21487, 33021, 23548, 33268, 36164, 26684, 23457, 26597, 19981, 36890, 36807]
      else if rq_category q = DEADLINE then [38169, 36807, 33410, 28857, 21487, 33021, 23548, 33268, 25991, 20214, 19981, 34987, 25509, 25910]
      else [21487, 33021, 24433, 21709, 21512, 35268, 24615, 12289, 35780, 20998, 25110, 26448, 26009, 23436, 25972, 24615])"

definition next_action :: "requirement \<Rightarrow> ustr" where
  "next_action q =
     (if rq_status q \<in> {UNKNOWN, NEEDS_REVIEW} then [34917, 20805, 35777, 25454, 24182, 30001, 20154, 24037, 22797, 26680]
      else if rq_status q = FAIL then [26680, 23545, 21407, 25991, 24182, 21046, 23450, 39118, 38505, 22788, 32622, 26041, 26696]
      else [20445, 30041, 21407, 25991, 23450, 20301, 24182, 30830, 35748, 21407, 20214, 26377, 25928])"

record report_row_doc =
  rep_requirement_id :: string
  rep_category :: category
  rep_label :: ustr
  rep_status :: req_status
  rep_severity :: severity
  rep_title :: ustr
  rep_tender_locator :: ustr
  rep_evidence_locators :: ustr
  rep_evidence_gap :: ustr
  rep_risk_impact :: ustr
  rep_next_action :: ustr

definition report_row :: "requirement \<Rightarrow> report_row_doc" where
  "report_row q =
     \<lparr>rep_requirement_id = rq_requirement_id q, rep_category = rq_category q, rep_label = rq_label q,
      rep_status = rq_status q, rep_severity = rq_severity q, rep_title = rq_title q,
      rep_tender_locator = locator_label (cit_locator (rq_source q)),
      rep_evidence_locators = join (asc ''; '')
        (map (\<lambda>e. asc (ev_filename e) @ [32] @ locator_label (ev_locator e)) (rq_evidence q)),
      rep_evidence_gap = evidence_gap q, rep_risk_impact = risk_impact q, rep_next_action = next_action q\<rparr>"

text \<open>\<open>html.escape\<close> with quotes.\<close>

fun html_escape :: "ustr \<Rightarrow> ustr" where
  "html_escape [] = []"
| "html_escape (c # s) =
     (if c = 38 then asc ''&amp;'' else if c = 60 then asc ''&lt;'' else if c = 62 then asc ''&gt;''
      else if c = 34 then asc ''&quot;'' else if c = 39 then asc ''&#x27;'' else [c]) @ html_escape s"

definition not_located :: ustr where
  "not_located = [26410, 23450, 20301]"

definition status_name :: "req_status \<Rightarrow> string" where
  "status_name s = (case s of PASS \<Rightarrow> ''PASS'' | FAIL \<Rightarrow> ''FAIL'' | UNKNOWN \<Rightarrow> ''UNKNOWN'' | NEEDS_REVIEW \<Rightarrow> ''NEEDS_REVIEW'')"

definition cat_name :: "category \<Rightarrow> string" where
  "cat_name c = (case c of QUALIFICATION \<Rightarrow> ''QUALIFICATION'' | FATAL \<Rightarrow> ''FATAL'' | SCORING \<Rightarrow> ''SCORING''
     | DEADLINE \<Rightarrow> ''DEADLINE'' | SIGNATURE \<Rightarrow> ''SIGNATURE'' | BOND \<Rightarrow> ''BOND'' | CREDENTIAL \<Rightarrow> ''CREDENTIAL'')"

definition report_cells :: "requirement \<Rightarrow> ustr list" where
  "report_cells q =
     (let locs = join (asc ''; '')
            (map (\<lambda>e. asc (ev_filename e) @ [32, 183, 32] @ locator_label (ev_locator e)) (rq_evidence q))
      in [asc (rq_requirement_id q), asc (cat_name (rq_category q)), asc (status_name (rq_status q)), rq_title q,
          locator_label (cit_locator (rq_source q)), if locs = [] then not_located else locs,
          evidence_gap q, risk_impact q, next_action q])"

definition html_row :: "requirement \<Rightarrow> ustr" where
  "html_row q = asc ''<tr>''
     @ concat (map (\<lambda>v. asc ''<td>'' @ html_escape v @ asc ''</td>'') (report_cells q)) @ asc ''</tr>''"

text \<open>The table body of the HTML report.\<close>

definition html_rows :: "run_doc \<Rightarrow> ustr" where
  "html_rows run = concat (map html_row (rn_requirements run))"

section \<open>Facts\<close>

text \<open>What an HTML reader sees between two tags.\<close>

fun html_unescape :: "ustr \<Rightarrow> ustr" where
  "html_unescape s =
     (if s = [] then []
      else if prefix (asc ''&amp;'') s then 38 # html_unescape (drop 5 s)
      else if prefix (asc ''&lt;'') s then 60 # html_unescape (drop 4 s)
      else if prefix (asc ''&gt;'') s then 62 # html_unescape (drop 4 s)
      else if prefix (asc ''&quot;'') s then 34 # html_unescape (drop 6 s)
      else if prefix (asc ''&#x27;'') s then 39 # html_unescape (drop 6 s)
      else hd s # html_unescape (tl s))"

declare html_unescape.simps [simp del]

lemma asc_amp: "asc ''&amp;'' = [38, 97, 109, 112, 59]" "asc ''&lt;'' = [38, 108, 116, 59]"
  "asc ''&gt;'' = [38, 103, 116, 59]" "asc ''&quot;'' = [38, 113, 117, 111, 116, 59]"
  "asc ''&#x27;'' = [38, 35, 120, 50, 55, 59]"
  by (simp_all add: asc_def)

lemma html_unescape_escape: "html_unescape (html_escape s) = s"
proof (induction s)
  case Nil
  show ?case by (simp add: html_unescape.simps)
next
  case (Cons c s)
  then show ?case
    by (subst html_unescape.simps) (simp add: asc_amp)
qed

lemma html_escape_no_markup:
  "c \<in> set (html_escape s) \<Longrightarrow> c \<noteq> 60 \<and> c \<noteq> 62 \<and> c \<noteq> 34 \<and> c \<noteq> 39"
  by (induction s) (auto simp: asc_amp split: if_splits)

section \<open>Properties\<close>

lemma count_html_cells:
  assumes "c \<in> {60, 62}"
  shows "count_list (concat (map (\<lambda>v. asc ''<td>'' @ html_escape v @ asc ''</td>'') cells)) c = 2 * length cells"
proof (induction cells)
  case (Cons v cells)
  have "count_list (html_escape v) c = 0"
    using assms html_escape_no_markup by (auto simp: count_list_0_iff)
  then show ?case using Cons assms by (auto simp: asc_def)
qed simp

text \<open>Nothing in a run can inject markup into the report: a table row has exactly the twenty
  angle brackets of each kind that its own tags need, whatever the cells hold, and a reader that
  resolves the entities of a cell sees exactly the original text.\<close>

lemma report_row_is_escaped:
  "count_list (html_row q) 60 = 20 \<and> count_list (html_row q) 62 = 20
   \<and> map (\<lambda>cell. html_unescape (html_escape cell)) (report_cells q) = report_cells q"
  using count_html_cells [of _ "report_cells q"]
  by (simp add: html_row_def html_unescape_escape) (simp add: report_cells_def Let_def asc_def)

text \<open>The list view and the full view of a stored run show the same counters, although the
  listing does not load the requirements.\<close>

lemma listing_shows_the_same_counts:
  assumes "fernet_ok client" and "run_to_storage client run = Inr row"
    and "run_from_storage client row = Inr full" and "listed_run client row = Inr listed"
  shows "summary_counts listed = summary_counts full \<and> summary_counts full = requirement_counts (rn_requirements run)"
proof -
  have "rn_requirements full = rn_requirements run"
    using assms(1-3) by (auto simp: run_to_storage_def run_from_storage_def run_of_row_def Let_def bind_result_Inr
        split: option.splits prod.splits)
  moreover have "(rn_requirement_count x, rn_unresolved_count x, rn_blocker_count x, rn_fatal_risk_count x)
      = requirement_counts (rn_requirements run)" if "x = full \<or> x = listed" for x
    using assms that by (auto simp: run_to_storage_def run_from_storage_def listed_run_def run_of_row_def Let_def bind_result_Inr
        split: option.splits prod.splits)
  moreover have "rn_requirements listed = []"
    using assms(4) by (auto simp: listed_run_def run_of_row_def bind_result_Inr)
  ultimately show ?thesis
    by (auto simp: summary_counts_def requirement_counts_def Let_def)
qed

lemma listing_shows_the_same_counts_example:
  "\<exists>full listed. run_from_storage None (hd (runs demo_db)) = Inr full \<and> listed_run None (hd (runs demo_db)) = Inr listed
     \<and> summary_counts listed = (0, 0, 0, 0)"
proof -
  obtain row where row: "runs demo_db = [row]" "run_to_storage None demo_run = Inr row"
    using demo_db_runs by auto
  obtain full where full: "run_from_storage None row = Inr full"
    using row(2) by (auto simp: run_to_storage_def run_from_storage_def fernet_ok_def Let_def split: option.splits prod.splits)
  obtain listed where listed: "listed_run None row = Inr listed"
    using row(2) by (auto simp: run_to_storage_def listed_run_def fernet_ok_def Let_def split: option.splits prod.splits)
  have "summary_counts listed = requirement_counts (rn_requirements demo_run)"
    using listing_shows_the_same_counts [OF _ row(2) full listed] by (simp add: fernet_ok_def)
  then have "summary_counts listed = (0, 0, 0, 0)" by (simp add: demo_run_def requirement_counts_def)
  with full listed row(1) show ?thesis by simp
qed

end
