(* ===== verification/Audit_Log.thy ===== *)
theory Audit_Log
  imports Models
begin

text \<open>
  The audit trail of \<open>src/app/db.py\<close>: events are appended with a hash that chains them to the
  newest earlier event of the workspace, and \<open>verify_audit_chain\<close> walks the chain. SHA-256 is the
  parameter \<open>sha\<close>; the event id, the ISO time and the request context of one call are its
  \<open>audit_ctx\<close>.
\<close>

record audit_ctx =
  au_event_id :: string
  au_created_at :: string
  au_client_ip :: "string option"
  au_user_agent :: "string option"
  au_request_id :: string

definition material :: "string option \<Rightarrow> string \<Rightarrow> string \<Rightarrow> string \<Rightarrow> string \<Rightarrow> string" where
  "material previous event_id event_type created_at outcome =
     (case previous of None \<Rightarrow> '''' | Some h \<Rightarrow> h) @ ''|'' @ event_id @ ''|'' @ event_type @ ''|'' @ created_at
       @ ''|'' @ outcome"

definition event_order :: "audit_event \<Rightarrow> string \<times> string" where
  "event_order e = (ae_created_at e, ae_event_id e)"

text \<open>The workspace's events, oldest first, as the verification reads them.\<close>

definition workspace_chain :: "string \<Rightarrow> db \<Rightarrow> audit_event list" where
  "workspace_chain w d = order_by event_order (sql_select (\<lambda>e. ae_workspace_id e = w) (audit_events d))"

definition previous_hash :: "string \<Rightarrow> db \<Rightarrow> string option" where
  "previous_hash w d =
     (case order_by_desc event_order (sql_select (\<lambda>e. ae_workspace_id e = w) (audit_events d)) of
        [] \<Rightarrow> None | e # _ \<Rightarrow> ae_event_hash e)"

definition record_audit_event ::
  "(string \<Rightarrow> string) \<Rightarrow> audit_ctx \<Rightarrow> string \<Rightarrow> string \<Rightarrow> string \<Rightarrow> string option \<Rightarrow> json \<Rightarrow> string \<Rightarrow> db \<Rightarrow> db" where
  "record_audit_event sha au w user event_type run payload outcome d =
     (let previous = previous_hash w d;
          m = material previous (au_event_id au) event_type (au_created_at au) outcome;
          e = \<lparr>ae_event_id = au_event_id au, ae_workspace_id = w, ae_run_id = run, ae_user_id = user,
               ae_event_type = event_type, ae_payload_json = payload, ae_created_at = au_created_at au,
               ae_actor_ip = au_client_ip au, ae_user_agent = au_user_agent au,
               ae_request_id = (if au_request_id au = '''' then None else Some (au_request_id au)),
               ae_outcome = outcome, ae_prev_hash = previous, ae_event_hash = Some (sha m)\<rparr>
      in d\<lparr>audit_events := sql_insert e (audit_events d)\<rparr>)"

text \<open>The walk: the first event that does not fit, if any. An empty \<open>prev_hash\<close> counts as none.\<close>

fun check_chain :: "(string \<Rightarrow> string) \<Rightarrow> string option \<Rightarrow> audit_event list \<Rightarrow> string option" where
  "check_chain sha previous [] = None"
| "check_chain sha previous (e # es) =
     (if ae_event_hash e \<noteq> Some (sha (material previous (ae_event_id e) (ae_event_type e)
                                    (ae_created_at e) (ae_outcome e)))
         \<or> (if ae_prev_hash e = Some '''' then None else ae_prev_hash e) \<noteq> previous
      then Some (ae_event_id e)
      else check_chain sha (ae_event_hash e) es)"

record chain_report =
  cr_broken_event_id :: "string option"
  cr_checked :: nat

definition verify_audit_chain :: "(string \<Rightarrow> string) \<Rightarrow> string \<Rightarrow> db \<Rightarrow> chain_report" where
  "verify_audit_chain sha w d =
     (let rows = workspace_chain w d
      in \<lparr>cr_broken_event_id = check_chain sha None rows, cr_checked = length rows\<rparr>)"

definition list_audit_events :: "string \<Rightarrow> string option \<Rightarrow> db \<Rightarrow> audit_event list" where
  "list_audit_events w run d =
     order_by_desc ae_created_at
       (sql_select (\<lambda>e. ae_workspace_id e = w \<and> (run = None \<or> run = Some '''' \<or> ae_run_id e = run)) (audit_events d))"

section \<open>Appending\<close>

lemma order_by_desc_head:
  assumes "\<And>x. x \<in> set t \<Longrightarrow> x \<noteq> e \<Longrightarrow> k x < k e" and "e \<in> set t"
  obtains rest where "order_by_desc k t = e # rest"
proof (cases "order_by_desc k t")
  case Nil
  then show thesis using assms(2) by (metis list.set(1) order_by_desc_def set_rev set_sort empty_iff)
next
  case (Cons x rest)
  have set: "set (order_by_desc k t) = set t" by (simp add: order_by_desc_def)
  have "sorted (map k (rev (order_by_desc k t)))" by (simp add: order_by_desc_def)
  then have "\<forall>y \<in> set t. k y \<le> k x"
    using set Cons by (auto simp: rev_map [symmetric] sorted_append)
  then have "x = e" using assms set Cons by (metis leD list.set_intros(1))
  with Cons that show thesis by blast
qed

lemma insort_key_snoc: "k x \<le> k e \<Longrightarrow> insort_key k x (ys @ [e]) = insort_key k x ys @ [e]"
  by (induction ys) auto

lemma order_by_snoc:
  assumes "\<And>x. x \<in> set t \<Longrightarrow> k x \<le> k e"
  shows "order_by k (t @ [e]) = order_by k t @ [e]"
  unfolding order_by_def using assms
  by (induction t) (auto simp: insort_key_snoc)

lemma workspace_chain_set: "set (workspace_chain w d) = {e \<in> set (audit_events d). ae_workspace_id e = w}"
  by (simp add: workspace_chain_def order_by_def)

text \<open>The newest event of a workspace in the order of the append query is the last of the chain.\<close>

lemma previous_is_last:
  assumes "distinct (map event_order (workspace_chain w d))"
  shows "previous_hash w d = (if workspace_chain w d = [] then None else ae_event_hash (last (workspace_chain w d)))"
proof (cases "workspace_chain w d" rule: rev_cases)
  case Nil
  then have "sql_select (\<lambda>e. ae_workspace_id e = w) (audit_events d) = []"
    using workspace_chain_set [of w d] by (auto simp: sql_select_def filter_empty_conv)
  with Nil show ?thesis by (simp add: previous_hash_def order_by_desc_def)
next
  case (snoc es e)
  let ?t = "sql_select (\<lambda>e. ae_workspace_id e = w) (audit_events d)"
  have "sorted (map event_order (es @ [e]))"
    unfolding snoc [symmetric] by (simp add: workspace_chain_def order_by_def)
  moreover have "distinct (map event_order (es @ [e]))" using assms by (simp only: snoc)
  ultimately have "\<forall>x \<in> set es. event_order x < event_order e"
    by (auto simp: sorted_append order_less_le image_iff)
  moreover have "set ?t = insert e (set es)" using workspace_chain_set [of w d] by (auto simp: snoc)
  ultimately obtain rest where "order_by_desc event_order ?t = e # rest"
    by (auto intro: order_by_desc_head [of ?t e event_order])
  then show ?thesis by (simp add: previous_hash_def snoc)
qed

definition chain_tip :: "string option \<Rightarrow> audit_event list \<Rightarrow> string option" where
  "chain_tip p es = (if es = [] then p else ae_event_hash (last es))"

lemma chain_tip_simps [simp]: "chain_tip p [] = p" "chain_tip p (es @ [e]) = ae_event_hash e"
  "chain_tip p (e # es) = chain_tip (ae_event_hash e) es"
  by (simp_all add: chain_tip_def)

lemma check_chain_append:
  "check_chain sha p (es @ fs) = None
     \<longleftrightarrow> check_chain sha p es = None \<and> check_chain sha (chain_tip p es) fs = None"
  by (induction es arbitrary: p) auto

lemma workspace_chain_record:
  assumes "\<forall>e \<in> set (workspace_chain w d). event_order e < (au_created_at au, au_event_id au)"
  obtains e where "workspace_chain w (record_audit_event sha au w user ty run payload outcome d)
      = workspace_chain w d @ [e]"
    and "ae_event_id e = au_event_id au" "ae_event_type e = ty" "ae_created_at e = au_created_at au"
    and "ae_outcome e = outcome" "ae_prev_hash e = previous_hash w d"
    and "ae_event_hash e = Some (sha (material (previous_hash w d) (au_event_id au) ty (au_created_at au) outcome))"
proof -
  define e where "e = last (audit_events (record_audit_event sha au w user ty run payload outcome d))"
  have e: "audit_events (record_audit_event sha au w user ty run payload outcome d) = audit_events d @ [e]"
    "ae_workspace_id e = w" "ae_event_id e = au_event_id au" "ae_event_type e = ty"
    "ae_created_at e = au_created_at au" "ae_outcome e = outcome" "ae_prev_hash e = previous_hash w d"
    "ae_event_hash e = Some (sha (material (previous_hash w d) (au_event_id au) ty (au_created_at au) outcome))"
    by (simp_all add: e_def record_audit_event_def Let_def sql_insert_def)
  have "event_order x \<le> event_order e" if "x \<in> set (audit_events d)" "ae_workspace_id x = w" for x
    using assms that e(3,5) workspace_chain_set [of w d] by (auto simp: event_order_def less_imp_le)
  then have "order_by event_order (sql_select (\<lambda>x. ae_workspace_id x = w) (audit_events d) @ [e])
      = workspace_chain w d @ [e]"
    unfolding workspace_chain_def by (intro order_by_snoc) simp
  then have "workspace_chain w (record_audit_event sha au w user ty run payload outcome d) = workspace_chain w d @ [e]"
    using e(1,2) by (simp add: workspace_chain_def sql_select_def)
  with e(3-) that show thesis by blast
qed

lemma check_chain_hash:
  "check_chain sha p es = None \<Longrightarrow> e \<in> set es \<Longrightarrow> \<exists>m. ae_event_hash e = Some (sha m)"
  by (induction es arbitrary: p) (auto split: if_splits)

section \<open>What the chain fixes\<close>

lemma sep_inj:
  assumes "c \<notin> set a" "c \<notin> set a'"
  shows "a @ c # b = a' @ c # b' \<longleftrightarrow> a = a' \<and> b = b'"
  using assms
  by (induction a arbitrary: a') (case_tac [!] a', auto)

definition bar_free :: "string \<Rightarrow> bool" where
  "bar_free s \<longleftrightarrow> CHR ''|'' \<notin> set s"

definition plain_event :: "audit_event \<Rightarrow> bool" where
  "plain_event e \<longleftrightarrow> bar_free (ae_event_id e) \<and> bar_free (ae_event_type e) \<and> bar_free (ae_created_at e)"

definition covered :: "audit_event \<Rightarrow> string \<times> string \<times> string \<times> string \<times> string option" where
  "covered e = (ae_event_id e, ae_event_type e, ae_created_at e, ae_outcome e, ae_event_hash e)"

text \<open>The texts hashed along a chain.\<close>

definition event_material :: "string option \<Rightarrow> audit_event \<Rightarrow> string" where
  "event_material p e = material p (ae_event_id e) (ae_event_type e) (ae_created_at e) (ae_outcome e)"

fun chain_materials :: "string option \<Rightarrow> audit_event list \<Rightarrow> string list" where
  "chain_materials p [] = []"
| "chain_materials p (e # es) = event_material p e # chain_materials (ae_event_hash e) es"

lemma chain_materials_snoc [simp]:
  "chain_materials p (es @ [e]) = chain_materials p es @ [event_material (chain_tip p es) e]"
  by (induction es arbitrary: p) auto

lemma material_inj:
  assumes "material p i t c q = material p' i' t' c' q'"
    and "bar_free i" "bar_free t" "bar_free c" "bar_free i'" "bar_free t'" "bar_free c'"
    and "\<forall>h. p = Some h \<longrightarrow> bar_free h \<and> h \<noteq> ''''" "\<forall>h. p' = Some h \<longrightarrow> bar_free h \<and> h \<noteq> ''''"
  shows "p = p' \<and> i = i' \<and> t = t' \<and> c = c' \<and> q = q'"
proof -
  let ?s = "\<lambda>p. case p of None \<Rightarrow> '''' | Some h \<Rightarrow> h"
  have "CHR ''|'' \<notin> set (?s p)" "CHR ''|'' \<notin> set (?s p')"
    using assms(8,9) by (auto simp: bar_free_def split: option.splits)
  then have "?s p = ?s p' \<and> i = i' \<and> t = t' \<and> c = c' \<and> q = q'"
    using assms(1-7) by (simp add: material_def sep_inj bar_free_def)
  with assms(8,9) show ?thesis by (auto split: option.splits)
qed

lemma chain_fixes_lemma:
  assumes "check_chain sha None es = None" "check_chain sha None fs = None"
    and "chain_tip None es = chain_tip None fs"
    and "\<forall>e \<in> set es \<union> set fs. plain_event e"
    and "inj_on sha (set (chain_materials None es @ chain_materials None fs))"
    and sha: "\<And>m. bar_free (sha m)" "\<And>m. sha m \<noteq> ''''"
  shows "map covered es = map covered fs"
  using assms(1-5)
proof (induction es arbitrary: fs rule: rev_induct)
  case Nil
  then show ?case
    by (cases fs rule: rev_cases) (auto simp: check_chain_append split: if_splits)
next
  case (snoc e es)
  then obtain fs0 f where fs: "fs = fs0 @ [f]"
    by (cases fs rule: rev_cases) (auto simp: check_chain_append split: if_splits)
  have tip: "chain_tip None xs = Some h \<Longrightarrow> bar_free h \<and> h \<noteq> ''''"
    if "check_chain sha None xs = None" for xs h
    using that check_chain_hash [of sha None xs "last xs"] sha by (auto simp: chain_tip_def split: if_splits)
  have ok: "check_chain sha None es = None" "check_chain sha None fs0 = None"
    using snoc.prems(1,2) by (auto simp: fs check_chain_append)
  have hash: "ae_event_hash e = Some (sha (event_material (chain_tip None es) e))"
    "ae_event_hash f = Some (sha (event_material (chain_tip None fs0) f))"
    using snoc.prems(1,2) by (auto simp: fs check_chain_append event_material_def split: if_splits)
  have eq: "ae_event_hash e = ae_event_hash f" using snoc.prems(3) by (simp add: fs)
  have "event_material (chain_tip None es) e = event_material (chain_tip None fs0) f"
    by (rule inj_onD [OF snoc.prems(5)]) (use hash eq in \<open>simp_all add: fs\<close>)
  then have "chain_tip None es = chain_tip None fs0 \<and> ae_event_id e = ae_event_id f
      \<and> ae_event_type e = ae_event_type f \<and> ae_created_at e = ae_created_at f \<and> ae_outcome e = ae_outcome f"
    unfolding event_material_def
    by (rule material_inj) (use snoc.prems(4) tip ok in \<open>auto simp: fs plain_event_def\<close>)
  moreover have "inj_on sha (set (chain_materials None es @ chain_materials None fs0))"
    using snoc.prems(5) by (rule inj_on_subset) (auto simp: fs)
  moreover have "\<forall>x \<in> set es \<union> set fs0. plain_event x" using snoc.prems(4) by (simp add: fs)
  ultimately have "map covered es = map covered fs0" "covered e = covered f"
    using snoc.IH [of fs0] ok eq by (simp, simp add: covered_def)
  then show ?case by (simp add: fs)
qed

section \<open>Properties\<close>

text \<open>A small trail for the examples, with a hash that writes its argument without bars.\<close>

definition plain_hash :: "string \<Rightarrow> string" where
  "plain_hash m = CHR ''x'' # map (\<lambda>c. if c = CHR ''|'' then CHR ''/'' else c) m"

definition demo_ctx :: "string \<Rightarrow> string \<Rightarrow> audit_ctx" where
  "demo_ctx event t = \<lparr>au_event_id = event, au_created_at = t, au_client_ip = None,
     au_user_agent = None, au_request_id = ''''\<rparr>"

definition demo_trail :: db where
  "demo_trail = record_audit_event plain_hash (demo_ctx ''e1'' ''t1'') ''w'' ''u'' ''RUN_DELETE'' None (JObj []) ''SUCCESS'' empty_db"

lemma plain_hash_props [simp]: "bar_free (plain_hash m)" "plain_hash m \<noteq> ''''"
  by (auto simp: plain_hash_def bar_free_def)

lemma demo_trail_chain:
  "workspace_chain ''w'' demo_trail = [\<lparr>ae_event_id = ''e1'', ae_workspace_id = ''w'', ae_run_id = None,
     ae_user_id = ''u'', ae_event_type = ''RUN_DELETE'', ae_payload_json = JObj [], ae_created_at = ''t1'',
     ae_actor_ip = None, ae_user_agent = None, ae_request_id = None, ae_outcome = ''SUCCESS'',
     ae_prev_hash = None, ae_event_hash = Some (plain_hash (material None ''e1'' ''RUN_DELETE'' ''t1'' ''SUCCESS''))\<rparr>]"
  by (simp add: workspace_chain_def demo_trail_def record_audit_event_def empty_db_def Let_def
      sql_insert_def sql_select_def previous_hash_def order_by_def order_by_desc_def demo_ctx_def)

lemma demo_trail_verifies: "verify_audit_chain plain_hash ''w'' demo_trail = \<lparr>cr_broken_event_id = None, cr_checked = 1\<rparr>"
  by (simp add: verify_audit_chain_def demo_trail_chain)

text \<open>C36: Recording an event keeps a verified trail verified and one event longer, provided the event
  is later, in the order by time and id, than the workspace's earlier events; the trails of other
  workspaces stay as they are.\<close>

theorem append_keeps_chain_verified:
  assumes "verify_audit_chain sha w d = \<lparr>cr_broken_event_id = None, cr_checked = n\<rparr>"
    and "distinct (map event_order (workspace_chain w d))"
    and "\<forall>e \<in> set (workspace_chain w d). event_order e < (au_created_at au, au_event_id au)"
    and "\<forall>m. sha m \<noteq> ''''"
  shows "verify_audit_chain sha w (record_audit_event sha au w user ty run payload outcome d)
      = \<lparr>cr_broken_event_id = None, cr_checked = n + 1\<rparr>
    \<and> (\<forall>w'. w' \<noteq> w \<longrightarrow> workspace_chain w' (record_audit_event sha au w user ty run payload outcome d)
        = workspace_chain w' d)"
proof -
  let ?d = "record_audit_event sha au w user ty run payload outcome d"
  have ok: "check_chain sha None (workspace_chain w d) = None" and n: "length (workspace_chain w d) = n"
    using assms(1) by (simp_all add: verify_audit_chain_def Let_def)
  have prev: "previous_hash w d = chain_tip None (workspace_chain w d)"
    using previous_is_last [OF assms(2)] by (simp add: chain_tip_def)
  have tip: "chain_tip None (workspace_chain w d) \<noteq> Some ''''"
    using check_chain_hash [OF ok, of "last (workspace_chain w d)"] assms(4)
    by (metis chain_tip_def last_in_set option.distinct(1) option.inject)
  obtain e where "workspace_chain w ?d = workspace_chain w d @ [e]"
    and e: "ae_event_id e = au_event_id au" "ae_event_type e = ty" "ae_created_at e = au_created_at au"
    "ae_outcome e = outcome" "ae_prev_hash e = previous_hash w d"
    "ae_event_hash e = Some (sha (material (previous_hash w d) (au_event_id au) ty (au_created_at au) outcome))"
    by (rule workspace_chain_record [OF assms(3), of sha user ty run payload outcome])
  then have "verify_audit_chain sha w ?d = \<lparr>cr_broken_event_id = None, cr_checked = n + 1\<rparr>"
    using ok n tip by (simp add: verify_audit_chain_def Let_def check_chain_append e prev)
  moreover have "workspace_chain w' ?d = workspace_chain w' d" if "w' \<noteq> w" for w'
    using that by (simp add: workspace_chain_def record_audit_event_def Let_def sql_select_def sql_insert_def)
  ultimately show ?thesis by blast
qed

theorem append_keeps_chain_verified_witness:
  "verify_audit_chain plain_hash ''w''
     (record_audit_event plain_hash (demo_ctx ''e2'' ''t2'') ''w'' ''u'' ''RUN_ARCHIVE'' None (JObj []) ''SUCCESS'' demo_trail)
   = \<lparr>cr_broken_event_id = None, cr_checked = 2\<rparr>"
proof -
  have "\<forall>e \<in> set (workspace_chain ''w'' demo_trail). event_order e < (''t2'', ''e2'')"
    by (simp add: demo_trail_chain event_order_def)
  then show ?thesis
    using append_keeps_chain_verified [OF demo_trail_verifies, of "demo_ctx ''e2'' ''t2''" "''u''" "''RUN_ARCHIVE''" None "JObj []" "''SUCCESS''"]
    by (simp add: demo_trail_chain demo_ctx_def)
qed

text \<open>The newest hash fixes the whole history: two verified trails of a workspace with the same
  newest hash agree, event by event, on id, type, time, outcome and hash, unless SHA-256 collides on
  the texts hashed. The fields that enter the hash hold no bar character.\<close>

lemma newest_hash_fixes_history:
  assumes "cr_broken_event_id (verify_audit_chain sha w d) = None"
    and "cr_broken_event_id (verify_audit_chain sha w d') = None"
    and "chain_tip None (workspace_chain w d) = chain_tip None (workspace_chain w d')"
    and "\<forall>e \<in> set (workspace_chain w d) \<union> set (workspace_chain w d'). plain_event e"
    and "inj_on sha (set (chain_materials None (workspace_chain w d) @ chain_materials None (workspace_chain w d')))"
    and "\<forall>m. bar_free (sha m) \<and> sha m \<noteq> ''''"
  shows "map covered (workspace_chain w d) = map covered (workspace_chain w d')"
  using assms by (intro chain_fixes_lemma [of sha]) (auto simp: verify_audit_chain_def Let_def)

lemma newest_hash_fixes_history_example:
  "map covered (workspace_chain ''w'' demo_trail)
     = map covered (workspace_chain ''w'' (demo_trail\<lparr>audit_events := map (ae_user_id_update (\<lambda>_. ''x'')) (audit_events demo_trail)\<rparr>))"
    (is "_ = map covered (workspace_chain ''w'' ?d)")
proof -
  have d: "workspace_chain ''w'' ?d = map (ae_user_id_update (\<lambda>_. ''x'')) (workspace_chain ''w'' demo_trail)"
    by (simp add: workspace_chain_def demo_trail_def record_audit_event_def empty_db_def Let_def
        sql_insert_def sql_select_def previous_hash_def order_by_def order_by_desc_def demo_ctx_def)
  show ?thesis
    by (rule newest_hash_fixes_history [of plain_hash])
      (simp_all add: verify_audit_chain_def d demo_trail_chain plain_event_def event_material_def material_def,
        simp add: bar_free_def)
qed

lemma filter_sorted_prefix:
  "sorted (map k t) \<Longrightarrow> filter (\<lambda>e. k e < cutoff) t = takeWhile (\<lambda>e. k e < cutoff) t"
proof (induction t)
  case (Cons a t)
  show ?case
  proof (cases "k a < cutoff")
    case True
    with Cons show ?thesis by simp
  next
    case False
    then have "\<forall>x \<in> set t. \<not> k x < cutoff" using Cons.prems by (auto dest: le_less_trans)
    with False show ?thesis by (simp add: filter_empty_conv)
  qed
qed simp

text \<open>What the walk cannot see: removing every event of a workspace from some point of the
  trail on leaves a trail that still verifies.\<close>

lemma truncated_trail_still_verifies:
  assumes "cr_broken_event_id (verify_audit_chain sha w d) = None"
  shows "cr_broken_event_id (verify_audit_chain sha w
    (d\<lparr>audit_events := sql_delete (\<lambda>e. ae_workspace_id e = w \<and> cutoff \<le> event_order e) (audit_events d)\<rparr>)) = None"
proof -
  let ?es = "workspace_chain w d"
  let ?d = "d\<lparr>audit_events := sql_delete (\<lambda>e. ae_workspace_id e = w \<and> cutoff \<le> event_order e) (audit_events d)\<rparr>"
  have "workspace_chain w ?d = filter (\<lambda>e. event_order e < cutoff) ?es"
    unfolding workspace_chain_def order_by_def filter_sort
    by (simp add: sql_select_def sql_delete_def not_le) (metis (mono_tags, lifting) filter_cong not_le)
  moreover have "sorted (map event_order ?es)" by (simp add: workspace_chain_def order_by_def)
  then have "filter (\<lambda>e. event_order e < cutoff) ?es = takeWhile (\<lambda>e. event_order e < cutoff) ?es"
    by (rule filter_sorted_prefix)
  ultimately have "?es = workspace_chain w ?d @ dropWhile (\<lambda>e. event_order e < cutoff) ?es"
    by simp
  then have "check_chain sha None (workspace_chain w ?d) = None"
    using assms check_chain_append [of sha None "workspace_chain w ?d" "dropWhile (\<lambda>e. event_order e < cutoff) ?es"]
    by (simp add: verify_audit_chain_def Let_def)
  then show ?thesis by (simp add: verify_audit_chain_def Let_def)
qed

lemma truncated_trail_still_verifies_example:
  "cr_broken_event_id (verify_audit_chain plain_hash ''w''
    (demo_trail\<lparr>audit_events := sql_delete (\<lambda>e. ae_workspace_id e = ''w'' \<and> (''t1'', '''') \<le> event_order e) (audit_events demo_trail)\<rparr>)) = None"
  by (rule truncated_trail_still_verifies) (simp add: demo_trail_verifies)

end
