(* ===== verification/Collaboration.thy ===== *)
theory Collaboration
  imports Run_Store
begin

text \<open>
  Comments, remediation items and accuracy feedback of \<open>src/app/db.py\<close> (sections "Collaboration" and
  "Accuracy feedback"), with the accuracy metrics computed from the feedback. A rate is kept as the
  pair of its numerator and denominator; the code rounds the quotient to four places.
\<close>

section \<open>Comments\<close>

definition add_comment ::
  "string \<Rightarrow> string \<Rightarrow> string \<Rightarrow> ustr \<Rightarrow> string \<Rightarrow> timestamp \<Rightarrow> db \<Rightarrow> comment_row \<times> db" where
  "add_comment w run user body new_id now d =
     (let c = \<lparr>cm_comment_id = new_id, cm_workspace_id = w, cm_run_id = run, cm_user_id = user,
               cm_body = body, cm_created_at = now\<rparr>
      in (c, d\<lparr>comments := sql_insert c (comments d)\<rparr>))"

definition list_comments :: "string \<Rightarrow> string \<Rightarrow> db \<Rightarrow> comment_row list" where
  "list_comments w run d =
     order_by_desc cm_created_at
       (sql_select (\<lambda>c. cm_workspace_id c = w \<and> cm_run_id c = run) (comments d))"

section \<open>Remediations\<close>

record remediation_payload =
  rp_title :: ustr
  rp_requirement_id :: "string option"
  rp_owner_id :: "string option"
  rp_due_date :: "string option"
  rp_note :: ustr

definition create_remediation ::
  "string \<Rightarrow> string \<Rightarrow> remediation_payload \<Rightarrow> string \<Rightarrow> timestamp \<Rightarrow> db \<Rightarrow> remediation_row \<times> db" where
  "create_remediation w run p new_id now d =
     (let m = \<lparr>rm_remediation_id = new_id, rm_workspace_id = w, rm_run_id = run,
               rm_requirement_id = rp_requirement_id p, rm_title = strip (rp_title p),
               rm_owner_id = rp_owner_id p, rm_due_date = rp_due_date p, rm_status = ''OPEN'',
               rm_note = rp_note p, rm_created_at = now, rm_updated_at = now\<rparr>
      in (m, d\<lparr>remediations := sql_insert m (remediations d)\<rparr>))"

text \<open>ORDER BY on a nullable column: a missing due date sorts first, as in SQLite.\<close>

definition due_key :: "remediation_row \<Rightarrow> bool \<times> string" where
  "due_key m = (case rm_due_date m of None \<Rightarrow> (False, '''') | Some x \<Rightarrow> (True, x))"

definition list_remediations :: "string \<Rightarrow> string \<Rightarrow> db \<Rightarrow> remediation_row list" where
  "list_remediations w run d =
     order_by (\<lambda>m. (rm_status m, due_key m, rm_created_at m))
       (sql_select (\<lambda>m. rm_workspace_id m = w \<and> rm_run_id m = run) (remediations d))"

definition list_workspace_remediations :: "string \<Rightarrow> db \<Rightarrow> remediation_row list" where
  "list_workspace_remediations w d =
     order_by (\<lambda>m. (due_key m, rm_created_at m))
       (sql_select (\<lambda>m. rm_workspace_id m = w) (remediations d))"

definition load_remediation :: "string \<Rightarrow> db \<Rightarrow> remediation_row option" where
  "load_remediation x d = sql_first (\<lambda>m. rm_remediation_id m = x) (remediations d)"

record remediation_update =
  ru_title :: "ustr option"
  ru_owner_id :: "string option"
  ru_due_date :: "string option"
  ru_status :: "string option"
  ru_note :: "ustr option"

definition override :: "'a option \<Rightarrow> 'a \<Rightarrow> 'a" where
  "override new old = (case new of None \<Rightarrow> old | Some x \<Rightarrow> x)"

definition update_remediation ::
  "string \<Rightarrow> remediation_update \<Rightarrow> timestamp \<Rightarrow> db \<Rightarrow> remediation_row option \<times> db" where
  "update_remediation x p now d =
     (case load_remediation x d of
        None \<Rightarrow> (None, d)
      | Some cur \<Rightarrow>
          let d' = d\<lparr>remediations := sql_update (\<lambda>m. rm_remediation_id m = x)
                (\<lambda>m. m\<lparr>rm_title := override (ru_title p) (rm_title cur),
                       rm_owner_id := (case ru_owner_id p of None \<Rightarrow> rm_owner_id cur | Some y \<Rightarrow> Some y),
                       rm_due_date := (case ru_due_date p of None \<Rightarrow> rm_due_date cur | Some y \<Rightarrow> Some y),
                       rm_status := override (ru_status p) (rm_status cur),
                       rm_note := override (ru_note p) (rm_note cur), rm_updated_at := now\<rparr>)
                (remediations d)\<rparr>
          in (load_remediation x d', d'))"

section \<open>Accuracy feedback\<close>

record feedback_payload =
  fp_category :: string
  fp_predicted :: string
  fp_actual :: string
  fp_requirement_id :: "string option"
  fp_locator_label :: "ustr option"
  fp_quote :: "ustr option"
  fp_note :: ustr
  fp_dataset_scope :: string
  fp_review_complete :: bool

definition text_or_empty :: "ustr option \<Rightarrow> ustr" where
  "text_or_empty x = (case x of None \<Rightarrow> [] | Some t \<Rightarrow> t)"

definition feedback_key :: "(ustr \<Rightarrow> string) \<Rightarrow> string \<Rightarrow> feedback_payload \<Rightarrow> string" where
  "feedback_key sha category p =
     (if fp_predicted p = ''DETECTED''
      then ''detected:'' @ (case fp_requirement_id p of None \<Rightarrow> ''None'' | Some x \<Rightarrow> x)
      else ''missed:'' @ sha (join (asc ''|'') [asc category, strip (text_or_empty (fp_locator_label p)),
                                              strip (text_or_empty (fp_quote p))]))"

definition same_feedback :: "string \<Rightarrow> string \<Rightarrow> string \<Rightarrow> string \<Rightarrow> feedback_row \<Rightarrow> bool" where
  "same_feedback w run reviewer key f \<longleftrightarrow> fb_workspace_id f = w \<and> fb_run_id f = run
     \<and> fb_reviewer_id f = reviewer \<and> fb_feedback_key f = key"

text \<open>\<open>upper\<close> is \<open>str.upper\<close>. A repeated label of the same reviewer replaces the earlier one; it keeps
  its identifier and its requirement.\<close>

definition add_accuracy_feedback ::
  "(string \<Rightarrow> string) \<Rightarrow> (ustr \<Rightarrow> string) \<Rightarrow> string \<Rightarrow> string \<Rightarrow> string \<Rightarrow> feedback_payload \<Rightarrow> string
     \<Rightarrow> timestamp \<Rightarrow> db \<Rightarrow> feedback_row \<times> db" where
  "add_accuracy_feedback upper sha w run reviewer p new_id now d =
     (let category = upper (fp_category p);
          key = feedback_key sha category p;
          row = \<lparr>fb_feedback_id = new_id, fb_workspace_id = w, fb_run_id = run,
                 fb_requirement_id = fp_requirement_id p, fb_feedback_key = key, fb_category = category,
                 fb_predicted = fp_predicted p, fb_actual = fp_actual p,
                 fb_locator_label = fp_locator_label p, fb_quote = fp_quote p, fb_note = fp_note p,
                 fb_reviewer_id = reviewer, fb_dataset_scope = fp_dataset_scope p,
                 fb_review_complete = fp_review_complete p, fb_created_at = now\<rparr>;
          d' = d\<lparr>accuracy_feedback := sql_upsert (same_feedback w run reviewer key)
                 (\<lambda>f. f\<lparr>fb_category := category, fb_predicted := fp_predicted p, fb_actual := fp_actual p,
                        fb_locator_label := fp_locator_label p, fb_quote := fp_quote p,
                        fb_note := fp_note p, fb_dataset_scope := fp_dataset_scope p,
                        fb_review_complete := fp_review_complete p, fb_created_at := now\<rparr>)
                 row (accuracy_feedback d)\<rparr>
      in (case sql_first (same_feedback w run reviewer key) (accuracy_feedback d') of
            None \<Rightarrow> row | Some f \<Rightarrow> f, d'))"

section \<open>Metrics\<close>

definition ACCURACY_MIN_SAMPLE_SIZE :: nat where
  "ACCURACY_MIN_SAMPLE_SIZE = 20"

definition category_name :: "category \<Rightarrow> string" where
  "category_name c = (case c of QUALIFICATION \<Rightarrow> ''QUALIFICATION'' | FATAL \<Rightarrow> ''FATAL'' | SCORING \<Rightarrow> ''SCORING''
     | DEADLINE \<Rightarrow> ''DEADLINE'' | SIGNATURE \<Rightarrow> ''SIGNATURE'' | BOND \<Rightarrow> ''BOND'' | CREDENTIAL \<Rightarrow> ''CREDENTIAL'')"

text \<open>One row of the grouped query: run, category, predicted, actual, review flag and count.\<close>

type_synonym label_group = "(string \<times> string \<times> string \<times> string \<times> bool) \<times> nat"

definition group_key :: "feedback_row \<Rightarrow> string \<times> string \<times> string \<times> string \<times> bool" where
  "group_key f = (fb_run_id f, fb_category f, fb_predicted f, fb_actual f, fb_review_complete f)"

definition label_groups :: "string \<Rightarrow> string list \<Rightarrow> db \<Rightarrow> label_group list" where
  "label_groups w scopes d =
     (let sel = sql_select (\<lambda>f. fb_workspace_id f = w \<and> fb_dataset_scope f \<in> set scopes) (accuracy_feedback d)
      in map (\<lambda>k. (k, length (filter (\<lambda>f. group_key f = k) sel))) (dedup (map group_key sel)))"

datatype outcome = TP | FP | FN | TN

definition outcome_of :: "string \<Rightarrow> string \<Rightarrow> outcome" where
  "outcome_of predicted actual =
     (if predicted = ''DETECTED'' \<and> actual = ''RELEVANT'' then TP
      else if predicted = ''DETECTED'' \<and> actual = ''NOT_RELEVANT'' then FP
      else if predicted = ''MISSED'' \<and> actual = ''RELEVANT'' then FN else TN)"

fun group_sum :: "string \<Rightarrow> outcome \<Rightarrow> label_group list \<Rightarrow> nat" where
  "group_sum c o' [] = 0"
| "group_sum c o' (((run, cat, predicted, actual, complete), n) # gs) =
     (if cat = c \<and> outcome_of predicted actual = o' then n else 0) + group_sum c o' gs"

text \<open>The requirements of the labelled runs. The column is read without \<open>crypto.reveal\<close>: iterating
  over an encrypted field yields its keys, and \<open>str\<close> has no \<open>get\<close>.\<close>

definition raw_requirements :: "stored \<Rightarrow> requirement list result" where
  "raw_requirements x = (case x of Fernet_v1 _ \<Rightarrow> Inl AttributeError
     | Clear doc \<Rightarrow> (case as_requirements doc of None \<Rightarrow> Inl AttributeError | Some reqs \<Rightarrow> Inr reqs))"

definition detected_categories :: "string \<Rightarrow> string list \<Rightarrow> db \<Rightarrow> string list result" where
  "detected_categories w run_ids d =
     bind_result (map_result (\<lambda>r. raw_requirements (rr_requirements_json r))
                   (sql_select (\<lambda>r. rr_workspace_id r = w \<and> rr_run_id r \<in> set run_ids) (runs d)))
       (\<lambda>rss. Inr (map (\<lambda>q. category_name (rq_category q)) (concat rss)))"

record metric =
  me_category :: string
  me_tp :: nat
  me_fp :: nat
  me_fn :: nat
  me_tn :: nat
  me_precision :: "(nat \<times> nat) option"
  me_recall :: "(nat \<times> nat) option"
  me_false_discovery_rate :: "(nat \<times> nat) option"
  me_miss_rate :: "(nat \<times> nat) option"
  me_false_positive_rate :: "(nat \<times> nat) option"
  me_false_negative_rate :: "(nat \<times> nat) option"
  me_sample_size :: nat
  me_detected_total :: nat
  me_labeled_detected :: nat
  me_coverage :: "(nat \<times> nat) option"
  me_review_population_complete :: bool
  me_complete_review_runs :: nat
  me_measurement_status :: string

definition rate :: "nat \<Rightarrow> nat \<Rightarrow> (nat \<times> nat) option" where
  "rate x n = (if n = 0 then None else Some (x, n))"

definition category_metric :: "label_group list \<Rightarrow> string list \<Rightarrow> string \<Rightarrow> metric" where
  "category_metric groups detected c =
     (let tp = group_sum c TP groups; fp = group_sum c FP groups;
          fn = group_sum c FN groups; tn = group_sum c TN groups;
          runs_of = (\<lambda>P. dedup (map (\<lambda>((run, _), _). run)
                          (filter (\<lambda>((_, cat, _, _, complete), _). cat = c \<and> P complete) groups)));
          observed = runs_of (\<lambda>_. True); incomplete = runs_of (\<lambda>complete. \<not> complete);
          detected_total = length (filter (\<lambda>x. x = c) detected);
          labeled = tp + fp; sample_size = tp + fp + fn + tn;
          population_complete = (observed \<noteq> [] \<and> incomplete = []);
          measurable = (detected_total \<noteq> 0 \<and> labeled = detected_total
                        \<and> sample_size \<ge> ACCURACY_MIN_SAMPLE_SIZE \<and> population_complete)
      in \<lparr>me_category = c, me_tp = tp, me_fp = fp, me_fn = fn, me_tn = tn,
          me_precision = rate tp (tp + fp), me_recall = rate tp (tp + fn),
          me_false_discovery_rate = rate fp (tp + fp), me_miss_rate = rate fn (tp + fn),
          me_false_positive_rate = rate fp (fp + tn), me_false_negative_rate = rate fn (tp + fn),
          me_sample_size = sample_size, me_detected_total = detected_total, me_labeled_detected = labeled,
          me_coverage = rate labeled detected_total, me_review_population_complete = population_complete,
          me_complete_review_runs = length (filter (\<lambda>r. r \<notin> set incomplete) observed),
          me_measurement_status = (if measurable then ''MEASURABLE'' else ''INSUFFICIENT'')\<rparr>)"

definition accuracy_metrics :: "string \<Rightarrow> string list \<Rightarrow> db \<Rightarrow> metric list result" where
  "accuracy_metrics w scopes d =
     (if scopes = [] then Inr []
      else let groups = label_groups w scopes d;
               run_ids = dedup (map (\<lambda>((run, _), _). run) groups)
           in bind_result (detected_categories w run_ids d) (\<lambda>detected.
                Inr (map (category_metric groups detected)
                      (sort (dedup (map (\<lambda>((_, c, _), _). c) groups @ detected))))))"

section \<open>Facts\<close>

definition labels :: "string \<Rightarrow> string list \<Rightarrow> db \<Rightarrow> feedback_row list" where
  "labels w scopes d = sql_select (\<lambda>f. fb_workspace_id f = w \<and> fb_dataset_scope f \<in> set scopes) (accuracy_feedback d)"

lemma category_metric_counts:
  "me_category (category_metric groups detected c) = c"
  "me_tp (category_metric groups detected c) = group_sum c TP groups" "me_fp (category_metric groups detected c) = group_sum c FP groups"
  "me_fn (category_metric groups detected c) = group_sum c FN groups" "me_tn (category_metric groups detected c) = group_sum c TN groups"
  "me_sample_size (category_metric groups detected c)
     = group_sum c TP groups + group_sum c FP groups + group_sum c FN groups + group_sum c TN groups"
  by (simp_all add: category_metric_def Let_def)

lemma dedup_empty: "dedup xs = [] \<longleftrightarrow> xs = []"
  using set_dedup [of xs] by (metis set_empty)

lemma group_sum_map:
  assumes "distinct ks"
  shows "group_sum c x (map (\<lambda>k. (k, length (filter (\<lambda>f. group_key f = k) sel))) ks)
    = length (filter (\<lambda>f. group_key f \<in> set ks \<and> fb_category f = c \<and> outcome_of (fb_predicted f) (fb_actual f) = x) sel)"
  using assms
proof (induction ks)
  case (Cons k ks)
  obtain run cat predicted actual complete where k: "k = (run, cat, predicted, actual, complete)"
    by (cases k) auto
  let ?Q = "\<lambda>f. fb_category f = c \<and> outcome_of (fb_predicted f) (fb_actual f) = x"
  have "length (filter (\<lambda>f. group_key f \<in> set (k # ks) \<and> ?Q f) sel)
      = length (filter (\<lambda>f. group_key f = k \<and> ?Q f) sel) + length (filter (\<lambda>f. group_key f \<in> set ks \<and> ?Q f) sel)"
    using Cons.prems by (induction sel) auto
  moreover have "length (filter (\<lambda>f. group_key f = k \<and> ?Q f) sel)
      = (if cat = c \<and> outcome_of predicted actual = x then length (filter (\<lambda>f. group_key f = k) sel) else 0)"
    by (induction sel) (auto simp: k group_key_def)
  ultimately show ?case using Cons by (simp add: k)
qed simp

lemma group_sum_labels:
  "group_sum c x (label_groups w scopes d)
     = length (filter (\<lambda>f. fb_category f = c \<and> outcome_of (fb_predicted f) (fb_actual f) = x) (labels w scopes d))"
proof -
  have "group_sum c x (label_groups w scopes d) = length (filter (\<lambda>f. group_key f \<in> set (map group_key (labels w scopes d))
      \<and> fb_category f = c \<and> outcome_of (fb_predicted f) (fb_actual f) = x) (labels w scopes d))"
    using group_sum_map [of "dedup (map group_key (labels w scopes d))"]
    by (simp add: label_groups_def labels_def Let_def)
  also have "\<dots> = length (filter (\<lambda>f. fb_category f = c \<and> outcome_of (fb_predicted f) (fb_actual f) = x) (labels w scopes d))"
    by (intro arg_cong [of _ _ length] filter_cong) auto
  finally show ?thesis .
qed

lemma outcome_partition:
  "length (filter (\<lambda>f. P f \<and> outcome_of (g f) (h f) = TP) t) + length (filter (\<lambda>f. P f \<and> outcome_of (g f) (h f) = FP) t)
     + length (filter (\<lambda>f. P f \<and> outcome_of (g f) (h f) = FN) t) + length (filter (\<lambda>f. P f \<and> outcome_of (g f) (h f) = TN) t)
   = length (filter P t)"
proof (induction t)
  case (Cons f t)
  then show ?case by (cases "outcome_of (g f) (h f)") auto
qed simp

section \<open>Properties\<close>

text \<open>The metrics count every label once: in each reported category the true and false positives
  and negatives are the numbers of labels of that kind among the workspace's feedback in the chosen
  scopes, and the sample size is the number of the category's labels. A category is reported as
  measurable only when every detected requirement count is matched by labels, the sample is large
  enough and every labelled run of the category was reviewed completely.\<close>

lemma metrics_count_labels:
  assumes "accuracy_metrics w scopes d = Inr ms" and "m \<in> set ms"
  shows "me_tp m = length (filter (\<lambda>f. fb_category f = me_category m \<and> outcome_of (fb_predicted f) (fb_actual f) = TP) (labels w scopes d))
    \<and> me_fn m = length (filter (\<lambda>f. fb_category f = me_category m \<and> outcome_of (fb_predicted f) (fb_actual f) = FN) (labels w scopes d))
    \<and> me_sample_size m = length (filter (\<lambda>f. fb_category f = me_category m) (labels w scopes d))
    \<and> (me_measurement_status m = ''MEASURABLE'' \<longrightarrow>
         me_coverage m = Some (me_detected_total m, me_detected_total m) \<and> me_sample_size m \<ge> 20
         \<and> (\<forall>f \<in> set (labels w scopes d). fb_category f = me_category m \<longrightarrow> fb_review_complete f))"
proof -
  from assms obtain c detected where m: "m = category_metric (label_groups w scopes d) detected c"
    by (auto simp: accuracy_metrics_def Let_def bind_result_Inr split: if_splits)
  have cat: "me_category m = c" by (simp add: m category_metric_def Let_def)
  have "me_sample_size m = length (filter (\<lambda>f. fb_category f = c) (labels w scopes d))"
    using outcome_partition [of "\<lambda>f. fb_category f = c" fb_predicted fb_actual "labels w scopes d"]
    by (simp add: m category_metric_counts group_sum_labels)
  moreover have "me_coverage m = Some (me_detected_total m, me_detected_total m) \<and> me_sample_size m \<ge> 20"
    if "me_measurement_status m = ''MEASURABLE''"
    using that by (simp add: m category_metric_def Let_def rate_def ACCURACY_MIN_SAMPLE_SIZE_def split: if_splits)
  moreover have "fb_review_complete f" if "me_measurement_status m = ''MEASURABLE''"
    and f: "f \<in> set (labels w scopes d)" "fb_category f = c" for f
  proof (rule ccontr)
    assume "\<not> fb_review_complete f"
    with f obtain n where group: "((fb_run_id f, c, fb_predicted f, fb_actual f, False), n) \<in> set (label_groups w scopes d)"
      by (auto simp: label_groups_def labels_def Let_def group_key_def image_iff)
    have "dedup (map (\<lambda>((run, _), _). run) (filter (\<lambda>((_, cat, _, _, whole), _). cat = c \<and> \<not> whole) (label_groups w scopes d))) = []"
      using that(1) by (simp add: m category_metric_def Let_def split: if_splits)
    then have "filter (\<lambda>((_, cat, _, _, whole), _). cat = c \<and> \<not> whole) (label_groups w scopes d) = []"
      by (simp only: dedup_empty map_is_Nil_conv)
    then have "\<not> (\<lambda>((_, cat, _, _, whole), _). cat = c \<and> \<not> whole) ((fb_run_id f, c, fb_predicted f, fb_actual f, False), n)"
      using group by (simp only: filter_empty_conv) blast
    then show False by simp
  qed
  ultimately show ?thesis
    unfolding cat by (simp add: m category_metric_counts group_sum_labels)
qed

definition demo_label :: feedback_row where
  "demo_label = \<lparr>fb_feedback_id = ''f1'', fb_workspace_id = ''w'', fb_run_id = ''r1'', fb_requirement_id = Some ''q1'',
     fb_feedback_key = ''detected:q1'', fb_category = ''BOND'', fb_predicted = ''DETECTED'', fb_actual = ''RELEVANT'',
     fb_locator_label = None, fb_quote = None, fb_note = [], fb_reviewer_id = ''u'', fb_dataset_scope = ''PILOT'',
     fb_review_complete = True, fb_created_at = 0\<rparr>"

definition demo_labels :: db where
  "demo_labels = empty_db\<lparr>accuracy_feedback := [demo_label]\<rparr>"

lemma demo_metrics:
  "accuracy_metrics ''w'' [''PILOT''] demo_labels
     = Inr [category_metric [((''r1'', ''BOND'', ''DETECTED'', ''RELEVANT'', True), 1)] [] ''BOND'']"
  by (simp add: accuracy_metrics_def label_groups_def detected_categories_def demo_labels_def demo_label_def
      empty_db_def sql_select_def group_key_def dedup_def Let_def)

lemma metrics_count_labels_example:
  "\<exists>m. accuracy_metrics ''w'' [''PILOT''] demo_labels = Inr [m] \<and> me_tp m = 1 \<and> me_sample_size m = 1"
proof -
  let ?m = "category_metric [((''r1'', ''BOND'', ''DETECTED'', ''RELEVANT'', True), 1)] [] ''BOND''"
  have "labels ''w'' [''PILOT''] demo_labels = [demo_label]"
    by (simp add: labels_def demo_labels_def demo_label_def sql_select_def)
  then have "me_tp ?m = 1" "me_sample_size ?m = 1"
    using metrics_count_labels [OF demo_metrics, of ?m]
    by (simp_all add: demo_label_def outcome_of_def category_metric_def Let_def)
  with demo_metrics show ?thesis by blast
qed

text \<open>With field encryption on, the metrics of a workspace that has a label on an encrypted run
  cannot be computed: the stored requirements are iterated without being decrypted, which raises.\<close>

lemma metrics_fail_on_encrypted_runs:
  assumes "r \<in> set (runs d)" and "rr_workspace_id r = w"
    and "f \<in> set (labels w scopes d)" and "fb_run_id f = rr_run_id r"
    and "\<forall>x \<in> set (runs d). \<exists>doc. rr_requirements_json x = protect (Some key) doc"
  shows "accuracy_metrics w scopes d = Inl AttributeError"
proof -
  let ?ids = "dedup (map (\<lambda>((run, _), _). run) (label_groups w scopes d))"
  let ?rows = "sql_select (\<lambda>r. rr_workspace_id r = w \<and> rr_run_id r \<in> set ?ids) (runs d)"
  from assms(3) have "(group_key f, length (filter (\<lambda>g. group_key g = group_key f) (labels w scopes d))) \<in> set (label_groups w scopes d)"
    by (auto simp: label_groups_def labels_def Let_def)
  then have "fb_run_id f \<in> set ?ids" by (force simp: group_key_def image_iff)
  with assms(1,2,4) have "r \<in> set ?rows" by simp
  then have "?rows \<noteq> []" by (metis empty_iff list.set(1))
  then obtain x xs where rows: "?rows = x # xs" by (meson neq_Nil_conv)
  then have "x \<in> set (runs d)" using set_sql_select by (metis (no_types, lifting) list.set_intros(1) mem_Collect_eq)
  with assms(5) have "raw_requirements (rr_requirements_json x) = Inl AttributeError"
    by (auto simp: raw_requirements_def protect_def)
  then have "detected_categories w ?ids d = Inl AttributeError"
    unfolding detected_categories_def rows by simp
  moreover have "scopes \<noteq> []" using assms(3) by (auto simp: labels_def)
  ultimately show ?thesis by (simp add: accuracy_metrics_def Let_def)
qed

definition demo_encrypted :: db where
  "demo_encrypted = demo_labels\<lparr>runs := map (rr_requirements_json_update (\<lambda>_. Fernet_v1 ''gAAAA''))
     (runs demo_db)\<rparr>"

lemma metrics_fail_on_encrypted_runs_example:
  "accuracy_metrics ''w'' [''PILOT''] demo_encrypted = Inl AttributeError"
proof -
  obtain row where row: "runs demo_db = [row]" "rr_run_id row = ''r1''" "rr_workspace_id row = ''w''"
    using demo_db_runs by (auto simp: run_to_storage_def demo_run_def Let_def split: prod.splits)
  let ?r = "row\<lparr>rr_requirements_json := Fernet_v1 ''gAAAA''\<rparr>"
  have runs: "runs demo_encrypted = [?r]" by (simp add: demo_encrypted_def row)
  have "labels ''w'' [''PILOT''] demo_encrypted = [demo_label]"
    by (simp add: labels_def demo_encrypted_def demo_labels_def demo_label_def sql_select_def)
  moreover have "\<exists>doc. Fernet_v1 ''gAAAA'' = protect (Some \<lparr>fe_encrypt = \<lambda>_. ''gAAAA'', fe_decrypt = \<lambda>_. None\<rparr>) doc"
    by (simp add: protect_def)
  ultimately show ?thesis
    by (intro metrics_fail_on_encrypted_runs [of ?r _ _ demo_label]) (auto simp: runs row demo_label_def)
qed

end
