(* ===== verification/Run_Service.thy ===== *)
theory Run_Service
  imports Presenters Audit_Log Collaboration
begin

text \<open>
  The operations of \<open>src/app/services/run_service.py\<close> on an existing run: review, decision, metadata,
  bulk actions, comparison, remediation and feedback, deletion, and the listing. A service call reads
  the run, changes it, saves it (against a revision or unconditionally) and appends an audit event.
  \<open>env\<close> holds what a call takes from its surroundings: the field-encryption client, SHA-256, the clock
  (the readings of one call are taken as equal), fresh identifiers, and the contexts of the audit
  events it writes, in order. The removal of a run's directory is outside the model.
\<close>

record env =
  en_client :: "fernet option"
  en_sha :: "string \<Rightarrow> string"
  en_now :: timestamp
  en_new_id :: string
  en_audit :: "nat \<Rightarrow> audit_ctx"
  en_production :: bool

definition audit :: "env \<Rightarrow> nat \<Rightarrow> principal \<Rightarrow> string \<Rightarrow> string option \<Rightarrow> json \<Rightarrow> db \<Rightarrow> db" where
  "audit en k pr event_type run payload d =
     record_audit_event (en_sha en) (en_audit en k) (pr_workspace_id pr) (pr_user_id pr) event_type run payload
       ''SUCCESS'' d"

definition jstr :: "string \<Rightarrow> json" where
  "jstr s = JStr (asc s)"

definition jopt :: "string option \<Rightarrow> json" where
  "jopt x = (case x of None \<Rightarrow> JNull | Some s \<Rightarrow> jstr s)"

section \<open>State of a run\<close>

definition initial_research_state :: "string \<Rightarrow> timestamp \<Rightarrow> research_state" where
  "initial_research_state run now =
     \<lparr>rs_run_id = run, rs_status = ''FRAME'', rs_run_stage = ''INTAKE'', rs_company_name = None,
      rs_source_documents = [], rs_evidence_assets = [], rs_evidence_matrix = [], rs_review_events = [],
      rs_decision_record = None, rs_action_plan = [], rs_scan_quality = None,
      rs_created_at = now, rs_updated_at = now\<rparr>"

definition advance_state :: "research_state \<Rightarrow> string \<Rightarrow> timestamp \<Rightarrow> research_state" where
  "advance_state st status now =
     st\<lparr>rs_status := status,
        rs_run_stage := (if status = ''FRAME'' then ''INTAKE'' else if status = ''AUDIT'' then ''SCAN''
                         else if status = ''SYNTHESIZE'' then ''DECISION'' else rs_run_stage st),
        rs_updated_at := now\<rparr>"

section \<open>Review and decision\<close>

record review_request =
  rv_requirement_id :: string
  rv_decision :: review_decision
  rv_note :: ustr
  rv_new_status :: "req_status option"
  rv_revision :: "int option"

definition decision_text :: "review_decision \<Rightarrow> string" where
  "decision_text x = (case x of Verdict s \<Rightarrow> status_name s | CONFIRM \<Rightarrow> ''CONFIRM'' | REJECT \<Rightarrow> ''REJECT''
     | REQUEST_EVIDENCE \<Rightarrow> ''REQUEST_EVIDENCE'')"

text \<open>\<open>next(item for item in ... if ...)\<close> refers to the first matching requirement, and the assignment
  to its status changes that one.\<close>

fun set_first_status :: "string \<Rightarrow> req_status \<Rightarrow> requirement list \<Rightarrow> requirement list" where
  "set_first_status x s [] = []"
| "set_first_status x s (q # qs) =
     (if rq_requirement_id q = x then q\<lparr>rq_status := s\<rparr> # qs else q # set_first_status x s qs)"

text \<open>The save and the audit event that end a service call.\<close>

definition save_and_record ::
  "env \<Rightarrow> principal \<Rightarrow> run_doc \<Rightarrow> int option \<Rightarrow> string \<Rightarrow> json \<Rightarrow> (db, run_view) handler" where
  "save_and_record en pr run expected event_type payload d =
     (case save_run (en_client en) (en_now en) run expected d of
        (Inl e, d1) \<Rightarrow> (Inl e, d1)
      | (Inr run2, d1) \<Rightarrow> (Inr (public_run run2), audit en 0 pr event_type (Some (rn_run_id run)) payload d1))"

definition reviewed_run :: "timestamp \<Rightarrow> run_doc \<Rightarrow> research_state \<Rightarrow> review_request \<Rightarrow> req_status \<Rightarrow> req_status \<Rightarrow> run_doc" where
  "reviewed_run now run st p old_status new_status =
     (let reqs = set_first_status (rv_requirement_id p) new_status (rn_requirements run);
          item = \<lparr>ri_requirement_id = rv_requirement_id p, ri_decision = decision_text (rv_decision p),
                  ri_old_status = old_status, ri_new_status = new_status,
                  ri_note = strip (rv_note p), ri_reviewed_at = now\<rparr>;
          st1 = advance_state (st\<lparr>rs_review_events := rs_review_events st @ [item],
                                  rs_evidence_matrix := reqs\<rparr>) ''SYNTHESIZE'' now
      in run\<lparr>rn_requirements := reqs,
             rn_review := \<lparr>rv_items = rv_items (rn_review run) @ [item], rv_updated_at = now\<rparr>,
             rn_state := Some st1, rn_status := rs_status st1, rn_updated_at := now\<rparr>)"

definition review :: "env \<Rightarrow> principal \<Rightarrow> run_doc \<Rightarrow> review_request \<Rightarrow> (db, run_view) handler" where
  "review en pr run p d =
     (case find (\<lambda>q. rq_requirement_id q = rv_requirement_id p) (rn_requirements run) of
        None \<Rightarrow> (Inl (HTTPException 404), d)
      | Some q \<Rightarrow>
          let new_status = resolve_review_status (rv_decision p) (rv_new_status p) (rq_status q)
          in if new_status = PASS \<and> \<not> has_complete_citation q then (Inl (HTTPException 422), d)
             else case rn_state run of
               None \<Rightarrow> (Inl KeyError, d)
             | Some st \<Rightarrow>
                 save_and_record en pr (reviewed_run (en_now en) run st p (rq_status q) new_status)
                   (Some (case rv_revision p of Some n \<Rightarrow> n | None \<Rightarrow> rn_revision run))
                   ''REQUIREMENT_REVIEWED''
                   (JObj [(''requirement_id'', jstr (rv_requirement_id p)), (''new_status'', jstr (status_name new_status))]) d)"

record decision_request =
  dr_decision :: string
  dr_note :: ustr
  dr_unresolved_requirement_ids :: "string list"
  dr_revision :: "int option"

definition decided_run :: "timestamp \<Rightarrow> run_doc \<Rightarrow> research_state \<Rightarrow> decision_request \<Rightarrow> run_doc" where
  "decided_run now run st p =
     (let dec = \<lparr>dc_decision = dr_decision p, dc_note = strip (dr_note p),
                 dc_unresolved_requirement_ids = dr_unresolved_requirement_ids p, dc_recorded_at = now\<rparr>;
          st1 = st\<lparr>rs_decision_record := Some dec,
                   rs_action_plan := [\<lparr>ac_action = dr_decision p, ac_owner = ''user'',
                                       ac_created_at = now, ac_note = strip (dr_note p)\<rparr>]\<rparr>
      in run\<lparr>rn_decision := Some dec, rn_state := Some st1, rn_updated_at := now\<rparr>)"

definition record_decision :: "env \<Rightarrow> principal \<Rightarrow> run_doc \<Rightarrow> decision_request \<Rightarrow> (db, run_view) handler" where
  "record_decision en pr run p d =
     (if en_production en \<and> dr_revision p = None then (Inl (HTTPException 422), d)
      else if \<not> set (dr_unresolved_requirement_ids p) \<subseteq> set (map rq_requirement_id (rn_requirements run))
      then (Inl (HTTPException 400), d)
      else case rn_state run of
        None \<Rightarrow> (Inl KeyError, d)
      | Some st \<Rightarrow>
          save_and_record en pr (decided_run (en_now en) run st p)
            (Some (case dr_revision p of Some n \<Rightarrow> n | None \<Rightarrow> rn_revision run))
            ''RUN_DECISION_RECORDED''
            (JObj [(''decision'', jstr (dr_decision p)),
                   (''unresolved_count'', JInt (int (length (dr_unresolved_requirement_ids p))))]) d)"

section \<open>Metadata and bulk actions\<close>

record metadata_request =
  md_assignee_id :: "string option"
  md_reviewer_id :: "string option"
  md_tags :: "ustr list"
  md_favorite :: bool

definition update_metadata :: "env \<Rightarrow> principal \<Rightarrow> run_doc \<Rightarrow> metadata_request \<Rightarrow> (db, run_view) handler" where
  "update_metadata en pr run p d =
     (let tags = dedup (filter (\<lambda>t. t \<noteq> []) (map strip (md_tags p)));
          run1 = run\<lparr>rn_assignee_id := md_assignee_id p, rn_reviewer_id := md_reviewer_id p, rn_tags := tags,
                    rn_favorite := md_favorite p, rn_updated_at := en_now en\<rparr>
      in save_and_record en pr run1 None ''RUN_METADATA_UPDATED''
           (JObj [(''assignee_id'', jopt (md_assignee_id p)), (''reviewer_id'', jopt (md_reviewer_id p)),
                  (''tags'', JList (map JStr tags)), (''favorite'', JBool (md_favorite p))]) d)"

datatype bulk_action = ARCHIVE | RESTORE | DELETE_RUNS

definition bulk_event :: "bulk_action \<Rightarrow> string" where
  "bulk_event a = (case a of ARCHIVE \<Rightarrow> ''RUN_ARCHIVE'' | RESTORE \<Rightarrow> ''RUN_RESTORE'' | DELETE_RUNS \<Rightarrow> ''RUN_DELETE'')"

definition bulk_write :: "env \<Rightarrow> bulk_action \<Rightarrow> run_doc \<Rightarrow> (db, unit) handler" where
  "bulk_write en action run d =
     (if action = DELETE_RUNS then (Inr (), snd (delete_run (rn_run_id run) d))
      else case save_run (en_client en) (en_now en)
                  (run\<lparr>rn_archived_at := (if action = ARCHIVE then Some (en_now en) else None),
                       rn_updated_at := en_now en\<rparr>) None d of
             (Inl e, d1) \<Rightarrow> (Inl e, d1) | (Inr _, d1) \<Rightarrow> (Inr (), d1))"

text \<open>The loop over the distinct run ids; \<open>k\<close> counts the audit events written so far.\<close>

fun bulk_loop :: "env \<Rightarrow> principal \<Rightarrow> bulk_action \<Rightarrow> string list \<Rightarrow> nat \<Rightarrow> (db, nat) handler" where
  "bulk_loop en pr action [] k d = (Inr k, d)"
| "bulk_loop en pr action (x # xs) k d =
     (case load_run (en_client en) x d of
        Inl e \<Rightarrow> (Inl e, d)
      | Inr None \<Rightarrow> bulk_loop en pr action xs k d
      | Inr (Some run) \<Rightarrow>
          if rn_workspace_id run \<noteq> pr_workspace_id pr then bulk_loop en pr action xs k d
          else case bulk_write en action run d of
                 (Inl e, d1) \<Rightarrow> (Inl e, d1)
               | (Inr _, d1) \<Rightarrow>
                   bulk_loop en pr action xs (k + 1)
                     (audit en k pr (bulk_event action) (Some x) (JObj []) d1))"

definition bulk_manage :: "env \<Rightarrow> principal \<Rightarrow> string list \<Rightarrow> bulk_action \<Rightarrow> (db, nat) handler" where
  "bulk_manage en pr run_ids action d = bulk_loop en pr action (dedup run_ids) 0 d"

definition delete :: "env \<Rightarrow> principal \<Rightarrow> run_doc \<Rightarrow> db \<Rightarrow> (string \<times> bool) \<times> db" where
  "delete en pr run d =
     (let (removed, d1) = delete_run (rn_run_id run) d
      in ((rn_run_id run, removed), audit en 0 pr ''RUN_DELETE'' (Some (rn_run_id run)) (JObj []) d1))"

section \<open>Remediation and feedback\<close>

definition known_requirement :: "run_doc \<Rightarrow> string option \<Rightarrow> bool" where
  "known_requirement run x = (case x of None \<Rightarrow> True | Some y \<Rightarrow>
     y = '''' \<or> list_ex (\<lambda>q. rq_requirement_id q = y) (rn_requirements run))"

definition service_create_remediation ::
  "env \<Rightarrow> principal \<Rightarrow> run_doc \<Rightarrow> remediation_payload \<Rightarrow> (db, remediation_row) handler" where
  "service_create_remediation en pr run p d =
     (if \<not> known_requirement run (rp_requirement_id p) then (Inl (HTTPException 400), d)
      else let (m, d1) = create_remediation (pr_workspace_id pr) (rn_run_id run) p (en_new_id en) (en_now en) d
           in (Inr m, audit en 0 pr ''REMEDIATION_CREATED'' (Some (rn_run_id run))
                        (JObj [(''remediation_id'', jstr (rm_remediation_id m))]) d1))"

definition service_add_accuracy_feedback ::
  "(string \<Rightarrow> string) \<Rightarrow> (ustr \<Rightarrow> string) \<Rightarrow> env \<Rightarrow> principal \<Rightarrow> run_doc \<Rightarrow> feedback_payload \<Rightarrow> (db, feedback_row) handler" where
  "service_add_accuracy_feedback upper sha en pr run p d =
     (if fp_predicted p = ''DETECTED'' \<and> fp_requirement_id p \<in> {None, Some ''''} then (Inl (HTTPException 422), d)
      else if fp_predicted p = ''MISSED'' \<and> (fp_actual p \<noteq> ''RELEVANT'' \<or> fp_locator_label p \<in> {None, Some []}
                                            \<or> fp_quote p \<in> {None, Some []})
      then (Inl (HTTPException 422), d)
      else if \<not> known_requirement run (fp_requirement_id p) then (Inl (HTTPException 400), d)
      else let (f, d1) = add_accuracy_feedback upper sha (pr_workspace_id pr) (rn_run_id run) (pr_user_id pr) p
                           (en_new_id en) (en_now en) d
           in (Inr f, audit en 0 pr ''ACCURACY_FEEDBACK_ADDED'' (Some (rn_run_id run))
                        (JObj [(''feedback_id'', jstr (fb_feedback_id f)), (''category'', jstr (fb_category f)),
                               (''dataset_scope'', jstr (fb_dataset_scope f)), (''review_complete'', JBool (fb_review_complete f))]) d1))"

section \<open>Reading\<close>

text \<open>Dictionaries keyed by the signature: a later requirement with the same signature replaces the
  earlier one. The code iterates over key sets, so the order of its lists is not fixed.\<close>

definition by_signature :: "(ustr \<Rightarrow> ustr) \<Rightarrow> requirement list \<Rightarrow> (category \<times> ustr \<rightharpoonup> requirement)" where
  "by_signature casefold qs = map_of (rev (map (\<lambda>q. (requirement_signature casefold q, q)) qs))"

definition signatures :: "(ustr \<Rightarrow> ustr) \<Rightarrow> requirement list \<Rightarrow> (category \<times> ustr) list" where
  "signatures casefold qs = dedup (map (requirement_signature casefold) qs)"

record run_diff =
  df_added :: "requirement list"
  df_removed :: "requirement list"
  df_changed :: "(requirement \<times> requirement) list"

definition diff :: "(ustr \<Rightarrow> ustr) \<Rightarrow> run_doc \<Rightarrow> run_doc \<Rightarrow> run_diff" where
  "diff casefold current other =
     (let cur = by_signature casefold (rn_requirements current);
          oth = by_signature casefold (rn_requirements other);
          cur_keys = signatures casefold (rn_requirements current);
          oth_keys = signatures casefold (rn_requirements other)
      in \<lparr>df_added = map (the \<circ> cur) (filter (\<lambda>k. oth k = None) cur_keys),
          df_removed = map (the \<circ> oth) (filter (\<lambda>k. cur k = None) oth_keys),
          df_changed = map (\<lambda>k. (the (oth k), the (cur k)))
            (filter (\<lambda>k. oth k \<noteq> None \<and> rq_status (the (cur k)) \<noteq> rq_status (the (oth k))) cur_keys)\<rparr>)"

record listing_query =
  lq_include_archived :: bool
  lq_project_id :: "string option"
  lq_search :: "ustr option"
  lq_tag :: "ustr option"
  lq_favorite :: "bool option"
  lq_assignee_id :: "string option"
  lq_reviewer_id :: "string option"
  lq_sort :: string
  lq_after_created_at :: "timestamp option"
  lq_after_run_id :: "string option"

definition search_text :: "run_doc \<Rightarrow> ustr" where
  "search_text run = join [32] (asc (rn_tender_filename run) # asc (rn_run_id run) # rn_tags run)"

definition listing_filter :: "(ustr \<Rightarrow> ustr) \<Rightarrow> listing_query \<Rightarrow> run_doc \<Rightarrow> bool" where
  "listing_filter casefold q run \<longleftrightarrow>
     (let needle = (case lq_search q of None \<Rightarrow> [] | Some s \<Rightarrow> if s = [] then [] else casefold (strip s))
      in needle = [] \<or> contains needle (casefold (search_text run)))
     \<and> (lq_tag q = None \<or> lq_tag q = Some [] \<or> list_ex (\<lambda>t. lq_tag q = Some t) (rn_tags run))
     \<and> (lq_favorite q = None \<or> lq_favorite q = Some (rn_favorite run))
     \<and> (lq_assignee_id q = None \<or> rn_assignee_id run = lq_assignee_id q)
     \<and> (lq_reviewer_id q = None \<or> rn_reviewer_id run = lq_reviewer_id q)"

definition listing ::
  "(ustr \<Rightarrow> ustr) \<Rightarrow> fernet option \<Rightarrow> principal \<Rightarrow> listing_query \<Rightarrow> db \<Rightarrow> run_summary list result" where
  "listing casefold client pr q d =
     bind_result
       (list_runs client \<lparr>qy_workspace_id = Some (pr_workspace_id pr),
          qy_include_archived = lq_include_archived q,
          qy_project_id = (if lq_project_id q = Some '''' then None else lq_project_id q),
          qy_limit = None, qy_offset = 0,
          qy_after_created_at = lq_after_created_at q, qy_after_run_id = lq_after_run_id q\<rparr> d)
       (\<lambda>rs.
          let rs1 = filter (\<lambda>r. user_can_access_project pr (rn_project_id r) d) rs;
              rs2 = filter (listing_filter casefold q) rs1;
              rs3 = (if lq_sort q = ''filename''
                     then order_by (\<lambda>r. (casefold (asc (rn_tender_filename r)), rn_run_id r)) rs2
                     else order_by_desc (\<lambda>r. (rn_updated_at r, rn_run_id r)) rs2)
          in Inr (map public_summary rs3))"

definition severity_name :: "severity \<Rightarrow> string" where
  "severity_name s = (case s of HIGH \<Rightarrow> ''HIGH'' | MEDIUM \<Rightarrow> ''MEDIUM'')"

definition wanted :: "(string \<Rightarrow> string) \<Rightarrow> string option \<Rightarrow> string \<Rightarrow> bool" where
  "wanted upper x name = (case x of None \<Rightarrow> True | Some y \<Rightarrow> y = '''' \<or> name = upper y)"

definition requirements ::
  "(string \<Rightarrow> string) \<Rightarrow> run_doc \<Rightarrow> string option \<Rightarrow> string option \<Rightarrow> string option \<Rightarrow> requirement list" where
  "requirements upper run category status severity =
     filter (\<lambda>q. wanted upper category (cat_name (rq_category q)) \<and> wanted upper status (status_name (rq_status q))
                \<and> wanted upper severity (severity_name (rq_severity q))) (rn_requirements run)"

section \<open>Passed requirements keep their citations\<close>

text \<open>
  Handlers work on a run that they loaded earlier, so another handler may have changed the stored run
  in between. The state of the step relation is the database with the runs in flight: loading a run
  adds it, and any later call may use it, however stale.
\<close>

record service_state =
  ss_db :: db
  ss_loaded :: "run_doc set"

datatype run_event = Publish_Run string | Load string | Call string

inductive run_step :: "fernet option \<Rightarrow> service_state \<Rightarrow> run_event \<Rightarrow> service_state \<Rightarrow> bool" for client where
  publish: "\<forall>q \<in> set (rn_requirements run). rq_status q \<noteq> PASS \<Longrightarrow>
    run_step client s (Publish_Run (rn_run_id run)) (s\<lparr>ss_db := snd (save_run client now run None (ss_db s))\<rparr>)"
| load: "load_run client x (ss_db s) = Inr (Some run) \<Longrightarrow>
    run_step client s (Load x) (s\<lparr>ss_loaded := insert run (ss_loaded s)\<rparr>)"
| review: "run \<in> ss_loaded s \<Longrightarrow> en_client en = client \<Longrightarrow>
    run_step client s (Call ''review'') (s\<lparr>ss_db := snd (review en pr run p1 (ss_db s))\<rparr>)"
| decision: "run \<in> ss_loaded s \<Longrightarrow> en_client en = client \<Longrightarrow>
    run_step client s (Call ''record_decision'') (s\<lparr>ss_db := snd (record_decision en pr run p2 (ss_db s))\<rparr>)"
| metadata: "run \<in> ss_loaded s \<Longrightarrow> en_client en = client \<Longrightarrow>
    run_step client s (Call ''update_metadata'') (s\<lparr>ss_db := snd (update_metadata en pr run p3 (ss_db s))\<rparr>)"
| bulk: "en_client en = client \<Longrightarrow>
    run_step client s (Call ''bulk_manage'') (s\<lparr>ss_db := snd (bulk_manage en pr ids action (ss_db s))\<rparr>)"
| delete: "run \<in> ss_loaded s \<Longrightarrow>
    run_step client s (Call ''delete'') (s\<lparr>ss_db := snd (delete en pr run (ss_db s))\<rparr>)"

definition guarded_step :: "fernet option \<Rightarrow> service_state \<Rightarrow> run_event \<Rightarrow> service_state \<Rightarrow> bool" where
  "guarded_step client s e t \<longleftrightarrow> fernet_ok client \<and> run_step client s e t"

definition service_reach :: "fernet option \<Rightarrow> service_state \<Rightarrow> bool" where
  "service_reach client s \<longleftrightarrow> (\<lambda>s t. \<exists>e. guarded_step client s e t)\<^sup>*\<^sup>* \<lparr>ss_db = empty_db, ss_loaded = {}\<rparr> s"

lemma service_reach_step: "service_reach client s \<Longrightarrow> guarded_step client s e t \<Longrightarrow> service_reach client t"
  unfolding service_reach_def by (rule rtranclp.rtrancl_into_rtrancl) auto

lemma runs_audit [simp]: "runs (audit en k pr ty run payload d) = runs d"
  by (simp add: audit_def record_audit_event_def Let_def)

lemma reviewed_run_requirements [simp]:
  "rn_requirements (reviewed_run now run st p old new) = set_first_status (rv_requirement_id p) new (rn_requirements run)"
  "rn_run_id (reviewed_run now run st p old new) = rn_run_id run"
  "rn_revision (reviewed_run now run st p old new) = rn_revision run"
  "rn_state (reviewed_run now run st p old new) \<noteq> None"
  by (simp_all add: reviewed_run_def Let_def)

lemma decided_run_requirements [simp]:
  "rn_requirements (decided_run now run st p) = rn_requirements run"
  "rn_run_id (decided_run now run st p) = rn_run_id run"
  "rn_state (decided_run now run st p) \<noteq> None"
  by (simp_all add: decided_run_def Let_def)

text \<open>
  What such a system keeps is a promise about rows and one about the runs a reader gets. The laws say what a promise
  has to survive: being stored, being read back, a publication by a scan, a review that passed its checks, and
  any change outside the requirements. What follows from them is proved once, for every promise.
\<close>

locale run_promise =
  fixes client :: "fernet option" and row_good :: "run_row \<Rightarrow> bool" and run_good :: "run_doc \<Rightarrow> bool"
  assumes stored: "fernet_ok client \<Longrightarrow> run_to_storage client run = Inr row \<Longrightarrow> run_good run \<Longrightarrow>
      row_good (row\<lparr>rr_revision := k\<rparr>)"
    and read: "row_good row \<Longrightarrow> run_from_storage client row = Inr run \<Longrightarrow> run_good run"
    and published: "\<forall>q \<in> set (rn_requirements run). rq_status q \<noteq> PASS \<Longrightarrow> run_good run"
    and reviewed: "run_good run \<Longrightarrow> find (\<lambda>q. rq_requirement_id q = x) (rn_requirements run) = Some q \<Longrightarrow>
      new = PASS \<longrightarrow> has_complete_citation q \<Longrightarrow>
      rn_requirements run' = set_first_status x new (rn_requirements run) \<Longrightarrow> run_good run'"
    and managed: "run_good run \<Longrightarrow> rn_requirements run' = rn_requirements run \<Longrightarrow> run_good run'"
begin

definition db_good :: "db \<Rightarrow> bool" where
  "db_good d \<longleftrightarrow> (\<forall>r \<in> set (runs d). row_good r)"

definition service_inv :: "service_state \<Rightarrow> bool" where
  "service_inv s \<longleftrightarrow> db_good (ss_db s) \<and> (\<forall>run \<in> ss_loaded s. run_good run)"

lemma save_run_good:
  assumes "fernet_ok client" and "db_good d" and "run_good run"
  shows "db_good (snd (save_run client now run expected d))"
proof (cases "run_to_storage client run")
  case (Inl e)
  with assms(2) show ?thesis by (simp add: save_run_def)
next
  case (Inr row)
  note new = stored [OF assms(1) Inr assms(3)]
  from new [of "rr_revision row"] have "row_good row" by simp
  then show ?thesis
    using Inr assms(2) new
    by (cases expected) (auto simp: save_run_def Let_def sql_upsert_def in_sql_update db_good_def)
qed

lemma load_run_good: "db_good d \<Longrightarrow> load_run client x d = Inr (Some run) \<Longrightarrow> run_good run"
  by (auto simp: load_run_def bind_result_Inr db_good_def intro: read split: option.splits dest!: sql_first_Some)

lemma bulk_loop_good:
  assumes "fernet_ok client" and "en_client en = client" and "db_good d"
  shows "db_good (snd (bulk_loop en pr action xs k d))"
  using assms(3)
proof (induction xs arbitrary: k d)
  case (Cons x xs)
  have written: "db_good (snd (bulk_write en action run d))" if "load_run client x d = Inr (Some run)" for run
  proof (cases "action = DELETE_RUNS")
    case True
    with Cons.prems show ?thesis by (simp add: bulk_write_def delete_run_def db_good_def)
  next
    case False
    let ?run = "run\<lparr>rn_archived_at := (if action = ARCHIVE then Some (en_now en) else None), rn_updated_at := en_now en\<rparr>"
    have "run_good ?run" by (rule managed [OF load_run_good [OF Cons.prems that]]) simp
    from save_run_good [OF assms(1) Cons.prems this, of "en_now en" None]
    show ?thesis using False assms(2) by (auto simp: bulk_write_def split: prod.splits sum.splits)
  qed
  show ?case
  proof (cases "\<exists>run. load_run client x d = Inr (Some run)")
    case True
    then obtain run where run: "load_run client x d = Inr (Some run)" by blast
    obtain res d1 where w: "bulk_write en action run d = (res, d1)" by fastforce
    with written [OF run] have "db_good (d1\<lparr>audit_events := ae\<rparr>)" for ae by (simp add: db_good_def)
    moreover have "db_good (audit en k pr ty r j d1)" for k pr ty r j using written [OF run] w by (simp add: db_good_def)
    ultimately show ?thesis using run Cons w assms(2) written [OF run] by (cases res) simp_all
  next
    case False
    with Cons assms(2) show ?thesis by (auto split: sum.splits option.splits)
  qed
qed simp

lemma save_and_record_good [simp]:
  "db_good (snd (save_and_record en pr run expected ty payload d))
     = db_good (snd (save_run (en_client en) (en_now en) run expected d))"
  by (simp add: save_and_record_def db_good_def split: prod.splits sum.splits)

lemma review_good:
  assumes "fernet_ok client" and "en_client en = client" and "db_good d" and "run_good run"
  shows "db_good (snd (review en pr run p d))"
proof (cases "find (\<lambda>q. rq_requirement_id q = rv_requirement_id p) (rn_requirements run)")
  case None
  with assms(3) show ?thesis by (simp add: review_def)
next
  case (Some q)
  let ?s = "resolve_review_status (rv_decision p) (rv_new_status p) (rq_status q)"
  have "run_good (reviewed_run (en_now en) run st p (rq_status q) ?s)" if "\<not> (?s = PASS \<and> \<not> has_complete_citation q)" for st
    by (rule reviewed [OF assms(4) Some, of ?s]) (use that in auto)
  with Some assms(2,3) save_run_good [OF assms(1,3)] show ?thesis
    by (simp add: review_def Let_def split: option.splits)
qed

lemma service_step_inv:
  assumes "fernet_ok client" and "run_step client s e t" and "service_inv s"
  shows "service_inv t"
proof -
  have rows: "db_good (ss_db s)" and loaded: "\<forall>run \<in> ss_loaded s. run_good run"
    using assms(3) by (simp_all add: service_inv_def)
  note saved = save_run_good [OF assms(1) rows]
  from assms(2) have "db_good (ss_db t)"
  proof cases
    case (publish run now)
    then show ?thesis using saved published [of run] by simp
  next
    case (review run en pr p)
    then show ?thesis using review_good [OF assms(1)] rows loaded by simp
  next
    case (decision run en pr p)
    with loaded have "run_good run" by blast
    then have "run_good (decided_run (en_now en) run st p)" for st by (rule managed) simp
    with decision rows saved show ?thesis by (simp add: record_decision_def split: option.splits)
  next
    case (metadata run en pr p)
    with loaded have "run_good run" by blast
    then have "run_good (run\<lparr>rn_assignee_id := md_assignee_id p, rn_reviewer_id := md_reviewer_id p,
        rn_tags := dedup (filter (\<lambda>t. t \<noteq> []) (map strip (md_tags p))), rn_favorite := md_favorite p, rn_updated_at := en_now en\<rparr>)"
      by (rule managed) simp
    with metadata saved show ?thesis by (simp add: update_metadata_def Let_def)
  next
    case (bulk en pr ids action)
    then show ?thesis using bulk_loop_good [OF assms(1)] rows by (simp add: bulk_manage_def)
  next
    case (delete run en pr)
    then show ?thesis using rows by (simp add: delete_def delete_run_def Let_def db_good_def)
  qed (use rows in simp)
  moreover from assms(2) have "\<forall>run \<in> ss_loaded t. run_good run"
    using loaded load_run_good [OF rows] by cases auto
  ultimately show ?thesis by (simp add: service_inv_def)
qed

lemma reach_good:
  assumes "service_reach client s"
  shows "service_inv s"
  using assms
  unfolding service_reach_def
proof (induction rule: rtranclp_induct)
  case base
  show ?case by (simp add: service_inv_def db_good_def empty_db_def)
next
  case (step s t)
  then show ?case using service_step_inv by (auto simp: guarded_step_def)
qed

end

text \<open>First promise: a passed requirement is cited.\<close>

definition pass_cited :: "requirement list \<Rightarrow> bool" where
  "pass_cited reqs \<longleftrightarrow> (\<forall>q \<in> set reqs. rq_status q = PASS \<longrightarrow> has_complete_citation q)"

definition row_cited :: "fernet option \<Rightarrow> run_row \<Rightarrow> bool" where
  "row_cited client r \<longleftrightarrow>
     (\<forall>reqs. reveal_as client as_requirements (rr_requirements_json r) = Inr reqs \<longrightarrow> pass_cited reqs)"

lemma set_first_status_in:
  "q' \<in> set (set_first_status x s qs) \<Longrightarrow> q' \<in> set qs
     \<or> (\<exists>q. find (\<lambda>q. rq_requirement_id q = x) qs = Some q \<and> q' = q\<lparr>rq_status := s\<rparr>)"
  by (induction qs) (auto split: if_splits)

lemma has_complete_citation_status [simp]:
  "has_complete_citation (q\<lparr>rq_status := s\<rparr>) = has_complete_citation q"
  by (simp add: has_complete_citation_def)

lemma review_pass_cited:
  assumes "pass_cited qs" and "find (\<lambda>q. rq_requirement_id q = x) qs = Some q"
    and "s = PASS \<longrightarrow> has_complete_citation q"
  shows "pass_cited (set_first_status x s qs)"
  using assms set_first_status_in [of _ x s qs] by (fastforce simp: pass_cited_def)

interpretation cited: run_promise client "row_cited client" "\<lambda>run. pass_cited (rn_requirements run)"
proof unfold_locales
  fix run :: run_doc and row k
  assume "fernet_ok client" "run_to_storage client run = Inr row" "pass_cited (rn_requirements run)"
  then show "row_cited client (row\<lparr>rr_revision := k\<rparr>)"
    by (auto simp: row_cited_def run_to_storage_def Let_def split: option.splits prod.splits)
next
  fix row and run :: run_doc
  assume "row_cited client row" "run_from_storage client row = Inr run"
  then show "pass_cited (rn_requirements run)"
    by (auto simp: run_from_storage_def run_of_row_def bind_result_Inr row_cited_def)
qed (auto simp: pass_cited_def dest: review_pass_cited [unfolded pass_cited_def])

text \<open>Second promise: a row decodes to a run, and the columns a listing shows count the requirements of that run.\<close>

definition row_typed :: "fernet option \<Rightarrow> run_row \<Rightarrow> bool" where
  "row_typed client r \<longleftrightarrow>
     (\<exists>run. run_from_storage client r = Inr run
        \<and> (rr_requirement_count r, rr_unresolved_count r, rr_blocker_count r, rr_fatal_risk_count r)
            = requirement_counts (rn_requirements run))"

lemma zero_revision_reads_as_one: "run_from_storage client (row\<lparr>rr_revision := 0\<rparr>) = run_from_storage client (row\<lparr>rr_revision := 1\<rparr>)"
  by (simp add: run_from_storage_def run_of_row_def)

lemma recount_requirements [simp]: "rn_requirements (recount run) = rn_requirements run"
  by (simp add: recount_def split: prod.split)

lemma stored_counts:
  assumes "run_to_storage client run = Inr row"
  shows "(rr_requirement_count row, rr_unresolved_count row, rr_blocker_count row, rr_fatal_risk_count row)
    = requirement_counts (rn_requirements run)"
  using assms by (simp add: run_to_storage_def Let_def split: option.splits prod.splits) (auto simp: run_row.defs)

interpretation typed: run_promise client "row_typed client" "\<lambda>run. True"
proof unfold_locales
  fix run :: run_doc and row k
  assume ok: "fernet_ok client" and row: "run_to_storage client run = Inr row"
  show "row_typed client (row\<lparr>rr_revision := k\<rparr>)"
    using storage_roundtrip [OF ok row, of k] storage_roundtrip [OF ok row, of 1] stored_counts [OF row]
    by (cases "k = 0") (simp_all add: row_typed_def zero_revision_reads_as_one)
qed simp_all

section \<open>Properties\<close>

text \<open>C7: However loads, reviews, decisions, metadata changes, bulk actions, deletions and newly
  published scans interleave, a requirement of a stored run has status \<open>PASS\<close> only if it carries a
  complete citation: a located quotation on the tender side and one on the evidence side. Scans publish
  no requirement as passed.\<close>

theorem passed_requirements_are_cited:
  assumes "service_reach client s" and "load_run client x (ss_db s) = Inr (Some run)"
    and "q \<in> set (rn_requirements run)" and "rq_status q = PASS"
  shows "has_complete_citation q"
proof -
  have "cited.db_good client (ss_db s)" using cited.reach_good [OF assms(1)] by (simp add: cited.service_inv_def)
  from cited.load_run_good [OF this assms(2)] assms(3,4) show ?thesis by (simp add: pass_cited_def)
qed

text \<open>C9: Every stored run is well typed: in every state the run calls can reach, each row of the table decodes, all
  seven encrypted documents of their kinds, to a run, and the four count columns that listings read are the counts of
  that run's requirements.\<close>

theorem stored_runs_are_well_typed:
  assumes "service_reach client s" and "row \<in> set (runs (ss_db s))"
  shows "\<exists>run. run_from_storage client row = Inr run
    \<and> (rr_requirement_count row, rr_unresolved_count row, rr_blocker_count row, rr_fatal_risk_count row)
        = requirement_counts (rn_requirements run)"
  using typed.reach_good [OF assms(1)] assms(2)
  by (auto simp: typed.service_inv_def typed.db_good_def row_typed_def)


text \<open>Metadata updates are not protected against concurrent changes: whatever another caller saved
  in the meantime, the update writes the caller's whole stale copy back, with its old requirements and
  its old revision number, so a review made in between is lost and the revision goes backwards.\<close>

lemma metadata_update_overwrites:
  assumes "fernet_ok (en_client en)" and "runs_wf d" and "rn_revision stale > 0" and "rn_state stale \<noteq> None"
    and "update_metadata en pr stale p d = (Inr v, d')"
  shows "\<exists>run. load_run (en_client en) (rn_run_id stale) d' = Inr (Some run)
    \<and> rn_requirements run = rn_requirements stale \<and> rn_review run = rn_review stale \<and> rn_revision run = rn_revision stale"
proof -
  let ?tags = "dedup (filter (\<lambda>t. t \<noteq> []) (map strip (md_tags p)))"
  let ?run = "stale\<lparr>rn_assignee_id := md_assignee_id p, rn_reviewer_id := md_reviewer_id p, rn_tags := ?tags,
                    rn_favorite := md_favorite p, rn_updated_at := en_now en\<rparr>"
  obtain run2 d1 where save: "save_run (en_client en) (en_now en) ?run None d = (Inr run2, d1)" and d': "runs d' = runs d1"
    using assms(5) by (auto simp: update_metadata_def save_and_record_def Let_def split: prod.splits sum.splits)
  have "run2 = ?run" using save by (auto simp: save_run_def Let_def split: sum.splits)
  moreover have "load_run (en_client en) (rn_run_id stale) d1 = Inr (Some (recount run2))"
    using save_then_load [OF assms(1,2) _ _ save] assms(3) by simp
  ultimately show ?thesis
    using d' by (simp add: load_run_def recount_def Let_def split: prod.splits)
qed

section \<open>An example\<close>

definition demo_locator :: locator where
  "demo_locator = \<lparr>loc_kind = ''page'', loc_label = asc ''p. 1'', loc_fields = []\<rparr>"

definition demo_req :: requirement where
  "demo_req = \<lparr>rq_requirement_id = ''q1'', rq_label = [], rq_category = BOND, rq_title = asc ''bond'',
     rq_source = \<lparr>cit_source_id = ''TENDER-001'', cit_page = 1, cit_locator = demo_locator, cit_quote = asc ''bond''\<rparr>,
     rq_evidence = [\<lparr>ev_filename = ''e'', ev_page = 1, ev_locator = demo_locator, ev_quote = asc ''bond'',
                     ev_matched_terms = [], ev_match_method = ''m''\<rparr>],
     rq_status = NEEDS_REVIEW, rq_severity = MEDIUM, rq_criticality = SOFT, rq_detection_method = ''m'',
     rq_polarity = NEUTRAL, rq_rule_score = 0, rq_suggested_status = None, rq_match_review_status = None\<rparr>"

definition demo_scan :: run_doc where
  "demo_scan = recount (demo_run\<lparr>rn_requirements := [demo_req]\<rparr>)"

definition demo_env :: env where
  "demo_env = \<lparr>en_client = None, en_sha = plain_hash, en_now = 20, en_new_id = ''n'', en_audit = (\<lambda>_. demo_ctx ''e1'' ''t1''),
     en_production = False\<rparr>"

definition demo_pr :: principal where
  "demo_pr = \<lparr>pr_workspace_id = ''w'', pr_user_id = ''u'', pr_role = ''OWNER'', pr_permissions = None\<rparr>"

definition demo_verdict :: review_request where
  "demo_verdict = \<lparr>rv_requirement_id = ''q1'', rv_decision = Verdict PASS, rv_note = [], rv_new_status = None, rv_revision = None\<rparr>"

definition demo_scanned :: db where
  "demo_scanned = snd (save_run None 10 demo_scan None empty_db)"

definition demo_reviewed :: db where
  "demo_reviewed = snd (review demo_env demo_pr demo_scan demo_verdict demo_scanned)"

lemma demo_scan_fields [simp]: "rn_run_id demo_scan = ''r1''" "rn_state demo_scan = Some demo_state"
  "rn_revision demo_scan = 1" "rn_requirements demo_scan = [demo_req]"
  by (simp_all add: demo_scan_def recount_def demo_run_def requirement_counts_def)

lemma recount_idem [simp]: "recount (recount r) = recount r"
  by (simp add: recount_def Let_def split: prod.splits)

lemma demo_scan_recount [simp]: "recount demo_scan = demo_scan"
  by (simp add: demo_scan_def)

lemma fernet_ok_None [simp]: "fernet_ok None"
  by (simp add: fernet_ok_def)

lemma demo_save: "save_run None 10 demo_scan None empty_db = (Inr demo_scan, demo_scanned)"
  using run_to_storage_Some [of demo_scan None] by (auto simp: save_run_def demo_scanned_def Let_def)

lemma demo_scanned_facts: "runs_wf demo_scanned" "load_run None ''r1'' demo_scanned = Inr (Some demo_scan)"
  "stored_revision ''r1'' demo_scanned = Some 1"
proof -
  obtain row where row: "run_to_storage None demo_scan = Inr row" using run_to_storage_Some [of demo_scan None] by auto
  then have runs: "runs demo_scanned = [row]"
    by (simp add: demo_scanned_def save_run_def Let_def sql_upsert_def sql_insert_def empty_db_def)
  then show "runs_wf demo_scanned" by (simp add: runs_wf_def)
  show "load_run None ''r1'' demo_scanned = Inr (Some demo_scan)"
    using save_then_load [OF _ _ _ _ demo_save] by (simp add: runs_wf_def empty_db_def)
  show "stored_revision ''r1'' demo_scanned = Some 1"
    using row by (simp add: stored_revision_def runs sql_first_def)
qed

lemma demo_req_facts [simp]: "rq_requirement_id demo_req = ''q1''" "has_complete_citation demo_req"
  by (simp_all add: demo_req_def has_complete_citation_def demo_locator_def asc_def)

lemma demo_review:
  "load_run None ''r1'' demo_reviewed = Inr (Some (recount ((reviewed_run 20 demo_scan demo_state demo_verdict
     (rq_status demo_req) PASS)\<lparr>rn_revision := 2\<rparr>)))"
proof -
  let ?run = "reviewed_run 20 demo_scan demo_state demo_verdict (rq_status demo_req) PASS"
  obtain d1 where save: "save_run None 20 ?run (Some 1) demo_scanned = (Inr (?run\<lparr>rn_revision := 2\<rparr>), d1)"
    using save_run_cas(1) [OF demo_scanned_facts(1), of ?run, where client = None and now = 20 and n = 1]
      demo_scanned_facts(3) by (cases "save_run None 20 ?run (Some 1) demo_scanned") auto
  have "review demo_env demo_pr demo_scan demo_verdict demo_scanned
      = save_and_record demo_env demo_pr ?run (Some 1) ''REQUIREMENT_REVIEWED''
          (JObj [(''requirement_id'', jstr ''q1''), (''new_status'', jstr (status_name PASS))]) demo_scanned"
    by (simp add: review_def demo_verdict_def resolve_review_status_def demo_env_def)
  then have "runs demo_reviewed = runs d1"
    using save by (simp add: demo_reviewed_def save_and_record_def demo_env_def)
  with save_then_load [OF _ demo_scanned_facts(1) _ _ save] show ?thesis by (simp add: load_run_def)
qed

lemma demo_reviewed_reach:
  "service_reach None \<lparr>ss_db = demo_reviewed, ss_loaded = {demo_scan}\<rparr>"
proof -
  let ?s0 = "\<lparr>ss_db = empty_db, ss_loaded = {}\<rparr>"
  let ?s1 = "\<lparr>ss_db = demo_scanned, ss_loaded = {}\<rparr>"
  let ?s2 = "\<lparr>ss_db = demo_scanned, ss_loaded = {demo_scan}\<rparr>"
  have "run_step None ?s0 (Publish_Run ''r1'') ?s1"
    using run_step.publish [of demo_scan None ?s0 10] demo_save by (simp add: demo_req_def)
  moreover have "run_step None ?s1 (Load ''r1'') ?s2"
    using run_step.load [of None "''r1''" ?s1 demo_scan] demo_scanned_facts(2) by simp
  moreover have "run_step None ?s2 (Call ''review'') \<lparr>ss_db = demo_reviewed, ss_loaded = {demo_scan}\<rparr>"
    using run_step.review [of demo_scan ?s2 demo_env None demo_pr demo_verdict]
    by (simp add: demo_reviewed_def demo_env_def)
  moreover have "service_reach None ?s0" by (simp add: service_reach_def)
  ultimately show ?thesis
    by (metis service_reach_step guarded_step_def fernet_ok_None)
qed

theorem stored_runs_are_well_typed_witness:
  "\<exists>row \<in> set (runs demo_reviewed). \<exists>run. run_from_storage None row = Inr run
    \<and> (rr_requirement_count row, rr_unresolved_count row, rr_blocker_count row, rr_fatal_risk_count row)
        = requirement_counts (rn_requirements run)"
proof -
  from demo_review obtain row where "row \<in> set (runs demo_reviewed)"
    by (auto simp: load_run_def split: option.splits dest!: sql_first_Some)
  with stored_runs_are_well_typed [OF demo_reviewed_reach, of row] show ?thesis by auto
qed

theorem passed_requirements_are_cited_witness:
  "has_complete_citation (demo_req\<lparr>rq_status := PASS\<rparr>)"
proof -
  let ?run = "recount ((reviewed_run 20 demo_scan demo_state demo_verdict (rq_status demo_req) PASS)\<lparr>rn_revision := 2\<rparr>)"
  have "demo_req\<lparr>rq_status := PASS\<rparr> \<in> set (rn_requirements ?run)"
    by (simp add: recount_def demo_verdict_def Let_def split: prod.splits)
  then show ?thesis
    using passed_requirements_are_cited [OF demo_reviewed_reach, of "''r1''" ?run] demo_review by simp
qed


text \<open>After the review of the example, a metadata update made with the copy loaded before it brings the
  requirement back to \<open>NEEDS_REVIEW\<close> and the revision back to 1.\<close>

definition demo_metadata :: metadata_request where
  "demo_metadata = \<lparr>md_assignee_id = None, md_reviewer_id = None, md_tags = [], md_favorite = True\<rparr>"

lemma metadata_update_overwrites_example:
  "\<exists>run. load_run None ''r1'' (snd (update_metadata demo_env demo_pr demo_scan demo_metadata demo_reviewed)) = Inr (Some run)
     \<and> map rq_status (rn_requirements run) = [NEEDS_REVIEW] \<and> rn_revision run = 1"
proof -
  have wf: "runs_wf demo_reviewed"
  proof -
    have "runs demo_reviewed = runs (snd (save_run None 20
        (reviewed_run 20 demo_scan demo_state demo_verdict (rq_status demo_req) PASS) (Some 1) demo_scanned))"
      by (simp add: demo_reviewed_def review_def demo_verdict_def resolve_review_status_def demo_env_def
          save_and_record_def split: prod.splits sum.splits)
    then show ?thesis
      using save_run_cas(4) [OF demo_scanned_facts(1), where client = None and now = 20 and n = 1,
          of "reviewed_run 20 demo_scan demo_state demo_verdict (rq_status demo_req) PASS"] by (simp add: runs_wf_def)
  qed
  let ?u = "update_metadata demo_env demo_pr demo_scan demo_metadata demo_reviewed"
  have "\<exists>v. fst ?u = Inr v"
    using run_to_storage_Some [of "demo_scan\<lparr>rn_assignee_id := None, rn_reviewer_id := None, rn_tags := [],
      rn_favorite := True, rn_updated_at := 20\<rparr>" None]
    by (auto simp: update_metadata_def save_and_record_def save_run_def demo_env_def demo_metadata_def Let_def)
  then obtain v where "?u = (Inr v, snd ?u)" by (metis prod.collapse)
  from metadata_update_overwrites [OF _ wf _ _ this] show ?thesis
    by (auto simp: demo_env_def) (simp add: demo_req_def)
qed

end
