(* ===== verification/Rules.thy ===== *)
theory Rules
  imports Presenters
begin

text \<open>
  The rule engine of \<open>src/app/rules.py\<close>: keyword rules that find the requirements of a tender, and the
  matching of the bidder's evidence. Chinese literals are given by their code points. The regular
  expressions of the rules are alternations of literals without case variants, with one exception, the
  standard ISO 13485 with optional space after the letters; \<open>finditer\<close> scans for the leftmost match, the
  alternatives in their order, as \<open>re.finditer\<close> does. \<open>lower\<close> is \<open>str.lower\<close>.
\<close>

section \<open>Patterns\<close>

datatype alternative = Literal ustr | ISO_13485

text \<open>Under \<open>IGNORECASE\<close> the letter I also matches the dotted capital and the dotless small i, and S the long s.\<close>

definition iso_letters :: "ustr \<Rightarrow> bool" where
  "iso_letters s \<longleftrightarrow> length s = 3 \<and> s ! 0 \<in> {73, 105, 304, 305} \<and> s ! 1 \<in> {83, 115, 383} \<and> s ! 2 \<in> {79, 111}"

definition match_at :: "alternative \<Rightarrow> ustr \<Rightarrow> nat option" where
  "match_at a s =
     (case a of
        Literal w \<Rightarrow> if prefix w s then Some (length w) else None
      | ISO_13485 \<Rightarrow>
          let spaces = length (takeWhile is_space (drop 3 s))
          in if iso_letters (take 3 s) \<and> prefix [49, 51, 52, 56, 53] (drop (3 + spaces) s) then Some (8 + spaces) else None)"

fun first_match :: "alternative list \<Rightarrow> ustr \<Rightarrow> nat option" where
  "first_match [] s = None"
| "first_match (a # as) s = (case match_at a s of Some n \<Rightarrow> Some n | None \<Rightarrow> first_match as s)"

function finditer :: "alternative list \<Rightarrow> nat \<Rightarrow> ustr \<Rightarrow> (nat \<times> nat) list" where
  "finditer alts i [] = []"
| "finditer alts i (c # s) =
     (case first_match alts (c # s) of
        None \<Rightarrow> finditer alts (Suc i) s
      | Some n \<Rightarrow> (i, i + n) # finditer alts (i + n) (drop (n - 1) s))"
  by pat_completeness auto

termination
  by (relation "measure (\<lambda>(_, _, s). length s)") auto

definition lits :: "ustr list \<Rightarrow> alternative list" where
  "lits ws = map Literal ws"

definition REQUIREMENT_PATTERNS :: "(ustr \<times> category \<times> alternative list) list" where
  "REQUIREMENT_PATTERNS =
     [([36164, 26684, 26465, 20214], QUALIFICATION, lits [[36164, 26684, 26465, 20214], [36164, 26684, 35201, 27714], [25237, 26631, 20154, 36164, 26684], [20379, 24212, 21830, 36164, 26684]]),
      ([24223, 26631, 47, 21542, 20915], FATAL, lits [[24223, 26631], [21542, 20915, 25237, 26631], [26080, 25928, 25237, 26631], [19981, 24471, 21442, 19982], [19968, 31080, 21542, 20915]]),
      ([35780, 20998, 39033], SCORING, lits [[35780, 20998, 26631, 20934], [35780, 20998, 21150, 27861], [35780, 23457, 22240, 32032], [25216, 26415, 35780, 20998], [21830, 21153, 35780, 20998]]),
      ([20851, 38190, 26085, 26399], DEADLINE, lits [[25237, 26631, 25130, 27490], [24320, 26631, 26102, 38388], [36882, 20132, 25130, 27490], [25552, 20132, 25130, 27490], [21709, 24212, 25991, 20214, 36882, 20132]]),
      ([31614, 31456, 35201, 27714], SIGNATURE, lits [[31614, 23383, 30422, 31456], [31614, 31456], [30005, 23376, 31614, 31456], [27861, 23450, 20195, 34920, 20154]]),
      ([20445, 35777, 37329], BOND, lits [[25237, 26631, 20445, 35777, 37329], [23653, 32422, 20445, 35777, 37329], [20445, 20989]]),
      ([35777, 20070, 47, 19994, 32489], CREDENTIAL, lits [[36164, 36136, 35777, 20070], [35748, 35777, 35777, 20070], [31867, 20284, 19994, 32489], [39033, 30446, 32463, 39564], [20154, 21592, 35777, 20070]]),
      ([21307, 30103, 22120, 26800, 36164, 36136], CREDENTIAL,
        lits [[21307, 30103, 22120, 26800, 32463, 33829, 35768, 21487, 35777], [21307, 30103, 22120, 26800, 27880, 20876, 35777], [21307, 30103, 22120, 26800, 22791, 26696], [31532, 20108, 31867, 21307, 30103, 22120, 26800], [31532, 19977, 31867, 21307, 30103, 22120, 26800],
              [21307, 30103, 22120, 26800, 29983, 20135, 35768, 21487, 35777], [29983, 20135, 20225, 19994, 35768, 21487, 35777]] @ [ISO_13485] @ lits [[20135, 21697, 27880, 20876, 35777]]),
      ([25480, 26435, 37197, 36865], QUALIFICATION, lits [[25480, 26435, 22996, 25176, 20070], [38144, 21806, 25480, 26435], [21306, 22495, 25480, 26435], [20004, 31080, 21046], [37197, 36865, 25480, 26435], [32463, 38144, 25480, 26435]]),
      ([21307, 38498, 19994, 32489, 47, 21806, 21518], CREDENTIAL,
        lits [[19977, 32423, 30002, 31561], [19977, 30002, 21307, 38498], [21307, 38498, 19994, 32489], [21516, 31867, 39033, 30446, 19994, 32489], [21806, 21518, 26381, 21153, 25215, 35834], [36136, 20445, 26399], [20919, 38142]])]"

definition EVIDENCE_CATEGORIES :: "category list" where
  "EVIDENCE_CATEGORIES = [QUALIFICATION, SIGNATURE, BOND, CREDENTIAL]"

section \<open>Extraction\<close>

definition snippet :: "ustr \<Rightarrow> nat \<Rightarrow> nat \<Rightarrow> ustr" where
  "snippet txt start stop =
     (let left = start - 110; right = min (length txt) (stop + 110)
      in squeeze (take (right - left) (drop left txt)))"

definition polarity_of :: "ustr \<Rightarrow> polarity" where
  "polarity_of txt =
     (if list_ex (\<lambda>w. contains w txt) [[19981, 24471], [31105, 27490], [26080, 25928], [21542, 20915], [19981, 31526, 21512], [26410, 25552, 20379], [32570, 23569]]
      then NEGATIVE_OR_EXCLUSION
      else if list_ex (\<lambda>w. contains w txt) [[24517, 39035], [39035], [24212, 24403], [35201, 27714], [25552, 20379]]
      then OBLIGATION else NEUTRAL)"

text \<open>The locator of a match: that of the first located block with the matched text, else the page's.\<close>

definition match_locator :: "page \<Rightarrow> ustr \<Rightarrow> locator" where
  "match_locator p matched =
     (case find (\<lambda>b. blk_locator b \<noteq> None \<and> blk_text b \<noteq> [] \<and> contains matched (blk_text b)) (pg_blocks p) of
        Some b \<Rightarrow> the (blk_locator b)
      | None \<Rightarrow> page_locator p)"

type_synonym rule_hit = "page \<times> ustr \<times> category \<times> nat \<times> nat"

definition page_hits :: "page \<Rightarrow> rule_hit list" where
  "page_hits p =
     (if strip (pg_text p) = [] then []
      else concat (map (\<lambda>(label, cat, alts). map (\<lambda>(a, b). (p, label, cat, a, b)) (finditer alts 0 (pg_text p)))
                     REQUIREMENT_PATTERNS))"

definition requirement_of :: "nat \<Rightarrow> rule_hit \<Rightarrow> requirement" where
  "requirement_of counter h =
     (case h of (p, label, cat, a, b) \<Rightarrow>
        let quote = snippet (pg_text p) a b
        in \<lparr>rq_requirement_id = ''REQ-'' @ zfill 4 (decimal counter), rq_label = label, rq_category = cat,
            rq_title = take 160 quote,
            rq_source = \<lparr>cit_source_id = (case pg_source_id p of None \<Rightarrow> ''TENDER-001'' | Some x \<Rightarrow> x),
                         cit_page = pg_page p, cit_locator = match_locator p (take (b - a) (drop a (pg_text p))),
                         cit_quote = quote\<rparr>,
            rq_evidence = [], rq_status = NEEDS_REVIEW,
            rq_severity = (if cat \<in> {FATAL, QUALIFICATION} then HIGH else MEDIUM),
            rq_criticality = (if cat \<in> {QUALIFICATION, FATAL, DEADLINE, SIGNATURE, BOND, CREDENTIAL} then HARD else SOFT),
            rq_detection_method = ''deterministic_keyword'', rq_polarity = polarity_of quote, rq_rule_score = 1,
            rq_suggested_status = None, rq_match_review_status = None\<rparr>)"

fun number_hits :: "nat \<Rightarrow> rule_hit list \<Rightarrow> requirement list" where
  "number_hits counter [] = []"
| "number_hits counter (h # hs) = requirement_of counter h # number_hits (Suc counter) hs"

definition dedup_key :: "requirement \<Rightarrow> category \<times> ustr \<times> ustr \<times> int" where
  "dedup_key q = (rq_category q, rq_label q, cit_quote (rq_source q), cit_page (rq_source q))"

fun deduplicate :: "(category \<times> ustr \<times> ustr \<times> int) list \<Rightarrow> requirement list \<Rightarrow> requirement list" where
  "deduplicate seen [] = []"
| "deduplicate seen (q # qs) =
     (if dedup_key q \<in> set seen then deduplicate seen qs else q # deduplicate (dedup_key q # seen) qs)"

definition extract_requirements :: "page list \<Rightarrow> requirement list" where
  "extract_requirements pages = deduplicate [] (number_hits 1 (concat (map page_hits pages)))"

section \<open>Evidence\<close>

definition is_cjk :: "nat \<Rightarrow> bool" where
  "is_cjk c \<longleftrightarrow> 19968 \<le> c \<and> c \<le> 40959"

definition is_latin :: "nat \<Rightarrow> bool" where
  "is_latin c \<longleftrightarrow> (65 \<le> c \<and> c \<le> 90) \<or> (97 \<le> c \<and> c \<le> 122)"

text \<open>\<open>re.findall\<close> of two to eight ideographs or three and more Latin letters, greedily.\<close>

function find_terms :: "ustr \<Rightarrow> ustr list" where
  "find_terms [] = []"
| "find_terms (c # s) =
     (let n = length (takeWhile is_cjk (c # s)); m = length (takeWhile is_latin (c # s))
      in if n \<ge> 2 then take (min 8 n) (c # s) # find_terms (drop (min 8 n - 1) s)
         else if m \<ge> 3 then take m (c # s) # find_terms (drop (m - 1) s)
         else find_terms s)"
  by pat_completeness auto

termination
  by (relation "measure length") auto

definition category_terms :: "category \<Rightarrow> ustr list" where
  "category_terms cat = (case cat of
     QUALIFICATION \<Rightarrow> [[33829, 19994, 25191, 29031], [36164, 26684], [20379, 24212, 21830], [25480, 26435], [20004, 31080, 21046], [37197, 36865]]
   | FATAL \<Rightarrow> [[24223, 26631], [21542, 20915], [26080, 25928]]
   | SCORING \<Rightarrow> [[35780, 20998], [19994, 32489]]
   | DEADLINE \<Rightarrow> [[25130, 27490], [24320, 26631], [36882, 20132]]
   | SIGNATURE \<Rightarrow> [[31614, 31456], [30422, 31456], [27861, 23450, 20195, 34920, 20154]]
   | BOND \<Rightarrow> [[20445, 35777, 37329], [20445, 20989]]
   | CREDENTIAL \<Rightarrow> [[35777, 20070], [36164, 36136], [19994, 32489], [21307, 30103, 22120, 26800], [27880, 20876, 35777], [32463, 33829, 35768, 21487, 35777], asc ''iso13485'', [19977, 30002]])"

definition terms_for :: "(ustr \<Rightarrow> ustr) \<Rightarrow> requirement \<Rightarrow> ustr list" where
  "terms_for lower q = dedup (map lower (find_terms (rq_title q)) @ map lower (category_terms (rq_category q)))"

definition compact :: "(ustr \<Rightarrow> ustr) \<Rightarrow> ustr \<Rightarrow> ustr" where
  "compact lower txt = lower (remove_spaces txt)"

datatype evidence_name = Name string | Files "evidence_file list"

definition fallback_name :: "evidence_name \<Rightarrow> string result" where
  "fallback_name names = (case names of Name s \<Rightarrow> Inr s | Files [] \<Rightarrow> Inl IndexError | Files (f # _) \<Rightarrow> Inr (as_filename (ef_asset f)))"

definition evidence_filename :: "page \<Rightarrow> evidence_name \<Rightarrow> string result" where
  "evidence_filename p names =
     (case pg_source_filename p of
        Some f \<Rightarrow> if f \<noteq> '''' then Inr f else fallback_name names
      | None \<Rightarrow> fallback_name names)"

definition eligible :: "page \<Rightarrow> bool" where
  "eligible p \<longleftrightarrow> pg_ocr_status p \<noteq> Some ''FAILED''"

definition any_term :: "(ustr \<Rightarrow> ustr) \<Rightarrow> ustr list \<Rightarrow> ustr \<Rightarrow> bool" where
  "any_term lower terms txt \<longleftrightarrow> list_ex (\<lambda>t. contains t (compact lower txt)) terms"

definition evidence_of :: "(ustr \<Rightarrow> ustr) \<Rightarrow> ustr list \<Rightarrow> ustr list \<Rightarrow> page \<Rightarrow> string \<Rightarrow> evidence_item" where
  "evidence_of lower terms hits p filename =
     (let hit = find (\<lambda>b. blk_text b \<noteq> [] \<and> any_term lower terms (blk_text b)) (pg_blocks p)
      in \<lparr>ev_filename = filename, ev_page = pg_page p,
          ev_locator = (case hit of Some b \<Rightarrow> (case blk_locator b of Some l \<Rightarrow> l | None \<Rightarrow> page_locator p) | None \<Rightarrow> page_locator p),
          ev_quote = take 240 (squeeze (case hit of Some b \<Rightarrow> blk_text b | None \<Rightarrow> pg_text p)),
          ev_matched_terms = hits, ev_match_method = ''normalized_keyword''\<rparr>)"

definition match_one :: "(ustr \<Rightarrow> ustr) \<Rightarrow> page list \<Rightarrow> evidence_name \<Rightarrow> requirement \<Rightarrow> requirement result" where
  "match_one lower pages names q =
     (if rq_category q \<notin> set EVIDENCE_CATEGORIES then Inr q
      else let terms = terms_for lower q;
               hits = filter (\<lambda>t. contains t (compact lower (join [10] (map pg_text pages)))) terms
           in if hits = [] then Inr (q\<lparr>rq_status := UNKNOWN\<rparr>)
              else case find (\<lambda>p. any_term lower terms (pg_text p)) pages of
                None \<Rightarrow> Inr (q\<lparr>rq_status := UNKNOWN\<rparr>)
              | Some p \<Rightarrow>
                  bind_result (evidence_filename p names) (\<lambda>filename.
                    Inr (q\<lparr>rq_evidence := rq_evidence q @ [evidence_of lower terms hits p filename],
                           rq_status := NEEDS_REVIEW, rq_suggested_status := Some PASS,
                           rq_match_review_status := Some ''PENDING'', rq_rule_score := length hits\<rparr>)))"

definition match_evidence :: "(ustr \<Rightarrow> ustr) \<Rightarrow> requirement list \<Rightarrow> page list \<Rightarrow> evidence_name \<Rightarrow> requirement list result" where
  "match_evidence lower requirements evidence_pages names =
     map_result (match_one lower (filter eligible evidence_pages) names) requirements"

section \<open>Text\<close>

lemma sublist_trans_iff: "contains p s \<Longrightarrow> contains s t \<Longrightarrow> contains p t"
  by (simp add: contains_iff_sublist sublist_order.order_trans)

lemma split_words_skip: "\<exists>acc'. set (split_words s acc') \<subseteq> set (split_words (xs @ s) acc)"
proof (induction xs arbitrary: acc)
  case Nil
  show ?case by auto
next
  case (Cons c xs)
  show ?case
  proof (cases "is_space c")
    case True
    with Cons [of "[]"] show ?thesis by auto
  next
    case False
    with Cons [of "c # acc"] show ?thesis by simp
  qed
qed

lemma split_words_run: "\<forall>c \<in> set w. \<not> is_space c \<Longrightarrow> split_words (w @ s) acc = split_words s (rev w @ acc)"
  by (induction w arbitrary: acc) simp_all

lemma split_words_head: "acc \<noteq> [] \<Longrightarrow> \<exists>h \<in> set (split_words s acc). prefix (rev acc) h"
proof (induction s arbitrary: acc)
  case (Cons c s)
  show ?case
  proof (cases "is_space c")
    case False
    with Cons.IH [of "c # acc"] obtain h where "h \<in> set (split_words s (c # acc))" "prefix (rev acc @ [c]) h" by auto
    with False show ?thesis by (auto simp: prefix_def)
  qed (use Cons.prems in simp)
qed simp

lemma join_contains: "w \<in> set ws \<Longrightarrow> contains w (join sep ws)"
proof (induction sep ws rule: join.induct)
  case (3 sep x y ys)
  have "sublist (join sep (y # ys)) ((x @ sep) @ join sep (y # ys))" by (rule sublist_append_leftI)
  then have later: "sublist w (x @ sep @ join sep (y # ys))" if "sublist w (join sep (y # ys))"
    using that sublist_order.order_trans by fastforce
  from 3 later show ?case by (cases "w = x") (simp_all add: contains_iff_sublist sublist_append_rightI)
qed (simp_all add: contains_iff_sublist)

text \<open>Joining the words of a text with single spaces keeps every run without spaces.\<close>

lemma squeeze_contains:
  assumes "contains w s" and "w \<noteq> []" and "\<forall>c \<in> set w. \<not> is_space c"
  shows "contains w (squeeze s)"
proof -
  from assms(1) obtain xs ys where s: "s = xs @ w @ ys" by (auto simp: contains_iff_sublist sublist_def)
  obtain acc where "set (split_words (w @ ys) acc) \<subseteq> set (py_split s)"
    using split_words_skip [of "w @ ys" xs "[]"] by (auto simp: s py_split_def)
  moreover obtain h where "h \<in> set (split_words ys (rev w @ acc))" "prefix (rev acc @ w) h"
    using split_words_head [of "rev w @ acc" ys] assms(2) by auto
  ultimately have h: "h \<in> set (py_split s)" "contains w h"
    using split_words_run [OF assms(3)] by (auto simp: contains_iff_sublist sublist_def prefix_def)
  from h(2) join_contains [OF h(1)] show ?thesis by (auto simp: squeeze_def intro: sublist_trans_iff)
qed

lemma strip_not_empty:
  assumes "c \<in> set s" and "\<not> is_space c"
  shows "strip s \<noteq> []"
proof -
  have keep: "c \<in> set (lstrip t)" if "c \<in> set t" for t
    using that assms(2) by (induction t) (auto simp: lstrip_def)
  have "c \<in> set (strip s)" using keep [of s] keep [of "rev (lstrip s)"] assms(1) by (simp add: strip_def)
  then show ?thesis by auto
qed

section \<open>Matches\<close>

definition keyword :: "alternative \<Rightarrow> ustr" where
  "keyword a = (case a of Literal w \<Rightarrow> w | ISO_13485 \<Rightarrow> [49, 51, 52, 56, 53])"

definition proper :: "alternative list \<Rightarrow> bool" where
  "proper alts \<longleftrightarrow> list_all (\<lambda>a. keyword a \<noteq> [] \<and> list_all (\<lambda>c. \<not> is_space c) (keyword a)) alts"

lemma first_match_alt: "first_match alts s = Some n \<Longrightarrow> \<exists>a \<in> set alts. match_at a s = Some n"
  by (induction alts) (auto split: option.splits)

lemma first_match_None: "first_match alts s = None \<longleftrightarrow> (\<forall>a \<in> set alts. match_at a s = None)"
  by (induction alts) (auto split: option.splits)

lemma match_at_keyword:
  assumes "match_at a s = Some n"
  shows "n \<le> length s \<and> contains (keyword a) (take n s)"
proof (cases a)
  case (Literal w)
  with assms show ?thesis by (auto simp: match_at_def keyword_def prefix_def contains_iff_sublist split: if_splits)
next
  case ISO_13485
  define k where "k = length (takeWhile is_space (drop 3 s))"
  from assms ISO_13485 have n: "n = 8 + k" and "prefix [49, 51, 52, 56, 53] (drop (3 + k) s)"
    by (auto simp: match_at_def k_def Let_def split: if_splits)
  then obtain r where "drop (3 + k) s = [49, 51, 52, 56, 53] @ r" by (auto simp: prefix_def)
  then have "s = take (3 + k) s @ [49, 51, 52, 56, 53] @ r" by (metis append_take_drop_id)
  moreover have "length (take (3 + k) s) = 3 + k"
    using \<open>drop (3 + k) s = _\<close> by (metis append_Cons drop_eq_Nil length_take linorder_linear list.distinct(1) min.absorb2)
  ultimately obtain x where x: "s = x @ [49, 51, 52, 56, 53] @ r" "length x = 3 + k" by metis
  have "take n s = x @ [49, 51, 52, 56, 53]" by (simp add: x n)
  then show ?thesis using x n ISO_13485 by (simp add: keyword_def contains_iff_sublist sublist_append_rightI)
qed

lemma first_match_positive: "proper alts \<Longrightarrow> first_match alts s = Some n \<Longrightarrow> 0 < n"
proof (rule ccontr)
  assume "proper alts" "first_match alts s = Some n" "\<not> 0 < n"
  then obtain a where "a \<in> set alts" "contains (keyword a) []"
    using first_match_alt match_at_keyword by (metis not_gr_zero take0)
  with \<open>proper alts\<close> show False by (auto simp: proper_def list_all_iff)
qed

lemma finditer_sound:
  "proper alts \<Longrightarrow> (a, b) \<in> set (finditer alts i s) \<Longrightarrow>
     i \<le> a \<and> a \<le> b \<and> first_match alts (drop (a - i) s) = Some (b - a)"
proof (induction alts i s rule: finditer.induct)
  case (2 alts i c s)
  show ?case
  proof (cases "first_match alts (c # s)")
    case None
    with 2 have "Suc i \<le> a \<and> a \<le> b \<and> first_match alts (drop (a - Suc i) s) = Some (b - a)" by simp
    then show ?thesis by (auto simp: drop_Cons')
  next
    case (Some n)
    then have n: "0 < n" using first_match_positive 2(3) by blast
    show ?thesis
    proof (cases "(a, b) = (i, i + n)")
      case True
      with Some show ?thesis by simp
    next
      case False
      with Some 2 have h: "i + n \<le> a \<and> a \<le> b \<and> first_match alts (drop (a - (i + n)) (drop (n - 1) s)) = Some (b - a)"
        by auto
      moreover have "drop (a - (i + n)) (drop (n - 1) s) = drop (a - i) (c # s)"
        using n h by (simp add: drop_Cons')
      ultimately show ?thesis by (metis add_leD1)
    qed
  qed
qed simp

lemma finditer_complete: "first_match alts (drop j s) \<noteq> None \<Longrightarrow> j < length s \<Longrightarrow> finditer alts i s \<noteq> []"
proof (induction alts i s arbitrary: j rule: finditer.induct)
  case (2 alts i c s)
  then show ?case by (cases j) (auto split: option.splits)
qed simp

lemma patterns_proper: "(label, cat, alts) \<in> set REQUIREMENT_PATTERNS \<Longrightarrow> proper alts"
  by (auto simp: REQUIREMENT_PATTERNS_def proper_def lits_def keyword_def is_space_def)

section \<open>Requirements\<close>

lemma number_hits_nth: "number_hits k hs = map (\<lambda>i. requirement_of (k + i) (hs ! i)) [0..<length hs]"
proof (induction hs arbitrary: k)
  case (Cons h hs)
  have "[0..<length (h # hs)] = 0 # map Suc [0..<length hs]" 
    by (simp add: map_Suc_upt upt_conv_Cons del: upt_Suc)
  then show ?case by (simp add: Cons [of "Suc k"])
qed simp

lemma number_hits_hit: "q \<in> set (number_hits k hs) \<Longrightarrow> \<exists>n. \<exists>h \<in> set hs. q = requirement_of n h"
  by (induction k hs rule: number_hits.induct) auto

lemma hit_number_hits: "h \<in> set hs \<Longrightarrow> \<exists>n. requirement_of n h \<in> set (number_hits k hs)"
  by (induction k hs rule: number_hits.induct) auto

lemma number_hits_ids: "distinct (map rq_requirement_id (number_hits k hs))"
  by (auto simp: number_hits_nth distinct_map inj_on_def requirement_of_def Let_def zfill_inj split: prod.splits)

lemma deduplicate_subset: "set (deduplicate seen qs) \<subseteq> set qs"
  by (induction seen qs rule: deduplicate.induct) auto

lemma deduplicate_ids: "distinct (map rq_requirement_id qs) \<Longrightarrow> distinct (map rq_requirement_id (deduplicate seen qs))"
proof (induction seen qs rule: deduplicate.induct)
  case (2 seen q qs)
  then show ?case using deduplicate_subset [of "dedup_key q # seen" qs] by auto
qed simp

lemma deduplicate_keeps_key:
  "q \<in> set qs \<Longrightarrow> dedup_key q \<notin> set seen \<Longrightarrow> \<exists>r \<in> set (deduplicate seen qs). dedup_key r = dedup_key q"
  by (induction seen qs rule: deduplicate.induct) (auto; metis)+

lemma extracted_from_hit:
  "q \<in> set (extract_requirements pages) \<Longrightarrow> \<exists>n. \<exists>p \<in> set pages. \<exists>h \<in> set (page_hits p). q = requirement_of n h"
  using deduplicate_subset number_hits_hit by (fastforce simp: extract_requirements_def)

lemma window_sublist:
  assumes "left \<le> a" "a \<le> b" "b \<le> right"
  shows "sublist (take (b - a) (drop a s)) (take (right - left) (drop left s))"
proof -
  have "right - left = (a - left) + ((b - a) + (right - b))" using assms by simp
  then have "take (right - left) (drop left s)
      = take (a - left) (drop left s) @ take (b - a) (drop (a - left) (drop left s)) @ take (right - b) (drop (b - a) (drop (a - left) (drop left s)))"
    by (simp only: take_add)
  moreover have "drop (a - left) (drop left s) = drop a s" using assms(1) by simp
  ultimately show ?thesis by (simp only: sublist_appendI)
qed

lemma page_hitsI:
  assumes "strip (pg_text p) \<noteq> []" "(a, b) \<in> set (finditer alts 0 (pg_text p))" "(label, cat, alts) \<in> set REQUIREMENT_PATTERNS"
  shows "(p, label, cat, a, b) \<in> set (page_hits p)"
proof -
  let ?f = "\<lambda>(label, cat, alts). map (\<lambda>(a, b). (p, label, cat, a, b)) (finditer alts 0 (pg_text p))"
  have "(p, label, cat, a, b) \<in> set (?f (label, cat, alts))" using assms(2) by force
  with assms(3) have "(p, label, cat, a, b) \<in> set (concat (map ?f REQUIREMENT_PATTERNS))"
    unfolding set_concat set_map by blast
  with assms(1) show ?thesis by (simp add: page_hits_def)
qed

text \<open>The excerpt around a match contains the keyword that matched.\<close>

lemma snippet_has_keyword:
  assumes "proper alts" and "(a, b) \<in> set (finditer alts 0 txt)"
  shows "\<exists>k \<in> set alts. contains (keyword k) (snippet txt a b)"
proof -
  from finditer_sound [OF assms] have ab: "a \<le> b" "first_match alts (drop a txt) = Some (b - a)" by simp_all
  then obtain k where k: "k \<in> set alts" "match_at k (drop a txt) = Some (b - a)" using first_match_alt by blast
  from match_at_keyword [OF k(2)] have m: "b - a \<le> length txt - a" "contains (keyword k) (take (b - a) (drop a txt))" by simp_all
  have pos: "0 < b - a" using first_match_positive [OF assms(1) ab(2)] .
  define left where "left = a - 110"
  define right where "right = min (length txt) (b + 110)"
  have "left \<le> a" "b \<le> right" using pos m(1) by (auto simp: left_def right_def)
  then have "sublist (take (b - a) (drop a txt)) (take (right - left) (drop left txt))"
    using ab(1) by (intro window_sublist)
  with m(2) have "contains (keyword k) (take (right - left) (drop left txt))"
    by (auto simp: contains_iff_sublist intro: sublist_order.order_trans)
  moreover have "keyword k \<noteq> []" "\<forall>c \<in> set (keyword k). \<not> is_space c"
    using assms(1) k(1) by (auto simp: proper_def list_all_iff)
  ultimately show ?thesis
    using k(1) squeeze_contains by (auto simp: snippet_def Let_def left_def right_def)
qed

section \<open>Properties\<close>

text \<open>C8: No keyword of the tender is overlooked: for every page of the tender whose text contains a
  keyword of a rule, the extracted requirements include one with the label and category of that rule,
  cited on that page, whose quotation contains a keyword of the same rule.\<close>

theorem no_keyword_is_missed:
  assumes "p \<in> set pages" and "(label, cat, alts) \<in> set REQUIREMENT_PATTERNS" and "Literal w \<in> set alts"
    and "contains w (pg_text p)"
  shows "\<exists>q \<in> set (extract_requirements pages). rq_label q = label \<and> rq_category q = cat
    \<and> cit_page (rq_source q) = pg_page p \<and> (\<exists>k \<in> set alts. contains (keyword k) (cit_quote (rq_source q)))"
proof -
  have proper: "proper alts" using assms(2) by (rule patterns_proper)
  then have w: "w \<noteq> []" "\<forall>c \<in> set w. \<not> is_space c"
    using assms(3) by (auto simp: proper_def list_all_iff keyword_def split: alternative.splits dest!: bspec)
  obtain xs ys where t: "pg_text p = xs @ w @ ys" using assms(4) by (auto simp: contains_iff_sublist sublist_def)
  have "match_at (Literal w) (drop (length xs) (pg_text p)) \<noteq> None" by (simp add: t match_at_def)
  then have "first_match alts (drop (length xs) (pg_text p)) \<noteq> None"
    using assms(3) first_match_None [of alts] by auto
  then have "finditer alts 0 (pg_text p) \<noteq> []" 
    using finditer_complete [of alts "length xs" "pg_text p" 0] w(1) by (simp add: t)
  then obtain a b where ab: "(a, b) \<in> set (finditer alts 0 (pg_text p))" by (metis list.set_intros(1) neq_Nil_conv surj_pair)
  obtain c where "c \<in> set w" "\<not> is_space c" using w by (cases w) auto
  then have "strip (pg_text p) \<noteq> []" by (intro strip_not_empty [of c]) (simp_all add: t)
  then have "(p, label, cat, a, b) \<in> set (page_hits p)" 
    using ab assms(2) by (intro page_hitsI)
  then obtain n where "requirement_of n (p, label, cat, a, b) \<in> set (number_hits 1 (concat (map page_hits pages)))"
    using hit_number_hits [of "(p, label, cat, a, b)" "concat (map page_hits pages)" 1] assms(1) by fastforce
  then obtain q where q: "q \<in> set (extract_requirements pages)" "dedup_key q = dedup_key (requirement_of n (p, label, cat, a, b))"
    using deduplicate_keeps_key [of _ _ "[]"] by (fastforce simp: extract_requirements_def)
  then show ?thesis using snippet_has_keyword [OF proper ab]
    by (intro bexI [of _ q]) (auto simp: dedup_key_def requirement_of_def Let_def)
qed

definition demo_tender_page :: page where
  "demo_tender_page = \<lparr>pg_page = 3, pg_text = [25237, 26631, 20445, 35777, 37329], pg_locator = None, pg_blocks = [],
     pg_has_text = True, pg_ocr_required = False, pg_low_text_confidence = False, pg_char_count = 5, pg_ocr_status = None,
     pg_ocr_provider = None, pg_ocr_confidence = None, pg_source_id = None, pg_source_filename = Some ''e.pdf''\<rparr>"

theorem no_keyword_is_missed_witness:
  "\<exists>q \<in> set (extract_requirements [demo_tender_page]). rq_category q = BOND \<and> cit_page (rq_source q) = 3"
  using no_keyword_is_missed [of demo_tender_page "[demo_tender_page]" "[20445, 35777, 37329]" BOND
      "lits [[25237, 26631, 20445, 35777, 37329], [23653, 32422, 20445, 35777, 37329], [20445, 20989]]"
      "[25237, 26631, 20445, 35777, 37329]"]
  by (auto simp: demo_tender_page_def REQUIREMENT_PATTERNS_def lits_def)

section \<open>Matching\<close>

text \<open>What the engine may say of a requirement before anyone reviewed it.\<close>

definition evidence_backed :: "(ustr \<Rightarrow> ustr) \<Rightarrow> page list \<Rightarrow> requirement \<Rightarrow> bool" where
  "evidence_backed lower pages q \<longleftrightarrow>
     list_all (\<lambda>e. list_ex (\<lambda>p. eligible p \<and> ev_page e = pg_page p \<and> any_term lower (terms_for lower q) (pg_text p)) pages)
       (rq_evidence q)"

definition machine_verdict :: "(ustr \<Rightarrow> ustr) \<Rightarrow> page list \<Rightarrow> requirement \<Rightarrow> bool" where
  "machine_verdict lower pages q \<longleftrightarrow>
     rq_status q \<in> {NEEDS_REVIEW, UNKNOWN} \<and> (rq_suggested_status q = Some PASS \<longleftrightarrow> rq_evidence q \<noteq> [])
     \<and> (rq_category q \<in> set EVIDENCE_CATEGORIES \<longrightarrow> (rq_status q = UNKNOWN \<longleftrightarrow> rq_evidence q = []))
     \<and> evidence_backed lower pages q"

lemma extracted_fresh:
  assumes "q \<in> set (extract_requirements pages)"
  shows "rq_status q = NEEDS_REVIEW \<and> rq_evidence q = [] \<and> rq_suggested_status q = None"
  using extracted_from_hit [OF assms] by (auto simp: requirement_of_def Let_def split: prod.splits)

lemma terms_for_update [simp]:
  "terms_for lower (q\<lparr>rq_evidence := e, rq_status := s, rq_suggested_status := g, rq_match_review_status := m,
     rq_rule_score := n\<rparr>) = terms_for lower q"
  by (simp add: terms_for_def)

lemma match_one_verdict:
  assumes "match_one lower (filter eligible pages) names q = Inr r"
    and "rq_status q = NEEDS_REVIEW \<and> rq_evidence q = [] \<and> rq_suggested_status q = None"
  shows "rq_requirement_id r = rq_requirement_id q \<and> rq_source r = rq_source q \<and> machine_verdict lower pages r"
proof (cases "rq_category q \<in> set EVIDENCE_CATEGORIES")
  case False
  with assms show ?thesis by (auto simp: match_one_def machine_verdict_def evidence_backed_def)
next
  case True
  let ?f = "find (\<lambda>p. any_term lower (terms_for lower q) (pg_text p)) (filter eligible pages)"
  consider "r = q\<lparr>rq_status := UNKNOWN\<rparr>"
    | p hits nm where "?f = Some p" "r = q\<lparr>rq_evidence := rq_evidence q @ [evidence_of lower (terms_for lower q) hits p nm],
          rq_status := NEEDS_REVIEW, rq_suggested_status := Some PASS, rq_match_review_status := Some ''PENDING'',
          rq_rule_score := length hits\<rparr>"
    using assms(1) True by (auto simp: match_one_def Let_def bind_result_Inr split: if_splits option.splits)
  then show ?thesis
  proof cases
    case 1
    with assms(2) True show ?thesis by (simp add: machine_verdict_def evidence_backed_def)
  next
    case 2
    then have "p \<in> set pages" "eligible p" "any_term lower (terms_for lower q) (pg_text p)"
      by (auto simp: find_Some_iff in_set_conv_nth dest: nth_mem)
    with 2(2) assms(2) show ?thesis
      by (auto simp: machine_verdict_def evidence_backed_def evidence_of_def Let_def list_ex_iff)
  qed
qed

lemma match_one_total:
  assumes "names \<noteq> Files []"
  shows "\<exists>r. match_one lower pages names q = Inr r"
  using assms by (auto simp: match_one_def Let_def evidence_filename_def fallback_name_def
      split: option.splits evidence_name.splits list.splits)

lemma map_result_total: "(\<And>x. x \<in> set xs \<Longrightarrow> \<exists>y. f x = Inr y) \<Longrightarrow> \<exists>ys. map_result f xs = Inr ys"
  by (induction xs) fastforce+

text \<open>C3: The rule engine never passes a requirement on its own. Every scanned requirement is left for
  review or marked unknown; a pass is only suggested, exactly where a citation was found, and each
  citation is of an evidence page whose text recognition did not fail and that contains a term of the
  requirement; an evidence requirement with no citation is unknown. The matching keeps the requirements
  of the tender in their order, and their identifiers are unique.\<close>

theorem machine_never_passes:
  assumes "names \<noteq> Files []"
  shows "\<exists>qs. match_evidence lower (extract_requirements tender) evidence names = Inr qs
    \<and> map rq_requirement_id qs = map rq_requirement_id (extract_requirements tender)
    \<and> map rq_source qs = map rq_source (extract_requirements tender)
    \<and> distinct (map rq_requirement_id qs) \<and> list_all (machine_verdict lower evidence) qs"
proof -
  let ?es = "extract_requirements tender"
  obtain qs where qs: "match_evidence lower ?es evidence names = Inr qs"
    using map_result_total match_one_total [OF assms] by (metis match_evidence_def)
  then have m: "map (match_one lower (filter eligible evidence) names) ?es = map Inr qs"
    by (simp add: match_evidence_def map_result_Inr)
  then have len: "length qs = length ?es" by (metis length_map)
  have one: "rq_requirement_id (qs ! i) = rq_requirement_id (?es ! i) \<and> rq_source (qs ! i) = rq_source (?es ! i)
      \<and> machine_verdict lower evidence (qs ! i)" if "i < length qs" for i
  proof (rule match_one_verdict)
    show "match_one lower (filter eligible evidence) names (?es ! i) = Inr (qs ! i)"
      using arg_cong [OF m, of "\<lambda>xs. xs ! i"] that len by simp
    show "rq_status (?es ! i) = NEEDS_REVIEW \<and> rq_evidence (?es ! i) = [] \<and> rq_suggested_status (?es ! i) = None"
      using that len by (intro extracted_fresh [of _ tender] nth_mem) simp
  qed
  have "map rq_requirement_id qs = map rq_requirement_id ?es" "map rq_source qs = map rq_source ?es"
    using one len by (auto intro: nth_equalityI)
  moreover have "list_all (machine_verdict lower evidence) qs" using one by (auto simp: list_all_length)
  moreover have "distinct (map rq_requirement_id ?es)"
    by (simp add: extract_requirements_def deduplicate_ids number_hits_ids)
  ultimately show ?thesis using qs by simp
qed

theorem machine_never_passes_witness:
  "\<exists>qs. match_evidence id (extract_requirements [demo_tender_page]) [demo_tender_page] (Name ''e'') = Inr qs
     \<and> list_all (\<lambda>q. rq_status q \<noteq> PASS) qs"
  using machine_never_passes [of "Name ''e''" id "[demo_tender_page]" "[demo_tender_page]"]
  by (fastforce simp: machine_verdict_def list_all_iff)

end
