(* ===== verification/Accounts.thy ===== *)
theory Accounts
  imports Workspaces "HOL-Library.Multiset"
begin

text \<open>
  Accounts in the data layer (\<open>src/app/db.py\<close>): users, sessions, invitation and reset links, API
  tokens, second factors, identity bindings, login flows and the cleanup of expired rows.
\<close>

section \<open>Users\<close>

definition count_users :: "db \<Rightarrow> nat" where
  "count_users d = length (users d)"

definition user_clash :: "user_row \<Rightarrow> user_row \<Rightarrow> bool" where
  "user_clash a b \<longleftrightarrow> us_user_id a = us_user_id b
     \<or> (us_workspace_id a = us_workspace_id b \<and> us_username a = us_username b)"

text \<open>One transaction: a duplicate rolls the workspace row back as well.\<close>

definition create_user ::
  "string \<Rightarrow> string \<Rightarrow> string \<Rightarrow> string \<Rightarrow> string \<Rightarrow> timestamp \<Rightarrow> (db, user_row) handler" where
  "create_user w username pw role new_id now d =
     (let u = \<lparr>us_user_id = new_id, us_workspace_id = w, us_username = username, us_password_hash = pw,
               us_role = role, us_active = True, us_created_at = now\<rparr>;
          d1 = ensure_workspace_row now w d
      in case sql_insert_unique user_clash u (users d1) of
           Inl e \<Rightarrow> (Inl e, d)
         | Inr t \<Rightarrow> (Inr u, d1\<lparr>users := t\<rparr>))"

text \<open>Members are listed without their password hash.\<close>

definition list_workspace_members :: "string \<Rightarrow> db \<Rightarrow> (string \<times> string \<times> string \<times> string \<times> bool \<times> timestamp) list" where
  "list_workspace_members w d =
     map (\<lambda>u. (us_user_id u, us_workspace_id u, us_username u, us_role u, us_active u, us_created_at u))
       (order_by us_created_at (sql_select (\<lambda>u. us_workspace_id u = w) (users d)))"

definition load_user_by_id :: "string \<Rightarrow> db \<Rightarrow> user_row option" where
  "load_user_by_id x d = sql_first (\<lambda>u. us_user_id u = x) (users d)"

definition update_workspace_member ::
  "string \<Rightarrow> string \<Rightarrow> string option \<Rightarrow> bool option \<Rightarrow> db \<Rightarrow> user_row option \<times> db" where
  "update_workspace_member w x role active d =
     (case sql_first (\<lambda>u. us_workspace_id u = w \<and> us_user_id u = x) (users d) of
        None \<Rightarrow> (None, d)
      | Some u \<Rightarrow>
          let next_role = (case role of Some r \<Rightarrow> if r = '''' then us_role u else r | None \<Rightarrow> us_role u);
              next_active = (case active of Some b \<Rightarrow> b | None \<Rightarrow> us_active u);
              d1 = d\<lparr>users := sql_update (\<lambda>v. us_user_id v = x)
                       (\<lambda>v. v\<lparr>us_role := next_role, us_active := next_active\<rparr>) (users d),
                     workspace_members := sql_update (\<lambda>m. wm_workspace_id m = w \<and> wm_user_id m = x)
                       (\<lambda>m. m\<lparr>wm_role := next_role\<rparr>) (workspace_members d)\<rparr>;
              d2 = (if next_active then d1
                    else d1\<lparr>auth_sessions := sql_delete (\<lambda>s. se_user_id s = x) (auth_sessions d1)\<rparr>)
          in (load_user_by_id x d2, d2))"

definition load_user_by_username :: "string \<Rightarrow> string option \<Rightarrow> db \<Rightarrow> user_row option result" where
  "load_user_by_username name w d =
     (let scoped = (w \<noteq> None \<and> w \<noteq> Some '''');
          rows = sql_select (\<lambda>u. us_username u = name \<and> (scoped \<longrightarrow> w = Some (us_workspace_id u))) (users d)
      in if scoped then Inr (case rows of [] \<Rightarrow> None | u # _ \<Rightarrow> Some u)
         else case rows of [] \<Rightarrow> Inr None | [u] \<Rightarrow> Inr (Some u) | _ \<Rightarrow> Inl (HTTPException 400))"

definition update_user_password :: "string \<Rightarrow> string \<Rightarrow> bool \<Rightarrow> db \<Rightarrow> bool \<times> db" where
  "update_user_password x pw revoke_sessions d =
     (sql_count (\<lambda>u. us_user_id u = x) (users d) \<noteq> 0,
      let d1 = d\<lparr>users := sql_update (\<lambda>u. us_user_id u = x) (\<lambda>u. u\<lparr>us_password_hash := pw\<rparr>) (users d)\<rparr>
      in if revoke_sessions then d1\<lparr>auth_sessions := sql_delete (\<lambda>s. se_user_id s = x) (auth_sessions d1)\<rparr>
         else d1)"

section \<open>Sessions\<close>

definition MAX_SESSIONS_PER_USER :: nat where
  "MAX_SESSIONS_PER_USER = 10"

definition create_auth_session :: "string \<Rightarrow> string \<Rightarrow> timestamp \<Rightarrow> timestamp \<Rightarrow> (db, unit) handler" where
  "create_auth_session digest x expires now d =
     (let s = \<lparr>se_token_hash = digest, se_user_id = x, se_expires_at = expires, se_created_at = now\<rparr>
      in case sql_insert_unique (\<lambda>a b. se_token_hash a = se_token_hash b) s (auth_sessions d) of
           Inl e \<Rightarrow> (Inl e, d)
         | Inr t \<Rightarrow>
             let extra = map se_token_hash (drop MAX_SESSIONS_PER_USER
                           (order_by_desc se_created_at (sql_select (\<lambda>r. se_user_id r = x) t)))
             in (Inr (), d\<lparr>auth_sessions := sql_delete (\<lambda>r. se_token_hash r \<in> set extra) t\<rparr>))"

definition load_session_user :: "string \<Rightarrow> timestamp \<Rightarrow> db \<Rightarrow> user_row option" where
  "load_session_user digest now d =
     (case sql_first (\<lambda>s. se_token_hash s = digest \<and> se_expires_at s > now
              \<and> list_ex (\<lambda>u. us_user_id u = se_user_id s \<and> us_active u) (users d)) (auth_sessions d) of
        None \<Rightarrow> None
      | Some s \<Rightarrow> sql_first (\<lambda>u. us_user_id u = se_user_id s \<and> us_active u) (users d))"

definition delete_auth_session :: "string \<Rightarrow> db \<Rightarrow> db" where
  "delete_auth_session digest d =
     d\<lparr>auth_sessions := sql_delete (\<lambda>s. se_token_hash s = digest) (auth_sessions d)\<rparr>"

definition list_auth_sessions ::
  "string \<Rightarrow> timestamp \<Rightarrow> string \<Rightarrow> db \<Rightarrow> (string \<times> timestamp \<times> timestamp \<times> bool) list" where
  "list_auth_sessions x now current d =
     map (\<lambda>s. (se_token_hash s, se_created_at s, se_expires_at s, se_token_hash s = current))
       (order_by_desc se_created_at (sql_select (\<lambda>s. se_user_id s = x \<and> se_expires_at s > now) (auth_sessions d)))"

definition delete_auth_session_for_user :: "string \<Rightarrow> string \<Rightarrow> db \<Rightarrow> bool \<times> db" where
  "delete_auth_session_for_user x session d =
     (let P = (\<lambda>s. se_user_id s = x \<and> se_token_hash s = session)
      in (sql_count P (auth_sessions d) \<noteq> 0, d\<lparr>auth_sessions := sql_delete P (auth_sessions d)\<rparr>))"

definition delete_other_auth_sessions :: "string \<Rightarrow> string \<Rightarrow> db \<Rightarrow> nat \<times> db" where
  "delete_other_auth_sessions x keep_digest d =
     (let P = (\<lambda>s. se_user_id s = x \<and> se_token_hash s \<noteq> keep_digest)
      in (sql_count P (auth_sessions d), d\<lparr>auth_sessions := sql_delete P (auth_sessions d)\<rparr>))"

section \<open>Invitation and reset links\<close>

definition given :: "string option \<Rightarrow> bool" where
  "given x \<longleftrightarrow> x \<noteq> None \<and> x \<noteq> Some ''''"

definition retire_links :: "(action_token \<Rightarrow> bool) \<Rightarrow> timestamp \<Rightarrow> action_token list \<Rightarrow> action_token list" where
  "retire_links P now t = sql_update (\<lambda>k. P k \<and> tk_used_at k = None) (\<lambda>k. k\<lparr>tk_used_at := Some now\<rparr>) t"

definition create_auth_action_token ::
  "string \<Rightarrow> string \<Rightarrow> string \<Rightarrow> timestamp \<Rightarrow> string \<Rightarrow> string option \<Rightarrow> string option \<Rightarrow> string option
     \<Rightarrow> timestamp \<Rightarrow> (db, action_token) handler" where
  "create_auth_action_token digest w purpose expires by username x role now d =
     (let t0 = auth_action_tokens d;
          t1 = (if purpose = ''INVITE'' \<and> given username
                then retire_links (\<lambda>k. tk_purpose k = ''INVITE'' \<and> tk_username k = username) now t0 else t0);
          t2 = (if purpose = ''RESET'' \<and> given x
                then retire_links (\<lambda>k. tk_purpose k = ''RESET'' \<and> tk_user_id k = x) now t1 else t1);
          k = \<lparr>tk_token_hash = digest, tk_workspace_id = w, tk_purpose = purpose, tk_username = username,
               tk_user_id = x, tk_role = role, tk_expires_at = expires, tk_used_at = None,
               tk_created_by = by, tk_created_at = now\<rparr>
      in case sql_insert_unique (\<lambda>a b. tk_token_hash a = tk_token_hash b) k t2 of
           Inl e \<Rightarrow> (Inl e, d)
         | Inr t \<Rightarrow> (Inr k, d\<lparr>auth_action_tokens := t\<rparr>))"

definition load_auth_action_token :: "string \<Rightarrow> db \<Rightarrow> action_token option" where
  "load_auth_action_token digest d = sql_first (\<lambda>k. tk_token_hash k = digest) (auth_action_tokens d)"

definition consume_auth_action_token :: "string \<Rightarrow> timestamp \<Rightarrow> db \<Rightarrow> bool \<times> db" where
  "consume_auth_action_token digest at d =
     (let P = (\<lambda>k. tk_token_hash k = digest \<and> tk_used_at k = None \<and> tk_expires_at k > at)
      in (sql_count P (auth_action_tokens d) \<noteq> 0,
          d\<lparr>auth_action_tokens := sql_update P (\<lambda>k. k\<lparr>tk_used_at := Some at\<rparr>) (auth_action_tokens d)\<rparr>))"

section \<open>API tokens\<close>

text \<open>A token as clients see it: without the digest.\<close>

definition public_api_token ::
  "api_token \<Rightarrow> string \<times> string \<times> ustr \<times> string \<times> string list \<times> string \<times> string \<times> timestamp option \<times> timestamp option
     \<times> timestamp option \<times> string \<times> timestamp" where
  "public_api_token t = (at_token_id t, at_token_prefix t, at_name t, at_role t, at_permissions_json t,
     at_workspace_id t, at_user_id t, at_expires_at t, at_revoked_at t, at_last_used_at t, at_created_by t,
     at_created_at t)"

definition create_api_token ::
  "string \<Rightarrow> string \<Rightarrow> string \<Rightarrow> string \<Rightarrow> ustr \<Rightarrow> string \<Rightarrow> string \<Rightarrow> string list option \<Rightarrow> timestamp option
     \<Rightarrow> string \<Rightarrow> timestamp \<Rightarrow> db \<Rightarrow> api_token \<times> db" where
  "create_api_token digest prefx w x name role by permissions expires new_id now d =
     (let t = \<lparr>at_token_id = new_id, at_token_hash = digest, at_workspace_id = w, at_user_id = x, at_name = name,
               at_role = role, at_permissions_json = (case permissions of None \<Rightarrow> [] | Some ps \<Rightarrow> ps),
               at_token_prefix = prefx, at_expires_at = expires, at_revoked_at = None,
               at_last_used_at = None, at_created_by = by, at_created_at = now\<rparr>
      in (t, d\<lparr>api_tokens := sql_insert t (api_tokens d)\<rparr>))"

definition list_api_tokens :: "string \<Rightarrow> db \<Rightarrow> api_token list" where
  "list_api_tokens w d = order_by_desc at_created_at (sql_select (\<lambda>t. at_workspace_id t = w) (api_tokens d))"

definition token_owner :: "api_token \<Rightarrow> user_row \<Rightarrow> bool" where
  "token_owner t u \<longleftrightarrow> us_user_id u = at_user_id t \<and> us_active u \<and> us_workspace_id u = at_workspace_id t"

text \<open>The answer pairs the token with its owner, whose role is \<open>current_role\<close>.\<close>

definition load_api_token_by_hash :: "string \<Rightarrow> timestamp \<Rightarrow> db \<Rightarrow> (api_token \<times> user_row) option" where
  "load_api_token_by_hash digest now d =
     (case sql_first (\<lambda>t. at_token_hash t = digest \<and> at_revoked_at t = None \<and> list_ex (token_owner t) (users d)) (api_tokens d) of
        None \<Rightarrow> None
      | Some t \<Rightarrow>
          (case sql_first (token_owner t) (users d) of
             None \<Rightarrow> None
           | Some u \<Rightarrow> (case at_expires_at t of
                          Some e \<Rightarrow> if e \<le> now then None else Some (t, u)
                        | None \<Rightarrow> Some (t, u))))"

text \<open>The last hexadecimal digit of the last character's code decides whether the use is recorded.\<close>

definition touches :: "string \<Rightarrow> bool" where
  "touches x \<longleftrightarrow> (of_char (last x) mod 16) mod 8 = (0::nat)"

definition touch_api_token :: "string \<Rightarrow> timestamp \<Rightarrow> (db, unit) handler" where
  "touch_api_token x now d =
     (if x = '''' then (Inl IndexError, d)
      else if \<not> touches x then (Inr (), d)
      else (Inr (), d\<lparr>api_tokens := sql_update (\<lambda>t. at_token_id t = x) (\<lambda>t. t\<lparr>at_last_used_at := Some now\<rparr>) (api_tokens d)\<rparr>))"

definition revoke_api_token :: "string \<Rightarrow> string \<Rightarrow> timestamp \<Rightarrow> db \<Rightarrow> api_token option \<times> db" where
  "revoke_api_token w x now d =
     (case sql_first (\<lambda>t. at_workspace_id t = w \<and> at_token_id t = x) (api_tokens d) of
        None \<Rightarrow> (None, d)
      | Some t \<Rightarrow> (Some (t\<lparr>at_revoked_at := Some now\<rparr>),
                   d\<lparr>api_tokens := sql_update (\<lambda>t. at_token_id t = x) (\<lambda>t. t\<lparr>at_revoked_at := Some now\<rparr>) (api_tokens d)\<rparr>))"

section \<open>Second factor\<close>

definition load_user_mfa :: "string \<Rightarrow> db \<Rightarrow> mfa_row option" where
  "load_user_mfa x d = sql_first (\<lambda>m. mf_user_id m = x) (user_mfa d)"

definition upsert_user_mfa :: "string \<Rightarrow> string \<Rightarrow> string list \<Rightarrow> timestamp \<Rightarrow> db \<Rightarrow> mfa_row \<times> db" where
  "upsert_user_mfa x secret codes now d =
     (let m = \<lparr>mf_user_id = x, mf_secret = secret, mf_confirmed_at = None, mf_last_counter = 0,
               mf_recovery_codes_json = codes, mf_created_at = now\<rparr>
      in (m, d\<lparr>user_mfa := sql_upsert (\<lambda>r. mf_user_id r = x)
                (\<lambda>r. r\<lparr>mf_secret := secret, mf_confirmed_at := None, mf_last_counter := 0, mf_recovery_codes_json := codes\<rparr>)
                m (user_mfa d)\<rparr>))"

definition confirm_user_mfa :: "string \<Rightarrow> int \<Rightarrow> timestamp \<Rightarrow> db \<Rightarrow> db" where
  "confirm_user_mfa x counter now d =
     d\<lparr>user_mfa := sql_update (\<lambda>m. mf_user_id m = x)
         (\<lambda>m. m\<lparr>mf_confirmed_at := Some now, mf_last_counter := counter\<rparr>) (user_mfa d)\<rparr>"

definition update_user_mfa_counter :: "string \<Rightarrow> int \<Rightarrow> string list option \<Rightarrow> db \<Rightarrow> db" where
  "update_user_mfa_counter x counter codes d =
     d\<lparr>user_mfa := sql_update (\<lambda>m. mf_user_id m = x)
         (\<lambda>m. m\<lparr>mf_last_counter := counter,
                mf_recovery_codes_json := (case codes of None \<Rightarrow> mf_recovery_codes_json m | Some c \<Rightarrow> c)\<rparr>) (user_mfa d)\<rparr>"

definition same_snapshot :: "string \<Rightarrow> mfa_row \<Rightarrow> mfa_row \<Rightarrow> bool" where
  "same_snapshot x snap m \<longleftrightarrow> mf_user_id m = x \<and> mf_secret m = mf_secret snap
     \<and> mf_last_counter m = mf_last_counter snap \<and> mf_recovery_codes_json m = mf_recovery_codes_json snap
     \<and> mf_confirmed_at m = mf_confirmed_at snap"

definition consume_mfa_snapshot ::
  "string \<Rightarrow> mfa_row \<Rightarrow> int \<Rightarrow> string list \<Rightarrow> bool \<Rightarrow> timestamp \<Rightarrow> db \<Rightarrow> bool \<times> db" where
  "consume_mfa_snapshot x snap counter codes confirm now d =
     (sql_count (same_snapshot x snap) (user_mfa d) = 1,
      d\<lparr>user_mfa := sql_update (same_snapshot x snap)
          (\<lambda>m. m\<lparr>mf_last_counter := counter, mf_recovery_codes_json := codes,
                 mf_confirmed_at := (if confirm then Some now else mf_confirmed_at m)\<rparr>) (user_mfa d)\<rparr>)"

definition delete_user_mfa :: "string \<Rightarrow> db \<Rightarrow> db" where
  "delete_user_mfa x d = d\<lparr>user_mfa := sql_delete (\<lambda>m. mf_user_id m = x) (user_mfa d)\<rparr>"

section \<open>Identity bindings and login flows\<close>

definition load_identity_binding :: "string \<Rightarrow> string \<Rightarrow> string \<Rightarrow> db \<Rightarrow> binding_row option" where
  "load_identity_binding provider issuer subject d =
     sql_first (\<lambda>b. ib_provider b = provider \<and> ib_issuer b = issuer \<and> ib_subject b = subject) (identity_bindings d)"

definition binding_clash :: "binding_row \<Rightarrow> binding_row \<Rightarrow> bool" where
  "binding_clash a b \<longleftrightarrow> ib_binding_id a = ib_binding_id b
     \<or> (ib_provider a = ib_provider b \<and> ib_issuer a = ib_issuer b \<and> ib_subject a = ib_subject b)"

definition upsert_identity_binding ::
  "string \<Rightarrow> string \<Rightarrow> string \<Rightarrow> string \<Rightarrow> string \<Rightarrow> timestamp \<Rightarrow> (db, binding_row) handler" where
  "upsert_identity_binding x provider issuer subject new_id now d =
     (case load_identity_binding provider issuer subject d of
        Some b \<Rightarrow>
          (Inr (b\<lparr>ib_last_seen_at := Some now\<rparr>),
           d\<lparr>identity_bindings := sql_update (\<lambda>r. ib_binding_id r = ib_binding_id b)
               (\<lambda>r. r\<lparr>ib_last_seen_at := Some now\<rparr>) (identity_bindings d)\<rparr>)
      | None \<Rightarrow>
          let b = \<lparr>ib_binding_id = new_id, ib_user_id = x, ib_provider = provider, ib_issuer = issuer,
                   ib_subject = subject, ib_created_at = now, ib_last_seen_at = Some now\<rparr>
          in case sql_insert_unique binding_clash b (identity_bindings d) of
               Inl e \<Rightarrow> (Inl e, d)
             | Inr t \<Rightarrow> (Inr b, d\<lparr>identity_bindings := t\<rparr>))"

definition create_login_flow ::
  "string \<Rightarrow> string \<Rightarrow> string \<Rightarrow> string \<Rightarrow> string \<Rightarrow> timestamp \<Rightarrow> timestamp \<Rightarrow> (db, login_flow) handler" where
  "create_login_flow st provider verifier redirect nonce expires now d =
     (let f = \<lparr>lf_state = st, lf_provider = provider, lf_code_verifier = verifier, lf_redirect_uri = redirect,
               lf_nonce = nonce, lf_expires_at = expires, lf_consumed_at = None, lf_created_at = now\<rparr>
      in case sql_insert_unique (\<lambda>a b. lf_state a = lf_state b) f (login_flows d) of
           Inl e \<Rightarrow> (Inl e, d)
         | Inr t \<Rightarrow> (Inr f, d\<lparr>login_flows := t\<rparr>))"

definition open_flow :: "string \<Rightarrow> string \<Rightarrow> timestamp \<Rightarrow> login_flow \<Rightarrow> bool" where
  "open_flow st provider now f \<longleftrightarrow> lf_state f = st \<and> lf_provider f = provider
     \<and> lf_consumed_at f = None \<and> lf_expires_at f > now"

definition load_login_flow :: "string \<Rightarrow> string \<Rightarrow> timestamp \<Rightarrow> db \<Rightarrow> login_flow option" where
  "load_login_flow st provider now d = sql_first (open_flow st provider now) (login_flows d)"

text \<open>UPDATE ... RETURNING: the answer is the updated row.\<close>

definition consume_login_flow :: "string \<Rightarrow> string \<Rightarrow> timestamp \<Rightarrow> db \<Rightarrow> login_flow option \<times> db" where
  "consume_login_flow st provider now d =
     (map_option (\<lambda>f. f\<lparr>lf_consumed_at := Some now\<rparr>) (load_login_flow st provider now d),
      d\<lparr>login_flows := sql_update (open_flow st provider now) (\<lambda>f. f\<lparr>lf_consumed_at := Some now\<rparr>) (login_flows d)\<rparr>)"

section \<open>Cleanup\<close>

definition hour :: int where "hour = 3600 * 1000000"

definition cleanup_expired :: "timestamp \<Rightarrow> db \<Rightarrow> (nat \<times> nat \<times> nat \<times> nat) \<times> db" where
  "cleanup_expired now d =
     (let S = (\<lambda>s. se_expires_at s < now);
          F = (\<lambda>f. lf_expires_at f < now \<or> lf_consumed_at f \<noteq> None);
          H = (\<lambda>h. rl_occurred_at h < now - hour);
          K = (\<lambda>k. ik_created_at k < now - 24 * hour)
      in ((sql_count S (auth_sessions d), sql_count F (login_flows d), sql_count H (rate_limit_hits d),
           sql_count K (idempotency_keys d)),
          d\<lparr>auth_sessions := sql_delete S (auth_sessions d), login_flows := sql_delete F (login_flows d),
            rate_limit_hits := sql_delete H (rate_limit_hits d),
            idempotency_keys := sql_delete K (idempotency_keys d)\<rparr>))"

section \<open>Things that can be used once\<close>

definition use_link :: "string \<Rightarrow> timestamp \<Rightarrow> db \<Rightarrow> unit option \<times> db" where
  "use_link digest now d = (if fst (consume_auth_action_token digest now d) then Some () else None,
     snd (consume_auth_action_token digest now d))"

definition link_used :: "string \<Rightarrow> db \<Rightarrow> bool" where
  "link_used digest d \<longleftrightarrow> (\<forall>k \<in> set (auth_action_tokens d). tk_token_hash k = digest \<longrightarrow> tk_used_at k \<noteq> None)"

definition links_wf :: "db \<Rightarrow> bool" where
  "links_wf d \<longleftrightarrow> distinct (map tk_token_hash (auth_action_tokens d))"

lemma use_link_refused: "link_used digest d \<Longrightarrow> use_link digest now d = (None, d)"
proof -
  assume "link_used digest d"
  then have "sql_count (\<lambda>k. tk_token_hash k = digest \<and> tk_used_at k = None \<and> now < tk_expires_at k) (auth_action_tokens d) = 0"
    by (auto simp: sql_count_0_iff link_used_def)
  then show ?thesis by (simp add: use_link_def consume_auth_action_token_def Let_def sql_update_no_match)
qed

definition use_link_wf :: "string \<Rightarrow> timestamp \<Rightarrow> db \<Rightarrow> unit option \<times> db" where
  "use_link_wf digest now d = (if links_wf d then use_link digest now d else (None, d))"

lemma use_link_spends:
  assumes "links_wf d" and "fst (use_link digest now d) = Some ()"
  shows "link_used digest (snd (use_link digest now d))"
proof -
  let ?P = "\<lambda>k. tk_token_hash k = digest \<and> tk_used_at k = None \<and> now < tk_expires_at k"
  from assms(2) obtain k where k: "k \<in> set (auth_action_tokens d)" "?P k"
    by (auto simp: use_link_def consume_auth_action_token_def Let_def sql_count_0_iff split: if_splits)
  have only: "x = k" if "x \<in> set (auth_action_tokens d)" "tk_token_hash x = digest" for x
    using that k assms(1) by (auto simp: links_wf_def dest: distinct_key_eq)
  show ?thesis
    unfolding link_used_def use_link_def consume_auth_action_token_def Let_def snd_conv
    by (simp add: ball_sql_update) (metis k(2) only)
qed

text \<open>A token digest is the primary key of its table, so the guard of \<open>use_link_wf\<close> is true of every
  database the program can build.\<close>

interpretation reset_link: one_shot "use_link_wf digest" "\<lambda>d. links_wf d \<longrightarrow> link_used digest d"
proof
  fix q d r
  show "links_wf (snd (use_link_wf digest q d)) \<longrightarrow> link_used digest (snd (use_link_wf digest q d))"
    if "fst (use_link_wf digest q d) = Some r"
    using that use_link_spends [of d digest q] by (auto simp: use_link_wf_def split: if_splits)
  show "fst (use_link_wf digest q d) = None" if "links_wf d \<longrightarrow> link_used digest d"
    using that by (auto simp: use_link_wf_def use_link_refused)
  show "links_wf (snd (use_link_wf digest q d)) \<longrightarrow> link_used digest (snd (use_link_wf digest q d))"
    if "links_wf d \<longrightarrow> link_used digest d"
    using that by (auto simp: use_link_wf_def use_link_refused)
qed

definition flow_used :: "string \<Rightarrow> string \<Rightarrow> db \<Rightarrow> bool" where
  "flow_used st provider d \<longleftrightarrow> (\<forall>f \<in> set (login_flows d). lf_state f = st \<and> lf_provider f = provider \<longrightarrow> lf_consumed_at f \<noteq> None)"

definition flows_wf :: "db \<Rightarrow> bool" where
  "flows_wf d \<longleftrightarrow> distinct (map lf_state (login_flows d))"

lemma consume_flow_refused: "flow_used st provider d \<Longrightarrow> consume_login_flow st provider now d = (None, d)"
proof -
  assume "flow_used st provider d"
  then have "\<forall>f \<in> set (login_flows d). \<not> open_flow st provider now f"
    by (auto simp: flow_used_def open_flow_def)
  then show ?thesis
    by (simp add: consume_login_flow_def load_login_flow_def sql_first_None [THEN iffD2] sql_update_no_match sql_count_0_iff)
qed

lemma consume_flow_spends:
  assumes "flows_wf d" and "fst (consume_login_flow st provider now d) = Some f"
  shows "flow_used st provider (snd (consume_login_flow st provider now d))"
proof -
  from assms(2) obtain g where g: "g \<in> set (login_flows d)" "open_flow st provider now g"
    by (auto simp: consume_login_flow_def load_login_flow_def dest: sql_first_Some)
  have only: "x = g" if "x \<in> set (login_flows d)" "lf_state x = st" for x
    using that g assms(1) by (auto simp: flows_wf_def open_flow_def dest: distinct_key_eq)
  show ?thesis
    unfolding flow_used_def consume_login_flow_def snd_conv
    by (simp add: ball_sql_update) (metis g(2) only)
qed

definition use_flow :: "string \<Rightarrow> string \<Rightarrow> timestamp \<Rightarrow> db \<Rightarrow> login_flow option \<times> db" where
  "use_flow st provider now d = (if flows_wf d then consume_login_flow st provider now d else (None, d))"

interpretation flow: one_shot "use_flow st provider" "\<lambda>d. flows_wf d \<longrightarrow> flow_used st provider d"
proof
  fix q d r
  show "flows_wf (snd (use_flow st provider q d)) \<longrightarrow> flow_used st provider (snd (use_flow st provider q d))"
    if "fst (use_flow st provider q d) = Some r"
    using that consume_flow_spends [of d st provider q r] by (auto simp: use_flow_def split: if_splits)
  show "fst (use_flow st provider q d) = None" if "flows_wf d \<longrightarrow> flow_used st provider d"
    using that by (auto simp: use_flow_def consume_flow_refused)
  show "flows_wf (snd (use_flow st provider q d)) \<longrightarrow> flow_used st provider (snd (use_flow st provider q d))"
    if "flows_wf d \<longrightarrow> flow_used st provider d"
    using that by (auto simp: use_flow_def consume_flow_refused)
qed

text \<open>Consuming a verified authenticator state moves its counter forward; \<open>k\<close> is by how much.\<close>

definition use_mfa :: "string \<Rightarrow> mfa_row \<Rightarrow> nat \<times> string list \<times> bool \<times> timestamp \<Rightarrow> db \<Rightarrow> unit option \<times> db" where
  "use_mfa x snap q d = (case q of (k, codes, confirm, now) \<Rightarrow>
     let (won, d') = consume_mfa_snapshot x snap (mf_last_counter snap + 1 + int k) codes confirm now d
     in (if won then Some () else None, d'))"

definition snapshot_gone :: "string \<Rightarrow> mfa_row \<Rightarrow> db \<Rightarrow> bool" where
  "snapshot_gone x snap d \<longleftrightarrow> sql_count (same_snapshot x snap) (user_mfa d) \<noteq> 1"

lemma use_mfa_moves:
  "sql_count (same_snapshot x snap) (user_mfa (snd (use_mfa x snap q d))) = 0"
proof -
  obtain k codes confirm now where q: "q = (k, codes, confirm, now)" by (cases q) auto
  have "\<not> same_snapshot x snap (if same_snapshot x snap m
      then m\<lparr>mf_last_counter := mf_last_counter snap + 1 + int k, mf_recovery_codes_json := codes,
             mf_confirmed_at := (if confirm then Some now else mf_confirmed_at m)\<rparr> else m)" for m
    by (simp add: same_snapshot_def)
  then show ?thesis
    by (simp add: q use_mfa_def consume_mfa_snapshot_def sql_count_def sql_update_def filter_map comp_def del: if_split)
qed

interpretation mfa_state: one_shot "use_mfa x snap" "snapshot_gone x snap"
proof
  fix q d r
  show "snapshot_gone x snap (snd (use_mfa x snap q d))" if "fst (use_mfa x snap q d) = Some r"
    by (simp add: snapshot_gone_def use_mfa_moves)
  show "fst (use_mfa x snap q d) = None" if "snapshot_gone x snap d"
    using that by (cases q) (simp add: use_mfa_def consume_mfa_snapshot_def snapshot_gone_def)
  show "snapshot_gone x snap (snd (use_mfa x snap q d))" if "snapshot_gone x snap d"
    by (simp add: snapshot_gone_def use_mfa_moves)
qed

section \<open>Properties\<close>

text \<open>Invitation and reset links and login flows are used at most once: of any sequence of attempts
  at any times, at most one succeeds.\<close>

lemma links_and_flows_used_once:
  "length (filter (\<lambda>r. r \<noteq> None) (run_all (use_link_wf digest) ts d)) \<le> 1
   \<and> length (filter (\<lambda>r. r \<noteq> None) (run_all (use_flow st provider) ts d)) \<le> 1"
  by (intro conjI reset_link.at_most_one_winner flow.at_most_one_winner)

text \<open>Of all requests that verified a second factor against the same stored state, at most one is
  accepted, so one authenticator code or recovery code cannot be spent twice concurrently.\<close>

lemma mfa_state_consumed_once:
  "length (filter (\<lambda>r. r \<noteq> None) (run_all (use_mfa x snap) requests d)) \<le> 1"
  by (rule mfa_state.at_most_one_winner)

lemma length_order_by_desc [simp]: "length (order_by_desc k t) = length t"
  by (simp add: order_by_desc_def)

lemma distinct_order_by_desc [simp]: "distinct (map g (order_by_desc k t)) = distinct (map g t)"
  by (simp add: order_by_desc_def distinct_map)

lemma filter_take_key:
  assumes "distinct (map g ys)"
  shows "filter (\<lambda>y. g y \<notin> set (map g (drop n ys))) ys = take n ys"
proof -
  have "ys = take n ys @ drop n ys" by simp
  then have dis: "distinct (map g (take n ys) @ map g (drop n ys))" using assms by (metis map_append)
  have "filter (\<lambda>y. g y \<notin> set (map g (drop n ys))) (take n ys @ drop n ys) = take n ys"
    using dis by (auto simp: filter_empty_conv filter_id_conv simp del: append_take_drop_id)
  then show ?thesis by simp
qed

lemma count_after_trim:
  assumes "distinct (map g t)" and "ys = order_by_desc k (filter P t)"
  shows "length (filter P (sql_delete (\<lambda>y. g y \<in> set (map g (drop n ys))) t)) = min n (length (filter P t))"
proof -
  have dis: "distinct (map g ys)" using assms by (simp add: distinct_map_filter)
  have "set ys = set (filter P t)" by (simp add: assms(2))
  have "mset ys = mset (filter P t)" by (simp add: assms(2) order_by_desc_def)
  then have "mset (filter (\<lambda>y. g y \<notin> set (map g (drop n ys))) ys)
      = mset (filter (\<lambda>y. g y \<notin> set (map g (drop n ys))) (filter P t))"
    by (metis mset_filter)
  then have "length (filter (\<lambda>y. g y \<notin> set (map g (drop n ys))) (filter P t)) = length (take n ys)"
    unfolding filter_take_key [OF dis] by (metis size_mset)
  moreover have "filter P (sql_delete (\<lambda>y. g y \<in> set (map g (drop n ys))) t)
      = filter (\<lambda>y. g y \<notin> set (map g (drop n ys))) (filter P t)"
    by (simp add: sql_delete_def conj_commute)
  moreover have "length ys = length (filter P t)" by (simp add: assms(2))
  ultimately show ?thesis by simp
qed

definition sessions_wf :: "db \<Rightarrow> bool" where
  "sessions_wf d \<longleftrightarrow> distinct (map se_token_hash (auth_sessions d))"

lemma among_dropped: "v \<in> set (map k (drop n ys)) \<Longrightarrow> \<exists>y\<in>set ys. k y = v"
  by (auto dest: in_set_dropD)

text \<open>A new session never leaves its user with more than \<open>MAX_SESSIONS_PER_USER\<close> sessions; the
  sessions of other users are untouched, and digests stay unique.\<close>

lemma session_cap:
  assumes "sessions_wf d" and "create_auth_session digest x expires now d = (Inr (), d')"
  shows "sql_count (\<lambda>s. se_user_id s = x) (auth_sessions d')
      = min MAX_SESSIONS_PER_USER (sql_count (\<lambda>s. se_user_id s = x) (auth_sessions d) + 1)
    \<and> sql_select (\<lambda>s. se_user_id s \<noteq> x) (auth_sessions d') = sql_select (\<lambda>s. se_user_id s \<noteq> x) (auth_sessions d)
    \<and> sessions_wf d'"
proof -
  let ?s = "\<lparr>se_token_hash = digest, se_user_id = x, se_expires_at = expires, se_created_at = now\<rparr>"
  let ?t = "auth_sessions d @ [?s]"
  let ?ys = "order_by_desc se_created_at (filter (\<lambda>r. se_user_id r = x) ?t)"
  let ?extra = "map se_token_hash (drop MAX_SESSIONS_PER_USER ?ys)"
  have fresh: "\<forall>s \<in> set (auth_sessions d). se_token_hash s \<noteq> digest"
    and d': "auth_sessions d' = sql_delete (\<lambda>r. se_token_hash r \<in> set ?extra) ?t"
    using assms(2) by (auto simp: create_auth_session_def Let_def sql_insert_unique_def sql_select_def list_ex_iff
        split: if_splits)
  have wf: "distinct (map se_token_hash ?t)" using assms(1) fresh by (auto simp: sessions_wf_def)
  have "sql_count (\<lambda>s. se_user_id s = x) (auth_sessions d') = min MAX_SESSIONS_PER_USER (length (filter (\<lambda>s. se_user_id s = x) ?t))"
    unfolding d' sql_count_def by (rule count_after_trim [OF wf refl])
  moreover have "se_token_hash s \<notin> set ?extra" if "s \<in> set ?t" "se_user_id s \<noteq> x" for s
  proof
    assume "se_token_hash s \<in> set ?extra"
    from among_dropped [OF this] obtain y where listed: "y \<in> set ?ys" and y: "se_token_hash y = se_token_hash s" by (elim bexE)
    have "y \<in> set (filter (\<lambda>r. se_user_id r = x) ?t)" using listed unfolding set_order_by .
    then have mine: "y \<in> set ?t" and owner: "se_user_id y = x" by (simp_all only: set_filter mem_Collect_eq)
    have "y = s" by (rule distinct_key_eq [OF wf mine that(1) y])
    then show False using owner that(2) by simp
  qed
  then have "sql_select (\<lambda>s. se_user_id s \<noteq> x) (auth_sessions d') = sql_select (\<lambda>s. se_user_id s \<noteq> x) ?t"
    unfolding d' sql_select_def sql_delete_def filter_filter by (intro filter_cong) auto
  moreover have "sessions_wf d'"
    unfolding sessions_wf_def d' sql_delete_def using wf by (rule distinct_map_filter)
  ultimately show ?thesis by (simp add: sql_count_def sql_select_def)
qed

lemma session_cap_example:
  "sql_count (\<lambda>s. se_user_id s = ''u'') (auth_sessions (snd (create_auth_session ''h'' ''u'' 9 1 empty_db))) = 1"
proof -
  have "create_auth_session ''h'' ''u'' 9 1 empty_db = (Inr (), snd (create_auth_session ''h'' ''u'' 9 1 empty_db))"
    by (simp add: create_auth_session_def sql_insert_unique_def empty_db_def Let_def)
  from session_cap [OF _ this] show ?thesis
    by (simp add: sessions_wf_def empty_db_def sql_count_def MAX_SESSIONS_PER_USER_def)
qed

text \<open>Deactivating a member takes effect at once: none of the member's sessions or API tokens
  authenticates afterwards, at any time.\<close>

lemma deactivation_locks_out:
  assumes "update_workspace_member w x role (Some False) d = (Some u, d')"
  shows "(case load_session_user digest now d' of None \<Rightarrow> True | Some v \<Rightarrow> us_user_id v \<noteq> x)
    \<and> (case load_api_token_by_hash digest now d' of None \<Rightarrow> True | Some (t, v) \<Rightarrow> us_user_id v \<noteq> x \<and> at_user_id t \<noteq> x)
    \<and> sql_count (\<lambda>s. se_user_id s = x) (auth_sessions d') = 0"
proof -
  from assms obtain r where "users d' = sql_update (\<lambda>v. us_user_id v = x)
      (\<lambda>v. v\<lparr>us_role := r, us_active := False\<rparr>) (users d)"
    by (auto simp: update_workspace_member_def Let_def split: option.splits)
  then have "\<forall>v \<in> set (users d'). us_user_id v = x \<longrightarrow> \<not> us_active v" by (simp add: ball_sql_update)
  then have inactive: "\<not> us_active v" if "v \<in> set (users d')" "us_user_id v = x" for v using that by blast
  have "sql_count (\<lambda>s. se_user_id s = x) (auth_sessions d') = 0"
    using assms by (auto simp: update_workspace_member_def Let_def sql_count_0_iff split: option.splits)
  moreover have "us_user_id v \<noteq> x" if "load_session_user digest now d' = Some v" for v
    using that inactive by (auto simp: load_session_user_def split: option.splits dest: sql_first_Some)
  moreover have "us_user_id v \<noteq> x \<and> at_user_id t \<noteq> x" if "load_api_token_by_hash digest now d' = Some (t, v)" for t v
    using that inactive
    by (auto simp: load_api_token_by_hash_def token_owner_def split: option.splits if_splits dest!: sql_first_Some)
  ultimately show ?thesis by (auto split: option.splits)
qed

definition demo_member :: user_row where
  "demo_member = \<lparr>us_user_id = ''u'', us_workspace_id = ''w'', us_username = ''n'', us_password_hash = ''!'', us_role = ''ADMIN'',
     us_active = True, us_created_at = 0\<rparr>"

lemma deactivation_locks_out_example:
  "sql_count (\<lambda>s. se_user_id s = ''u'')
     (auth_sessions (snd (update_workspace_member ''w'' ''u'' None (Some False) (empty_db\<lparr>users := [demo_member]\<rparr>)))) = 0"
proof -
  let ?d = "empty_db\<lparr>users := [demo_member]\<rparr>"
  have "\<exists>v. fst (update_workspace_member ''w'' ''u'' None (Some False) ?d) = Some v"
    by (simp add: update_workspace_member_def load_user_by_id_def sql_first_def demo_member_def Let_def)
  then obtain v where "update_workspace_member ''w'' ''u'' None (Some False) ?d
      = (Some v, snd (update_workspace_member ''w'' ''u'' None (Some False) ?d))" by (metis prod.collapse)
  from deactivation_locks_out [OF this] show ?thesis by blast
qed

text \<open>Issuing a password-reset link retires every outstanding one of the same account: afterwards
  the new link is the only unused reset link of that user.\<close>

lemma new_reset_link_is_the_only_one:
  assumes "create_auth_action_token digest w ''RESET'' expires by username (Some x) role now d = (Inr k, d')"
    and "x \<noteq> ''''"
  shows "\<forall>l \<in> set (auth_action_tokens d'). tk_purpose l = ''RESET'' \<and> tk_user_id l = Some x \<and> tk_used_at l = None
    \<longrightarrow> tk_token_hash l = digest"
proof -
  let ?P = "\<lambda>l. (tk_purpose l = ''RESET'' \<and> tk_user_id l = Some x) \<and> tk_used_at l = None"
  obtain k where "auth_action_tokens d'
      = sql_update ?P (\<lambda>l. l\<lparr>tk_used_at := Some now\<rparr>) (auth_action_tokens d) @ [k]" "tk_token_hash k = digest"
    using assms by (auto simp: create_auth_action_token_def retire_links_def given_def Let_def sql_insert_unique_def
        split: if_splits)
  moreover have "\<forall>l \<in> set (sql_update ?P (\<lambda>l. l\<lparr>tk_used_at := Some now\<rparr>) (auth_action_tokens d)). \<not> ?P l"
    by (simp add: ball_sql_update)
  ultimately show ?thesis by auto
qed

lemma new_reset_link_is_the_only_one_example:
  "\<forall>l \<in> set (auth_action_tokens (snd (create_auth_action_token ''h'' ''w'' ''RESET'' 9 ''a'' None (Some ''u'') None 1 empty_db))).
     tk_purpose l = ''RESET'' \<and> tk_user_id l = Some ''u'' \<and> tk_used_at l = None \<longrightarrow> tk_token_hash l = ''h''"
proof -
  let ?c = "create_auth_action_token ''h'' ''w'' ''RESET'' 9 ''a'' None (Some ''u'') None 1 empty_db"
  have "\<exists>k. fst ?c = Inr k"
    by (simp add: create_auth_action_token_def given_def retire_links_def sql_insert_unique_def empty_db_def Let_def)
  then obtain k where "?c = (Inr k, snd ?c)" by (metis prod.collapse)
  from new_reset_link_is_the_only_one [OF this] show ?thesis by simp
qed

text \<open>The last use of an API token is not sampled over requests but fixed by its identifier: a
  token whose hexadecimal id does not end in 0 or 8 never has its last use recorded.\<close>

lemma last_use_depends_on_the_id:
  assumes "x \<noteq> ''''" and "last x \<in> set ''123456789abcdef''" and "last x \<noteq> CHR ''8''"
  shows "touch_api_token x now d = (Inr (), d)"
  using assms by (auto simp: touch_api_token_def touches_def)

lemma last_use_depends_on_the_id_example:
  "touch_api_token ''4f1'' 7 empty_db = (Inr (), empty_db)"
  by (rule last_use_depends_on_the_id) simp_all

end
