(* ===== verification/Auth_Limits.thy ===== *)
theory Auth_Limits
  imports Models
begin

text \<open>
  Limits on authentication: the sliding-window limiter of \<open>src/app/ratelimit.py\<close> and the one-time code
  lifecycle of \<open>src/app/repositories/challenges.py\<close> (reservation with a cooldown, delivery, counted
  guesses, the fixed-window limiter). Every function of the two files is one transaction.
\<close>

section \<open>Sliding window\<close>

record limit =
  lm_scope :: string
  lm_max_hits :: nat
  lm_window_seconds :: int

definition cutoff :: "limit \<Rightarrow> timestamp \<Rightarrow> timestamp" where
  "cutoff l at = at - lm_window_seconds l * 1000000"

definition in_bucket :: "limit \<Rightarrow> string \<Rightarrow> rate_limit_hit \<Rightarrow> bool" where
  "in_bucket l bucket h \<longleftrightarrow> rl_scope h = lm_scope l \<and> rl_bucket h = bucket"

definition hit_count :: "limit \<Rightarrow> string \<Rightarrow> timestamp \<Rightarrow> db \<Rightarrow> nat" where
  "hit_count l bucket at d =
     sql_count (\<lambda>h. in_bucket l bucket h \<and> rl_occurred_at h > cutoff l at) (rate_limit_hits d)"

definition record_hit :: "limit \<Rightarrow> string \<Rightarrow> string \<Rightarrow> timestamp \<Rightarrow> db \<Rightarrow> nat \<times> db" where
  "record_hit l bucket new_id at d =
     (let h = \<lparr>rl_hit_id = new_id, rl_scope = lm_scope l, rl_bucket = bucket, rl_occurred_at = at\<rparr>;
          d1 = d\<lparr>rate_limit_hits := sql_insert h (rate_limit_hits d)\<rparr>;
          d2 = d1\<lparr>rate_limit_hits := sql_delete (\<lambda>h. in_bucket l bucket h \<and> rl_occurred_at h \<le> cutoff l at)
                   (rate_limit_hits d1)\<rparr>
      in (hit_count l bucket at d2, d2))"

text \<open>\<open>int\<close> of a number of seconds given in microseconds: truncation toward zero.\<close>

definition trunc_seconds :: "int \<Rightarrow> int" where
  "trunc_seconds u = (if u \<ge> 0 then u div 1000000 else - ((- u) div 1000000))"

definition retry_after :: "limit \<Rightarrow> string \<Rightarrow> timestamp \<Rightarrow> db \<Rightarrow> int" where
  "retry_after l bucket at d =
     (case order_by rl_occurred_at
             (sql_select (\<lambda>h. in_bucket l bucket h \<and> rl_occurred_at h > cutoff l at) (rate_limit_hits d)) of
        [] \<Rightarrow> lm_window_seconds l
      | h # _ \<Rightarrow> max 1 (trunc_seconds (lm_window_seconds l * 1000000 - (at - rl_occurred_at h))))"

definition enforce :: "limit \<Rightarrow> string \<Rightarrow> bool \<Rightarrow> string \<Rightarrow> timestamp \<Rightarrow> (db, unit) handler" where
  "enforce l bucket consume new_id at d =
     (if consume
      then let (hits, d1) = record_hit l bucket new_id at d
           in if hits \<ge> lm_max_hits l then (Inl (HTTPException 429), d1) else (Inr (), d1)
      else if hit_count l bucket at d \<ge> lm_max_hits l then (Inl (HTTPException 429), d) else (Inr (), d))"

definition register_failure :: "limit \<Rightarrow> string \<Rightarrow> string \<Rightarrow> timestamp \<Rightarrow> (db, unit) handler" where
  "register_failure l bucket new_id at d =
     (let (hits, d1) = record_hit l bucket new_id at d
      in if hits \<ge> lm_max_hits l then (Inl (HTTPException 429), d1) else (Inr (), d1))"

definition clear_limit :: "limit \<Rightarrow> string \<Rightarrow> db \<Rightarrow> db" where
  "clear_limit l bucket d = d\<lparr>rate_limit_hits := sql_delete (in_bucket l bucket) (rate_limit_hits d)\<rparr>"

section \<open>One-time codes\<close>

text \<open>The guarded upsert answers whether the delivery was reserved. The fields of the new challenge are
  those the caller passes, with no attempt counted and not yet delivered.\<close>

definition day :: int where
  "day = 24 * 3600 * 1000000"

text \<open>What a reserved delivery writes: the guard, the end of every earlier challenge of the identity,
  the new challenge, and the removal of rows older than a day.\<close>

definition reserve_delivery :: "challenge_row \<Rightarrow> timestamp \<Rightarrow> db \<Rightarrow> db" where
  "reserve_delivery c now d =
     (let bucket = ch_identifier_digest c;
          gs = sql_upsert (\<lambda>g. dg_bucket g = bucket) (\<lambda>g. g\<lparr>dg_sent_at := now\<rparr>)
                 \<lparr>dg_bucket = bucket, dg_sent_at = now\<rparr> (auth_delivery_guards d);
          cs = sql_insert c (sql_update (\<lambda>r. ch_identifier_digest r = bucket \<and> ch_consumed_at r = None)
                 (\<lambda>r. r\<lparr>ch_consumed_at := Some now\<rparr>) (auth_challenges d))
      in d\<lparr>auth_challenges := sql_delete (\<lambda>r. ch_created_at r < now - day) cs,
           auth_delivery_guards := sql_delete (\<lambda>g. dg_sent_at g < now - day) gs\<rparr>)"

definition reserve :: "challenge_row \<Rightarrow> timestamp \<Rightarrow> int \<Rightarrow> db \<Rightarrow> int \<times> db" where
  "reserve c now cooldown d =
     (case sql_first (\<lambda>g. dg_bucket g = ch_identifier_digest c) (auth_delivery_guards d) of
        Some g \<Rightarrow>
          if dg_sent_at g > now - cooldown * 1000000
          then (max 1 (trunc_seconds (cooldown * 1000000 - (now - dg_sent_at g)) + 1), d)
          else (0, reserve_delivery c now d)
      | None \<Rightarrow> (0, reserve_delivery c now d))"

definition mark_delivery :: "string \<Rightarrow> bool \<Rightarrow> timestamp \<Rightarrow> db \<Rightarrow> db" where
  "mark_delivery challenge successful now d =
     d\<lparr>auth_challenges := sql_update (\<lambda>r. ch_challenge_id r = challenge)
         (\<lambda>r. if successful then r\<lparr>ch_delivered := True\<rparr> else r\<lparr>ch_consumed_at := Some now\<rparr>) (auth_challenges d)\<rparr>"

datatype otp_result = Locked | Expired | Incorrect | Verified string string

definition MAX_GUESSES :: nat where
  "MAX_GUESSES = 5"

definition guessable :: "string \<Rightarrow> timestamp \<Rightarrow> challenge_row \<Rightarrow> bool" where
  "guessable challenge now r \<longleftrightarrow> ch_challenge_id r = challenge \<and> ch_expires_at r > now
     \<and> ch_consumed_at r = None \<and> ch_delivered r \<and> ch_attempts r < MAX_GUESSES"

definition verify_otp :: "string \<Rightarrow> string \<Rightarrow> timestamp \<Rightarrow> db \<Rightarrow> otp_result \<times> db" where
  "verify_otp challenge submitted now d =
     (let d1 = d\<lparr>auth_challenges := sql_update (guessable challenge now)
                  (\<lambda>r. r\<lparr>ch_attempts := ch_attempts r + 1\<rparr>) (auth_challenges d)\<rparr>
      in case sql_first (guessable challenge now) (auth_challenges d) of
           None \<Rightarrow>
             ((case sql_first (\<lambda>r. ch_challenge_id r = challenge) (auth_challenges d) of
                 Some r \<Rightarrow> if ch_attempts r \<ge> MAX_GUESSES then Locked else Expired
               | None \<Rightarrow> Expired), d1)
         | Some r0 \<Rightarrow>
             let snap = r0\<lparr>ch_attempts := ch_attempts r0 + 1\<rparr>;
                 P = (\<lambda>r. ch_challenge_id r = challenge \<and> ch_consumed_at r = None \<and> ch_attempts r = ch_attempts snap)
             in if ch_code_digest snap \<noteq> submitted
                then (if ch_attempts snap \<ge> MAX_GUESSES then Locked else Incorrect, d1)
                else let d2 = d1\<lparr>auth_challenges := sql_update P (\<lambda>r. r\<lparr>ch_consumed_at := Some now\<rparr>) (auth_challenges d1)\<rparr>
                     in if sql_count P (auth_challenges d1) = 0 then (Expired, d2)
                        else (Verified (ch_channel snap) (ch_identifier snap), d2))"

section \<open>Fixed window\<close>

text \<open>One upsert: a new or expired window starts with one hit, a running one counts up to one more than
  the maximum. The answer is computed from the row as written.\<close>

definition limit_row :: "string \<Rightarrow> timestamp \<Rightarrow> int \<Rightarrow> int \<Rightarrow> db \<Rightarrow> auth_rate_limit" where
  "limit_row key now maximum window d =
     (case sql_first (\<lambda>r. ar_bucket r = key) (auth_rate_limits d) of
        None \<Rightarrow> \<lparr>ar_bucket = key, ar_window_started_at = now, ar_hits = 1\<rparr>
      | Some r \<Rightarrow>
          if ar_window_started_at r \<le> now - window * 1000000 then r\<lparr>ar_window_started_at := now, ar_hits := 1\<rparr>
          else r\<lparr>ar_hits := (if ar_hits r \<le> maximum then ar_hits r + 1 else ar_hits r)\<rparr>)"

definition consume_limit :: "string \<Rightarrow> string \<Rightarrow> int \<Rightarrow> int \<Rightarrow> timestamp \<Rightarrow> db \<Rightarrow> int \<times> db" where
  "consume_limit scope bucket maximum window now d =
     (let key = scope @ '':'' @ bucket;
          row = limit_row key now maximum window d;
          t = sql_upsert (\<lambda>r. ar_bucket r = key) (\<lambda>_. row) row (auth_rate_limits d);
          d1 = d\<lparr>auth_rate_limits := sql_delete (\<lambda>r. ar_window_started_at r < now - day) t\<rparr>
      in (if ar_hits row \<le> maximum then 0
          else max 1 (trunc_seconds (window * 1000000 - (now - ar_window_started_at row)) + 1), d1))"

section \<open>Guesses\<close>

definition challenges_wf :: "db \<Rightarrow> bool" where
  "challenges_wf d \<longleftrightarrow> distinct (map ch_challenge_id (auth_challenges d))"

text \<open>The guesses that can still be compared with the code of a challenge.\<close>

definition guesses_left :: "string \<Rightarrow> db \<Rightarrow> nat" where
  "guesses_left challenge d =
     (case sql_first (\<lambda>r. ch_challenge_id r = challenge) (auth_challenges d) of
        None \<Rightarrow> 0 | Some r \<Rightarrow> if ch_consumed_at r = None then MAX_GUESSES - ch_attempts r else 0)"

definition compared :: "otp_result \<Rightarrow> bool" where
  "compared r = (case r of Incorrect \<Rightarrow> True | Verified _ _ \<Rightarrow> True | _ \<Rightarrow> False)"

fun guess_all :: "string \<Rightarrow> (string \<times> timestamp) list \<Rightarrow> db \<Rightarrow> otp_result list" where
  "guess_all challenge [] d = []"
| "guess_all challenge ((submitted, now) # qs) d =
     fst (verify_otp challenge submitted now d) # guess_all challenge qs (snd (verify_otp challenge submitted now d))"

lemma first_guessable:
  assumes "challenges_wf d"
  shows "sql_first (guessable challenge now) (auth_challenges d)
    = (case sql_first (\<lambda>r. ch_challenge_id r = challenge) (auth_challenges d) of
         None \<Rightarrow> None | Some r \<Rightarrow> if guessable challenge now r then Some r else None)"
proof (cases "sql_first (\<lambda>r. ch_challenge_id r = challenge) (auth_challenges d)")
  case None
  then have "sql_first (guessable challenge now) (auth_challenges d) = None"
    unfolding sql_first_None by (auto simp: guessable_def)
  with None show ?thesis by simp
next
  case (Some r)
  then have r: "r \<in> set (auth_challenges d)" "ch_challenge_id r = challenge" by (auto dest: sql_first_Some)
  have only: "x = r" if "x \<in> set (auth_challenges d)" "guessable challenge now x" for x
    using that r assms by (auto simp: challenges_wf_def guessable_def dest: distinct_key_eq)
  show ?thesis
  proof (cases "sql_first (guessable challenge now) (auth_challenges d)")
    case None
    with r Some show ?thesis by (auto simp: sql_first_None)
  next
    case (Some x)
    then have "x \<in> set (auth_challenges d)" "guessable challenge now x" by (auto dest: sql_first_Some)
    with only \<open>sql_first (\<lambda>r. ch_challenge_id r = challenge) (auth_challenges d) = Some r\<close> Some show ?thesis by auto
  qed
qed

lemma verify_otp_cases:
  assumes "challenges_wf d" and v: "verify_otp challenge submitted now d = (res, d')"
  shows "challenges_wf d' \<and>
    (\<not> compared res \<and> guesses_left challenge d' \<le> guesses_left challenge d
     \<or> compared res \<and> guesses_left challenge d' < guesses_left challenge d
       \<and> (\<forall>c i. res = Verified c i \<longrightarrow> guesses_left challenge d' = 0))"
proof (cases "sql_first (\<lambda>r. ch_challenge_id r = challenge) (auth_challenges d)")
  case None
  then have "\<forall>r \<in> set (auth_challenges d). \<not> guessable challenge now r" by (auto simp: sql_first_None guessable_def)
  then have "sql_update (guessable challenge now) f (auth_challenges d) = auth_challenges d" for f
    by (intro sql_update_no_match) (simp add: sql_count_0_iff)
  with None assms show ?thesis
    by (auto simp: verify_otp_def first_guessable guesses_left_def compared_def Let_def challenges_wf_def)
next
  case (Some r)
  note wf = assms(1)
  have r: "r \<in> set (auth_challenges d)" "ch_challenge_id r = challenge" using Some by (auto dest: sql_first_Some)
  let ?t1 = "sql_update (guessable challenge now) (\<lambda>r. r\<lparr>ch_attempts := ch_attempts r + 1\<rparr>) (auth_challenges d)"
  have ids: "map ch_challenge_id ?t1 = map ch_challenge_id (auth_challenges d)" by (rule map_sql_update) simp
  have first1: "sql_first (\<lambda>r. ch_challenge_id r = challenge) ?t1
      = Some (if guessable challenge now r then r\<lparr>ch_attempts := ch_attempts r + 1\<rparr> else r)"
    using Some by (subst sql_first_update) auto
  show ?thesis
  proof (cases "guessable challenge now r")
    case False
    with v Some have "d' = d\<lparr>auth_challenges := ?t1\<rparr>" "\<not> compared res"
      by (auto simp: verify_otp_def first_guessable [OF wf] Let_def compared_def split: if_splits)
    with False first1 Some wf ids show ?thesis by (simp add: guesses_left_def challenges_wf_def)
  next
    case True
    let ?snap = "r\<lparr>ch_attempts := ch_attempts r + 1\<rparr>"
    let ?P = "\<lambda>x. ch_challenge_id x = challenge \<and> ch_consumed_at x = None \<and> ch_attempts x = ch_attempts ?snap"
    let ?t2 = "sql_update ?P (\<lambda>r. r\<lparr>ch_consumed_at := Some now\<rparr>) ?t1"
    have left: "guesses_left challenge d = MAX_GUESSES - ch_attempts r" "ch_attempts r < MAX_GUESSES"
      using True Some by (auto simp: guesses_left_def guessable_def)
    show ?thesis
    proof (cases "ch_code_digest r = submitted")
      case False
      with v Some True have "d' = d\<lparr>auth_challenges := ?t1\<rparr>" "res = (if ch_attempts r + 1 \<ge> MAX_GUESSES then Locked else Incorrect)"
        by (auto simp: verify_otp_def first_guessable [OF wf] Let_def)
      with True first1 wf ids left show ?thesis by (auto simp: guesses_left_def challenges_wf_def compared_def guessable_def)
    next
      case True': True
      have "sql_first (\<lambda>r. ch_challenge_id r = challenge) ?t2 = Some (?snap\<lparr>ch_consumed_at := Some now\<rparr>)"
        using first1 True r(2) by (subst sql_first_update) (auto simp: guessable_def)
      moreover have "map ch_challenge_id ?t2 = map ch_challenge_id ?t1" by (rule map_sql_update) simp
      moreover have "d' = d\<lparr>auth_challenges := ?t2\<rparr>"
        using v Some True True' by (auto simp: verify_otp_def first_guessable [OF wf] Let_def split: if_splits)
      ultimately show ?thesis
        using wf ids left by (auto simp: guesses_left_def challenges_wf_def)
    qed
  qed
qed

definition is_verified :: "otp_result \<Rightarrow> bool" where
  "is_verified r = (case r of Verified _ _ \<Rightarrow> True | _ \<Rightarrow> False)"

lemma answer_simps [simp]: "\<not> compared Locked" "\<not> compared Expired" "compared Incorrect" "compared (Verified c i)"
  "\<not> is_verified Locked" "\<not> is_verified Expired" "\<not> is_verified Incorrect" "is_verified (Verified c i)"
  by (simp_all add: compared_def is_verified_def)

lemma guess_all_bounds:
  assumes "challenges_wf d"
  shows "length (filter compared (guess_all challenge qs d)) \<le> guesses_left challenge d
    \<and> length (filter is_verified (guess_all challenge qs d)) \<le> (if guesses_left challenge d = 0 then 0 else 1)"
  using assms
proof (induction challenge qs d rule: guess_all.induct)
  case (2 challenge submitted now qs d)
  obtain res d' where v: "verify_otp challenge submitted now d = (res, d')" by fastforce
  note step = verify_otp_cases [OF 2(2) v]
  with 2(1) v have ih: "length (filter compared (guess_all challenge qs d')) \<le> guesses_left challenge d'"
    "length (filter is_verified (guess_all challenge qs d')) \<le> (if guesses_left challenge d' = 0 then 0 else 1)"
    by simp_all
  show ?case
    using step ih v by (cases res) (auto split: if_splits)
qed simp

section \<open>Properties\<close>


definition demo_challenge :: challenge_row where
  "demo_challenge = \<lparr>ch_challenge_id = ''c'', ch_channel = ''email'', ch_identifier = ''a'', ch_identifier_digest = ''i'',
     ch_code_digest = ''x'', ch_attempts = 0, ch_delivered = True, ch_expires_at = 100, ch_created_at = 0, ch_consumed_at = None\<rparr>"

definition demo_otp :: db where
  "demo_otp = empty_db\<lparr>auth_challenges := [demo_challenge]\<rparr>"


text \<open>After a code was reserved for an identity, the identity's earlier codes are dead and the new
  one is its only open code; until the cooldown has passed every further reservation is refused with a
  positive retry time and changes nothing.\<close>

lemma reserve_cooldown:
  assumes "reserve c now cooldown d = (0, d')" and "ch_identifier_digest c2 = ch_identifier_digest c"
    and "now \<le> now2" and "now2 < now + cooldown * 1000000"
  shows "(\<exists>n. reserve c2 now2 cooldown d' = (n, d') \<and> n \<ge> 1)
    \<and> (\<forall>r \<in> set (auth_challenges d'). ch_identifier_digest r = ch_identifier_digest c \<and> ch_consumed_at r = None \<longrightarrow> r = c)"
proof -
  let ?b = "ch_identifier_digest c"
  have d': "d' = reserve_delivery c now d"
    using assms(1) by (auto simp: reserve_def split: option.splits if_splits)
  let ?gs = "sql_upsert (\<lambda>g. dg_bucket g = ?b) (\<lambda>g. g\<lparr>dg_sent_at := now\<rparr>) \<lparr>dg_bucket = ?b, dg_sent_at = now\<rparr> (auth_delivery_guards d)"
  have sent: "\<forall>g \<in> set ?gs. dg_bucket g = ?b \<longrightarrow> dg_sent_at g = now"
    by (auto simp: sql_upsert_def ball_sql_update list_ex_iff)
  have "sql_first (\<lambda>g. dg_bucket g = ?b) ?gs \<noteq> None"
  proof (cases "list_ex (\<lambda>g. dg_bucket g = ?b) (auth_delivery_guards d)")
    case True
    then show ?thesis
      by (auto simp: sql_upsert_def sql_first_update [where key = dg_bucket] sql_first_None list_ex_iff)
  next
    case False
    then show ?thesis by (simp add: sql_upsert_def sql_first_insert split: option.splits)
  qed
  then obtain g where g: "sql_first (\<lambda>g. dg_bucket g = ?b) ?gs = Some g" by blast
  have "sql_first (\<lambda>g. dg_bucket g = ?b) (sql_delete (\<lambda>g. dg_sent_at g < now - day) ?gs) = Some g"
    unfolding g [symmetric] by (rule sql_first_delete) (use sent in \<open>auto simp: day_def\<close>)
  moreover have "dg_sent_at g = now" using g sent by (auto dest: sql_first_Some)
  ultimately have "reserve c2 now2 cooldown d'
      = (max 1 (trunc_seconds (cooldown * 1000000 - (now2 - now)) + 1), d')"
    using assms(2,4) by (simp add: reserve_def d' reserve_delivery_def Let_def)
  moreover have "\<forall>r \<in> set (sql_update (\<lambda>r. ch_identifier_digest r = ?b \<and> ch_consumed_at r = None)
      (\<lambda>r. r\<lparr>ch_consumed_at := Some now\<rparr>) (auth_challenges d)). ch_identifier_digest r = ?b \<longrightarrow> ch_consumed_at r \<noteq> None"
    by (simp add: ball_sql_update)
  ultimately show ?thesis by (auto simp: d' reserve_delivery_def Let_def)
qed

lemma reserve_cooldown_example:
  "\<exists>n. reserve demo_challenge 30 60 (snd (reserve demo_challenge 0 60 empty_db)) = (n, snd (reserve demo_challenge 0 60 empty_db)) \<and> n \<ge> 1"
proof -
  have "reserve demo_challenge 0 60 empty_db = (0, snd (reserve demo_challenge 0 60 empty_db))"
    by (simp add: reserve_def sql_first_def empty_db_def)
  from reserve_cooldown [OF this, of demo_challenge 30] show ?thesis by simp
qed

section \<open>The limiters over a sequence of requests\<close>

fun enforce_all :: "limit \<Rightarrow> string \<Rightarrow> timestamp list \<Rightarrow> db \<Rightarrow> bool list" where
  "enforce_all l bucket [] d = []"
| "enforce_all l bucket (t # ts) d =
     (let (res, d') = enforce l bucket True ''id'' t d in (res = Inr ()) # enforce_all l bucket ts d')"

definition tracks :: "limit \<Rightarrow> string \<Rightarrow> timestamp list \<Rightarrow> db \<Rightarrow> bool" where
  "tracks l bucket past d \<longleftrightarrow> (\<forall>t. (\<forall>p \<in> set past. p \<le> t) \<longrightarrow>
     hit_count l bucket t d = length (filter (\<lambda>p. p > cutoff l t) past))"

lemma record_hit_count:
  assumes "at \<le> t"
  shows "hit_count l bucket t (snd (record_hit l bucket x at d)) = hit_count l bucket t d + (if at > cutoff l t then 1 else 0)"
proof -
  have "filter (\<lambda>h. in_bucket l bucket h \<and> cutoff l t < rl_occurred_at h)
          (filter (\<lambda>h. \<not> (in_bucket l bucket h \<and> rl_occurred_at h \<le> cutoff l at)) hs)
      = filter (\<lambda>h. in_bucket l bucket h \<and> cutoff l t < rl_occurred_at h) hs" for hs
    using assms by (auto simp: filter_filter cutoff_def intro!: filter_cong)
  moreover have "cutoff l at \<le> cutoff l t" using assms by (simp add: cutoff_def)
  ultimately show ?thesis
    by (simp add: hit_count_def record_hit_def Let_def sql_count_def sql_delete_def sql_insert_def in_bucket_def
        del: filter_filter)
qed

lemma record_hit_tracks:
  assumes "tracks l bucket past d" and "\<forall>p \<in> set past. p \<le> at"
  shows "tracks l bucket (past @ [at]) (snd (record_hit l bucket x at d))"
  using assms record_hit_count by (auto simp: tracks_def)

lemma enforce_all_exact:
  assumes "tracks l bucket past d" and "sorted (past @ ts)" and "i < length ts"
  shows "enforce_all l bucket ts d ! i
    \<longleftrightarrow> length (filter (\<lambda>p. p > cutoff l (ts ! i)) (past @ take (Suc i) ts)) < lm_max_hits l"
  using assms
proof (induction ts arbitrary: past d i)
  case (Cons t ts)
  let ?d = "snd (record_hit l bucket ''id'' t d)"
  have le: "\<forall>p \<in> set past. p \<le> t" using Cons.prems(2) by (auto simp: sorted_append)
  have tr: "tracks l bucket (past @ [t]) ?d" using Cons.prems(1) le by (rule record_hit_tracks)
  have "fst (record_hit l bucket ''id'' t d) = hit_count l bucket t ?d" by (simp add: record_hit_def Let_def)
  then have cnt: "fst (record_hit l bucket ''id'' t d) = length (filter (\<lambda>p. p > cutoff l t) (past @ [t]))"
    using tr le by (simp add: tracks_def)
  have step: "enforce_all l bucket (t # ts) d = (fst (record_hit l bucket ''id'' t d) < lm_max_hits l) # enforce_all l bucket ts ?d"
    by (auto simp: enforce_def Let_def split: prod.splits)
  show ?case
  proof (cases i)
    case 0
    with step cnt show ?thesis by simp
  next
    case (Suc j)
    with Cons.IH [OF tr, of j] Cons.prems(2,3) step show ?thesis by simp
  qed
qed simp

text \<open>The login limiter is an exact sliding window: with requests in time order on a fresh bucket, a
  request passes exactly when, counting itself, fewer than \<open>max_hits\<close> requests fall into the window that
  ends with it. Refused requests count as well.\<close>

lemma sliding_window_exact:
  assumes "hit_count l bucket t0 d = 0" and "\<forall>h \<in> set (rate_limit_hits d). \<not> in_bucket l bucket h"
    and "sorted ts" and "i < length ts"
  shows "enforce_all l bucket ts d ! i
    \<longleftrightarrow> length (filter (\<lambda>p. p > ts ! i - lm_window_seconds l * 1000000) (take (Suc i) ts)) < lm_max_hits l"
proof -
  have "tracks l bucket [] d" using assms(2) by (simp add: tracks_def hit_count_def sql_count_def filter_empty_conv)
  from enforce_all_exact [OF this, of ts i] assms(3,4) show ?thesis by (simp add: cutoff_def)
qed

definition demo_limit :: limit where
  "demo_limit = \<lparr>lm_scope = ''login'', lm_max_hits = 3, lm_window_seconds = 900\<rparr>"

lemma sliding_window_exact_example:
  "map ((!) (enforce_all demo_limit ''b'' [1, 2, 3] empty_db)) [0, 1, 2] = [True, True, False]"
proof -
  have d: "\<forall>h \<in> set (rate_limit_hits empty_db). \<not> in_bucket demo_limit ''b'' h"
    "hit_count demo_limit ''b'' 0 empty_db = 0"
    by (simp_all add: empty_db_def hit_count_def sql_count_def)
  show ?thesis
    using sliding_window_exact [OF d(2,1), of "[1, 2, 3]" 0] sliding_window_exact [OF d(2,1), of "[1, 2, 3]" 1]
      sliding_window_exact [OF d(2,1), of "[1, 2, 3]" 2]
    by (simp add: demo_limit_def)
qed

fun consume_all :: "string \<Rightarrow> string \<Rightarrow> int \<Rightarrow> int \<Rightarrow> timestamp list \<Rightarrow> db \<Rightarrow> int list" where
  "consume_all scope bucket maximum window [] d = []"
| "consume_all scope bucket maximum window (t # ts) d =
     fst (consume_limit scope bucket maximum window t d)
       # consume_all scope bucket maximum window ts (snd (consume_limit scope bucket maximum window t d))"

lemma consume_limit_row:
  assumes "key = scope @ '':'' @ bucket" and "row = limit_row key now maximum window d"
    and "ar_window_started_at row \<ge> now - day" and "ar_bucket row = key"
  shows "sql_first (\<lambda>r. ar_bucket r = key) (auth_rate_limits (snd (consume_limit scope bucket maximum window now d))) = Some row"
proof -
  let ?t = "sql_upsert (\<lambda>r. ar_bucket r = key) (\<lambda>_. row) row (auth_rate_limits d)"
  have "sql_first (\<lambda>r. ar_bucket r = key) (sql_delete (\<lambda>r. ar_window_started_at r < now - day) ?t)
      = sql_first (\<lambda>r. ar_bucket r = key) ?t"
    using assms(3) by (intro sql_first_delete) (auto simp: sql_upsert_def in_sql_update list_ex_iff split: if_splits)
  moreover have "sql_first (\<lambda>r. ar_bucket r = key) ?t = Some row"
    using assms(4) by (intro sql_first_upsert) auto
  ultimately show ?thesis using assms(1,2) by (simp add: consume_limit_def Let_def)
qed

lemma consume_limit_step:
  assumes "key = scope @ '':'' @ bucket"
    and "sql_first (\<lambda>r. ar_bucket r = key) (auth_rate_limits d) = Some r" and "ar_window_started_at r = t0"
    and "t0 \<le> t" and "t < t0 + window * 1000000" and "window \<le> 86400"
    and "hits = (if ar_hits r \<le> maximum then ar_hits r + 1 else ar_hits r)"
  shows "(fst (consume_limit scope bucket maximum window t d) = 0 \<longleftrightarrow> hits \<le> maximum)
    \<and> (\<exists>r'. sql_first (\<lambda>r. ar_bucket r = key) (auth_rate_limits (snd (consume_limit scope bucket maximum window t d))) = Some r'
        \<and> ar_window_started_at r' = t0 \<and> ar_hits r' = hits)"
proof -
  have row: "limit_row key t maximum window d = r\<lparr>ar_hits := hits\<rparr>"
    using assms(2,3,5,7) by (simp add: limit_row_def)
  have "ar_bucket r = key" using assms(2) by (auto dest: sql_first_Some)
  then have "sql_first (\<lambda>r. ar_bucket r = key) (auth_rate_limits (snd (consume_limit scope bucket maximum window t d)))
      = Some (r\<lparr>ar_hits := hits\<rparr>)"
    using assms(3-6) by (intro consume_limit_row [OF assms(1) row [symmetric]]) (auto simp: day_def)
  moreover have "fst (consume_limit scope bucket maximum window t d) = 0 \<longleftrightarrow> hits \<le> maximum"
    using row assms(1) by (auto simp: consume_limit_def Let_def)
  ultimately show ?thesis using assms(3) by auto
qed

lemma consume_all_zeros:
  assumes "key = scope @ '':'' @ bucket"
    and "sql_first (\<lambda>r. ar_bucket r = key) (auth_rate_limits d) = Some r" and "ar_window_started_at r = t0"
    and "\<forall>t \<in> set ts. t0 \<le> t \<and> t < t0 + window * 1000000" and "window \<le> 86400" and "0 \<le> ar_hits r"
  shows "length (filter (\<lambda>a. a = 0) (consume_all scope bucket maximum window ts d)) \<le> nat (maximum - ar_hits r)"
  using assms
proof (induction ts arbitrary: d r)
  case (Cons t ts)
  let ?hits = "if ar_hits r \<le> maximum then ar_hits r + 1 else ar_hits r"
  let ?d = "snd (consume_limit scope bucket maximum window t d)"
  obtain r' where zero: "fst (consume_limit scope bucket maximum window t d) = 0 \<longleftrightarrow> ?hits \<le> maximum"
    and r': "sql_first (\<lambda>r. ar_bucket r = key) (auth_rate_limits ?d) = Some r'" "ar_window_started_at r' = t0" "ar_hits r' = ?hits"
    using consume_limit_step [OF Cons.prems(1-3) _ _ Cons.prems(5) refl, of t maximum] Cons.prems(4) by auto
  have "length (filter (\<lambda>a. a = 0) (consume_all scope bucket maximum window ts ?d)) \<le> nat (maximum - ar_hits r')"
    using Cons.prems(4,6) r'(3) by (intro Cons.IH [OF Cons.prems(1) r'(1,2) _ Cons.prems(5)]) auto
  then show ?case using zero r'(3) by (auto split: if_splits)
qed simp

text \<open>The fixed-window limiter of the one-time codes admits at most \<open>maximum\<close> requests per window:
  of the requests on a bucket without a running window that arrive within one window of the first, no
  more than that are allowed. Its windows last at most a day, the age at which rows are removed.\<close>

lemma fixed_window_bound:
  assumes "sql_first (\<lambda>r. ar_bucket r = scope @ '':'' @ bucket) (auth_rate_limits d) = None"
    and "\<forall>t \<in> set ts. t0 \<le> t \<and> t < t0 + window * 1000000" and "0 < window" and "window \<le> 86400" and "1 \<le> maximum"
  shows "length (filter (\<lambda>a. a = 0) (consume_all scope bucket maximum window (t0 # ts) d)) \<le> nat maximum"
proof -
  let ?key = "scope @ '':'' @ bucket"
  let ?row = "\<lparr>ar_bucket = ?key, ar_window_started_at = t0, ar_hits = 1\<rparr>"
  let ?d = "snd (consume_limit scope bucket maximum window t0 d)"
  have row: "limit_row ?key t0 maximum window d = ?row" using assms(1) by (simp add: limit_row_def)
  have "sql_first (\<lambda>r. ar_bucket r = ?key) (auth_rate_limits ?d) = Some ?row"
    by (rule consume_limit_row [OF refl row [symmetric]]) (simp_all add: day_def)
  from consume_all_zeros [OF refl this _ assms(2) assms(4)]
  have "length (filter (\<lambda>a. a = 0) (consume_all scope bucket maximum window ts ?d)) \<le> nat (maximum - 1)" by simp
  then have "Suc (length (filter (\<lambda>a. a = 0) (consume_all scope bucket maximum window ts ?d))) \<le> nat maximum"
    using assms(5) by linarith
  then show ?thesis by auto
qed

lemma fixed_window_bound_example:
  "length (filter (\<lambda>a. a = 0) (consume_all ''otp'' ''b'' 2 60 [0, 1, 2, 3] empty_db)) \<le> 2"
  using fixed_window_bound [of "''otp''" "''b''" empty_db "[1, 2, 3]" 0 60 2]
  by (simp add: empty_db_def sql_first_def)

end
