(* ===== verification/Authz.thy ===== *)
theory Authz
  imports Accounts Auth_Limits
begin

text \<open>
  Permissions (\<open>src/app/authz.py\<close>) and the resolution of a caller (\<open>src/app/identity.py\<close>): session cookie,
  API token, trusted headers of a test setup. \<open>upper\<close> is \<open>str.upper\<close>, \<open>sha\<close> the token digest.
\<close>

section \<open>Permissions\<close>

datatype permission = RUN_READ | RUN_CREATE | RUN_UPDATE | RUN_DELETE | RUN_REVIEW | RUN_DECIDE | REPORT_EXPORT
  | REPORT_BULK_EXPORT | EVIDENCE_DOWNLOAD | JOB_READ | JOB_MANAGE | MEMBER_READ | MEMBER_MANAGE | PROJECT_MANAGE
  | WORKSPACE_READ | WORKSPACE_MANAGE | AUDIT_READ | AUDIT_EXPORT | BACKUP_MANAGE | RETENTION_MANAGE | TOKEN_MANAGE
  | METRICS_READ | HEALTH_DETAIL_READ

definition permission_value :: "permission \<Rightarrow> string" where
  "permission_value p = (case p of
     RUN_READ \<Rightarrow> ''run:read'' | RUN_CREATE \<Rightarrow> ''run:create'' | RUN_UPDATE \<Rightarrow> ''run:update'' | RUN_DELETE \<Rightarrow> ''run:delete''
   | RUN_REVIEW \<Rightarrow> ''run:review'' | RUN_DECIDE \<Rightarrow> ''run:decide'' | REPORT_EXPORT \<Rightarrow> ''report:export''
   | REPORT_BULK_EXPORT \<Rightarrow> ''report:bulk-export'' | EVIDENCE_DOWNLOAD \<Rightarrow> ''evidence:download'' | JOB_READ \<Rightarrow> ''job:read''
   | JOB_MANAGE \<Rightarrow> ''job:manage'' | MEMBER_READ \<Rightarrow> ''member:read'' | MEMBER_MANAGE \<Rightarrow> ''member:manage''
   | PROJECT_MANAGE \<Rightarrow> ''project:manage'' | WORKSPACE_READ \<Rightarrow> ''workspace:read'' | WORKSPACE_MANAGE \<Rightarrow> ''workspace:manage''
   | AUDIT_READ \<Rightarrow> ''audit:read'' | AUDIT_EXPORT \<Rightarrow> ''audit:export'' | BACKUP_MANAGE \<Rightarrow> ''backup:manage''
   | RETENTION_MANAGE \<Rightarrow> ''retention:manage'' | TOKEN_MANAGE \<Rightarrow> ''token:manage'' | METRICS_READ \<Rightarrow> ''metrics:read''
   | HEALTH_DETAIL_READ \<Rightarrow> ''health:detail'')"

definition all_permissions :: "permission list" where
  "all_permissions = [RUN_READ, RUN_CREATE, RUN_UPDATE, RUN_DELETE, RUN_REVIEW, RUN_DECIDE, REPORT_EXPORT,
     REPORT_BULK_EXPORT, EVIDENCE_DOWNLOAD, JOB_READ, JOB_MANAGE, MEMBER_READ, MEMBER_MANAGE, PROJECT_MANAGE,
     WORKSPACE_READ, WORKSPACE_MANAGE, AUDIT_READ, AUDIT_EXPORT, BACKUP_MANAGE, RETENTION_MANAGE, TOKEN_MANAGE,
     METRICS_READ, HEALTH_DETAIL_READ]"

definition VIEWER_PERMISSIONS :: "permission list" where
  "VIEWER_PERMISSIONS = [RUN_READ, JOB_READ, MEMBER_READ, WORKSPACE_READ, METRICS_READ]"

definition REVIEWER_PERMISSIONS :: "permission list" where
  "REVIEWER_PERMISSIONS = VIEWER_PERMISSIONS @ [RUN_CREATE, RUN_UPDATE, RUN_REVIEW, RUN_DECIDE, REPORT_EXPORT,
     EVIDENCE_DOWNLOAD, JOB_MANAGE, AUDIT_READ, HEALTH_DETAIL_READ]"

definition ADMIN_PERMISSIONS :: "permission list" where
  "ADMIN_PERMISSIONS = REVIEWER_PERMISSIONS @ [RUN_DELETE, REPORT_BULK_EXPORT, MEMBER_MANAGE, PROJECT_MANAGE,
     WORKSPACE_MANAGE, AUDIT_EXPORT, BACKUP_MANAGE, RETENTION_MANAGE, TOKEN_MANAGE]"

definition OWNER_PERMISSIONS :: "permission list" where
  "OWNER_PERMISSIONS = all_permissions"

definition permissions_for :: "(string \<Rightarrow> string) \<Rightarrow> string \<Rightarrow> permission list" where
  "permissions_for upper role =
     (let r = upper role
      in if r = ''OWNER'' then OWNER_PERMISSIONS else if r = ''ADMIN'' then ADMIN_PERMISSIONS
         else if r = ''REVIEWER'' then REVIEWER_PERMISSIONS else if r = ''VIEWER'' then VIEWER_PERMISSIONS else [])"

text \<open>Values that name no permission are skipped.\<close>

definition as_permissions :: "string list \<Rightarrow> permission list" where
  "as_permissions values = filter (\<lambda>p. permission_value p \<in> set values) all_permissions"

definition has_permission :: "(string \<Rightarrow> string) \<Rightarrow> principal \<Rightarrow> permission \<Rightarrow> bool" where
  "has_permission upper pr p \<longleftrightarrow>
     (let granted = permissions_for upper (pr_role pr)
      in case pr_permissions pr of
           None \<Rightarrow> p \<in> set granted
         | Some scoped \<Rightarrow> p \<in> set granted \<and> p \<in> set (as_permissions scoped))"

definition require_permission :: "(string \<Rightarrow> string) \<Rightarrow> principal \<Rightarrow> permission \<Rightarrow> unit result" where
  "require_permission upper pr p = (if has_permission upper pr p then Inr () else Inl (HTTPException 403))"

section \<open>Callers\<close>

record request =
  re_session_cookie :: "string option"
  re_authorization :: "ustr option"
  re_workspace_header :: "string option"
  re_user_header :: "string option"
  re_role_header :: "string option"
  re_client_ip :: "string option"

record identity_env =
  ie_upper :: "string \<Rightarrow> string"
  ie_lower :: "ustr \<Rightarrow> ustr"
  ie_strip :: "string \<Rightarrow> string"
  ie_token_hash :: "ustr \<Rightarrow> string"
  ie_now :: timestamp
  ie_new_id :: string
  ie_trusted_headers :: bool
  ie_token_limit :: limit

definition bearer_token :: "identity_env \<Rightarrow> request \<Rightarrow> ustr option" where
  "bearer_token ie rq =
     (let header = (case re_authorization rq of None \<Rightarrow> [] | Some h \<Rightarrow> h)
      in if ie_lower ie (take 7 header) \<noteq> asc ''bearer '' then None
         else let token = strip (drop 7 header) in if token = [] then None else Some token)"

definition client_host :: "request \<Rightarrow> string" where
  "client_host rq = (case re_client_ip rq of None \<Rightarrow> ''unknown'' | Some x \<Rightarrow> if x = '''' then ''unknown'' else x)"

text \<open>\<open>min\<close> of the two roles by the number of their permissions; the token's own role on a tie.\<close>

definition effective_role :: "(string \<Rightarrow> string) \<Rightarrow> string \<Rightarrow> string \<Rightarrow> string" where
  "effective_role upper role current =
     (if length (permissions_for upper current) < length (permissions_for upper role) then current else role)"

definition token_permissions :: "(string \<Rightarrow> string) \<Rightarrow> api_token \<Rightarrow> string \<Rightarrow> string list" where
  "token_permissions upper t current =
     sort (filter (\<lambda>v. v \<in> permission_value ` set (permissions_for upper (at_role t))
                     \<and> v \<in> permission_value ` set (permissions_for upper current)) (dedup (at_permissions_json t)))"

definition principal_from_api_token :: "identity_env \<Rightarrow> request \<Rightarrow> ustr \<Rightarrow> (db, principal) handler" where
  "principal_from_api_token ie rq token d =
     (let bucket = client_host rq @ '':token''
      in case enforce (ie_token_limit ie) bucket False (ie_new_id ie) (ie_now ie) d of
           (Inl e, d1) \<Rightarrow> (Inl e, d1)
         | (Inr _, d1) \<Rightarrow>
             (case load_api_token_by_hash (ie_token_hash ie token) (ie_now ie) d1 of
                None \<Rightarrow>
                  (case register_failure (ie_token_limit ie) bucket (ie_new_id ie) (ie_now ie) d1 of
                     (Inl e, d2) \<Rightarrow> (Inl e, d2)
                   | (Inr _, d2) \<Rightarrow> (Inl (HTTPException 401), d2))
              | Some (t, u) \<Rightarrow>
                  (case touch_api_token (at_token_id t) (ie_now ie) d1 of
                     (Inl e, d2) \<Rightarrow> (Inl e, d2)
                   | (Inr _, d2) \<Rightarrow>
                       (Inr \<lparr>pr_workspace_id = at_workspace_id t, pr_user_id = at_user_id t,
                             pr_role = effective_role (ie_upper ie) (at_role t) (us_role u),
                             pr_permissions = Some (token_permissions (ie_upper ie) t (us_role u))\<rparr>, d2))))"

definition header_or :: "identity_env \<Rightarrow> string \<Rightarrow> string option \<Rightarrow> string" where
  "header_or ie dflt x =
     (let v = ie_strip ie (case x of None \<Rightarrow> dflt | Some y \<Rightarrow> y) in if v = '''' then dflt else v)"

definition trusted_header_principal :: "identity_env \<Rightarrow> request \<Rightarrow> db \<Rightarrow> principal \<times> db" where
  "trusted_header_principal ie rq d =
     (let w = header_or ie ''local'' (re_workspace_header rq);
          x = header_or ie ''local-owner'' (re_user_header rq);
          r0 = ie_upper ie (ie_strip ie (case re_role_header rq of None \<Rightarrow> ''OWNER'' | Some y \<Rightarrow> y));
          role = (if r0 = '''' then ''OWNER'' else r0)
      in (\<lparr>pr_workspace_id = w, pr_user_id = x, pr_role = role, pr_permissions = None\<rparr>,
          ensure_workspace w x role None (ie_now ie) d))"

definition principal_without_session :: "identity_env \<Rightarrow> request \<Rightarrow> (db, principal) handler" where
  "principal_without_session ie rq d =
     (case bearer_token ie rq of
        Some token \<Rightarrow> principal_from_api_token ie rq token d
      | None \<Rightarrow>
          if ie_trusted_headers ie
             \<and> ((re_workspace_header rq \<noteq> None \<or> re_user_header rq \<noteq> None \<or> re_role_header rq \<noteq> None)
                \<or> count_users d = 0)
          then let (pr, d1) = trusted_header_principal ie rq d in (Inr pr, d1)
          else (Inl (HTTPException 401), d))"

text \<open>A background job carries its verified identity; everything else is an HTTP request.\<close>

datatype call_context = InternalJobContext principal string | HttpRequest request

definition principal_of :: "identity_env \<Rightarrow> call_context \<Rightarrow> (db, principal) handler" where
  "principal_of ie ctx d =
     (case ctx of
        InternalJobContext pr _ \<Rightarrow> (Inr pr, d)
      | HttpRequest rq \<Rightarrow>
          (case re_session_cookie rq of
             Some token \<Rightarrow>
               if token \<noteq> '''' then
                 (case load_session_user (ie_token_hash ie (asc token)) (ie_now ie) d of
                    Some u \<Rightarrow> (Inr \<lparr>pr_workspace_id = us_workspace_id u, pr_user_id = us_user_id u, pr_role = us_role u,
                                   pr_permissions = None\<rparr>, d)
                  | None \<Rightarrow> (Inl (HTTPException 401), d))
               else principal_without_session ie rq d
           | None \<Rightarrow> principal_without_session ie rq d))"

definition job_id_of :: "call_context \<Rightarrow> string option" where
  "job_id_of ctx = (case ctx of InternalJobContext _ j \<Rightarrow> Some j | HttpRequest _ \<Rightarrow> None)"

definition require_role :: "principal \<Rightarrow> string list \<Rightarrow> unit result" where
  "require_role pr roles = (if pr_role pr \<notin> set roles then Inl (HTTPException 403) else Inr ())"

definition SESSION_HOURS :: int where
  "SESSION_HOURS = 12"

definition issue_session :: "string \<Rightarrow> string \<Rightarrow> timestamp \<Rightarrow> (db, unit) handler" where
  "issue_session digest x now d = create_auth_session digest x (now + SESSION_HOURS * 3600 * 1000000) now d"

definition active_auth_action :: "string \<Rightarrow> string option \<Rightarrow> timestamp \<Rightarrow> db \<Rightarrow> action_token result" where
  "active_auth_action digest purpose now d =
     (case load_auth_action_token digest d of
        None \<Rightarrow> Inl (HTTPException 410)
      | Some k \<Rightarrow>
          if tk_used_at k \<noteq> None \<or> tk_expires_at k \<le> now then Inl (HTTPException 410)
          else if given purpose \<and> purpose \<noteq> Some (tk_purpose k) then Inl (HTTPException 410)
          else Inr k)"

section \<open>Facts\<close>

lemma permission_in_all: "p \<in> set all_permissions"
  by (cases p) (simp_all add: all_permissions_def)

lemma permission_value_inj: "permission_value p = permission_value q \<longleftrightarrow> p = q"
  by (cases p; cases q) (simp_all add: permission_value_def)

lemma as_permissions_iff: "p \<in> set (as_permissions vs) \<longleftrightarrow> permission_value p \<in> set vs"
  by (simp add: as_permissions_def permission_in_all)

lemma role_chain:
  "set VIEWER_PERMISSIONS \<subseteq> set REVIEWER_PERMISSIONS" "set REVIEWER_PERMISSIONS \<subseteq> set ADMIN_PERMISSIONS"
  "set ADMIN_PERMISSIONS = set OWNER_PERMISSIONS"
  "length VIEWER_PERMISSIONS = 5" "length REVIEWER_PERMISSIONS = 14" "length ADMIN_PERMISSIONS = 23"
  "length OWNER_PERMISSIONS = 23"
  by (auto simp: VIEWER_PERMISSIONS_def REVIEWER_PERMISSIONS_def ADMIN_PERMISSIONS_def OWNER_PERMISSIONS_def all_permissions_def)

text \<open>The roles form a chain, so the role with fewer permissions has a subset of the other's.\<close>

lemma permissions_chain:
  assumes "length (permissions_for upper a) \<le> length (permissions_for upper b)"
  shows "set (permissions_for upper a) \<subseteq> set (permissions_for upper b)"
  using assms role_chain by (auto simp: permissions_for_def Let_def split: if_splits)

lemma effective_role_permissions:
  "set (permissions_for upper (effective_role upper a b)) = set (permissions_for upper a) \<inter> set (permissions_for upper b)"
  using permissions_chain [of upper a b] permissions_chain [of upper b a]
  by (auto simp: effective_role_def)

lemma token_permissions_set:
  "permission_value p \<in> set (token_permissions upper t current) \<longleftrightarrow>
     permission_value p \<in> set (at_permissions_json t) \<and> p \<in> set (permissions_for upper (at_role t))
     \<and> p \<in> set (permissions_for upper current)"
  by (auto simp: token_permissions_def permission_value_inj image_iff)

section \<open>Properties\<close>

text \<open>What an API token may do is exactly what its scopes list, its signing role allows and its
  owner's current role allows: demotion takes effect at once, promotion adds nothing, and a token
  without scopes can do nothing. The token authenticates only while it is not revoked or expired and
  its owner is an active member of its workspace.\<close>

lemma token_permissions_exact:
  assumes "principal_from_api_token ie rq token d = (Inr pr, d')"
  shows "\<exists>t u. t \<in> set (api_tokens d) \<and> u \<in> set (users d) \<and> at_token_hash t = ie_token_hash ie token
    \<and> at_revoked_at t = None \<and> (\<forall>e. at_expires_at t = Some e \<longrightarrow> e > ie_now ie) \<and> token_owner t u
    \<and> pr_workspace_id pr = at_workspace_id t
    \<and> (\<forall>p. has_permission (ie_upper ie) pr p \<longleftrightarrow>
          permission_value p \<in> set (at_permissions_json t)
          \<and> p \<in> set (permissions_for (ie_upper ie) (at_role t)) \<and> p \<in> set (permissions_for (ie_upper ie) (us_role u)))"
proof -
  have "snd (enforce (ie_token_limit ie) (client_host rq @ '':token'') False (ie_new_id ie) (ie_now ie) d) = d"
    by (simp add: enforce_def)
  then obtain t u where load: "load_api_token_by_hash (ie_token_hash ie token) (ie_now ie) d = Some (t, u)"
    and pr: "pr_workspace_id pr = at_workspace_id t" "pr_role pr = effective_role (ie_upper ie) (at_role t) (us_role u)"
    "pr_permissions pr = Some (token_permissions (ie_upper ie) t (us_role u))"
    using assms
    by (auto simp: principal_from_api_token_def Let_def register_failure_def enforce_def split: prod.splits sum.splits option.splits if_splits)
  have "has_permission (ie_upper ie) pr p \<longleftrightarrow> permission_value p \<in> set (at_permissions_json t)
      \<and> p \<in> set (permissions_for (ie_upper ie) (at_role t)) \<and> p \<in> set (permissions_for (ie_upper ie) (us_role u))" for p
    by (auto simp: has_permission_def pr effective_role_permissions as_permissions_iff token_permissions_set)
  moreover have "t \<in> set (api_tokens d)" "u \<in> set (users d)" "at_token_hash t = ie_token_hash ie token"
    "at_revoked_at t = None" "\<forall>e. at_expires_at t = Some e \<longrightarrow> e > ie_now ie" "token_owner t u"
    using load by (auto simp: load_api_token_by_hash_def split: option.splits if_splits dest!: sql_first_Some)
  ultimately show ?thesis using pr(1) by blast
qed

definition demo_token :: api_token where
  "demo_token = \<lparr>at_token_id = ''t1'', at_token_hash = ''h'', at_workspace_id = ''w'', at_user_id = ''u'', at_name = [],
     at_role = ''REVIEWER'', at_permissions_json = [''run:read'', ''run:delete''], at_token_prefix = ''p'', at_expires_at = Some 9,
     at_revoked_at = None, at_last_used_at = None, at_created_by = ''u'', at_created_at = 0\<rparr>"

definition demo_identity_env :: identity_env where
  "demo_identity_env = \<lparr>ie_upper = id, ie_lower = id, ie_strip = id, ie_token_hash = (\<lambda>_. ''h''), ie_now = 5, ie_new_id = ''i'',
     ie_trusted_headers = False, ie_token_limit = \<lparr>lm_scope = ''t'', lm_max_hits = 3, lm_window_seconds = 60\<rparr>\<rparr>"

definition demo_request :: request where
  "demo_request = \<lparr>re_session_cookie = None, re_authorization = None, re_workspace_header = None, re_user_header = None,
     re_role_header = None, re_client_ip = None\<rparr>"

definition demo_token_db :: db where
  "demo_token_db = empty_db\<lparr>users := [demo_member], api_tokens := [demo_token]\<rparr>"

lemma token_permissions_exact_example:
  "\<exists>pr d'. principal_from_api_token demo_identity_env demo_request [] demo_token_db = (Inr pr, d')
     \<and> has_permission id pr RUN_READ \<and> \<not> has_permission id pr RUN_DELETE"
proof -
  have "\<exists>pr d'. principal_from_api_token demo_identity_env demo_request [] demo_token_db = (Inr pr, d')"
    by (simp add: principal_from_api_token_def demo_identity_env_def demo_token_db_def enforce_def hit_count_def
        sql_count_def load_api_token_by_hash_def sql_first_def demo_token_def demo_member_def token_owner_def
        touch_api_token_def touches_def empty_db_def client_host_def demo_request_def)
  then obtain pr d' where p: "principal_from_api_token demo_identity_env demo_request [] demo_token_db = (Inr pr, d')" by blast
  have u: "ie_upper demo_identity_env = id" by (simp add: demo_identity_env_def)
  have "has_permission id pr RUN_READ" "\<not> has_permission id pr RUN_DELETE"
    using token_permissions_exact [OF p]
    by (auto simp: u demo_token_db_def demo_token_def demo_member_def permissions_for_def permission_value_def
        VIEWER_PERMISSIONS_def REVIEWER_PERMISSIONS_def ADMIN_PERMISSIONS_def)
  with p show ?thesis by blast
qed

text \<open>Roles are ordered by inclusion from viewer to owner, a role that is not one of the four
  grants nothing, and the scopes of an API token never add to what its role grants.\<close>

lemma roles_are_a_chain:
  "(set (permissions_for upper a) \<subseteq> set (permissions_for upper b) \<or> set (permissions_for upper b) \<subseteq> set (permissions_for upper a))
   \<and> (upper a \<notin> {''OWNER'', ''ADMIN'', ''REVIEWER'', ''VIEWER''} \<longrightarrow> permissions_for upper a = [])
   \<and> (has_permission upper pr p \<longrightarrow> has_permission upper (pr\<lparr>pr_permissions := None\<rparr>) p)"
proof (intro conjI impI)
  show "set (permissions_for upper a) \<subseteq> set (permissions_for upper b) \<or> set (permissions_for upper b) \<subseteq> set (permissions_for upper a)"
    using permissions_chain [of upper a b] permissions_chain [of upper b a] by linarith
  show "permissions_for upper a = []" if "upper a \<notin> {''OWNER'', ''ADMIN'', ''REVIEWER'', ''VIEWER''}"
    using that by (simp add: permissions_for_def Let_def)
  show "has_permission upper (pr\<lparr>pr_permissions := None\<rparr>) p" if "has_permission upper pr p"
    using that by (auto simp: has_permission_def Let_def split: option.splits)
qed

lemma roles_are_a_chain_example:
  "permissions_for id ''GUEST'' = []
   \<and> has_permission id (\<lparr>pr_workspace_id = ''w'', pr_user_id = ''u'', pr_role = ''VIEWER'', pr_permissions = None\<rparr>) RUN_READ"
  using roles_are_a_chain [of id "''GUEST''" "''VIEWER''"
      "\<lparr>pr_workspace_id = ''w'', pr_user_id = ''u'', pr_role = ''VIEWER'', pr_permissions = Some [''run:read'']\<rparr>" RUN_READ]
  by (simp add: has_permission_def as_permissions_iff permissions_for_def VIEWER_PERMISSIONS_def permission_value_def)

end
