(* ===== verification/Credentials.thy ===== *)
theory Credentials
  imports Models
begin

text \<open>
  Credential primitives: password hashes (\<open>src/app/security.py\<close>), the password policy
  (\<open>src/app/schemas.py\<close>), time-based one-time passwords (\<open>src/app/totp.py\<close>) and the double-submit check of
  \<open>src/app/csrf.py\<close>. Bytes are numbers below 256. PBKDF2 and the HMAC of a secret are parameters.
\<close>

section \<open>Base 64\<close>

definition b64_alphabet :: string where
  "b64_alphabet = ''ABCDEFGHIJKLMNOPQRSTUVWXYZabcdefghijklmnopqrstuvwxyz0123456789-_''"

definition b64_char :: "nat \<Rightarrow> char" where
  "b64_char i = b64_alphabet ! i"

fun index_of :: "'a \<Rightarrow> 'a list \<Rightarrow> nat" where
  "index_of x [] = 0"
| "index_of x (y # ys) = (if x = y then 0 else Suc (index_of x ys))"

fun urlsafe_b64encode :: "nat list \<Rightarrow> string" where
  "urlsafe_b64encode [] = []"
| "urlsafe_b64encode [a] = [b64_char (a div 4), b64_char ((a mod 4) * 16), CHR ''='', CHR ''='']"
| "urlsafe_b64encode [a, b] =
     [b64_char (a div 4), b64_char ((a mod 4) * 16 + b div 16), b64_char ((b mod 16) * 4), CHR ''='']"
| "urlsafe_b64encode (a # b # c # rest) =
     b64_char (a div 4) # b64_char ((a mod 4) * 16 + b div 16) # b64_char ((b mod 16) * 4 + c div 64)
       # b64_char (c mod 64) # urlsafe_b64encode rest"

text \<open>The decoder on groups of four characters; an incomplete group raises \<open>ValueError\<close>. (Python skips
  characters outside the alphabet, which stored hashes never hold.)\<close>

fun urlsafe_b64decode :: "string \<Rightarrow> nat list result" where
  "urlsafe_b64decode [] = Inr []"
| "urlsafe_b64decode (p # q # r # s # rest) =
     (let i = index_of p b64_alphabet; j = index_of q b64_alphabet; k = index_of r b64_alphabet; l = index_of s b64_alphabet
      in if r = CHR ''='' then Inr [i * 4 + j div 16]
         else if s = CHR ''='' then Inr [i * 4 + j div 16, (j mod 16) * 16 + k div 4]
         else bind_result (urlsafe_b64decode rest) (\<lambda>bs.
                Inr ((i * 4 + j div 16) # ((j mod 16) * 16 + k div 4) # ((k mod 4) * 64 + l) # bs)))"
| "urlsafe_b64decode _ = Inl ValueError"

section \<open>Passwords\<close>

definition PBKDF2_ITERATIONS :: nat where
  "PBKDF2_ITERATIONS = 600000"

text \<open>\<open>int\<close> of a stored iteration count, a plain numeral; other text raises \<open>ValueError\<close>.\<close>

definition parse_int :: "string \<Rightarrow> nat result" where
  "parse_int s = (if s = [] \<or> \<not> list_all is_ascii_digit s then Inl ValueError
     else Inr (foldl (\<lambda>n c. n * 10 + (of_char c - 48)) 0 s))"

type_synonym pbkdf2 = "ustr \<Rightarrow> nat list \<Rightarrow> nat \<Rightarrow> nat list"

definition password_hash :: "pbkdf2 \<Rightarrow> ustr \<Rightarrow> nat list \<Rightarrow> nat \<Rightarrow> string" where
  "password_hash kdf password salt iterations =
     ''pbkdf2_sha256$'' @ decimal iterations @ ''$'' @ urlsafe_b64encode salt @ ''$''
       @ urlsafe_b64encode (kdf password salt iterations)"

definition UNUSABLE_PASSWORD :: string where
  "UNUSABLE_PASSWORD = ''!''"

definition password_is_usable :: "string option \<Rightarrow> bool" where
  "password_is_usable encoded = (case encoded of None \<Rightarrow> False | Some s \<Rightarrow> prefix ''pbkdf2_sha256$'' s)"

text \<open>\<open>s.split(c, n)\<close>: at most \<open>n\<close> cuts.\<close>

fun split_max :: "char \<Rightarrow> nat \<Rightarrow> string \<Rightarrow> string list" where
  "split_max c 0 s = [s]"
| "split_max c (Suc n) s =
     (if c \<in> set s then takeWhile (\<lambda>x. x \<noteq> c) s # split_max c n (tl (dropWhile (\<lambda>x. x \<noteq> c) s)) else [s])"

definition verify_password :: "pbkdf2 \<Rightarrow> ustr \<Rightarrow> string \<Rightarrow> bool" where
  "verify_password kdf password encoded =
     (case split_max CHR ''$'' 3 encoded of
        [algorithm, iterations, salt, expected] \<Rightarrow>
          algorithm = ''pbkdf2_sha256''
          \<and> (case urlsafe_b64decode salt of
               Inl _ \<Rightarrow> False
             | Inr bs \<Rightarrow> (case parse_int iterations of
                 Inl _ \<Rightarrow> False
               | Inr n \<Rightarrow> urlsafe_b64encode (kdf password bs n) = expected))
      | _ \<Rightarrow> False)"

definition password_needs_rehash :: "string \<Rightarrow> bool" where
  "password_needs_rehash encoded =
     (case split_max CHR ''$'' 3 encoded of
        [algorithm, iterations, salt, expected] \<Rightarrow>
          algorithm = ''pbkdf2_sha256'' \<and> (case parse_int iterations of Inl _ \<Rightarrow> False | Inr n \<Rightarrow> n < PBKDF2_ITERATIONS)
      | _ \<Rightarrow> False)"

definition MIN_PASSWORD_LENGTH :: nat where "MIN_PASSWORD_LENGTH = 8"

definition MAX_PASSWORD_LENGTH :: nat where "MAX_PASSWORD_LENGTH = 200"

definition ascii_letter :: "nat \<Rightarrow> bool" where
  "ascii_letter c \<longleftrightarrow> 65 \<le> c \<and> c \<le> 90 \<or> 97 \<le> c \<and> c \<le> 122"

definition ascii_digit :: "nat \<Rightarrow> bool" where
  "ascii_digit c \<longleftrightarrow> 48 \<le> c \<and> c \<le> 57"

definition password_meets_policy :: "ustr \<Rightarrow> bool" where
  "password_meets_policy password \<longleftrightarrow>
     \<not> (length password < MIN_PASSWORD_LENGTH \<or> length password > MAX_PASSWORD_LENGTH)
     \<and> list_ex ascii_letter password \<and> list_ex ascii_digit password"

section \<open>Time-based one-time passwords\<close>

definition DIGITS :: nat where "DIGITS = 6"

definition PERIOD_SECONDS :: int where "PERIOD_SECONDS = 30"

definition DEFAULT_TOLERANCE_STEPS :: int where "DEFAULT_TOLERANCE_STEPS = 1"

definition counter_at :: "int \<Rightarrow> int" where
  "counter_at seconds = seconds div PERIOD_SECONDS"

text \<open>\<open>mac\<close> is the HMAC-SHA1 of the secret, a digest of twenty bytes for a counter. Reading past its end
  raises, as \<open>struct.unpack\<close> does on a short slice.\<close>

definition code_for_counter :: "(int \<Rightarrow> nat list) \<Rightarrow> int \<Rightarrow> string result" where
  "code_for_counter mac counter =
     (let digest = mac counter;
          offset = last digest mod 16;
          bytes = take 4 (drop offset digest)
      in if digest = [] then Inl IndexError
         else if length bytes \<noteq> 4 then Inl ValueError
         else let word = ((bytes ! 0 * 256 + bytes ! 1) * 256 + bytes ! 2) * 256 + bytes ! 3;
                  truncated = word mod 2 ^ 31
              in Inr (zfill DIGITS (decimal (truncated mod 10 ^ DIGITS))))"

text \<open>\<open>hmac.compare_digest\<close> on two strings raises \<open>TypeError\<close> when one is not ASCII.\<close>

definition compare_digest :: "ustr \<Rightarrow> ustr \<Rightarrow> bool result" where
  "compare_digest a b = (if list_all (\<lambda>c. c < 128) a \<and> list_all (\<lambda>c. c < 128) b then Inr (a = b) else Inl TypeError)"

fun try_counters :: "(int \<Rightarrow> nat list) \<Rightarrow> ustr \<Rightarrow> int \<Rightarrow> int list \<Rightarrow> int option result" where
  "try_counters mac submitted last_counter [] = Inr None"
| "try_counters mac submitted last_counter (candidate # rest) =
     (if candidate \<le> last_counter then try_counters mac submitted last_counter rest
      else bind_result (code_for_counter mac candidate) (\<lambda>code.
           bind_result (compare_digest (asc code) submitted) (\<lambda>same.
             if same then Inr (Some candidate) else try_counters mac submitted last_counter rest)))"

text \<open>\<open>isdigit\<close> is \<open>str.isdigit\<close> of one character, which holds of more than the ASCII digits.\<close>

definition totp_verify :: "(nat \<Rightarrow> bool) \<Rightarrow> (int \<Rightarrow> nat list) \<Rightarrow> ustr \<Rightarrow> int \<Rightarrow> int \<Rightarrow> int option result" where
  "totp_verify isdigit mac code last_counter seconds =
     (let submitted = filter (\<lambda>c. c \<noteq> 32) (strip code);
          current = counter_at seconds
      in if submitted = [] \<or> \<not> list_all isdigit submitted then Inr None
         else try_counters mac submitted last_counter
                [current - DEFAULT_TOLERANCE_STEPS .. current + DEFAULT_TOLERANCE_STEPS])"

section \<open>CSRF\<close>

definition SAFE_METHODS :: "string list" where
  "SAFE_METHODS = [''GET'', ''HEAD'', ''OPTIONS'', ''TRACE'']"

definition requires_check :: "string \<Rightarrow> bool \<Rightarrow> bool" where
  "requires_check method_upper by_cookie \<longleftrightarrow> by_cookie \<and> method_upper \<notin> set SAFE_METHODS"

definition csrf_verify :: "ustr option \<Rightarrow> ustr option \<Rightarrow> unit result" where
  "csrf_verify header cookie =
     (let submitted = strip (case header of None \<Rightarrow> [] | Some h \<Rightarrow> h);
          expected = strip (case cookie of None \<Rightarrow> [] | Some c \<Rightarrow> c)
      in if expected = [] \<or> submitted = [] then Inl (HTTPException 403)
         else bind_result (compare_digest submitted expected)
                (\<lambda>same. if same then Inr () else Inl (HTTPException 403)))"

section \<open>Facts\<close>

lemma b64_chars: "\<forall>i \<in> set [0..<64]. index_of (b64_char i) b64_alphabet = i \<and> b64_char i \<noteq> CHR ''='' \<and> b64_char i \<noteq> CHR ''$''"
  by code_simp

lemma b64_char_facts [simp]:
  assumes "i < 64"
  shows "index_of (b64_char i) b64_alphabet = i" "b64_char i \<noteq> CHR ''=''" "CHR ''='' \<noteq> b64_char i"
    "b64_char i \<noteq> CHR ''$''" "CHR ''$'' \<noteq> b64_char i"
  using b64_chars assms by (auto dest: bspec [of _ _ i])

definition bytes :: "nat list \<Rightarrow> bool" where
  "bytes bs \<longleftrightarrow> list_all (\<lambda>b. b < 256) bs"

lemma bytes_simps [simp]: "bytes []" "bytes (a # as) \<longleftrightarrow> a < 256 \<and> bytes as"
  by (simp_all add: bytes_def)

lemma byte_parts:
  fixes b :: nat
  assumes "b < 256"
  shows "b div 4 < 64" "b div 16 < 16" "b div 64 < 4" "b mod 4 < 4" "b mod 16 < 16" "b mod 64 < 64"
proof -
  show "b div 4 < 64" using assms by (intro less_mult_imp_div_less) simp
  show "b div 16 < 16" using assms by (intro less_mult_imp_div_less) simp
  show "b div 64 < 4" using assms by (intro less_mult_imp_div_less) simp
qed simp_all

lemma six_bits:
  fixes a b c :: nat
  assumes "a < 256" "b < 256" "c < 256"
  shows "a div 4 < 64" "(a mod 4) * 16 < 64" "(a mod 4) * 16 + b div 16 < 64" "(b mod 16) * 4 < 64"
    "(b mod 16) * 4 + c div 64 < 64" "c mod 64 < 64"
  using byte_parts [OF assms(1)] byte_parts [OF assms(2)] byte_parts [OF assms(3)] by linarith+

lemma join_bits:
  fixes a b c :: nat
  assumes "a < 256" "b < 256" "c < 256"
  shows "(a div 4) * 4 + ((a mod 4) * 16) div 16 = a" "(a div 4) * 4 + ((a mod 4) * 16 + b div 16) div 16 = a"
    "(((a mod 4) * 16 + b div 16) mod 16) * 16 + ((b mod 16) * 4) div 4 = b"
    "(((a mod 4) * 16 + b div 16) mod 16) * 16 + ((b mod 16) * 4 + c div 64) div 4 = b"
    "(((b mod 16) * 4 + c div 64) mod 4) * 64 + c mod 64 = c"
proof -
  have b: "b div 16 < 16" and c: "c div 64 < 4" using byte_parts [OF assms(2)] byte_parts [OF assms(3)] by blast+
  have "(a mod 4 * 16 + b div 16) div 16 = a mod 4" "(a mod 4 * 16 + b div 16) mod 16 = b div 16" using b by simp_all
  moreover have "(b mod 16 * 4 + c div 64) div 4 = b mod 16" "(b mod 16 * 4 + c div 64) mod 4 = c div 64" using c by simp_all
  moreover have "a mod 4 * 16 div 16 = a mod 4" "b mod 16 * 4 div 4 = b mod 16" by simp_all
  ultimately show "(a div 4) * 4 + ((a mod 4) * 16) div 16 = a" "(a div 4) * 4 + ((a mod 4) * 16 + b div 16) div 16 = a"
    "(((a mod 4) * 16 + b div 16) mod 16) * 16 + ((b mod 16) * 4) div 4 = b"
    "(((a mod 4) * 16 + b div 16) mod 16) * 16 + ((b mod 16) * 4 + c div 64) div 4 = b"
    "(((b mod 16) * 4 + c div 64) mod 4) * 64 + c mod 64 = c"
    by (simp_all only: div_mult_mod_eq)
qed

lemma b64_roundtrip: "bytes bs \<Longrightarrow> urlsafe_b64decode (urlsafe_b64encode bs) = Inr bs"
proof (induction bs rule: urlsafe_b64encode.induct)
  case (2 a)
  then show ?case using six_bits [of a 0 0] join_bits [of a 0 0] by (simp add: Let_def)
next
  case (3 a b)
  then show ?case using six_bits [of a b 0] join_bits [of a b 0] by (simp add: Let_def)
next
  case (4 a b c rest)
  then have "b div 16 < 16" using byte_parts by simp
  with 4 show ?case using six_bits [of a b c] join_bits [of a b c] by (simp add: Let_def)
qed simp

lemma b64_no_dollar: "bytes bs \<Longrightarrow> CHR ''$'' \<notin> set (urlsafe_b64encode bs)"
proof (induction bs rule: urlsafe_b64encode.induct)
  case (2 a)
  then show ?case using six_bits [of a 0 0] by simp
next
  case (3 a b)
  then show ?case using six_bits [of a b 0] by simp
next
  case (4 a b c rest)
  then show ?case using six_bits [of a b c] by simp
qed simp

lemma parse_decimal [simp]: "parse_int (decimal n) = Inr n"
  using decimal_digits [of n] decimal_value [of n] by (simp add: parse_int_def)

lemma decimal_no_dollar: "CHR ''$'' \<notin> set (decimal n)"
  using decimal_digits [of n] by (auto simp: list_all_iff is_ascii_digit_def)

lemma split_max_step:
  "c \<notin> set a \<Longrightarrow> split_max c (Suc n) (a @ c # rest) = a # split_max c n rest"
  by (simp add: takeWhile_append2 dropWhile_append)

lemma split_max_3:
  assumes "c \<notin> set p" "c \<notin> set q" "c \<notin> set r"
  shows "split_max c 3 (p @ c # q @ c # r @ c # t) = [p, q, r, t]"
  unfolding numeral_3_eq_3 by (simp only: split_max_step [OF assms(1)] split_max_step [OF assms(2)]
      split_max_step [OF assms(3)] split_max.simps(1))

lemma split_password_hash:
  assumes "bytes salt"
  shows "split_max CHR ''$'' 3 (password_hash kdf password salt n)
    = [''pbkdf2_sha256'', decimal n, urlsafe_b64encode salt, urlsafe_b64encode (kdf password salt n)]"
proof -
  have "password_hash kdf password salt n = ''pbkdf2_sha256'' @ CHR ''$'' # decimal n @ CHR ''$'' # urlsafe_b64encode salt
      @ CHR ''$'' # urlsafe_b64encode (kdf password salt n)"
    by (simp add: password_hash_def)
  then show ?thesis
    using split_max_3 [of "CHR ''$''" "''pbkdf2_sha256''" "decimal n" "urlsafe_b64encode salt"]
      decimal_no_dollar b64_no_dollar [OF assms] by simp
qed

lemma b64_inj: "bytes a \<Longrightarrow> bytes b \<Longrightarrow> urlsafe_b64encode a = urlsafe_b64encode b \<longleftrightarrow> a = b"
  using b64_roundtrip by (metis sum.inject(2))

text \<open>A fresh hash is usable, is up to date and accepts the passwords with the same derived key.\<close>

lemma verify_password_hash:
  assumes "bytes salt" and "\<forall>pw. bytes (kdf pw salt n)"
  shows "verify_password kdf candidate (password_hash kdf password salt n) \<longleftrightarrow> kdf candidate salt n = kdf password salt n"
  unfolding verify_password_def split_password_hash [OF assms(1)]
  using assms by (simp add: b64_roundtrip b64_inj)

lemma password_hash_usable [simp]: "password_is_usable (Some (password_hash kdf password salt n))"
  by (simp add: password_is_usable_def password_hash_def)

lemma password_hash_fresh: "bytes salt \<Longrightarrow> password_needs_rehash (password_hash kdf password salt n) \<longleftrightarrow> n < PBKDF2_ITERATIONS"
  unfolding password_needs_rehash_def by (simp add: split_password_hash)

section \<open>Properties\<close>

text \<open>A stored password hash accepts exactly the passwords with the same derived key, in particular
  the password it was made from; the placeholder of accounts without a password accepts none.\<close>

lemma password_hash_verifies:
  assumes "bytes salt" and "\<forall>pw. bytes (kdf pw salt n)"
  shows "(verify_password kdf candidate (password_hash kdf password salt n) \<longleftrightarrow> kdf candidate salt n = kdf password salt n)
    \<and> \<not> verify_password kdf candidate UNUSABLE_PASSWORD"
  using verify_password_hash [of salt kdf n candidate password] assms
  by (simp add: verify_password_def UNUSABLE_PASSWORD_def numeral_3_eq_3)

lemma password_hash_verifies_example:
  "verify_password (\<lambda>pw _ _. [length pw mod 256]) (asc ''abc'')
     (password_hash (\<lambda>pw _ _. [length pw mod 256]) (asc ''xyz'') [1, 2, 255] 600000)"
  using password_hash_verifies [of "[1, 2, 255]" "\<lambda>pw _ _. [length pw mod 256]" 600000 "asc ''abc''" "asc ''xyz''"]
  by (simp add: asc_def)

definition mac_ok :: "(int \<Rightarrow> nat list) \<Rightarrow> bool" where
  "mac_ok mac \<longleftrightarrow> (\<forall>c. length (mac c) = 20 \<and> bytes (mac c))"

lemma code_shape:
  assumes "mac_ok mac"
  obtains code where "code_for_counter mac c = Inr code" "length code = 6" "list_all is_ascii_digit code"
proof -
  have len: "length (mac c) = 20" using assms by (simp add: mac_ok_def)
  then have four: "length (take 4 (drop (last (mac c) mod 16) (mac c))) = 4"
  proof -
    have "last (mac c) mod 16 < 16" by simp
    with len show ?thesis by simp
  qed
  define v where "v = (let b = take 4 (drop (last (mac c) mod 16) (mac c)) in
      (((b ! 0 * 256 + b ! 1) * 256 + b ! 2) * 256 + b ! 3) mod 2 ^ 31 mod 10 ^ DIGITS)"
  have "v < 10 ^ 6" by (simp add: v_def DIGITS_def Let_def)
  then have "length (decimal v) \<le> 6" by (rule decimal_length) simp
  moreover have "code_for_counter mac c = Inr (zfill DIGITS (decimal v))"
    using len four by (auto simp: code_for_counter_def v_def Let_def)
  moreover have "is_ascii_digit CHR ''0''" by (simp add: is_ascii_digit_def)
  moreover have "list_all is_ascii_digit (zfill DIGITS (decimal v))"
    using decimal_digits [of v] \<open>is_ascii_digit CHR ''0''\<close> by (auto simp: zfill_def list_all_iff)
  moreover have "length (zfill DIGITS (decimal v)) = 6"
    using \<open>length (decimal v) \<le> 6\<close> by (simp add: zfill_def DIGITS_def)
  ultimately show thesis using that by blast
qed

lemma asc_digits:
  "list_all is_ascii_digit code \<Longrightarrow> list_all (\<lambda>c. c < 128 \<and> 48 \<le> c \<and> c \<le> 57) (asc code)"
  by (auto simp: list_all_iff asc_def is_ascii_digit_def)

lemma compare_code [simp]:
  assumes "list_all is_ascii_digit code" and "list_all (\<lambda>c. c < 128) s"
  shows "compare_digest (asc code) s = Inr (asc code = s)"
  using asc_digits [OF assms(1)] assms(2) by (auto simp: compare_digest_def list_all_iff)

lemma try_counters_sound:
  assumes "try_counters mac s last_counter cs = Inr (Some c)"
  shows "c \<in> set cs \<and> c > last_counter \<and> (\<exists>code. code_for_counter mac c = Inr code \<and> asc code = s)"
  using assms
  by (induction cs) (auto simp: bind_result_Inr compare_digest_def split: if_splits)

lemma try_counters_total:
  assumes "mac_ok mac" and "list_all (\<lambda>c. c < 128) s"
  shows "\<exists>r. try_counters mac s last_counter cs = Inr r
    \<and> (r = None \<longrightarrow> (\<forall>c \<in> set cs. c > last_counter \<longrightarrow> code_for_counter mac c \<noteq> Inr (map char_of s)))"
proof (induction cs)
  case (Cons c cs)
  obtain code where code: "code_for_counter mac c = Inr code" "list_all is_ascii_digit code"
    using code_shape [OF assms(1), of c] by blast
  have "asc code = s" if "code = map char_of s"
    using that assms(2) by (auto simp: asc_def list_all_iff intro!: map_idI)
  with Cons code assms(2) show ?case by (auto simp: bind_result_def)
qed simp

lemma digits_strip:
  assumes "list_all (\<lambda>c. 48 \<le> c \<and> c \<le> 57) s"
  shows "filter (\<lambda>c. c \<noteq> 32) (strip s) = s"
proof -
  have "dropWhile is_space t = t" if "list_all (\<lambda>c. 48 \<le> c \<and> c \<le> 57) t" for t
    using that by (cases t) (auto simp: is_space_def)
  then have "strip s = s" using assms by (simp add: strip_def lstrip_def list_all_iff)
  with assms show ?thesis by (auto simp: list_all_iff filter_id_conv)
qed

text \<open>The authenticator check. The code shown for the current step, which always has six digits, is
  accepted unless that step was already used; whatever is accepted belongs to a step within one of the
  current one and later than the last used; and once a step is recorded as used, the same input is
  never accepted for it or for an earlier step again.\<close>

lemma totp_window_and_replay:
  assumes "mac_ok mac" and "\<forall>c. 48 \<le> c \<and> c \<le> 57 \<longrightarrow> isdigit c"
  shows "(\<exists>code. code_for_counter mac (counter_at now) = Inr code \<and> length code = 6
        \<and> (last_counter < counter_at now \<longrightarrow> (\<exists>c. totp_verify isdigit mac (asc code) last_counter now = Inr (Some c))))
    \<and> (\<forall>input c. totp_verify isdigit mac input last_counter now = Inr (Some c)
         \<longrightarrow> c > last_counter \<and> \<bar>c - counter_at now\<bar> \<le> 1
           \<and> (\<forall>later c'. totp_verify isdigit mac input c later = Inr (Some c') \<longrightarrow> c' > c))"
proof (intro conjI allI impI)
  obtain code where code: "code_for_counter mac (counter_at now) = Inr code" "length code = 6" "list_all is_ascii_digit code"
    using code_shape [OF assms(1)] by blast
  have digits: "list_all (\<lambda>c. c < 128 \<and> 48 \<le> c \<and> c \<le> 57) (asc code)" using code(3) by (rule asc_digits)
  have "\<exists>c. totp_verify isdigit mac (asc code) last_counter now = Inr (Some c)" if "last_counter < counter_at now"
  proof -
    let ?cs = "[counter_at now - 1 .. counter_at now + 1]"
    have "filter (\<lambda>c. c \<noteq> 32) (strip (asc code)) = asc code"
      using digits by (intro digits_strip) (auto simp: list_all_iff)
    moreover have "asc code \<noteq> []" using code(2) by (auto simp: asc_def)
    moreover have "list_all isdigit (asc code)" using digits assms(2) by (auto simp: list_all_iff)
    ultimately have eq: "totp_verify isdigit mac (asc code) last_counter now = try_counters mac (asc code) last_counter ?cs"
      by (simp add: totp_verify_def DEFAULT_TOLERANCE_STEPS_def Let_def)
    have "list_all (\<lambda>c. c < 128) (asc code)" using digits by (auto simp: list_all_iff)
    from try_counters_total [OF assms(1) this, of last_counter ?cs] obtain r where
      r: "try_counters mac (asc code) last_counter ?cs = Inr r"
      "r = None \<longrightarrow> (\<forall>c \<in> set ?cs. c > last_counter \<longrightarrow> code_for_counter mac c \<noteq> Inr (map char_of (asc code)))"
      by blast
    have "counter_at now \<in> set ?cs" by simp
    with r(2) that have r2: "r = None \<longrightarrow> code_for_counter mac (counter_at now) \<noteq> Inr (map char_of (asc code))" by blast
    have "map char_of (asc code) = code" by (simp add: asc_def map_idI)
    with r(1) r2 code(1) eq show ?thesis by auto
  qed
  with code show "\<exists>code. code_for_counter mac (counter_at now) = Inr code \<and> length code = 6
      \<and> (last_counter < counter_at now \<longrightarrow> (\<exists>c. totp_verify isdigit mac (asc code) last_counter now = Inr (Some c)))"
    by blast
next
  fix input c
  assume "totp_verify isdigit mac input last_counter now = Inr (Some c)"
  then have "c > last_counter \<and> c \<in> set [counter_at now - 1 .. counter_at now + 1]"
    by (auto simp: totp_verify_def Let_def DEFAULT_TOLERANCE_STEPS_def split: if_splits dest!: try_counters_sound)
  then show "c > last_counter" "\<bar>c - counter_at now\<bar> \<le> 1" by auto
next
  fix input c later c'
  assume "totp_verify isdigit mac input c later = Inr (Some c')"
  then show "c' > c"
    by (auto simp: totp_verify_def Let_def split: if_splits dest!: try_counters_sound)
qed

lemma totp_window_and_replay_example:
  "\<exists>code. code_for_counter (\<lambda>c. replicate 20 (nat c mod 256)) (counter_at 100) = Inr code \<and> length code = 6"
  using totp_window_and_replay [of "\<lambda>c. replicate 20 (nat c mod 256)" ascii_digit 100 0]
  by (auto simp: mac_ok_def bytes_def list_all_iff ascii_digit_def)

text \<open>A code of non-ASCII digits is not rejected but raises: it passes \<open>isdigit\<close> and reaches a
  comparison that only takes ASCII text.\<close>

lemma totp_non_ascii_digits_raise:
  assumes "mac_ok mac" and "isdigit c" and "c \<ge> 128" and "\<not> is_space c" and "last_counter < counter_at now - 1"
  shows "totp_verify isdigit mac [c] last_counter now = Inl TypeError"
proof -
  obtain code where code: "code_for_counter mac (counter_at now - 1) = Inr code"
    using code_shape [OF assms(1)] by blast
  have "strip [c] = [c]" using assms(4) by (simp add: strip_def lstrip_def)
  moreover have "[counter_at now - 1 .. counter_at now + 1] = (counter_at now - 1) # [counter_at now .. counter_at now + 1]"
    by (subst upto.simps) simp
  ultimately show ?thesis
    using assms(2,3,5) code
    by (simp add: totp_verify_def Let_def DEFAULT_TOLERANCE_STEPS_def compare_digest_def)
qed

lemma totp_non_ascii_digits_raise_example:
  "totp_verify (\<lambda>c. c = 1634) (\<lambda>c. replicate 20 7) [1634] 0 100 = Inl TypeError"
  by (rule totp_non_ascii_digits_raise)
    (simp_all add: mac_ok_def bytes_def is_space_def counter_at_def PERIOD_SECONDS_def list_all_iff)

end
