(* ===== verification/Auth_Service.thy ===== *)
theory Auth_Service
  imports Authz Credentials Run_Service
begin

text \<open>
  The sign-in flows of \<open>src/app/services/auth_service.py\<close> over the accounts of the data layer: bootstrap,
  password login with the directory as fallback, the second factor, federated accounts, trial and personal
  sign-up, invitations, password reset, members, API tokens and sessions. Each flow is a sequence of
  data-layer calls, and what it wrote before it raised stays written. \<open>auth_env\<close> holds the configuration,
  the clock (one reading per request), fresh identifiers and secrets in the order they are drawn, and the
  string functions and digests of the standard library. The directory server and the identity provider are
  parameters: they answer with a role and a subject, with claims, or fail. Cookies, redirects and the
  redirect URL are outside the model.
\<close>

section \<open>Surroundings\<close>

record auth_env =
  ae_env :: env
  ae_fresh :: "nat \<Rightarrow> string"
  ae_secret :: "nat \<Rightarrow> string"
  ae_token_hash :: "ustr \<Rightarrow> string"
  ae_kdf :: pbkdf2
  ae_salt :: "nat list"
  ae_strip :: "string \<Rightarrow> string"
  ae_casefold :: "string \<Rightarrow> string"
  ae_ucasefold :: "ustr \<Rightarrow> ustr"
  ae_upper :: "string \<Rightarrow> string"
  ae_isdigit :: "nat \<Rightarrow> bool"
  ae_hmac :: "string \<Rightarrow> int \<Rightarrow> nat list"
  ae_host :: string
  ae_bootstrap_token :: string
  ae_trial_join_code :: string
  ae_personal_signup :: bool
  ae_federated_workspace :: string
  ae_login_limit :: limit
  ae_mfa_limit :: limit
  ae_directory :: "(string \<Rightarrow> ustr \<Rightarrow> (string \<times> string) option result) option"
  ae_directory_uri :: string
  ae_oidc :: "(string \<Rightarrow> login_flow \<Rightarrow> (string \<times> string) result) option"
  ae_oidc_issuer :: string
  ae_oidc_default_role :: string
  ae_public_origin :: string

definition ae_now :: "auth_env \<Rightarrow> timestamp" where
  "ae_now ae = en_now (ae_env ae)"

definition seconds :: "int \<Rightarrow> int" where
  "seconds n = n * 1000000"

definition record_auth :: "auth_env \<Rightarrow> string \<Rightarrow> string \<Rightarrow> string \<Rightarrow> json \<Rightarrow> string \<Rightarrow> (db, unit) handler" where
  "record_auth ae w x event payload outcome =
     change (record_audit_event (en_sha (ae_env ae)) (en_audit (ae_env ae) 0) w x event None payload outcome)"

definition new_hash :: "auth_env \<Rightarrow> ustr \<Rightarrow> string" where
  "new_hash ae password = password_hash (ae_kdf ae) password (ae_salt ae) PBKDF2_ITERATIONS"

definition new_session :: "auth_env \<Rightarrow> string \<Rightarrow> (db, unit) handler" where
  "new_session ae x = issue_session (ae_token_hash ae (asc (ae_secret ae 0))) x (ae_now ae)"

definition login_attempt_key :: "auth_env \<Rightarrow> string \<Rightarrow> string" where
  "login_attempt_key ae username = ae_host ae @ '':'' @ ae_casefold ae (ae_strip ae username)"

definition consume_attempt :: "auth_env \<Rightarrow> string \<Rightarrow> (db, unit) handler" where
  "consume_attempt ae key = enforce (ae_login_limit ae) key True (ae_fresh ae 9) (ae_now ae)"

record account =
  ac_user_id :: string
  ac_workspace_id :: string
  ac_username :: string
  ac_role :: string

definition account_response :: "user_row \<Rightarrow> string \<Rightarrow> account" where
  "account_response u w = \<lparr>ac_user_id = us_user_id u, ac_workspace_id = w, ac_username = us_username u, ac_role = us_role u\<rparr>"

datatype login_result = LoggedIn account | MfaRequired string string

section \<open>First account\<close>

record bootstrap_request =
  bq_workspace_name :: ustr
  bq_username :: string
  bq_password :: ustr
  bq_bootstrap_token :: "ustr option"

definition bootstrap_locked :: "auth_env \<Rightarrow> bool" where
  "bootstrap_locked ae \<longleftrightarrow> en_production (ae_env ae) \<and> ae_bootstrap_token ae = ''''"

definition bootstrap :: "auth_env \<Rightarrow> bootstrap_request \<Rightarrow> (db, account) handler" where
  "bootstrap ae p =
     and_then (fetch count_users) (\<lambda>n.
     and_then (refuse_if (n > 0) 409) (\<lambda>_.
     and_then (refuse_if (bootstrap_locked ae) 503) (\<lambda>_.
     and_then (if en_production (ae_env ae)
               then attempt (\<lambda>_. compare_digest (case bq_bootstrap_token p of None \<Rightarrow> [] | Some t \<Rightarrow> t) (asc (ae_bootstrap_token ae)))
               else return_value True) (\<lambda>ok.
     and_then (refuse_if (\<not> ok) 403) (\<lambda>_.
     let w = ae_fresh ae 0
     in and_then (create_user w (ae_strip ae (bq_username p)) (new_hash ae (bq_password p)) ''OWNER'' (ae_fresh ae 1) (ae_now ae)) (\<lambda>u.
        and_then (change (ensure_workspace w (us_user_id u) ''OWNER'' (Some (strip (bq_workspace_name p))) (ae_now ae))) (\<lambda>_.
        and_then (new_session ae (us_user_id u)) (\<lambda>_.
        and_then (record_auth ae w (us_user_id u) ''AUTH_BOOTSTRAPPED'' (JObj [(''username'', jstr (us_username u))]) ''SUCCESS'') (\<lambda>_.
        return_value (account_response u w))))))))))"

section \<open>Federated accounts\<close>

definition bind_new :: "string \<Rightarrow> string \<Rightarrow> string \<Rightarrow> string \<Rightarrow> string \<Rightarrow> timestamp \<Rightarrow> (db, unit) handler" where
  "bind_new x provider issuer subject new_id now d =
     (let b = \<lparr>ib_binding_id = new_id, ib_user_id = x, ib_provider = provider, ib_issuer = issuer, ib_subject = subject,
               ib_created_at = now, ib_last_seen_at = Some now\<rparr>
      in case sql_insert_unique binding_clash b (identity_bindings d) of
           Inl e \<Rightarrow> (Inl e, d)
         | Inr t \<Rightarrow> (Inr (), d\<lparr>identity_bindings := t\<rparr>))"

text \<open>Account, membership and binding are one transaction.\<close>

definition create_bound_user ::
  "auth_env \<Rightarrow> string \<Rightarrow> string \<Rightarrow> string \<Rightarrow> ustr option \<Rightarrow> string \<Rightarrow> string \<Rightarrow> string \<Rightarrow> (db, user_row) handler" where
  "create_bound_user ae w username role name provider issuer subject =
     atomically
       (and_then (create_user w username UNUSABLE_PASSWORD role (ae_fresh ae 1) (ae_now ae)) (\<lambda>u.
        and_then (change (ensure_workspace w (us_user_id u) role name (ae_now ae))) (\<lambda>_.
        and_then (bind_new (us_user_id u) provider issuer subject (ae_fresh ae 2) (ae_now ae)) (\<lambda>_.
        return_value u))))"

definition provision_federated_user ::
  "auth_env \<Rightarrow> string \<Rightarrow> string \<Rightarrow> string \<Rightarrow> string \<Rightarrow> string \<Rightarrow> (db, user_row) handler" where
  "provision_federated_user ae username role provider issuer subject =
     and_then (fetch (load_identity_binding provider issuer subject)) (\<lambda>binding.
     case binding of
       Some b \<Rightarrow>
         and_then (fetch (load_user_by_id (ib_user_id b))) (\<lambda>user.
         case user of
           None \<Rightarrow> raise_error (HTTPException 401)
         | Some u \<Rightarrow>
             and_then (refuse_if (\<not> us_active u) 401) (\<lambda>_.
             and_then (refuse_if (ae_federated_workspace ae = '''' \<or> us_workspace_id u \<noteq> ae_federated_workspace ae) 403) (\<lambda>_.
             and_then (upsert_identity_binding (us_user_id u) provider issuer subject (ae_fresh ae 2) (ae_now ae)) (\<lambda>_.
             return_value u))))
     | None \<Rightarrow>
         and_then (attempt (load_user_by_username username None)) (\<lambda>taken.
         and_then (refuse_if (taken \<noteq> None) 409) (\<lambda>_.
         let w = ae_federated_workspace ae
         in and_then (fetch (list_workspace_members w)) (\<lambda>members.
            and_then (refuse_if (w = '''' \<or> members = []) 503) (\<lambda>_.
            and_then (refuse_if (role \<notin> {''REVIEWER'', ''VIEWER''}) 403) (\<lambda>_.
            and_then (integrity_as 409 (create_bound_user ae w username role None provider issuer subject)) (\<lambda>u.
            and_then (record_auth ae w (us_user_id u) ''AUTH_FEDERATED_PROVISIONED''
                 (JObj [(''username'', jstr username), (''provider'', jstr provider), (''role'', jstr role)]) ''SUCCESS'') (\<lambda>_.
            return_value u))))))))"

definition directory_login :: "auth_env \<Rightarrow> string \<Rightarrow> ustr \<Rightarrow> (db, user_row option) handler" where
  "directory_login ae username password =
     (case ae_directory ae of
        None \<Rightarrow> return_value None
      | Some server \<Rightarrow>
          (case server username password of
             Inl _ \<Rightarrow> raise_error (HTTPException 503)
           | Inr None \<Rightarrow> return_value None
           | Inr (Some (role, subject)) \<Rightarrow>
               and_then (provision_federated_user ae username role ''LDAP'' (ae_directory_uri ae) subject) (\<lambda>u.
               return_value (Some u))))"

section \<open>Login\<close>

record login_request =
  lq_username :: string
  lq_password :: ustr
  lq_workspace_id :: "string option"

definition fail_login :: "auth_env \<Rightarrow> user_row option \<Rightarrow> string \<Rightarrow> (db, 'a) handler" where
  "fail_login ae user username =
     and_then (record_auth ae (case user of Some u \<Rightarrow> us_workspace_id u | None \<Rightarrow> ''-'')
         (case user of Some u \<Rightarrow> us_user_id u | None \<Rightarrow> ''anonymous'') ''AUTH_LOGIN_FAILED''
         (JObj [(''username'', jstr username)]) ''FAILURE'') (\<lambda>_.
     raise_error (HTTPException 401))"

definition has_confirmed_mfa :: "string \<Rightarrow> db \<Rightarrow> bool" where
  "has_confirmed_mfa x d = (case load_user_mfa x d of Some m \<Rightarrow> mf_confirmed_at m \<noteq> None | None \<Rightarrow> False)"

definition complete_login :: "auth_env \<Rightarrow> user_row \<Rightarrow> (db, login_result) handler" where
  "complete_login ae u =
     and_then (fetch (has_confirmed_mfa (us_user_id u))) (\<lambda>second_factor.
     if second_factor then
       and_then (create_login_flow (ae_secret ae 1) ''MFA'' '''' '''' (us_user_id u) (ae_now ae + seconds (5 * 60)) (ae_now ae)) (\<lambda>_.
       return_value (MfaRequired (ae_secret ae 1) (us_username u)))
     else
       and_then (new_session ae (us_user_id u)) (\<lambda>_.
       and_then (record_auth ae (us_workspace_id u) (us_user_id u) ''AUTH_LOGIN'' (JObj []) ''SUCCESS'') (\<lambda>_.
       return_value (LoggedIn (account_response u (us_workspace_id u))))))"

definition workspace_hint :: "auth_env \<Rightarrow> login_request \<Rightarrow> string option" where
  "workspace_hint ae p =
     (let w = ae_strip ae (case lq_workspace_id p of None \<Rightarrow> '''' | Some x \<Rightarrow> x) in if w = '''' then None else Some w)"

text \<open>The account of a user name; a verified e-mail binding takes precedence.\<close>

definition login_user :: "auth_env \<Rightarrow> string \<Rightarrow> string option \<Rightarrow> db \<Rightarrow> user_row option result" where
  "login_user ae username hint d =
     bind_result (load_user_by_username username hint d) (\<lambda>user.
       if CHR ''@'' \<in> set username
       then case load_identity_binding ''EMAIL'' ''bidproof'' (ae_casefold ae username) d of
              None \<Rightarrow> Inr user
            | Some b \<Rightarrow> (case load_user_by_id (ib_user_id b) d of
                Some v \<Rightarrow> if hint = None \<or> hint = Some (us_workspace_id v) then Inr (Some v) else Inr user
              | None \<Rightarrow> Inr user)
       else Inr user)"

definition login_by_password :: "auth_env \<Rightarrow> login_request \<Rightarrow> string \<Rightarrow> user_row \<Rightarrow> (db, user_row) handler" where
  "login_by_password ae p username u =
     (if \<not> password_meets_policy (lq_password p) \<or> \<not> verify_password (ae_kdf ae) (lq_password p) (us_password_hash u)
      then fail_login ae (Some u) username
      else and_then (if password_needs_rehash (us_password_hash u)
                     then perform (update_user_password (us_user_id u) (new_hash ae (lq_password p)) False)
                     else return_value True) (\<lambda>_.
           return_value u))"

definition login_by_directory :: "auth_env \<Rightarrow> login_request \<Rightarrow> string \<Rightarrow> user_row option \<Rightarrow> (db, user_row) handler" where
  "login_by_directory ae p username user =
     and_then (if password_meets_policy (lq_password p) then directory_login ae username (lq_password p) else return_value None) (\<lambda>fed.
     case fed of None \<Rightarrow> fail_login ae user username | Some u \<Rightarrow> return_value u)"

definition login :: "auth_env \<Rightarrow> login_request \<Rightarrow> (db, login_result) handler" where
  "login ae p =
     (let key = login_attempt_key ae (lq_username p); username = ae_strip ae (lq_username p)
      in and_then (consume_attempt ae key) (\<lambda>_.
         and_then (attempt (login_user ae username (workspace_hint ae p))) (\<lambda>user.
         and_then (case user of
                     None \<Rightarrow> login_by_directory ae p username None
                   | Some u \<Rightarrow>
                       if \<not> us_active u then fail_login ae user username
                       else if password_is_usable (Some (us_password_hash u)) then login_by_password ae p username u
                       else login_by_directory ae p username user) (\<lambda>u.
         and_then (change (clear_limit (ae_login_limit ae) key)) (\<lambda>_.
         complete_login ae u)))))"

section \<open>Sign-up\<close>

record trial_request =
  tj_username :: string
  tj_password :: ustr
  tj_join_code :: string

definition enter_workspace :: "auth_env \<Rightarrow> user_row \<Rightarrow> string \<Rightarrow> ustr option \<Rightarrow> string \<Rightarrow> (db, unit) handler" where
  "enter_workspace ae u w name key =
     and_then (change (ensure_workspace w (us_user_id u) (us_role u) name (ae_now ae))) (\<lambda>_.
     and_then (change (clear_limit (ae_login_limit ae) key)) (\<lambda>_.
     new_session ae (us_user_id u)))"

definition trial_join :: "auth_env \<Rightarrow> trial_request \<Rightarrow> (db, account) handler" where
  "trial_join ae p =
     (let key = login_attempt_key ae (''trial:'' @ tj_username p);
          submitted = ae_strip ae (tj_join_code p);
          username = ae_strip ae (tj_username p)
      in and_then (refuse_if (ae_trial_join_code ae = '''') 403) (\<lambda>_.
         and_then (consume_attempt ae key) (\<lambda>_.
         and_then (if length submitted \<noteq> length (ae_trial_join_code ae) then return_value False
                   else attempt (\<lambda>_. compare_digest (asc submitted) (asc (ae_trial_join_code ae)))) (\<lambda>ok.
         and_then (refuse_if (\<not> ok) 403) (\<lambda>_.
         and_then (fetch primary_workspace_id) (\<lambda>primary.
         case primary of
           None \<Rightarrow> raise_error (HTTPException 503)
         | Some w \<Rightarrow>
             and_then (refuse_if (w = '''') 503) (\<lambda>_.
             and_then (attempt (load_user_by_username username (Some w))) (\<lambda>taken.
             and_then (refuse_if (taken \<noteq> None) 409) (\<lambda>_.
             and_then (integrity_as 409 (create_user w username (new_hash ae (tj_password p)) ''REVIEWER'' (ae_fresh ae 1) (ae_now ae))) (\<lambda>u.
             and_then (enter_workspace ae u w None key) (\<lambda>_.
             and_then (record_auth ae w (us_user_id u) ''AUTH_TRIAL_JOINED''
                  (JObj [(''username'', jstr (us_username u)), (''role'', jstr ''REVIEWER'')]) ''SUCCESS'') (\<lambda>_.
             return_value (account_response u w)))))))))))))"

record personal_request =
  ps_username :: string
  ps_password :: ustr
  ps_display_name :: "ustr option"

text \<open>The default name of a personal workspace: a fixed prefix and the user name.\<close>

definition personal_name :: "auth_env \<Rightarrow> personal_request \<Rightarrow> ustr" where
  "personal_name ae p =
     (let given_name = strip (case ps_display_name p of None \<Rightarrow> [] | Some n \<Rightarrow> n)
      in if given_name = [] then [20010, 20154, 31354, 38388, 32, 183, 32] @ asc (ae_strip ae (ps_username p)) else given_name)"

definition register_personal :: "auth_env \<Rightarrow> personal_request \<Rightarrow> (db, account) handler" where
  "register_personal ae p =
     (let key = login_attempt_key ae (''register:'' @ ps_username p);
          username = ae_strip ae (ps_username p);
          w = ae_fresh ae 0
      in and_then (refuse_if (\<not> ae_personal_signup ae) 403) (\<lambda>_.
         and_then (consume_attempt ae key) (\<lambda>_.
         and_then (integrity_as 409 (create_user w username (new_hash ae (ps_password p)) ''OWNER'' (ae_fresh ae 1) (ae_now ae))) (\<lambda>u.
         and_then (enter_workspace ae u w (Some (personal_name ae p)) key) (\<lambda>_.
         and_then (record_auth ae w (us_user_id u) ''AUTH_PERSONAL_REGISTERED''
              (JObj [(''username'', jstr (us_username u)), (''workspace_name'', JStr (personal_name ae p))]) ''SUCCESS'') (\<lambda>_.
         return_value (account_response u w)))))))"

definition logout :: "auth_env \<Rightarrow> string option \<Rightarrow> db \<Rightarrow> db" where
  "logout ae cookie d =
     (case cookie of
        None \<Rightarrow> d
      | Some token \<Rightarrow> if token = '''' then d else delete_auth_session (ae_token_hash ae (asc token)) d)"

section \<open>Passwords\<close>

definition change_password :: "auth_env \<Rightarrow> principal \<Rightarrow> ustr \<Rightarrow> ustr \<Rightarrow> (db, unit) handler" where
  "change_password ae pr current_password new_password =
     and_then (fetch (load_user_by_id (pr_user_id pr))) (\<lambda>user.
     case user of
       None \<Rightarrow> raise_error (HTTPException 401)
     | Some u \<Rightarrow>
         and_then (refuse_if (us_workspace_id u \<noteq> pr_workspace_id pr \<or> \<not> us_active u) 401) (\<lambda>_.
         and_then (refuse_if (\<not> verify_password (ae_kdf ae) current_password (us_password_hash u)) 401) (\<lambda>_.
         and_then (refuse_if (current_password = new_password) 400) (\<lambda>_.
         and_then (perform (update_user_password (us_user_id u) (new_hash ae new_password) True)) (\<lambda>found.
         and_then (refuse_if (\<not> found) 404) (\<lambda>_.
         and_then (new_session ae (us_user_id u)) (\<lambda>_.
         record_auth ae (pr_workspace_id pr) (pr_user_id pr) ''AUTH_PASSWORD_CHANGED'' (JObj []) ''SUCCESS'')))))))"

definition create_invitation :: "auth_env \<Rightarrow> principal \<Rightarrow> string \<Rightarrow> string \<Rightarrow> (db, action_token) handler" where
  "create_invitation ae pr raw_username role =
     (let username = ae_strip ae raw_username; expires = ae_now ae + seconds (72 * 3600)
      in and_then (refuse_if (role = ''ADMIN'' \<and> pr_role pr \<noteq> ''OWNER'') 403) (\<lambda>_.
         and_then (attempt (load_user_by_username username (Some (pr_workspace_id pr)))) (\<lambda>taken.
         and_then (refuse_if (taken \<noteq> None) 409) (\<lambda>_.
         and_then (create_auth_action_token (ae_token_hash ae (asc (ae_secret ae 0))) (pr_workspace_id pr) ''INVITE'' expires
              (pr_user_id pr) (Some username) None (Some role) (ae_now ae)) (\<lambda>k.
         and_then (record_auth ae (pr_workspace_id pr) (pr_user_id pr) ''MEMBER_INVITATION_CREATED''
              (JObj [(''username'', jstr username), (''role'', jstr role), (''expires_at'', JInt expires)]) ''SUCCESS'') (\<lambda>_.
         return_value k))))))"

definition inspect_action :: "auth_env \<Rightarrow> string \<Rightarrow> db \<Rightarrow> (string \<times> string \<times> string option) result" where
  "inspect_action ae token d =
     bind_result (active_auth_action (ae_token_hash ae (asc token)) None (ae_now ae) d) (\<lambda>k.
       let username = (if tk_purpose k = ''RESET''
             then map_option us_username (load_user_by_id (case tk_user_id k of None \<Rightarrow> '''' | Some x \<Rightarrow> x) d)
             else tk_username k)
       in case username of
            Some n \<Rightarrow> if n = '''' then Inl (HTTPException 410) else Inr (tk_purpose k, n, tk_role k)
          | None \<Rightarrow> Inl (HTTPException 410))"

text \<open>An invitation carries its user name and role; without them the insert of the account would violate the
  schema after the link was used.\<close>

definition activate_invitation :: "auth_env \<Rightarrow> string \<Rightarrow> ustr \<Rightarrow> (db, account) handler" where
  "activate_invitation ae token password =
     (let digest = ae_token_hash ae (asc token)
      in and_then (attempt (active_auth_action digest (Some ''INVITE'') (ae_now ae))) (\<lambda>k.
         case (tk_username k, tk_role k) of
           (Some username, Some role) \<Rightarrow>
             and_then (attempt (load_user_by_username username (Some (tk_workspace_id k)))) (\<lambda>taken.
             and_then (refuse_if (taken \<noteq> None) 409) (\<lambda>_.
             and_then (perform (consume_auth_action_token digest (ae_now ae))) (\<lambda>used.
             and_then (refuse_if (\<not> used) 410) (\<lambda>_.
             and_then (integrity_as 409 (create_user (tk_workspace_id k) username (new_hash ae password) role (ae_fresh ae 1) (ae_now ae))) (\<lambda>u.
             and_then (change (ensure_workspace (tk_workspace_id k) (us_user_id u) role None (ae_now ae))) (\<lambda>_.
             and_then (new_session ae (us_user_id u)) (\<lambda>_.
             and_then (record_auth ae (tk_workspace_id k) (us_user_id u) ''MEMBER_INVITATION_ACCEPTED'' (JObj [(''role'', jstr role)]) ''SUCCESS'') (\<lambda>_.
             return_value (account_response u (tk_workspace_id k))))))))))
         | _ \<Rightarrow>
             and_then (perform (consume_auth_action_token digest (ae_now ae))) (\<lambda>used.
             and_then (refuse_if (\<not> used) 410) (\<lambda>_. raise_error (HTTPException 409)))))"

definition issue_password_reset :: "auth_env \<Rightarrow> principal \<Rightarrow> string \<Rightarrow> (db, action_token) handler" where
  "issue_password_reset ae pr x =
     and_then (fetch (load_user_by_id x)) (\<lambda>member.
     case member of
       None \<Rightarrow> raise_error (HTTPException 404)
     | Some u \<Rightarrow>
         (let expires = ae_now ae + seconds 3600
          in and_then (refuse_if (us_workspace_id u \<noteq> pr_workspace_id pr) 404) (\<lambda>_.
             and_then (refuse_if (us_role u = ''OWNER'' \<and> pr_role pr \<noteq> ''OWNER'') 403) (\<lambda>_.
             and_then (create_auth_action_token (ae_token_hash ae (asc (ae_secret ae 0))) (pr_workspace_id pr) ''RESET'' expires
                  (pr_user_id pr) None (Some x) (Some (us_role u)) (ae_now ae)) (\<lambda>k.
             and_then (record_auth ae (pr_workspace_id pr) (pr_user_id pr) ''MEMBER_PASSWORD_RESET_CREATED''
                  (JObj [(''member_id'', jstr x), (''expires_at'', JInt expires)]) ''SUCCESS'') (\<lambda>_.
             return_value k))))))"

definition complete_password_reset :: "auth_env \<Rightarrow> string \<Rightarrow> ustr \<Rightarrow> (db, account) handler" where
  "complete_password_reset ae token password =
     (let digest = ae_token_hash ae (asc token)
      in and_then (attempt (active_auth_action digest (Some ''RESET'') (ae_now ae))) (\<lambda>k.
         and_then (fetch (load_user_by_id (case tk_user_id k of None \<Rightarrow> '''' | Some x \<Rightarrow> x))) (\<lambda>user.
         case user of
           None \<Rightarrow> raise_error (HTTPException 410)
         | Some u \<Rightarrow>
             and_then (refuse_if (us_workspace_id u \<noteq> tk_workspace_id k \<or> \<not> us_active u) 410) (\<lambda>_.
             and_then (perform (consume_auth_action_token digest (ae_now ae))) (\<lambda>used.
             and_then (refuse_if (\<not> used) 410) (\<lambda>_.
             and_then (perform (update_user_password (us_user_id u) (new_hash ae password) True)) (\<lambda>_.
             and_then (new_session ae (us_user_id u)) (\<lambda>_.
             and_then (record_auth ae (tk_workspace_id k) (us_user_id u) ''AUTH_PASSWORD_RESET_COMPLETED'' (JObj []) ''SUCCESS'') (\<lambda>_.
             return_value (account_response u (us_workspace_id u)))))))))))"

section \<open>Members\<close>

definition create_member :: "auth_env \<Rightarrow> principal \<Rightarrow> string \<Rightarrow> ustr \<Rightarrow> string \<Rightarrow> (db, user_row) handler" where
  "create_member ae pr raw_username password role =
     and_then (refuse_if (role = ''ADMIN'' \<and> pr_role pr \<noteq> ''OWNER'') 403) (\<lambda>_.
     and_then (integrity_as 409 (create_user (pr_workspace_id pr) (ae_strip ae raw_username) (new_hash ae password) role
          (ae_fresh ae 1) (ae_now ae))) (\<lambda>u.
     and_then (change (ensure_workspace (pr_workspace_id pr) (us_user_id u) role None (ae_now ae))) (\<lambda>_.
     and_then (record_auth ae (pr_workspace_id pr) (pr_user_id pr) ''MEMBER_CREATED''
          (JObj [(''member_id'', jstr (us_user_id u)), (''username'', jstr (us_username u)), (''role'', jstr role)]) ''SUCCESS'') (\<lambda>_.
     return_value u))))"

definition update_member :: "auth_env \<Rightarrow> principal \<Rightarrow> string \<Rightarrow> string option \<Rightarrow> bool option \<Rightarrow> (db, user_row) handler" where
  "update_member ae pr x role active =
     and_then (fetch (\<lambda>d. sql_first (\<lambda>u. us_workspace_id u = pr_workspace_id pr \<and> us_user_id u = x) (users d))) (\<lambda>target.
     case target of
       None \<Rightarrow> raise_error (HTTPException 404)
     | Some t \<Rightarrow>
         and_then (refuse_if (us_role t = ''OWNER'' \<and> us_user_id t \<noteq> pr_user_id pr) 403) (\<lambda>_.
         and_then (refuse_if (x = pr_user_id pr \<and> active = Some False) 400) (\<lambda>_.
         and_then (refuse_if (role = Some ''ADMIN'' \<and> pr_role pr \<noteq> ''OWNER'') 403) (\<lambda>_.
         and_then (perform (update_workspace_member (pr_workspace_id pr) x role active)) (\<lambda>updated.
         case updated of
           None \<Rightarrow> raise_error TypeError
         | Some u \<Rightarrow>
             and_then (record_auth ae (pr_workspace_id pr) (pr_user_id pr) ''MEMBER_UPDATED''
                  (JObj [(''member_id'', jstr x), (''role'', jstr (us_role u)), (''active'', JBool (us_active u))]) ''SUCCESS'') (\<lambda>_.
             return_value u))))))"

section \<open>Second factor\<close>

definition mfa_code_counter :: "auth_env \<Rightarrow> mfa_row \<Rightarrow> ustr \<Rightarrow> int option result" where
  "mfa_code_counter ae m code =
     totp_verify (ae_isdigit ae) (ae_hmac ae (mf_secret m)) code (mf_last_counter m) (ae_now ae div 1000000)"

definition accept_mfa_code :: "auth_env \<Rightarrow> string \<Rightarrow> ustr \<Rightarrow> string \<Rightarrow> (db, unit) handler" where
  "accept_mfa_code ae x code bucket =
     and_then (enforce (ae_mfa_limit ae) bucket False (ae_fresh ae 8) (ae_now ae)) (\<lambda>_.
     and_then (fetch (load_user_mfa x)) (\<lambda>row.
     case row of
       None \<Rightarrow> raise_error (HTTPException 400)
     | Some m \<Rightarrow>
         and_then (refuse_if (mf_confirmed_at m = None) 400) (\<lambda>_.
         and_then (attempt (\<lambda>_. mfa_code_counter ae m code)) (\<lambda>counter.
         case counter of
           Some c \<Rightarrow>
             and_then (perform (consume_mfa_snapshot x m c (mf_recovery_codes_json m) False (ae_now ae))) (\<lambda>ok.
             and_then (refuse_if (\<not> ok) 401) (\<lambda>_.
             change (clear_limit (ae_mfa_limit ae) bucket)))
         | None \<Rightarrow>
             (let submitted = ae_token_hash ae (ae_ucasefold ae (strip code)); remaining = mf_recovery_codes_json m
              in if submitted \<notin> set remaining
                 then and_then (register_failure (ae_mfa_limit ae) bucket (ae_fresh ae 8) (ae_now ae)) (\<lambda>_.
                      raise_error (HTTPException 401))
                 else and_then (perform (consume_mfa_snapshot x m (mf_last_counter m) (remove1 submitted remaining) False (ae_now ae))) (\<lambda>ok.
                      and_then (refuse_if (\<not> ok) 401) (\<lambda>_.
                      change (clear_limit (ae_mfa_limit ae) bucket))))))))"

definition verify_mfa_login :: "auth_env \<Rightarrow> string option \<Rightarrow> ustr \<Rightarrow> (db, account) handler" where
  "verify_mfa_login ae mfa_token code =
     (case mfa_token of
        None \<Rightarrow> raise_error (HTTPException 400)
      | Some token \<Rightarrow>
          if token = '''' then raise_error (HTTPException 400)
          else
            let bucket = login_attempt_key ae (''mfa:'' @ take 12 token)
            in and_then (fetch (load_login_flow token ''MFA'' (ae_now ae))) (\<lambda>flow.
               case flow of
                 None \<Rightarrow>
                   and_then (register_failure (ae_mfa_limit ae) bucket (ae_fresh ae 8) (ae_now ae)) (\<lambda>_.
                   raise_error (HTTPException 401))
               | Some f \<Rightarrow>
                   and_then (fetch (load_user_by_id (lf_nonce f))) (\<lambda>user.
                   case user of
                     None \<Rightarrow> raise_error (HTTPException 401)
                   | Some u \<Rightarrow>
                       and_then (refuse_if (\<not> us_active u) 401) (\<lambda>_.
                       and_then (accept_mfa_code ae (us_user_id u) code bucket) (\<lambda>_.
                       and_then (perform (consume_login_flow token ''MFA'' (ae_now ae))) (\<lambda>used.
                       and_then (refuse_if (used = None) 401) (\<lambda>_.
                       and_then (new_session ae (us_user_id u)) (\<lambda>_.
                       and_then (record_auth ae (us_workspace_id u) (us_user_id u) ''AUTH_LOGIN'' (JObj [(''mfa'', JBool True)]) ''SUCCESS'') (\<lambda>_.
                       return_value (account_response u (us_workspace_id u)))))))))))"

definition enroll_mfa :: "auth_env \<Rightarrow> principal \<Rightarrow> ustr list \<Rightarrow> (db, mfa_row) handler" where
  "enroll_mfa ae pr recovery_codes =
     and_then (fetch (load_user_by_id (pr_user_id pr))) (\<lambda>user.
     case user of
       None \<Rightarrow> raise_error (HTTPException 401)
     | Some u \<Rightarrow>
         and_then (fetch (has_confirmed_mfa (us_user_id u))) (\<lambda>enabled.
         and_then (refuse_if enabled 409) (\<lambda>_.
         and_then (perform (upsert_user_mfa (us_user_id u) (ae_secret ae 0)
              (map (\<lambda>c. ae_token_hash ae (ae_ucasefold ae c)) recovery_codes) (ae_now ae))) (\<lambda>m.
         and_then (record_auth ae (pr_workspace_id pr) (pr_user_id pr) ''AUTH_MFA_ENROLLED'' (JObj []) ''SUCCESS'') (\<lambda>_.
         return_value m)))))"

definition confirm_mfa :: "auth_env \<Rightarrow> principal \<Rightarrow> ustr \<Rightarrow> (db, unit) handler" where
  "confirm_mfa ae pr code =
     (let bucket = ''mfa-enroll:'' @ pr_user_id pr
      in and_then (enforce (ae_mfa_limit ae) bucket True (ae_fresh ae 8) (ae_now ae)) (\<lambda>_.
         and_then (fetch (load_user_mfa (pr_user_id pr))) (\<lambda>row.
         case row of
           None \<Rightarrow> raise_error (HTTPException 400)
         | Some m \<Rightarrow>
             if mf_confirmed_at m \<noteq> None then return_value ()
             else
               and_then (attempt (\<lambda>_. mfa_code_counter ae m code)) (\<lambda>counter.
               case counter of
                 None \<Rightarrow> raise_error (HTTPException 401)
               | Some c \<Rightarrow>
                   and_then (perform (consume_mfa_snapshot (pr_user_id pr) m c (mf_recovery_codes_json m) True (ae_now ae))) (\<lambda>ok.
                   and_then (refuse_if (\<not> ok) 409) (\<lambda>_.
                   and_then (change (clear_limit (ae_mfa_limit ae) bucket)) (\<lambda>_.
                   record_auth ae (pr_workspace_id pr) (pr_user_id pr) ''AUTH_MFA_CONFIRMED'' (JObj []) ''SUCCESS'')))))))"

definition disable_mfa :: "auth_env \<Rightarrow> principal \<Rightarrow> ustr \<Rightarrow> (db, unit) handler" where
  "disable_mfa ae pr code =
     and_then (accept_mfa_code ae (pr_user_id pr) code (''mfa:'' @ pr_user_id pr)) (\<lambda>_.
     and_then (change (delete_user_mfa (pr_user_id pr))) (\<lambda>_.
     record_auth ae (pr_workspace_id pr) (pr_user_id pr) ''AUTH_MFA_DISABLED'' (JObj []) ''SUCCESS''))"

section \<open>Identity provider\<close>

text \<open>State, nonce and verifier are drawn for the flow; \<open>discovery_ok\<close> says whether the provider's metadata was read.\<close>

definition start_oidc :: "auth_env \<Rightarrow> string \<Rightarrow> string \<Rightarrow> string \<Rightarrow> bool \<Rightarrow> (db, login_flow) handler" where
  "start_oidc ae st nonce verifier discovery_ok =
     and_then (refuse_if (ae_oidc ae = None) 404) (\<lambda>_.
     and_then (refuse_if (\<not> discovery_ok) 503) (\<lambda>_.
     and_then (refuse_if (ae_public_origin ae = '''') 503) (\<lambda>_.
     create_login_flow st ''OIDC'' verifier (ae_public_origin ae @ ''/api/auth/oidc/callback'') nonce
       (ae_now ae + seconds (10 * 60)) (ae_now ae))))"

text \<open>\<open>browser_state\<close> is the cookie set when the flow started. The provider answers the code with the user
  name and subject of a verified identity token, or fails.\<close>

definition complete_oidc :: "auth_env \<Rightarrow> string \<Rightarrow> string \<Rightarrow> string \<Rightarrow> (db, login_result) handler" where
  "complete_oidc ae browser_state code st =
     (case ae_oidc ae of
        None \<Rightarrow> raise_error (HTTPException 404)
      | Some provider \<Rightarrow>
          and_then (refuse_if (st = '''' \<or> browser_state = '''') 401) (\<lambda>_.
          and_then (attempt (\<lambda>_. compare_digest (asc st) (asc browser_state))) (\<lambda>same.
          and_then (refuse_if (\<not> same) 401) (\<lambda>_.
          and_then (perform (consume_login_flow st ''OIDC'' (ae_now ae))) (\<lambda>flow.
          case flow of
            None \<Rightarrow> raise_error (HTTPException 401)
          | Some f \<Rightarrow>
              and_then (refuse_if (code = '''') 401) (\<lambda>_.
              case provider code f of
                Inl _ \<Rightarrow> raise_error (HTTPException 401)
              | Inr (username, subject) \<Rightarrow>
                  and_then (provision_federated_user ae username
                       (if ae_oidc_default_role ae \<in> {''OWNER'', ''ADMIN'', ''REVIEWER'', ''VIEWER''}
                        then ae_oidc_default_role ae else ''REVIEWER'')
                       ''OIDC'' (ae_oidc_issuer ae) subject) (\<lambda>u.
                  complete_login ae u)))))))"

section \<open>API tokens and sessions\<close>

record token_request =
  tq_name :: ustr
  tq_expires_days :: "int option"
  tq_permissions :: "string list"

definition grantable :: "auth_env \<Rightarrow> principal \<Rightarrow> string \<Rightarrow> bool" where
  "grantable ae pr v \<longleftrightarrow>
     v \<in> permission_value ` set (permissions_for (ae_upper ae) (pr_role pr))
     \<and> (case pr_permissions pr of None \<Rightarrow> True | Some scoped \<Rightarrow> v \<in> set scoped)"

definition create_token :: "auth_env \<Rightarrow> principal \<Rightarrow> token_request \<Rightarrow> (db, api_token) handler" where
  "create_token ae pr p =
     (let raw = ''bp_'' @ ae_secret ae 0;
          expires = (case tq_expires_days p of Some n \<Rightarrow> if n = 0 then None else Some (ae_now ae + seconds (n * 86400)) | None \<Rightarrow> None)
      in and_then (refuse_if (list_ex (\<lambda>v. \<not> grantable ae pr v) (tq_permissions p)) 422) (\<lambda>_.
         and_then (refuse_if (tq_permissions p = []) 422) (\<lambda>_.
         and_then (perform (create_api_token (ae_token_hash ae (asc raw)) (take 10 raw) (pr_workspace_id pr) (pr_user_id pr)
              (strip (tq_name p)) (pr_role pr) (pr_user_id pr) (Some (sort (remdups (tq_permissions p)))) expires (ae_fresh ae 0) (ae_now ae))) (\<lambda>t.
         and_then (record_auth ae (pr_workspace_id pr) (pr_user_id pr) ''AUTH_TOKEN_CREATED''
              (JObj [(''token_id'', jstr (at_token_id t)), (''name'', JStr (at_name t))]) ''SUCCESS'') (\<lambda>_.
         return_value t)))))"

definition revoke_token :: "auth_env \<Rightarrow> principal \<Rightarrow> string \<Rightarrow> (db, api_token) handler" where
  "revoke_token ae pr x =
     and_then (perform (revoke_api_token (pr_workspace_id pr) x (ae_now ae))) (\<lambda>row.
     case row of
       None \<Rightarrow> raise_error (HTTPException 404)
     | Some t \<Rightarrow>
         and_then (record_auth ae (pr_workspace_id pr) (pr_user_id pr) ''AUTH_TOKEN_REVOKED'' (JObj [(''token_id'', jstr x)]) ''SUCCESS'') (\<lambda>_.
         return_value t))"

definition cookie_digest :: "auth_env \<Rightarrow> string option \<Rightarrow> string" where
  "cookie_digest ae cookie = (case cookie of None \<Rightarrow> '''' | Some t \<Rightarrow> if t = '''' then '''' else ae_token_hash ae (asc t))"

definition revoke_session :: "auth_env \<Rightarrow> principal \<Rightarrow> string option \<Rightarrow> string \<Rightarrow> (db, unit) handler" where
  "revoke_session ae pr cookie session =
     and_then (refuse_if (session = cookie_digest ae cookie) 400) (\<lambda>_.
     and_then (perform (delete_auth_session_for_user (pr_user_id pr) session)) (\<lambda>found.
     and_then (refuse_if (\<not> found) 404) (\<lambda>_.
     record_auth ae (pr_workspace_id pr) (pr_user_id pr) ''AUTH_SESSION_REVOKED'' (JObj [(''session_id'', jstr (take 12 session))]) ''SUCCESS'')))"

definition revoke_other_sessions :: "auth_env \<Rightarrow> principal \<Rightarrow> string option \<Rightarrow> (db, nat) handler" where
  "revoke_other_sessions ae pr cookie =
     (case cookie of
        None \<Rightarrow> raise_error (HTTPException 401)
      | Some token \<Rightarrow>
          and_then (refuse_if (token = '''') 401) (\<lambda>_.
          and_then (perform (delete_other_auth_sessions (pr_user_id pr) (ae_token_hash ae (asc token)))) (\<lambda>removed.
          and_then (record_auth ae (pr_workspace_id pr) (pr_user_id pr) ''AUTH_SESSIONS_REVOKED_OTHERS'' (JObj [(''removed'', JInt (int removed))]) ''SUCCESS'') (\<lambda>_.
          return_value removed))))"

end
