(* ===== verification/Passwordless.thy ===== *)
theory Passwordless
  imports Auth_Service
begin

text \<open>
  Sign-in with a code sent to an e-mail address or a phone number (\<open>src/app/services/passwordless_service.py\<close>):
  normal forms of addresses, the request of a code, its verification and the account of a verified address.
  \<open>casefold\<close> is \<open>str.casefold\<close>, \<open>mac\<close> the keyed digest of a purpose and a value. Delivery is a parameter that
  succeeds or fails; the masked address that the answer shows is left out.
\<close>

section \<open>Normal forms\<close>

definition lower_or_digit :: "nat \<Rightarrow> bool" where
  "lower_or_digit c \<longleftrightarrow> (97 \<le> c \<and> c \<le> 122) \<or> ascii_digit c"

definition local_char :: "nat \<Rightarrow> bool" where
  "local_char c \<longleftrightarrow> lower_or_digit c \<or> c \<in> set (asc ''.!#$%&*+/=?^_`{|}~-'') \<or> c = 39"

definition domain_char :: "nat \<Rightarrow> bool" where
  "domain_char c \<longleftrightarrow> lower_or_digit c \<or> c = 46 \<or> c = 45"

text \<open>The part before and the part after the last dot.\<close>

definition before_last_dot :: "ustr \<Rightarrow> ustr" where
  "before_last_dot s = rev (tl (dropWhile (\<lambda>c. c \<noteq> 46) (rev s)))"

definition after_last_dot :: "ustr \<Rightarrow> ustr" where
  "after_last_dot s = rev (takeWhile (\<lambda>c. c \<noteq> 46) (rev s))"

text \<open>The pattern of an address: a local part, one at sign, and a domain whose last label has only letters.
  As these letters exclude the dot, the dot of the pattern is the last one.\<close>

definition email_pattern :: "ustr \<Rightarrow> bool" where
  "email_pattern s \<longleftrightarrow>
     (let local = takeWhile (\<lambda>c. c \<noteq> 64) s; domain = tl (dropWhile (\<lambda>c. c \<noteq> 64) s);
          host = before_last_dot domain; top = after_last_dot domain
      in 64 \<in> set s \<and> local \<noteq> [] \<and> list_all local_char local
         \<and> 46 \<in> set domain \<and> host \<noteq> [] \<and> list_all domain_char host \<and> lower_or_digit (hd host) \<and> lower_or_digit (last host)
         \<and> 2 \<le> length top \<and> length top \<le> 63 \<and> list_all (\<lambda>c. 97 \<le> c \<and> c \<le> 122) top)"

definition mainland_pattern :: "ustr \<Rightarrow> bool" where
  "mainland_pattern s \<longleftrightarrow> length s = 11 \<and> s ! 0 = 49 \<and> 51 \<le> s ! 1 \<and> s ! 1 \<le> 57 \<and> list_all ascii_digit s"

definition phone_pattern :: "ustr \<Rightarrow> bool" where
  "phone_pattern s \<longleftrightarrow> 9 \<le> length s \<and> length s \<le> 16 \<and> hd s = 43 \<and> 49 \<le> s ! 1 \<and> s ! 1 \<le> 57 \<and> list_all ascii_digit (tl s)"

definition normalize :: "(ustr \<Rightarrow> ustr) \<Rightarrow> string \<Rightarrow> ustr \<Rightarrow> ustr result" where
  "normalize casefold channel raw =
     (let v = remove_spaces raw
      in if channel = ''email'' then
           (let e = casefold v
            in if \<not> email_pattern e \<or> length e > 254 \<or> length (takeWhile (\<lambda>c. c \<noteq> 64) e) > 64 \<or> contains [46, 46] e
               then Inl (HTTPException 422) else Inr e)
         else if channel = ''sms'' then
           (let n = (if mainland_pattern v then asc ''+86'' @ v else v)
            in if phone_pattern n then Inr n else Inl (HTTPException 422))
         else Inl (HTTPException 422))"

section \<open>Codes\<close>

definition OTP_SECONDS :: int where "OTP_SECONDS = 300"

definition RESEND_SECONDS :: int where "RESEND_SECONDS = 60"

record otp_env =
  oe_mac :: "string \<Rightarrow> string \<Rightarrow> string"
  oe_secret_length :: nat
  oe_channels :: "string list"
  oe_allowed_prefixes :: "ustr list"
  oe_code :: nat
  oe_delivered :: "string \<Rightarrow> ustr \<Rightarrow> string \<Rightarrow> bool"

definition prefix_pattern :: "ustr \<Rightarrow> bool" where
  "prefix_pattern s \<longleftrightarrow> 2 \<le> length s \<and> length s \<le> 5 \<and> hd s = 43 \<and> 49 \<le> s ! 1 \<and> s ! 1 \<le> 57 \<and> list_all ascii_digit (tl s)"

definition text_of :: "ustr \<Rightarrow> string" where
  "text_of s = map char_of s"

definition take_quota :: "string \<Rightarrow> string \<Rightarrow> int \<Rightarrow> auth_env \<Rightarrow> (db, unit) handler" where
  "take_quota scope bucket maximum ae =
     and_then (perform (consume_limit scope bucket maximum 3600 (ae_now ae))) (\<lambda>retry. refuse_if (retry \<noteq> 0) 429)"

definition send_code :: "auth_env \<Rightarrow> otp_env \<Rightarrow> string \<Rightarrow> ustr \<Rightarrow> string \<Rightarrow> string \<Rightarrow> (db, unit) handler" where
  "send_code ae oe channel identifier address challenge d =
     (let code = zfill 6 (decimal (oe_code oe))
      in case take_quota ''otp-send-identity'' address 5 ae d of
           (Inl e, d1) \<Rightarrow> (Inl e, mark_delivery challenge False (ae_now ae) d1)
         | (Inr _, d1) \<Rightarrow>
             if oe_delivered oe channel identifier code then (Inr (), mark_delivery challenge True (ae_now ae) d1)
             else (Inl (HTTPException 503), mark_delivery challenge False (ae_now ae) d1))"

definition request_challenge :: "auth_env \<Rightarrow> otp_env \<Rightarrow> string \<Rightarrow> ustr \<Rightarrow> (db, string) handler" where
  "request_challenge ae oe channel raw =
     and_then (attempt (\<lambda>_. normalize (ae_ucasefold ae) channel raw)) (\<lambda>identifier.
     and_then (refuse_if (channel \<notin> set (oe_channels oe)) 503) (\<lambda>_.
     and_then (refuse_if (channel = ''sms''
          \<and> \<not> list_ex (\<lambda>p. prefix p identifier \<and> prefix_pattern p) (oe_allowed_prefixes oe)) 422) (\<lambda>_.
     and_then (refuse_if (oe_secret_length oe < 32) 503) (\<lambda>_.
     let address = oe_mac oe ''identity'' (channel @ '':'' @ text_of identifier);
         challenge = ae_secret ae 0;
         code = zfill 6 (decimal (oe_code oe));
         row = \<lparr>ch_challenge_id = challenge, ch_channel = channel, ch_identifier = text_of identifier, ch_identifier_digest = address,
                ch_code_digest = oe_mac oe ''code'' (challenge @ '':'' @ code), ch_attempts = 0, ch_delivered = False,
                ch_expires_at = ae_now ae + seconds OTP_SECONDS, ch_created_at = ae_now ae, ch_consumed_at = None\<rparr>
     in and_then (take_quota ''otp-send-ip'' (oe_mac oe ''ip'' (ae_host ae)) 20 ae) (\<lambda>_.
        and_then (perform (reserve row (ae_now ae) RESEND_SECONDS)) (\<lambda>retry.
        and_then (refuse_if (retry \<noteq> 0) 429) (\<lambda>_.
        and_then (send_code ae oe channel identifier address challenge) (\<lambda>_.
        return_value challenge))))))))"

definition verified_user :: "auth_env \<Rightarrow> string \<Rightarrow> string \<Rightarrow> string \<Rightarrow> string \<Rightarrow> (db, user_row) handler" where
  "verified_user ae provider issuer subject username =
     and_then (fetch (load_identity_binding provider issuer subject)) (\<lambda>binding.
     case binding of
       Some b \<Rightarrow>
         and_then (fetch (load_user_by_id (ib_user_id b))) (\<lambda>user.
         case user of
           None \<Rightarrow> raise_error (HTTPException 403)
         | Some u \<Rightarrow> and_then (refuse_if (\<not> us_active u) 403) (\<lambda>_. return_value u))
     | None \<Rightarrow>
         and_then (refuse_if (\<not> ae_personal_signup ae) 403) (\<lambda>_.
         and_then (attempt (load_user_by_username username None)) (\<lambda>taken.
         and_then (refuse_if (taken \<noteq> None) 409) (\<lambda>_ d.
         let w = ae_fresh ae 0
         in case create_bound_user ae w username ''OWNER'' (Some [25105, 30340, 24037, 20316, 21306]) provider issuer subject d of
              (Inr u, d1) \<Rightarrow>
                and_then (record_auth ae w (us_user_id u) ''AUTH_VERIFIED_SIGNUP'' (JObj [(''provider'', jstr provider)]) ''SUCCESS'') (\<lambda>_.
                return_value u) d1
            | (Inl IntegrityError, d1) \<Rightarrow>
                (case load_identity_binding provider issuer subject d1 of
                   None \<Rightarrow> (Inl (HTTPException 409), d1)
                 | Some b \<Rightarrow> (case load_user_by_id (ib_user_id b) d1 of
                     None \<Rightarrow> (Inl (HTTPException 409), d1)
                   | Some u \<Rightarrow> if us_active u then (Inr u, d1) else (Inl (HTTPException 409), d1)))
            | (Inl e, d1) \<Rightarrow> (Inl e, d1)))))"

definition verify_challenge :: "auth_env \<Rightarrow> otp_env \<Rightarrow> string \<Rightarrow> string \<Rightarrow> (db, login_result) handler" where
  "verify_challenge ae oe challenge code =
     and_then (refuse_if (oe_secret_length oe < 32) 503) (\<lambda>_.
     and_then (take_quota ''otp-verify-ip'' (oe_mac oe ''ip'' (ae_host ae)) 100 ae) (\<lambda>_.
     and_then (perform (verify_otp challenge (oe_mac oe ''code'' (challenge @ '':'' @ code)) (ae_now ae))) (\<lambda>outcome.
     case outcome of
       Locked \<Rightarrow> raise_error (HTTPException 429)
     | Expired \<Rightarrow> raise_error (HTTPException 410)
     | Incorrect \<Rightarrow> raise_error (HTTPException 401)
     | Verified channel identifier \<Rightarrow>
         and_then (verified_user ae (if channel = ''email'' then ''EMAIL'' else ''PHONE'') ''bidproof'' identifier identifier) (\<lambda>u.
         complete_login ae u))))"

end
