(* ===== verification/Sign_In.thy ===== *)
theory Sign_In
  imports Passwordless
begin

text \<open>
  What the sign-in flows guarantee: a session needs the password and, where one is confirmed, the second
  factor; a second-factor challenge is good for one login; a password reset ends every session; an external
  identity never takes over an account; and a token grants no more than its maker may do.
\<close>

section \<open>Evaluating flows\<close>

lemma and_then_record [flow_simps]:
  "and_then (record_auth ae w x ev j out) k d
   = k () (record_audit_event (en_sha (ae_env ae)) (en_audit (ae_env ae) 0) w x ev None j out d)"
  by (simp add: record_auth_def and_then_change)

lemma fail_login_raises [simp]:
  "fst (fail_login ae u n d) = Inl (HTTPException 401)" "fail_login ae u n d \<noteq> (Inr v, d')"
  by (simp_all add: fail_login_def flow_simps)

lemma record_auth_keeps [simp]:
  "users (record_audit_event sha au w x ev run j out d) = users d"
  "auth_sessions (record_audit_event sha au w x ev run j out d) = auth_sessions d"
  "login_flows (record_audit_event sha au w x ev run j out d) = login_flows d"
  "user_mfa (record_audit_event sha au w x ev run j out d) = user_mfa d"
  "auth_action_tokens (record_audit_event sha au w x ev run j out d) = auth_action_tokens d"
  "identity_bindings (record_audit_event sha au w x ev run j out d) = identity_bindings d"
  "api_tokens (record_audit_event sha au w x ev run j out d) = api_tokens d"
  by (simp_all add: record_audit_event_def Let_def)

text \<open>Rate limits touch their own table only.\<close>

lemma keeps_limits [keeps_intros]:
  assumes "\<And>d h. f (d\<lparr>rate_limit_hits := h\<rparr>) = f d"
  shows "keeps f (enforce l b c i t)" "keeps f (register_failure l b i t)" "keeps f (change (clear_limit l b))"
proof -
  show "keeps f (change (clear_limit l b))" by (simp add: keeps_def change_def clear_limit_def assms)
  have hit: "f (snd (record_hit l b i t d)) = f d" for d by (simp add: record_hit_def Let_def assms)
  show "keeps f (register_failure l b i t)"
    using hit by (auto simp: keeps_def register_failure_def split: prod.splits) (metis snd_conv)+
  show "keeps f (enforce l b c i t)"
    using hit by (auto simp: keeps_def enforce_def split: prod.splits) (metis snd_conv)+
qed

lemma keeps_record_auth [keeps_intros]:
  assumes "\<And>d t. f (d\<lparr>audit_events := t\<rparr>) = f d"
  shows "keeps f (record_auth ae w x ev j out)"
  by (simp add: keeps_def record_auth_def change_def record_audit_event_def Let_def assms)

lemma enforce_frame: "\<exists>h. snd (enforce l b c i t d) = d\<lparr>rate_limit_hits := h\<rparr>"
  by (cases c) (auto simp: enforce_def record_hit_def Let_def intro: exI [of _ "rate_limit_hits d"])

lemma clear_limit_keeps [simp]:
  "users (clear_limit l b d) = users d" "auth_sessions (clear_limit l b d) = auth_sessions d"
  "login_flows (clear_limit l b d) = login_flows d" "user_mfa (clear_limit l b d) = user_mfa d"
  by (simp_all add: clear_limit_def)

lemma update_password_keeps [simp]:
  "user_mfa (snd (update_user_password x pw r d)) = user_mfa d"
  "login_flows (snd (update_user_password x pw r d)) = login_flows d"
  "auth_action_tokens (snd (update_user_password x pw r d)) = auth_action_tokens d"
  "auth_sessions (snd (update_user_password x pw False d)) = auth_sessions d"
  by (simp_all add: update_user_password_def Let_def)

lemma has_confirmed_mfa_cong: "user_mfa d = user_mfa d' \<Longrightarrow> has_confirmed_mfa x d = has_confirmed_mfa x d'"
  by (simp add: has_confirmed_mfa_def load_user_mfa_def)

section \<open>Password login\<close>

lemma complete_login_outcome:
  assumes "complete_login ae u d = (Inr r, d')"
  shows "case r of
      MfaRequired t n \<Rightarrow> has_confirmed_mfa (us_user_id u) d \<and> auth_sessions d' = auth_sessions d
    | LoggedIn a \<Rightarrow> \<not> has_confirmed_mfa (us_user_id u) d \<and> ac_user_id a = us_user_id u"
proof (cases "has_confirmed_mfa (us_user_id u) d")
  case True
  with assms show ?thesis
    by (auto simp: complete_login_def flow_simps and_then_Inr create_login_flow_def Let_def split: sum.splits)
next
  case False
  with assms show ?thesis
    by (auto simp: complete_login_def flow_simps and_then_Inr account_response_def)
qed

lemma login_user_source:
  assumes "login_user ae name hint d = Inr (Some u)"
  shows "u \<in> set (users d) \<and> (us_username u = name
    \<or> (\<exists>b \<in> set (identity_bindings d). ib_provider b = ''EMAIL'' \<and> ib_subject b = ae_casefold ae name \<and> ib_user_id b = us_user_id u))"
proof -
  have by_name: "v \<in> set (users d) \<and> us_username v = name" if "load_user_by_username name hint d = Inr (Some v)" for v
  proof -
    have "set (sql_select P (users d)) \<subseteq> {v \<in> set (users d). P v}" for P by simp
    with that show ?thesis
      by (auto simp: load_user_by_username_def Let_def split: if_splits list.splits dest!: arg_cong [of _ _ set])
  qed
  have by_id: "v \<in> set (users d) \<and> us_user_id v = x" if "load_user_by_id x d = Some v" for v x
    using that by (auto simp: load_user_by_id_def dest: sql_first_Some)
  show ?thesis
    using assms by_name by_id
    by (fastforce simp: login_user_def bind_result_Inr load_identity_binding_def split: if_splits option.splits dest: sql_first_Some)
qed

lemma login_by_password_sound:
  assumes "login_by_password ae p n u d = (Inr v, d')"
  shows "v = u \<and> password_meets_policy (lq_password p) \<and> verify_password (ae_kdf ae) (lq_password p) (us_password_hash u)
    \<and> user_mfa d' = user_mfa d \<and> auth_sessions d' = auth_sessions d"
  using assms by (auto simp: login_by_password_def flow_simps split: if_splits)

text \<open>C15: A password login succeeds only for an active account, found by its user name or by its verified
  address, whose stored hash accepts a password that meets the policy. If that account has a confirmed
  second factor, no session is created: the answer is a challenge. (Without a directory server, which
  decides about accounts that have no password of their own.)\<close>

theorem login_needs_password_and_factor:
  assumes "login ae p d = (Inr r, d')" and "ae_directory ae = None"
  shows "\<exists>u \<in> set (users d). us_active u \<and> password_meets_policy (lq_password p)
    \<and> verify_password (ae_kdf ae) (lq_password p) (us_password_hash u)
    \<and> (us_username u = ae_strip ae (lq_username p)
       \<or> (\<exists>b \<in> set (identity_bindings d). ib_provider b = ''EMAIL'' \<and> ib_user_id b = us_user_id u
            \<and> ib_subject b = ae_casefold ae (ae_strip ae (lq_username p))))
    \<and> (case r of MfaRequired t n \<Rightarrow> has_confirmed_mfa (us_user_id u) d \<and> auth_sessions d' = auth_sessions d
       | LoggedIn a \<Rightarrow> \<not> has_confirmed_mfa (us_user_id u) d \<and> ac_user_id a = us_user_id u)"
proof -
  let ?n = "ae_strip ae (lq_username p)" and ?key = "login_attempt_key ae (lq_username p)"
  obtain h where frame: "snd (consume_attempt ae ?key d) = d\<lparr>rate_limit_hits := h\<rparr>"
    using enforce_frame by (fastforce simp: consume_attempt_def)
  define d1 where "d1 = d\<lparr>rate_limit_hits := h\<rparr>"
  have no_dir: "fst (login_by_directory ae p ?n usr d1) \<noteq> Inr v" for usr v
    using assms(2) by (simp add: login_by_directory_def directory_login_def flow_simps)
  obtain u d2 where u: "login_user ae ?n (workspace_hint ae p) d1 = Inr (Some u)" "us_active u"
    and pw: "login_by_password ae p ?n u d1 = (Inr u, d2)"
    and fin: "complete_login ae u (clear_limit (ae_login_limit ae) ?key d2) = (Inr r, d')"
  proof -
    from assms(1) frame obtain usr v d2 where usr: "login_user ae ?n (workspace_hint ae p) d1 = Inr usr"
      and step: "(case usr of None \<Rightarrow> login_by_directory ae p ?n None
          | Some u \<Rightarrow> if \<not> us_active u then fail_login ae usr ?n
                else if password_is_usable (Some (us_password_hash u)) then login_by_password ae p ?n u
                else login_by_directory ae p ?n usr) d1 = (Inr v, d2)"
      and fin: "complete_login ae v (clear_limit (ae_login_limit ae) ?key d2) = (Inr r, d')"
      by (auto simp: login_def Let_def and_then_Inr attempt_def change_def d1_def)
    have "\<exists>u. usr = Some u \<and> us_active u \<and> login_by_password ae p ?n u d1 = (Inr v, d2)"
      using step no_dir [of usr v] no_dir [of None v]
      by (auto split: option.splits if_splits)
    then show thesis using that usr fin login_by_password_sound by metis
  qed
  from login_by_password_sound [OF pw] have keeps: "user_mfa d2 = user_mfa d" "auth_sessions d2 = auth_sessions d"
    by (simp_all add: d1_def)
  then have mfa: "has_confirmed_mfa x (clear_limit l k d2) = has_confirmed_mfa x d" for x l k
    by (intro has_confirmed_mfa_cong) simp
  have src: "u \<in> set (users d)" "us_username u = ?n \<or> (\<exists>b \<in> set (identity_bindings d). ib_provider b = ''EMAIL''
      \<and> ib_user_id b = us_user_id u \<and> ib_subject b = ae_casefold ae ?n)"
    using login_user_source [OF u(1)] by (auto simp: d1_def)
  show ?thesis
    using src u(2) login_by_password_sound [OF pw] complete_login_outcome [OF fin] keeps mfa
    by (intro bexI [OF _ src(1)]) (auto split: login_result.splits)
qed

section \<open>Second factor\<close>

lemma keeps_accept_mfa [keeps_intros]:
  assumes "\<And>d h. f (d\<lparr>rate_limit_hits := h\<rparr>) = f d" and "\<And>d m. f (d\<lparr>user_mfa := m\<rparr>) = f d"
  shows "keeps f (accept_mfa_code ae x code b)"
  unfolding accept_mfa_code_def Let_def
  by (intro keeps_intros) (simp_all add: assms consume_mfa_snapshot_def)

lemma keeps_new_session [keeps_intros]:
  assumes "\<And>d s. f (d\<lparr>auth_sessions := s\<rparr>) = f d"
  shows "keeps f (new_session ae x)"
  by (auto simp: keeps_def new_session_def issue_session_def create_auth_session_def Let_def assms split: sum.splits)

lemma accept_mfa_needs_factor:
  assumes "accept_mfa_code ae x code b d = (Inr (), d')"
  shows "has_confirmed_mfa x d"
proof -
  obtain h where "snd (enforce (ae_mfa_limit ae) b False (ae_fresh ae 8) (ae_now ae) d) = d\<lparr>rate_limit_hits := h\<rparr>"
    using enforce_frame by blast
  with assms show ?thesis
    by (auto simp: accept_mfa_code_def and_then_Inr fetch_def refuse_if_def has_confirmed_mfa_def load_user_mfa_def
        raise_error_def return_value_def split: option.splits if_splits)
qed

text \<open>A challenge that was used, has expired or never existed opens no session, whatever the code.\<close>

lemma verify_mfa_login_refused:
  assumes "flow_used t ''MFA'' d"
  shows "(\<exists>e. fst (verify_mfa_login ae (Some t) code d) = Inl e)
    \<and> auth_sessions (snd (verify_mfa_login ae (Some t) code d)) = auth_sessions d"
proof (cases "t = ''''")
  case False
  have none: "load_login_flow t ''MFA'' now d = None" for now
    using assms by (auto simp: load_login_flow_def sql_first_None flow_used_def open_flow_def)
  let ?m = "and_then (register_failure (ae_mfa_limit ae) (login_attempt_key ae (''mfa:'' @ take 12 t)) (ae_fresh ae 8) (ae_now ae))
      (\<lambda>_. raise_error (HTTPException 401)) :: (db, account) handler"
  have "verify_mfa_login ae (Some t) code d = ?m d" using False by (simp add: verify_mfa_login_def Let_def flow_simps none)
  moreover have "keeps auth_sessions ?m" by (intro keeps_intros) simp_all
  moreover have "\<exists>e. fst (?m d) = Inl e" by (auto simp: and_then_def flow_simps split: prod.splits sum.splits)
  ultimately show ?thesis by (simp add: keeps_def)
qed (simp add: verify_mfa_login_def flow_simps)


section \<open>Password reset\<close>

text \<open>A first session displaces none.\<close>

lemma new_session_first:
  assumes "new_session ae x d = (Inr (), d')" and "sql_select (\<lambda>s. se_user_id s = x) (auth_sessions d) = []"
  shows "d' = d\<lparr>auth_sessions := auth_sessions d @ [\<lparr>se_token_hash = ae_token_hash ae (asc (ae_secret ae 0)), se_user_id = x,
      se_expires_at = ae_now ae + SESSION_HOURS * 3600 * 1000000, se_created_at = ae_now ae\<rparr>]\<rparr>"
  using assms
  by (auto simp: new_session_def issue_session_def create_auth_session_def Let_def sql_insert_unique_def sql_select_def
      order_by_desc_def MAX_SESSIONS_PER_USER_def sql_delete_def split: if_splits)

text \<open>A completed password reset leaves the account with exactly one session, the one it opened, and
  with the new password; the sessions of other accounts are untouched, and the link is spent for every
  purpose and at any time.\<close>

lemma password_reset_ends_sessions:
  assumes "links_wf d" and "complete_password_reset ae token pw d = (Inr a, d')"
  shows "map se_token_hash (sql_select (\<lambda>s. se_user_id s = ac_user_id a) (auth_sessions d')) = [ae_token_hash ae (asc (ae_secret ae 0))]
    \<and> sql_select (\<lambda>s. se_user_id s \<noteq> ac_user_id a) (auth_sessions d') = sql_select (\<lambda>s. se_user_id s \<noteq> ac_user_id a) (auth_sessions d)
    \<and> list_all (\<lambda>u. us_user_id u = ac_user_id a \<longrightarrow> us_password_hash u = new_hash ae pw) (users d')
    \<and> active_auth_action (ae_token_hash ae (asc token)) purpose now d' = Inl (HTTPException 410)"
proof -
  let ?h = "ae_token_hash ae (asc token)"
  define d1 where "d1 = snd (consume_auth_action_token ?h (ae_now ae) d)"
  from assms(2) obtain x d3 where used: "fst (consume_auth_action_token ?h (ae_now ae) d)"
    and new: "new_session ae x (snd (update_user_password x (new_hash ae pw) True d1)) = (Inr (), d3)"
    and x: "ac_user_id a = x"
    and d': "auth_sessions d' = auth_sessions d3" "users d' = users d3" "auth_action_tokens d' = auth_action_tokens d3"
    by (auto simp: complete_password_reset_def Let_def flow_simps and_then_Inr d1_def account_response_def
        split: if_splits option.splits sum.splits)
  define d2 where "d2 = snd (update_user_password x (new_hash ae pw) True d1)"
  have s2: "auth_sessions d2 = sql_delete (\<lambda>s. se_user_id s = x) (auth_sessions d)"
    by (simp add: d2_def d1_def update_user_password_def consume_auth_action_token_def Let_def)
  have d3: "d3 = d2\<lparr>auth_sessions := auth_sessions d2 @ [\<lparr>se_token_hash = ae_token_hash ae (asc (ae_secret ae 0)), se_user_id = x,
      se_expires_at = ae_now ae + SESSION_HOURS * 3600 * 1000000, se_created_at = ae_now ae\<rparr>]\<rparr>"
    using new by (intro new_session_first) (auto simp: d2_def s2 [unfolded d2_def] sql_select_def sql_delete_def filter_empty_conv)
  have "link_used ?h d1"
    using use_link_spends [of d ?h "ae_now ae"] assms(1) used by (simp add: use_link_def d1_def)
  then have link: "link_used ?h d'" by (simp add: link_used_def d' d3 d2_def)
  have "active_auth_action ?h purpose now d' = Inl (HTTPException 410)"
    using link by (auto simp: active_auth_action_def load_auth_action_token_def link_used_def split: option.splits dest!: sql_first_Some)
  moreover have "map se_token_hash (sql_select (\<lambda>s. se_user_id s = x) (auth_sessions d')) = [ae_token_hash ae (asc (ae_secret ae 0))]"
    "sql_select (\<lambda>s. se_user_id s \<noteq> x) (auth_sessions d') = sql_select (\<lambda>s. se_user_id s \<noteq> x) (auth_sessions d)"
    by (simp_all add: d' d3 s2 sql_select_def sql_delete_def)
  moreover have "list_all (\<lambda>u. us_user_id u = x \<longrightarrow> us_password_hash u = new_hash ae pw) (users d')"
    by (simp add: d' d3 d2_def update_user_password_def Let_def list_all_iff ball_sql_update)
  ultimately show ?thesis by (simp add: x)
qed

section \<open>External identities\<close>

lemma create_user_appends:
  assumes "create_user w name pw role i now d = (Inr u, d')"
  shows "users d' = users d @ [u] \<and> us_user_id u = i \<and> us_workspace_id u = w \<and> us_username u = name \<and> us_role u = role
    \<and> us_password_hash u = pw \<and> us_active u \<and> (\<forall>v \<in> set (users d). us_user_id v \<noteq> i)
    \<and> identity_bindings d' = identity_bindings d"
proof -
  have "users (ensure_workspace_row now w d) = users d" "identity_bindings (ensure_workspace_row now w d) = identity_bindings d"
    by (simp_all add: ensure_workspace_row_def insert_workspace_def)
  with assms show ?thesis
    by (auto simp: create_user_def Let_def sql_insert_unique_def user_clash_def list_ex_iff split: if_splits)
qed

lemma ensure_workspace_keeps [simp]:
  "users (ensure_workspace w x r n now d) = users d"
  "identity_bindings (ensure_workspace w x r n now d) = identity_bindings d"
  by (simp_all add: ensure_workspace_def insert_workspace_def Let_def)

lemma create_bound_user_appends:
  assumes "create_bound_user ae w name role nm provider issuer subject d = (Inr u, d')"
  shows "users d' = users d @ [u] \<and> us_workspace_id u = w \<and> us_username u = name \<and> us_role u = role
    \<and> us_password_hash u = UNUSABLE_PASSWORD \<and> us_active u \<and> (\<forall>v \<in> set (users d). us_user_id v \<noteq> us_user_id u)"
proof -
  from assms obtain d1 d2 where c: "create_user w name UNUSABLE_PASSWORD role (ae_fresh ae 1) (ae_now ae) d = (Inr u, d1)"
    and b: "bind_new (us_user_id u) provider issuer subject (ae_fresh ae 2) (ae_now ae)
        (ensure_workspace w (us_user_id u) role nm (ae_now ae) d1) = (Inr (), d')"
    by (auto simp: create_bound_user_def atomically_def and_then_Inr flow_simps change_def return_value_def
        split: prod.splits sum.splits)
  from b have "users d' = users d1" by (auto simp: bind_new_def Let_def split: sum.splits)
  then show ?thesis using create_user_appends [OF c] by simp
qed

lemma no_such_username:
  "load_user_by_username name None d = Inr None \<Longrightarrow> \<forall>v \<in> set (users d). us_username v \<noteq> name"
  by (auto simp: load_user_by_username_def Let_def sql_select_def filter_empty_conv split: list.splits)

text \<open>C18: An external identity takes over no account. A federated sign-in ends either at the active account
  of the configured workspace that is already bound to this provider, issuer and subject, with all
  accounts unchanged, or at a new account whose name nobody had, as reviewer or viewer and without a
  password; no existing account is changed.\<close>

theorem external_identity_takes_no_account:
  assumes "provision_federated_user ae username role provider issuer subject d = (Inr u, d')"
  shows "us_workspace_id u = ae_federated_workspace ae \<and> us_active u
    \<and> (if list_ex (\<lambda>b. ib_provider b = provider \<and> ib_issuer b = issuer \<and> ib_subject b = subject) (identity_bindings d)
       then u \<in> set (users d) \<and> users d' = users d
         \<and> list_ex (\<lambda>b. ib_provider b = provider \<and> ib_issuer b = issuer \<and> ib_subject b = subject \<and> ib_user_id b = us_user_id u) (identity_bindings d)
       else users d' = users d @ [u] \<and> us_role u \<in> {''REVIEWER'', ''VIEWER''} \<and> \<not> password_is_usable (Some (us_password_hash u))
         \<and> (\<forall>v \<in> set (users d). us_username v \<noteq> us_username u \<and> us_user_id v \<noteq> us_user_id u))"
proof (cases "load_identity_binding provider issuer subject d")
  case (Some b)
  then have b: "b \<in> set (identity_bindings d)" "ib_provider b = provider \<and> ib_issuer b = issuer \<and> ib_subject b = subject"
    by (auto simp: load_identity_binding_def dest: sql_first_Some)
  from assms Some obtain d1 bb where "load_user_by_id (ib_user_id b) d = Some u" "us_active u"
    "us_workspace_id u = ae_federated_workspace ae"
    "upsert_identity_binding (us_user_id u) provider issuer subject (ae_fresh ae 2) (ae_now ae) d = (Inr bb, d1)" "d' = d1"
    by (auto simp: provision_federated_user_def flow_simps and_then_Inr raise_error_def return_value_def split: option.splits if_splits)
  moreover from this have "users d' = users d" by (auto simp: upsert_identity_binding_def Let_def split: option.splits sum.splits)
  ultimately show ?thesis using b
    by (auto simp: list_ex_iff load_user_by_id_def dest!: sql_first_Some)
next
  case None
  then have none: "\<not> list_ex (\<lambda>b. ib_provider b = provider \<and> ib_issuer b = issuer \<and> ib_subject b = subject) (identity_bindings d)"
    by (auto simp: load_identity_binding_def sql_first_None list_ex_iff)
  from assms None obtain d1 where free: "load_user_by_username username None d = Inr None" and role: "role \<in> {''REVIEWER'', ''VIEWER''}"
    and new: "integrity_as 409 (create_bound_user ae (ae_federated_workspace ae) username role None provider issuer subject) d = (Inr u, d1)"
    and d': "users d' = users d1"
    by (auto simp: provision_federated_user_def Let_def flow_simps and_then_Inr raise_error_def return_value_def
        split: option.splits if_splits sum.splits)
  from new have "create_bound_user ae (ae_federated_workspace ae) username role None provider issuer subject d = (Inr u, d1)"
    by (auto simp: integrity_as_def split: prod.splits sum.splits error.splits)
  from create_bound_user_appends [OF this] show ?thesis
    using none role no_such_username [OF free] d' by (auto simp: password_is_usable_def UNUSABLE_PASSWORD_def)
qed

section \<open>Delegation\<close>

text \<open>C23: A token grants no more than its maker could do. Whatever a caller with a fresh token may do,
  whatever role its owner has by then, the caller who made it was allowed to do; and the token carries at
  least one permission.\<close>

theorem token_grants_no_more_than_its_maker:
  assumes "create_token ae pr p d = (Inr t, d')"
  shows "at_permissions_json t \<noteq> [] \<and> t \<in> set (api_tokens d')
    \<and> (has_permission (ae_upper ae) \<lparr>pr_workspace_id = at_workspace_id t, pr_user_id = at_user_id t,
           pr_role = effective_role (ae_upper ae) (at_role t) current,
           pr_permissions = Some (token_permissions (ae_upper ae) t current)\<rparr> perm
       \<longrightarrow> has_permission (ae_upper ae) pr perm)"
proof -
  from assms have t: "at_permissions_json t = sort (remdups (tq_permissions p))" "at_role t = pr_role pr"
    "tq_permissions p \<noteq> []" "\<forall>v \<in> set (tq_permissions p). grantable ae pr v" "t \<in> set (api_tokens d')"
    by (auto simp: create_token_def Let_def flow_simps create_api_token_def list_ex_iff split: if_splits)
  moreover from this have "at_permissions_json t \<noteq> []" by (metis set_empty set_remdups set_sort)
  moreover have "has_permission (ae_upper ae) pr perm"
    if "permission_value perm \<in> set (at_permissions_json t)"
  proof -
    from that t have "grantable ae pr (permission_value perm)" by simp
    then show ?thesis
      by (auto simp: grantable_def has_permission_def Let_def as_permissions_iff permission_value_inj split: option.splits)
  qed
  ultimately show ?thesis
    by (auto simp: has_permission_def [of _ "\<lparr>pr_workspace_id = _, pr_user_id = _, pr_role = _, pr_permissions = _\<rparr>"]
        Let_def as_permissions_iff token_permissions_set)
qed

section \<open>Witnesses\<close>

definition demo_auth_env :: auth_env where
  "demo_auth_env = \<lparr>ae_env = demo_env, ae_fresh = (\<lambda>i. ''f'' @ decimal i), ae_secret = (\<lambda>i. ''s'' @ decimal i),
     ae_token_hash = map char_of, ae_kdf = (\<lambda>pw _ _. [length pw mod 256]), ae_salt = [1], ae_strip = id, ae_casefold = id,
     ae_ucasefold = id, ae_upper = id, ae_isdigit = (\<lambda>_. False), ae_hmac = (\<lambda>_ _. []), ae_host = ''h'', ae_bootstrap_token = '''',
     ae_trial_join_code = '''', ae_personal_signup = True, ae_federated_workspace = ''w'',
     ae_login_limit = \<lparr>lm_scope = ''login'', lm_max_hits = 5, lm_window_seconds = 900\<rparr>,
     ae_mfa_limit = \<lparr>lm_scope = ''mfa'', lm_max_hits = 8, lm_window_seconds = 900\<rparr>,
     ae_directory = None, ae_directory_uri = '''', ae_oidc = None, ae_oidc_issuer = '''', ae_oidc_default_role = ''REVIEWER'',
     ae_public_origin = ''''\<rparr>"

definition demo_signer :: user_row where
  "demo_signer = demo_member\<lparr>us_password_hash := new_hash demo_auth_env (asc ''passw0rd'')\<rparr>"

definition demo_sign_db :: db where
  "demo_sign_db = empty_db\<lparr>users := [demo_signer],
     login_flows := [\<lparr>lf_state = ''t'', lf_provider = ''MFA'', lf_code_verifier = '''', lf_redirect_uri = '''', lf_nonce = ''u'',
        lf_expires_at = 1000000000, lf_consumed_at = None, lf_created_at = 0\<rparr>],
     auth_action_tokens := [\<lparr>tk_token_hash = ''r'', tk_workspace_id = ''w'', tk_purpose = ''RESET'', tk_username = None,
        tk_user_id = Some ''u'', tk_role = None, tk_expires_at = 1000000000, tk_used_at = None, tk_created_by = ''o'', tk_created_at = 0\<rparr>]\<rparr>"

definition demo_factor_db :: db where
  "demo_factor_db = demo_sign_db\<lparr>user_mfa := [\<lparr>mf_user_id = ''u'', mf_secret = ''k'', mf_confirmed_at = Some 1, mf_last_counter = 0,
     mf_recovery_codes_json = [''rc''], mf_created_at = 0\<rparr>]\<rparr>"

lemmas demo_flow_simps = demo_auth_env_def demo_env_def demo_sign_db_def demo_factor_db_def demo_signer_def demo_member_def empty_db_def
  and_then_def fetch_def perform_def change_def attempt_def refuse_if_def raise_error_def return_value_def
  sql_first_def sql_count_def sql_insert_unique_def sql_select_def sql_insert_def sql_delete_def ae_now_def Let_def

lemma demo_chars [simp]: "char_of (114 :: nat) = CHR ''r''" "char_of (99 :: nat) = CHR ''c''"
  by code_simp+

definition demo_login :: login_request where
  "demo_login = \<lparr>lq_username = ''n'', lq_password = asc ''passw0rd'', lq_workspace_id = None\<rparr>"

lemma demo_password:
  "verify_password (ae_kdf demo_auth_env) (asc ''passw0rd'') (us_password_hash demo_signer)"
  "\<not> password_needs_rehash (us_password_hash demo_signer)" "password_is_usable (Some (us_password_hash demo_signer))"
  "password_meets_policy (asc ''passw0rd'')"
  using verify_password_hash [of "[1]" "ae_kdf demo_auth_env" PBKDF2_ITERATIONS] password_hash_fresh [of "[1]"]
  by (simp_all add: demo_signer_def new_hash_def demo_auth_env_def password_meets_policy_def asc_def ascii_letter_def ascii_digit_def
      MIN_PASSWORD_LENGTH_def MAX_PASSWORD_LENGTH_def)

lemma demo_login_succeeds: "\<exists>r d'. login demo_auth_env demo_login demo_sign_db = (Inr r, d')"
proof -
  have "users demo_sign_db = [demo_signer]" "us_active demo_signer" "us_username demo_signer = ''n''"
    by (simp_all add: demo_sign_db_def demo_signer_def demo_member_def)
  then show ?thesis
    using demo_password
    by (simp add: login_def demo_login_def login_user_def load_user_by_username_def workspace_hint_def consume_attempt_def enforce_def record_hit_def
      hit_count_def login_by_password_def complete_login_def has_confirmed_mfa_def load_user_mfa_def new_session_def
      issue_session_def create_auth_session_def record_auth_def clear_limit_def demo_flow_simps in_bucket_def cutoff_def)
qed

theorem login_needs_password_and_factor_witness:
  "\<exists>u \<in> set (users demo_sign_db). us_active u \<and> verify_password (ae_kdf demo_auth_env) (asc ''passw0rd'') (us_password_hash u)"
proof -
  obtain r d' where "login demo_auth_env demo_login demo_sign_db = (Inr r, d')" using demo_login_succeeds by blast
  moreover have "ae_directory demo_auth_env = None" "lq_password demo_login = asc ''passw0rd''"
    by (simp_all add: demo_auth_env_def demo_login_def)
  ultimately show ?thesis using login_needs_password_and_factor [of demo_auth_env demo_login demo_sign_db r d'] by auto
qed

lemma demo_factor_succeeds: "\<exists>a d'. verify_mfa_login demo_auth_env (Some ''t'') (asc ''rc'') demo_factor_db = (Inr a, d')"
  by (simp add: verify_mfa_login_def load_login_flow_def open_flow_def load_user_by_id_def accept_mfa_code_def enforce_def hit_count_def
      load_user_mfa_def mfa_code_counter_def totp_verify_def asc_def strip_def lstrip_def is_space_def consume_mfa_snapshot_def same_snapshot_def
      consume_login_flow_def new_session_def issue_session_def create_auth_session_def record_auth_def clear_limit_def demo_flow_simps)


lemma demo_reset_succeeds: "\<exists>a d'. complete_password_reset demo_auth_env ''r'' (asc ''passw0rd2'') demo_sign_db = (Inr a, d')"
  by (simp add: complete_password_reset_def active_auth_action_def load_auth_action_token_def given_def asc_def load_user_by_id_def
      consume_auth_action_token_def update_user_password_def new_session_def issue_session_def create_auth_session_def
      record_auth_def demo_flow_simps)

lemma password_reset_ends_sessions_example:
  "\<exists>a d'. complete_password_reset demo_auth_env ''r'' (asc ''passw0rd2'') demo_sign_db = (Inr a, d')
     \<and> active_auth_action ''r'' None 0 d' = Inl (HTTPException 410)"
proof -
  obtain a d' where "complete_password_reset demo_auth_env ''r'' (asc ''passw0rd2'') demo_sign_db = (Inr a, d')"
    using demo_reset_succeeds by blast
  moreover have "links_wf demo_sign_db" by (simp add: links_wf_def demo_sign_db_def)
  moreover have "ae_token_hash demo_auth_env (asc ''r'') = ''r''" by (simp add: demo_auth_env_def asc_def)
  ultimately show ?thesis
    using password_reset_ends_sessions [of demo_sign_db demo_auth_env "''r''" "asc ''passw0rd2''" a d' None 0] by auto
qed

lemma demo_federated_succeeds:
  "\<exists>u d'. provision_federated_user demo_auth_env ''new'' ''VIEWER'' ''LDAP'' ''i'' ''s'' demo_sign_db = (Inr u, d')"
  by (simp add: provision_federated_user_def load_identity_binding_def load_user_by_username_def list_workspace_members_def order_by_def
      integrity_as_def create_bound_user_def atomically_def create_user_def ensure_workspace_row_def ensure_workspace_def insert_workspace_def
      user_clash_def bind_new_def record_auth_def demo_flow_simps decimal.simps)

theorem external_identity_takes_no_account_witness:
  "\<exists>u d'. provision_federated_user demo_auth_env ''new'' ''VIEWER'' ''LDAP'' ''i'' ''s'' demo_sign_db = (Inr u, d')
     \<and> users d' = [demo_signer, u]"
proof -
  obtain u d' where p: "provision_federated_user demo_auth_env ''new'' ''VIEWER'' ''LDAP'' ''i'' ''s'' demo_sign_db = (Inr u, d')"
    using demo_federated_succeeds by blast
  moreover have "identity_bindings demo_sign_db = []" "users demo_sign_db = [demo_signer]"
    by (simp_all add: demo_sign_db_def empty_db_def)
  ultimately show ?thesis using external_identity_takes_no_account [OF p] by auto
qed

theorem token_grants_no_more_than_its_maker_witness:
  "\<exists>t d'. create_token demo_auth_env \<lparr>pr_workspace_id = ''w'', pr_user_id = ''u'', pr_role = ''VIEWER'', pr_permissions = None\<rparr>
       \<lparr>tq_name = [], tq_expires_days = None, tq_permissions = [''run:read'']\<rparr> demo_sign_db = (Inr t, d')
     \<and> at_permissions_json t \<noteq> []"
proof -
  let ?c = "create_token demo_auth_env \<lparr>pr_workspace_id = ''w'', pr_user_id = ''u'', pr_role = ''VIEWER'', pr_permissions = None\<rparr>
       \<lparr>tq_name = [], tq_expires_days = None, tq_permissions = [''run:read'']\<rparr> demo_sign_db"
  have "\<exists>t d'. ?c = (Inr t, d')"
    by (simp add: create_token_def flow_simps Let_def grantable_def permissions_for_def VIEWER_PERMISSIONS_def permission_value_def demo_auth_env_def)
  then obtain t d' where c: "?c = (Inr t, d')" by blast
  from token_grants_no_more_than_its_maker [OF c] c show ?thesis by blast
qed

end
