(* ===== verification/Uploads.thy ===== *)
theory Uploads
  imports Prelude
begin

text \<open>
  What happens to a file before it is parsed: names and sizes (\<open>src/app/uploads.py\<close>), active content
  (\<open>src/app/file_safety.py\<close>) and the budget of a request body (\<open>src/app/request_limits.py\<close>). A file is its list
  of bytes. An Office archive is the list of its entries as \<open>zipfile\<close> gives them, or none when it is not an
  archive; an entry that cannot be read back has no data. \<open>lower\<close> and \<open>casefold\<close> are the string methods.
\<close>

section \<open>Reading in pieces\<close>

text \<open>\<open>read(n)\<close> until it returns nothing.\<close>

function read_chunks :: "nat \<Rightarrow> 'a list \<Rightarrow> 'a list list" where
  "read_chunks n xs = (if n = 0 \<or> xs = [] then [] else take n xs # read_chunks n (drop n xs))"
  by pat_completeness auto

termination
  by (relation "measure (\<lambda>(_, xs). length xs)") auto

declare read_chunks.simps [simp del]

lemma read_chunks_Nil [simp]: "read_chunks n [] = []"
  by (simp add: read_chunks.simps)

lemma concat_read_chunks: "0 < n \<Longrightarrow> concat (read_chunks n xs) = xs"
proof (induction n xs rule: read_chunks.induct)
  case (1 n xs)
  then show ?case by (subst read_chunks.simps) auto
qed

lemma read_chunks_nonempty: "c \<in> set (read_chunks n xs) \<Longrightarrow> c \<noteq> [] \<and> length c \<le> n"
proof (induction n xs rule: read_chunks.induct)
  case (1 n xs)
  then show ?case by (subst (asm) (2) read_chunks.simps) (auto split: if_splits)
qed

section \<open>Names\<close>

fun split_on :: "char \<Rightarrow> string \<Rightarrow> string \<Rightarrow> string list" where
  "split_on c [] part = [rev part]"
| "split_on c (x # xs) part = (if x = c then rev part # split_on c xs [] else split_on c xs (x # part))"

text \<open>The components of a path: empty ones and single dots are dropped.\<close>

definition path_parts :: "string \<Rightarrow> string list" where
  "path_parts s = filter (\<lambda>p. p \<noteq> '''' \<and> p \<noteq> ''.'') (split_on CHR ''/'' s [])"

definition path_name :: "string \<Rightarrow> string" where
  "path_name s = (if path_parts s = [] then '''' else last (path_parts s))"

text \<open>From the last dot of the name, unless that is its first or last character.\<close>

definition path_suffix :: "string \<Rightarrow> string" where
  "path_suffix s =
     (let name = path_name s; ext = rev (takeWhile (\<lambda>c. c \<noteq> CHR ''.'') (rev name)); stem = length name - length ext
      in if CHR ''.'' \<in> set name \<and> 1 < stem \<and> ext \<noteq> '''' then CHR ''.'' # ext else '''')"

definition SUPPORTED_UPLOAD_EXTENSIONS :: "string list" where
  "SUPPORTED_UPLOAD_EXTENSIONS = [''.pdf'', ''.docx'', ''.xlsx'', ''.pptx'', ''.txt'', ''.md'']"

definition is_supported :: "(string \<Rightarrow> string) \<Rightarrow> string option \<Rightarrow> bool" where
  "is_supported lower filename =
     (case filename of
        None \<Rightarrow> False
      | Some f \<Rightarrow> f \<noteq> '''' \<and> lower (path_suffix f) \<in> set SUPPORTED_UPLOAD_EXTENSIONS)"

text \<open>\<open>replace("..", "_")\<close>, from the left and without overlaps.\<close>

fun replace_dots :: "string \<Rightarrow> string" where
  "replace_dots [] = []"
| "replace_dots [c] = [c]"
| "replace_dots (c # c' # s) =
     (if c = CHR ''.'' \<and> c' = CHR ''.'' then CHR ''_'' # replace_dots s else c # replace_dots (c' # s))"

definition safe_filename :: "string \<Rightarrow> string" where
  "safe_filename filename = replace_dots (path_name filename)"

record upload =
  up_filename :: "string option"
  up_content :: "nat list"

definition MAX_EVIDENCE_FILES :: nat where
  "MAX_EVIDENCE_FILES = 20"

definition MAX_UPLOAD_BYTES :: nat where
  "MAX_UPLOAD_BYTES = 50 * 1024 * 1024"

definition CHUNK_BYTES :: nat where
  "CHUNK_BYTES = 1024 * 1024"

text \<open>\<open>utf8_length\<close> is the length of the encoded name.\<close>

definition bad_name :: "(string \<Rightarrow> nat) \<Rightarrow> upload \<Rightarrow> bool" where
  "bad_name utf8_length u =
     (let f = (case up_filename u of None \<Rightarrow> '''' | Some x \<Rightarrow> x)
      in f = '''' \<or> utf8_length f > 240 \<or> list_ex (\<lambda>c. (of_char c :: nat) < 32) f)"

definition validate_intake :: "(string \<Rightarrow> nat) \<Rightarrow> upload \<Rightarrow> upload list \<Rightarrow> ustr \<Rightarrow> ustr option \<Rightarrow> unit result" where
  "validate_intake utf8_length tender evidence company_name metadata =
     (if length evidence > MAX_EVIDENCE_FILES then Inl (HTTPException 413)
      else if length company_name > 200 \<or> length (case metadata of None \<Rightarrow> [] | Some m \<Rightarrow> m) > 32768 then Inl (HTTPException 422)
      else if list_ex (bad_name utf8_length) (tender # evidence) then Inl (HTTPException 422)
      else Inr ())"

section \<open>Sizes\<close>

text \<open>The loop of \<open>save_upload\<close>: the bytes written so far and the chunks to come. A file that grows over the
  limit is removed, so the result is the stored content or the refusal.\<close>

fun save_chunks :: "nat \<Rightarrow> nat list \<Rightarrow> nat list list \<Rightarrow> nat list result" where
  "save_chunks limit written [] = Inr written"
| "save_chunks limit written (chunk # rest) =
     (if chunk = [] then Inr written
      else if length written + length chunk > limit then Inl (HTTPException 413)
      else save_chunks limit (written @ chunk) rest)"

text \<open>The stored bytes and their digest.\<close>

definition save_upload :: "(nat list \<Rightarrow> string) \<Rightarrow> upload \<Rightarrow> (nat list \<times> string) result" where
  "save_upload sha256 u =
     bind_result (save_chunks MAX_UPLOAD_BYTES [] (read_chunks CHUNK_BYTES (up_content u))) (\<lambda>content.
       Inr (content, sha256 content))"

section \<open>Active content\<close>

definition PDF_ACTIVE_TOKENS :: "nat list list" where
  "PDF_ACTIVE_TOKENS = [asc ''/JavaScript'', asc ''/JS'', asc ''/OpenAction'', asc ''/Launch'', asc ''/EmbeddedFile'']"

definition last_n :: "nat \<Rightarrow> 'a list \<Rightarrow> 'a list" where
  "last_n n xs = drop (length xs - n) xs"

fun scan_chunks :: "nat list \<Rightarrow> nat list list \<Rightarrow> bool" where
  "scan_chunks leftover [] = False"
| "scan_chunks leftover (chunk # rest) =
     (let window = leftover @ chunk
      in if list_ex (\<lambda>token. contains token window) PDF_ACTIVE_TOKENS then True
         else scan_chunks (last_n 32 window) rest)"

definition pdf_contains_active_content :: "nat list \<Rightarrow> bool" where
  "pdf_contains_active_content content = scan_chunks [] (read_chunks 65536 content)"

record zip_entry =
  ze_filename :: string
  ze_file_size :: nat
  ze_data :: "nat list option"

datatype issue = ActivePdf | TooManyEntries | TooLarge | PathTraversal | MacroProject | ExecutableEntry
  | ExternalRelation | BadArchive

definition BLOCKED_ARCHIVE_SUFFIXES :: "string list" where
  "BLOCKED_ARCHIVE_SUFFIXES = [''.exe'', ''.dll'', ''.com'', ''.scr'', ''.bat'', ''.cmd'', ''.ps1'', ''.vbs'', ''.js'']"

definition slashes :: "string \<Rightarrow> string" where
  "slashes s = map (\<lambda>c. if c = CHR 0x5C then CHR ''/'' else c) s"

definition escapes :: "zip_entry \<Rightarrow> bool" where
  "escapes e = (let n = slashes (ze_filename e) in prefix ''/'' n \<or> ''..'' \<in> set (path_parts n))"

definition unsafe_relation :: "nat list \<Rightarrow> bool" where
  "unsafe_relation xml \<longleftrightarrow> contains (asc ''targetmode='' @ [34] @ asc ''external'' @ [34]) xml
     \<and> list_ex (\<lambda>scheme. contains (asc scheme) xml) [''javascript:'', ''file:'', ''ms-msdt:'']"

text \<open>The loop over the relationship parts; a part that cannot be read ends the scan as a bad archive.\<close>

fun scan_relations :: "(string \<Rightarrow> string) \<Rightarrow> (nat list \<Rightarrow> nat list) \<Rightarrow> zip_entry list \<Rightarrow> issue list" where
  "scan_relations casefold fold_bytes [] = []"
| "scan_relations casefold fold_bytes (e # es) =
     (if \<not> suffix ''.rels'' (casefold (ze_filename e)) \<or> ze_file_size e > 2 * 1024 * 1024
      then scan_relations casefold fold_bytes es
      else case ze_data e of
        None \<Rightarrow> [BadArchive]
      | Some bytes \<Rightarrow> if unsafe_relation (fold_bytes bytes) then [ExternalRelation] else scan_relations casefold fold_bytes es)"

definition scan_ooxml :: "(string \<Rightarrow> string) \<Rightarrow> (nat list \<Rightarrow> nat list) \<Rightarrow> zip_entry list option \<Rightarrow> issue list" where
  "scan_ooxml casefold fold_bytes archive =
     (case archive of
        None \<Rightarrow> [BadArchive]
      | Some entries \<Rightarrow>
          let lowered = map (\<lambda>e. casefold (ze_filename e)) entries
          in dedup
               ((if length entries > 10000 then [TooManyEntries] else [])
                @ (if sum_list (map ze_file_size entries) > 250 * 1024 * 1024 then [TooLarge] else [])
                @ (if list_ex escapes entries then [PathTraversal] else [])
                @ (if list_ex (suffix ''vbaproject.bin'') lowered then [MacroProject] else [])
                @ (if list_ex (\<lambda>n. casefold (path_suffix n) \<in> set BLOCKED_ARCHIVE_SUFFIXES) lowered then [ExecutableEntry] else [])
                @ scan_relations casefold fold_bytes entries))"

record file_view =
  fv_content :: "nat list"
  fv_pdf_pages :: "nat option"
  fv_archive :: "zip_entry list option"

record name_functions =
  nf_lower :: "string \<Rightarrow> string"
  nf_casefold :: "string \<Rightarrow> string"
  nf_fold_bytes :: "nat list \<Rightarrow> nat list"
  nf_utf8_length :: "string \<Rightarrow> nat"
  nf_sha256 :: "nat list \<Rightarrow> string"

definition is_office :: "string \<Rightarrow> bool" where
  "is_office sfx \<longleftrightarrow> sfx \<in> {''.docx'', ''.xlsx'', ''.pptx''}"

definition scan_upload_safety :: "name_functions \<Rightarrow> string \<Rightarrow> file_view \<Rightarrow> issue list" where
  "scan_upload_safety nf name v =
     (let sfx = nf_lower nf (path_suffix name)
      in (if sfx = ''.pdf'' \<and> pdf_contains_active_content (fv_content v) then [ActivePdf] else [])
         @ (if is_office sfx then scan_ooxml (nf_casefold nf) (nf_fold_bytes nf) (fv_archive v) else []))"

definition MAX_PDF_PAGES :: nat where
  "MAX_PDF_PAGES = 500"

text \<open>A damaged PDF has no page count and is left to the extraction.\<close>

definition validate_upload_content :: "name_functions \<Rightarrow> bool \<Rightarrow> string \<Rightarrow> file_view \<Rightarrow> unit result" where
  "validate_upload_content nf inspect_pdf name v =
     (let sfx = nf_lower nf (path_suffix name);
          header = take 8 (fv_content v);
          text_prefix = (if sfx \<in> {''.txt'', ''.md''} then take 4096 (fv_content v) else header)
      in if sfx = ''.pdf'' \<and> \<not> prefix (asc ''%PDF'') header then Inl (HTTPException 422)
         else if sfx = ''.pdf'' \<and> inspect_pdf \<and> (case fv_pdf_pages v of Some n \<Rightarrow> n > MAX_PDF_PAGES | None \<Rightarrow> False)
         then Inl (HTTPException 413)
         else if is_office sfx \<and> \<not> prefix (asc ''PK'') header then Inl (HTTPException 422)
         else if sfx \<in> {''.txt'', ''.md''} \<and> 0 \<in> set text_prefix then Inl (HTTPException 422)
         else if scan_upload_safety nf name v \<noteq> [] then Inl (HTTPException 422)
         else Inr ())"

section \<open>Request bodies\<close>

text \<open>What the server hands over: a piece of the body and whether more follows, a disconnect, the deadline,
  or a piece that no longer fits on the disk.\<close>

datatype message = Body "nat list" bool | Disconnect | Deadline | DiskFull "nat list"

datatype intake = Accepted "nat list" | Rejected nat | Dropped | Waiting

fun collect_body :: "nat \<Rightarrow> nat list \<Rightarrow> message list \<Rightarrow> intake" where
  "collect_body max_bytes body [] = Waiting"
| "collect_body max_bytes body (Deadline # ms) = Rejected 408"
| "collect_body max_bytes body (Disconnect # ms) = Dropped"
| "collect_body max_bytes body (DiskFull chunk # ms) =
     (if length body + length chunk > max_bytes then Rejected 413 else Rejected 503)"
| "collect_body max_bytes body (Body chunk again # ms) =
     (if length body + length chunk > max_bytes then Rejected 413
      else if again then collect_body max_bytes (body @ chunk) ms else Accepted (body @ chunk))"

text \<open>\<open>declared\<close> is the content length of the headers, absent as zero, unreadable as none.\<close>

definition request_budget :: "nat \<Rightarrow> string \<Rightarrow> int option \<Rightarrow> message list \<Rightarrow> intake option" where
  "request_budget max_bytes method_name declared ms =
     (if method_name \<notin> {''POST'', ''PUT'', ''PATCH'', ''DELETE''} then None
      else Some (case declared of
        None \<Rightarrow> Rejected 400
      | Some n \<Rightarrow> if n < 0 \<or> n > int max_bytes then Rejected 413 else collect_body max_bytes [] ms))"

text \<open>The events that the application receives instead, until the one that announces no more.\<close>

function replay_events :: "nat \<Rightarrow> nat \<Rightarrow> nat list \<Rightarrow> (nat list \<times> bool) list" where
  "replay_events sz replayed rest =
     (let chunk = take 65536 rest; again = replayed + length chunk < sz
      in if again \<and> chunk \<noteq> [] then (chunk, again) # replay_events sz (replayed + length chunk) (drop 65536 rest)
         else [(chunk, again)])"
  by pat_completeness auto

termination
  by (relation "measure (\<lambda>(_, _, rest). length rest)") auto

declare replay_events.simps [simp del]

definition replay :: "nat list \<Rightarrow> (nat list \<times> bool) list" where
  "replay body = replay_events (length body) 0 body"

section \<open>Facts\<close>

text \<open>An occurrence that is not in the part already searched starts among its last bytes.\<close>

lemma contains_tail:
  assumes "\<not> contains t p" and "length t \<le> Suc n"
  shows "contains t (p @ c) \<longleftrightarrow> contains t (last_n n p @ c)"
proof
  assume "contains t (last_n n p @ c)"
  moreover have "sublist (last_n n p @ c) (p @ c)"
    by (metis append.assoc append_take_drop_id last_n_def sublist_append_leftI)
  ultimately show "contains t (p @ c)"
    by (auto simp: contains_iff_sublist intro: sublist_order.order_trans)
next
  assume "contains t (p @ c)"
  then obtain xs ys where occ: "p @ c = xs @ t @ ys" by (auto simp: contains_iff_sublist sublist_def)
  let ?k = "length p - n"
  have "?k \<le> length xs"
  proof (rule ccontr)
    assume "\<not> ?k \<le> length xs"
    then have "length xs + length t \<le> length p" using assms(2) by simp
    then have "p = xs @ t @ take (length p - length xs - length t) ys"
      using arg_cong [OF occ, of "take (length p)"] by simp
    then show False using assms(1) by (metis contains_iff_sublist sublist_appendI)
  qed
  then have "last_n n p @ c = drop ?k xs @ t @ ys"
    using arg_cong [OF occ, of "drop ?k"] by (simp add: last_n_def)
  then show "contains t (last_n n p @ c)" by (simp add: contains_iff_sublist sublist_appendI)
qed

lemma last_n_append: "last_n n (last_n n p @ c) = last_n n (p @ c)"
  by (cases "length p \<le> n") (simp_all add: last_n_def add.commute)

lemma token_lengths: "t \<in> set PDF_ACTIVE_TOKENS \<Longrightarrow> t \<noteq> [] \<and> length t \<le> Suc 32"
  by (auto simp: PDF_ACTIVE_TOKENS_def asc_def)

lemma scan_chunks_from:
  assumes "\<not> list_ex (\<lambda>t. contains t p) PDF_ACTIVE_TOKENS"
  shows "scan_chunks (last_n 32 p) cs \<longleftrightarrow> list_ex (\<lambda>t. contains t (p @ concat cs)) PDF_ACTIVE_TOKENS"
  using assms
proof (induction cs arbitrary: p)
  case (Cons c cs)
  have window: "list_ex (\<lambda>t. contains t (last_n 32 p @ c)) PDF_ACTIVE_TOKENS
      \<longleftrightarrow> list_ex (\<lambda>t. contains t (p @ c)) PDF_ACTIVE_TOKENS"
    using contains_tail [of _ p 32 c] token_lengths Cons.prems by (auto simp: list_ex_iff)
  show ?case
  proof (cases "list_ex (\<lambda>t. contains t (p @ c)) PDF_ACTIVE_TOKENS")
    case True
    then have "list_ex (\<lambda>t. contains t (p @ c @ concat cs)) PDF_ACTIVE_TOKENS"
      by (auto simp: list_ex_iff contains_iff_sublist) (metis append.assoc sublist_append)
    with True window show ?thesis by (simp add: Let_def)
  next
    case False
    with Cons.IH [OF False] window show ?thesis by (simp add: Let_def last_n_append)
  qed
qed auto

lemma save_chunks_exact:
  "\<forall>c \<in> set cs. c \<noteq> [] \<Longrightarrow> length acc \<le> limit \<Longrightarrow>
     save_chunks limit acc cs = (if length (acc @ concat cs) > limit then Inl (HTTPException 413) else Inr (acc @ concat cs))"
  by (induction cs arbitrary: acc) auto

lemma replace_dots_head: "replace_dots (c # s) = CHR ''.'' # r \<Longrightarrow> c = CHR ''.''"
  by (cases s) (auto split: if_splits)

lemma replace_dots_clean: "\<not> contains ''..'' (replace_dots s)"
proof (induction s rule: replace_dots.induct)
  case (3 c c' s)
  then show ?case
    by (cases "replace_dots (c' # s)") (auto dest: replace_dots_head)
qed simp_all

lemma set_replace_dots: "set (replace_dots s) \<subseteq> insert CHR ''_'' (set s)"
  by (induction s rule: replace_dots.induct) auto

lemma split_on_clean: "c \<notin> set part \<Longrightarrow> p \<in> set (split_on c s part) \<Longrightarrow> c \<notin> set p"
  by (induction c s part rule: split_on.induct) (auto split: if_splits)

lemma path_name_clean: "CHR ''/'' \<notin> set (path_name s)"
proof (cases "path_parts s = []")
  case False
  then have "path_name s \<in> set (path_parts s)" by (simp add: path_name_def)
  then have "path_name s \<in> set (split_on CHR ''/'' s [])" by (simp add: path_parts_def)
  then show ?thesis using split_on_clean [of "CHR ''/''" "[]" "path_name s" s] by simp
qed (simp add: path_name_def)

lemma collect_body_exact:
  "collect_body n acc ms = Accepted body \<Longrightarrow>
     length body \<le> n \<and> (\<exists>cs c rest. ms = map (\<lambda>x. Body x True) cs @ Body c False # rest \<and> body = acc @ concat cs @ c)"
proof (induction n acc ms rule: collect_body.induct)
  case (5 n acc chunk again ms)
  show ?case
  proof (cases again)
    case True
    with 5 obtain cs c rest where "ms = map (\<lambda>x. Body x True) cs @ Body c False # rest" "body = (acc @ chunk) @ concat cs @ c"
      and "length body \<le> n" by (auto split: if_splits)
    with True show ?thesis by (intro conjI exI [of _ "chunk # cs"] exI [of _ c] exI [of _ rest]) simp_all
  next
    case False
    with 5 show ?thesis by (intro conjI exI [of _ "[]"] exI [of _ chunk] exI [of _ ms]) (auto split: if_splits)
  qed
qed (auto split: if_splits)

lemma replay_events_nonempty: "replay_events sz replayed rest \<noteq> []"
  by (simp add: replay_events.simps Let_def)

lemma replay_events_exact:
  assumes "sz = replayed + length rest"
  shows "concat (map fst (replay_events sz replayed rest)) = rest
    \<and> map snd (replay_events sz replayed rest) = replicate (length (replay_events sz replayed rest) - 1) True @ [False]
    \<and> list_all (\<lambda>e. length (fst e) \<le> 65536) (replay_events sz replayed rest)"
  using assms
proof (induction sz replayed rest rule: replay_events.induct)
  case (1 sz replayed rest)
  show ?case
  proof (cases "length rest \<le> 65536")
    case True
    with 1(2) show ?thesis by (subst (1 2 3 4) replay_events.simps) (simp add: Let_def)
  next
    case False
    with 1(2) have again: "replayed + length (take 65536 rest) < sz \<and> take 65536 rest \<noteq> []" by auto
    let ?r = "replay_events sz (replayed + length (take 65536 rest)) (drop 65536 rest)"
    have step: "replay_events sz replayed rest = (take 65536 rest, True) # ?r"
      using again by (subst replay_events.simps) (simp add: Let_def)
    have "?r \<noteq> []" by (rule replay_events_nonempty)
    moreover have "concat (map fst ?r) = drop 65536 rest \<and> map snd ?r = replicate (length ?r - 1) True @ [False]
        \<and> list_all (\<lambda>e. length (fst e) \<le> 65536) ?r"
      using 1(1) [OF refl refl] again 1(2) False by simp
    ultimately show ?thesis unfolding step by (cases ?r) simp_all
  qed
qed

section \<open>Properties\<close>

text \<open>C37: Searching a PDF piece by piece misses nothing and invents nothing: with the 32 bytes carried over
  from piece to piece, the scan answers exactly whether one of the active-content markers occurs anywhere
  in the file, whatever the file and wherever the pieces end.\<close>

theorem chunked_scan_equals_whole_scan:
  "pdf_contains_active_content content \<longleftrightarrow> list_ex (\<lambda>token. contains token content) PDF_ACTIVE_TOKENS"
proof -
  have "\<not> list_ex (\<lambda>t. contains t []) PDF_ACTIVE_TOKENS" using token_lengths by (auto simp: list_ex_iff)
  then show ?thesis
    using scan_chunks_from [of "[]" "read_chunks 65536 content"]
    by (simp add: pdf_contains_active_content_def concat_read_chunks last_n_def)
qed

text \<open>An upload is stored whole or not at all: up to the limit the stored bytes are exactly the bytes
  sent and the digest is theirs, above it the upload is refused. The name under which it is stored holds
  no path separator and no parent reference, so the file stays in its directory.\<close>

lemma upload_stored_whole_in_place:
  "save_upload sha256 u = (if length (up_content u) > MAX_UPLOAD_BYTES then Inl (HTTPException 413)
      else Inr (up_content u, sha256 (up_content u)))
   \<and> CHR ''/'' \<notin> set (safe_filename filename) \<and> \<not> contains ''..'' (safe_filename filename)"
proof (intro conjI)
  have "\<forall>c \<in> set (read_chunks CHUNK_BYTES (up_content u)). c \<noteq> []" using read_chunks_nonempty by blast
  then show "save_upload sha256 u = (if length (up_content u) > MAX_UPLOAD_BYTES then Inl (HTTPException 413)
      else Inr (up_content u, sha256 (up_content u)))"
    using concat_read_chunks [of CHUNK_BYTES "up_content u"]
    by (simp add: save_upload_def save_chunks_exact CHUNK_BYTES_def)
  show "CHR ''/'' \<notin> set (safe_filename filename)"
    using set_replace_dots [of "path_name filename"] path_name_clean [of filename] by (auto simp: safe_filename_def)
  show "\<not> contains ''..'' (safe_filename filename)" by (simp add: safe_filename_def replace_dots_clean)
qed

text \<open>Buffering a request changes nothing the application sees. An accepted body is the concatenation
  of the pieces received, within the budget; it is handed on in pieces of at most 64 KiB that concatenate
  to it, all but the last announcing more, and an empty body is handed on as exactly one piece.\<close>

lemma buffered_body_replayed:
  assumes "request_budget max_bytes meth declared ms = Some (Accepted body)"
  shows "length body \<le> max_bytes \<and> (\<exists>cs c rest. ms = map (\<lambda>x. Body x True) cs @ Body c False # rest \<and> body = concat cs @ c)
    \<and> concat (map fst (replay body)) = body
    \<and> map snd (replay body) = replicate (length (replay body) - 1) True @ [False]
    \<and> list_all (\<lambda>e. length (fst e) \<le> 65536) (replay body)"
proof -
  from assms have "collect_body max_bytes [] ms = Accepted body"
    by (auto simp: request_budget_def split: if_splits option.splits)
  from collect_body_exact [OF this] show ?thesis
    using replay_events_exact [of "length body" 0 body] by (simp add: replay_def)
qed

lemma buffered_body_replayed_example:
  "concat (map fst (replay [1, 2, 3])) = [1, 2, 3] \<and> length ([1, 2, 3] :: nat list) \<le> 10"
  using buffered_body_replayed [of 10 "''POST''" "Some 3" "[Body [1, 2] True, Body [3] False]" "[1, 2, 3]"]
  by (simp add: request_budget_def)

end
