(* ===== verification/Scan.thy ===== *)
theory Scan
  imports Job_Queue Run_Service Rules Uploads
begin

text \<open>
  The scan pipeline of \<open>src/app/services/scan_service.py\<close>: intake, storage of the files, extraction, rule
  evaluation and publication, the staging of a queued job and the run of a claimed one. The state is the
  database together with the directories under the upload and staging roots, each a list of named files.
  What a parser makes of a file is a parameter: \<open>sn_extract\<close> answers with the pages or with an extraction
  error, \<open>sn_view\<close> is what the PDF and archive libraries see, \<open>sn_loads\<close> is \<open>json.loads\<close>. The clock is read
  once per call.
\<close>

section \<open>State\<close>

record store =
  st_db :: db
  st_dirs :: "string \<Rightarrow> (string \<times> nat list) list option"

record scan_env =
  sn_env :: env
  sn_names :: name_functions
  sn_view :: "string \<Rightarrow> nat list \<Rightarrow> file_view"
  sn_extract :: "string \<Rightarrow> nat list \<Rightarrow> page list option"
  sn_loads :: "ustr \<Rightarrow> json option"
  sn_lower :: "ustr \<Rightarrow> ustr"
  sn_uuid5 :: "string \<Rightarrow> string"
  sn_run_id :: string
  sn_job_id :: string
  sn_project_id :: string
  sn_token :: string
  sn_upload_dir :: string
  sn_staging_dir :: string

definition sn_now :: "scan_env \<Rightarrow> timestamp" where
  "sn_now se = en_now (sn_env se)"

definition on_db :: "(db, 'a) handler \<Rightarrow> (store, 'a) handler" where
  "on_db m s = (case m (st_db s) of (r, d) \<Rightarrow> (r, s\<lparr>st_db := d\<rparr>))"

definition remove_tree :: "string \<Rightarrow> store \<Rightarrow> store" where
  "remove_tree dir s = s\<lparr>st_dirs := (st_dirs s)(dir := None)\<rparr>"

text \<open>\<open>mkdir(exist_ok=False)\<close>: an existing directory raises \<open>FileExistsError\<close>.\<close>

definition make_dir :: "string \<Rightarrow> (store, unit) handler" where
  "make_dir dir s = (if st_dirs s dir \<noteq> None then (Inl RuntimeError, s) else (Inr (), s\<lparr>st_dirs := (st_dirs s)(dir \<mapsto> [])\<rparr>))"

definition put_file :: "string \<Rightarrow> string \<Rightarrow> nat list \<Rightarrow> store \<Rightarrow> store" where
  "put_file dir name content s =
     s\<lparr>st_dirs := (st_dirs s)(dir := map_option (\<lambda>fs. fs @ [(name, content)]) (st_dirs s dir))\<rparr>"

section \<open>Metadata and project\<close>

definition json_text :: "json \<Rightarrow> ustr option" where
  "json_text j = (case j of JStr s \<Rightarrow> Some s | _ \<Rightarrow> None)"

text \<open>\<open>EvidenceMetadata\<close>: category and date, both with defaults; a value of another type or too long is refused.\<close>

definition evidence_metadata :: "(string \<times> json) list \<Rightarrow> (ustr \<times> ustr option) result" where
  "evidence_metadata keys =
     bind_result (case map_of keys ''category'' of
                    None \<Rightarrow> Inr (asc ''UNCLASSIFIED'')
                  | Some j \<Rightarrow> (case json_text j of Some s \<Rightarrow> if length s > 80 then Inl (HTTPException 422) else Inr s
                              | None \<Rightarrow> Inl (HTTPException 422))) (\<lambda>cat.
     bind_result (case map_of keys ''valid_until'' of
                    None \<Rightarrow> Inr None
                  | Some JNull \<Rightarrow> Inr None
                  | Some j \<Rightarrow> (case json_text j of Some s \<Rightarrow> if length s > 40 then Inl (HTTPException 422) else Inr (Some s)
                              | None \<Rightarrow> Inl (HTTPException 422))) (\<lambda>until.
       Inr (cat, until)))"

definition parse_evidence_metadata :: "(ustr \<Rightarrow> json option) \<Rightarrow> ustr option \<Rightarrow> (string \<times> ustr \<times> ustr option) list result" where
  "parse_evidence_metadata loads raw =
     (case raw of
        None \<Rightarrow> Inr []
      | Some txt \<Rightarrow>
          if txt = [] then Inr []
          else case loads txt of
            Some (JObj members) \<Rightarrow>
              map_result (\<lambda>(name, j). case j of
                  JObj values \<Rightarrow> bind_result (evidence_metadata values) (\<lambda>m. Inr (name, m))
                | _ \<Rightarrow> Inl (HTTPException 400)) members
          | _ \<Rightarrow> Inl (HTTPException 400))"

text \<open>An optional argument counts as given when it is a non-empty string.\<close>

definition truthy :: "string option \<Rightarrow> bool" where
  "truthy x \<longleftrightarrow> x \<noteq> None \<and> x \<noteq> Some ''''"

definition resolve_project :: "scan_env \<Rightarrow> principal \<Rightarrow> string option \<Rightarrow> (db, project_row) handler" where
  "resolve_project se pr project =
     and_then (if truthy project then fetch (\<lambda>d. load_project (the project) d)
               else and_then (ensure_default_project (pr_workspace_id pr) (sn_project_id se) (sn_now se)) (\<lambda>p. return_value (Some p))) (\<lambda>found.
     case found of
       None \<Rightarrow> raise_error (HTTPException 404)
     | Some p \<Rightarrow>
         and_then (refuse_if (pj_workspace_id p \<noteq> pr_workspace_id pr) 404) (\<lambda>_.
         and_then (fetch (user_can_access_project pr (Some (pj_project_id p)))) (\<lambda>ok.
         and_then (refuse_if (\<not> ok) 404) (\<lambda>_.
         and_then (refuse_if (pj_archived_at p \<noteq> None) 409) (\<lambda>_.
         return_value p)))))"

section \<open>Scan\<close>

text \<open>A write to the job: under a lease it drops the attempt count and must hit the leased row.\<close>

definition update_job :: "string \<Rightarrow> string option \<Rightarrow> job_status \<Rightarrow> job_fields \<Rightarrow> timestamp \<Rightarrow> (db, unit) handler" where
  "update_job job lease status f now =
     (if truthy lease
      then and_then (perform (lease_update job (the lease) (Some status) (f\<lparr>jf_attempts := None\<rparr>) now)) (\<lambda>ok.
           if ok then return_value () else raise_error LeaseLost)
      else change (update_scan_job job status f now))"

definition failed_fields :: "string \<Rightarrow> ustr option \<Rightarrow> job_fields" where
  "failed_fields err message = no_fields\<lparr>jf_attempts := Some 1, jf_error := Some (Some err), jf_progress_message := message\<rparr>"

definition msg_unsupported :: ustr where
  "msg_unsupported = [20225, 19994, 35777, 25454, 26684, 24335, 19981, 21463, 25903, 25345]"

definition msg_evidence_failed :: ustr where
  "msg_evidence_failed = [20225, 19994, 35777, 25454, 35299, 26512, 22833, 36133]"

definition msg_tender_failed :: ustr where
  "msg_tender_failed = [25307, 26631, 25991, 20214, 35299, 26512, 22833, 36133]"

definition msg_done :: ustr where
  "msg_done = [25195, 25551, 23436, 25104]"

definition msg_staged :: ustr where
  "msg_staged = [25991, 20214, 24050, 25509, 25910, 65292, 31561, 24453, 35299, 26512]"

definition msg_parsing :: ustr where
  "msg_parsing = [35299, 26512, 25307, 26631, 25991, 20214, 19982, 20225, 19994, 35777, 25454]"

definition msg_retryable :: ustr where
  "msg_retryable = [22788, 29702, 22833, 36133, 65292, 21487, 37325, 35797]"

text \<open>Every refusal after the directory was made: remove it, fail the job, raise.\<close>

definition reject_scan ::
  "scan_env \<Rightarrow> string \<Rightarrow> string \<Rightarrow> string option \<Rightarrow> string \<Rightarrow> ustr option \<Rightarrow> error \<Rightarrow> (store, 'a) handler" where
  "reject_scan se dir job lease err message e =
     and_then (change (remove_tree dir)) (\<lambda>_.
     and_then (on_db (update_job job lease FAILED (failed_fields err message) (sn_now se))) (\<lambda>_.
     raise_error e))"

text \<open>\<open>save_upload\<close> and \<open>validate_upload_content\<close> under the given name; the digest on success. A file that was
  stored and then refused is still in the directory.\<close>

definition store_file :: "scan_env \<Rightarrow> bool \<Rightarrow> string \<Rightarrow> string \<Rightarrow> upload \<Rightarrow> (store, string) handler" where
  "store_file se inspect dir name u s =
     (case save_upload (nf_sha256 (sn_names se)) u of
        Inl e \<Rightarrow> (Inl e, s)
      | Inr (content, digest) \<Rightarrow>
          (case validate_upload_content (sn_names se) inspect name (sn_view se name content) of
             Inl e \<Rightarrow> (Inl e, put_file dir name content s)
           | Inr _ \<Rightarrow> (Inr digest, put_file dir name content s)))"

definition or_reject :: "(store, 'a) handler \<Rightarrow> (error \<Rightarrow> (store, 'a) handler) \<Rightarrow> (store, 'a) handler" where
  "or_reject m k s = (case m s of (Inl (HTTPException n), s1) \<Rightarrow> k (HTTPException n) s1 | r \<Rightarrow> r)"

definition lstrip_dots :: "string \<Rightarrow> string" where
  "lstrip_dots s = dropWhile (\<lambda>c. c = CHR ''.'') s"

definition file_type :: "scan_env \<Rightarrow> string \<Rightarrow> string" where
  "file_type se name = lstrip_dots (nf_lower (sn_names se) (path_suffix name))"

definition upload_name :: "upload \<Rightarrow> string" where
  "upload_name u = (case up_filename u of None \<Rightarrow> '''' | Some f \<Rightarrow> f)"

definition evidence_target :: "nat \<Rightarrow> upload \<Rightarrow> string" where
  "evidence_target index u = ''evidence-'' @ zfill 3 (decimal index) @ ''-'' @ safe_filename (upload_name u)"

definition tender_target :: "upload \<Rightarrow> string" where
  "tender_target u = ''tender-'' @ safe_filename (upload_name u)"

definition asset_of ::
  "scan_env \<Rightarrow> (string \<times> ustr \<times> ustr option) list \<Rightarrow> nat \<Rightarrow> upload \<Rightarrow> string \<Rightarrow> page list \<Rightarrow> asset" where
  "asset_of se metadata index u digest pages =
     (let asset_id = ''EVD-'' @ zfill 3 (decimal index);
          (cat, until) = (case map_of metadata (upload_name u) of Some m \<Rightarrow> m | None \<Rightarrow> (asc ''UNCLASSIFIED'', None))
      in \<lparr>as_asset_id = asset_id, as_source_id = asset_id, as_filename = upload_name u, as_file_type = file_type se (upload_name u),
          as_sha256 = digest, as_category = map char_of cat, as_valid_until = map_option (map char_of) until,
          as_pages = length pages, as_page_index = page_index pages, as_indexed_at = sn_now se\<rparr>)"

text \<open>The loop over the evidence; it returns the stored files and their pages.\<close>

fun take_evidence ::
  "scan_env \<Rightarrow> (string \<times> ustr \<times> ustr option) list \<Rightarrow> string \<Rightarrow> string \<Rightarrow> string option \<Rightarrow> nat \<Rightarrow> upload list
     \<Rightarrow> (store, (evidence_file \<times> page list) list) handler" where
  "take_evidence se metadata dir job lease index [] = return_value []"
| "take_evidence se metadata dir job lease index (u # us) =
     (if \<not> is_supported (nf_lower (sn_names se)) (up_filename u)
      then reject_scan se dir job lease ''UNSUPPORTED_EVIDENCE_FORMAT'' (Some msg_unsupported) (HTTPException 400)
      else
        and_then (or_reject (store_file se True dir (evidence_target index u) u) (reject_scan se dir job lease ''UPLOAD_REJECTED'' None)) (\<lambda>digest.
        case sn_extract se (evidence_target index u) (up_content u) of
          None \<Rightarrow> reject_scan se dir job lease ''EVIDENCE_EXTRACTION_FAILED'' (Some msg_evidence_failed) (HTTPException 422)
        | Some pages \<Rightarrow>
            let asset = asset_of se metadata index u digest pages;
                marked = map (\<lambda>p. p\<lparr>pg_source_filename := Some (upload_name u), pg_source_id := Some (as_asset_id asset)\<rparr>) pages
            in and_then (take_evidence se metadata dir job lease (Suc index) us) (\<lambda>rest.
               return_value ((\<lparr>ef_path = dir @ ''/'' @ evidence_target index u, ef_asset = asset\<rparr>, marked) # rest))))"

definition source_of_tender :: "scan_env \<Rightarrow> upload \<Rightarrow> string \<Rightarrow> page list \<Rightarrow> source_doc" where
  "source_of_tender se tender digest pages =
     \<lparr>sd_source_id = ''TENDER-001'', sd_role = ''tender'', sd_filename = upload_name tender,
      sd_file_type = file_type se (upload_name tender), sd_sha256 = digest, sd_pages = length pages, sd_page_index = page_index pages\<rparr>"

definition source_of_asset :: "asset \<Rightarrow> source_doc" where
  "source_of_asset a =
     \<lparr>sd_source_id = as_source_id a, sd_role = ''enterprise_evidence'', sd_filename = as_filename a, sd_file_type = as_file_type a,
      sd_sha256 = as_sha256 a, sd_pages = as_pages a, sd_page_index = as_page_index a\<rparr>"

definition scanned_requirements :: "scan_env \<Rightarrow> page list \<Rightarrow> page list \<Rightarrow> evidence_file list \<Rightarrow> requirement list result" where
  "scanned_requirements se tender_pages evidence_pages files =
     (let reqs = extract_requirements tender_pages
      in if evidence_pages \<noteq> [] \<and> files \<noteq> [] then match_evidence (sn_lower se) reqs evidence_pages (Files files) else Inr reqs)"

record scan_request =
  sr_tender :: upload
  sr_evidence :: "upload list"
  sr_company_name :: ustr
  sr_metadata :: "ustr option"
  sr_project_id :: "string option"
  sr_job_id :: "string option"
  sr_lease :: "string option"
  sr_parent_run_id :: "string option"

definition scan_state_doc ::
  "scan_env \<Rightarrow> scan_request \<Rightarrow> string \<Rightarrow> source_doc list \<Rightarrow> asset list \<Rightarrow> requirement list \<Rightarrow> page list \<Rightarrow> page list \<Rightarrow> research_state" where
  "scan_state_doc se q run sources assets reqs tender_pages evidence_pages =
     advance_state ((initial_research_state run (sn_now se))
       \<lparr>rs_company_name := Some (sr_company_name q), rs_source_documents := sources, rs_evidence_assets := assets,
        rs_evidence_matrix := reqs, rs_scan_quality := Some (scan_quality tender_pages evidence_pages)\<rparr>) ''AUDIT'' (sn_now se)"

text \<open>The document that is published; the counts are computed when it is stored.\<close>

definition scanned_run ::
  "scan_env \<Rightarrow> principal \<Rightarrow> scan_request \<Rightarrow> string \<Rightarrow> string \<Rightarrow> string \<Rightarrow> run_doc option \<Rightarrow> string \<Rightarrow> string list
     \<Rightarrow> (evidence_file \<times> page list) list \<Rightarrow> page list \<Rightarrow> requirement list \<Rightarrow> run_doc" where
  "scanned_run se pr q run job project parent digest duplicates evidence tender_pages reqs =
     (let files = map fst evidence; assets = map ef_asset files; evidence_pages = concat (map snd evidence);
          sources = source_of_tender se (sr_tender q) digest tender_pages # map source_of_asset assets;
          st = scan_state_doc se q run sources assets reqs tender_pages evidence_pages
      in \<lparr>rn_run_id = run, rn_created_at = sn_now se, rn_updated_at = sn_now se, rn_status = rs_status st, rn_archived_at = None,
          rn_workspace_id = pr_workspace_id pr, rn_owner_id = pr_user_id pr, rn_parent_run_id = sr_parent_run_id q,
          rn_version_number = (case parent of Some r \<Rightarrow> rn_version_number r + 1 | None \<Rightarrow> 1), rn_job_id = Some job,
          rn_assignee_id = Some (pr_user_id pr), rn_reviewer_id = None, rn_tags = [], rn_favorite = False,
          rn_project_id = Some project, rn_tender_sha256 = Some digest, rn_duplicate_run_ids = duplicates,
          rn_tender_filename = upload_name (sr_tender q),
          rn_tender_path = sn_upload_dir se @ ''/'' @ run @ ''/'' @ tender_target (sr_tender q),
          rn_evidence_files = files, rn_state = Some st, rn_requirements = reqs,
          rn_review = \<lparr>rv_items = [], rv_updated_at = sn_now se\<rparr>, rn_source_documents = sources, rn_evidence_assets = assets,
          rn_decision = None, rn_requirement_count = 0, rn_unresolved_count = 0, rn_blocker_count = 0, rn_fatal_risk_count = 0,
          rn_revision = 1\<rparr>)"

text \<open>Fence, run, link, completion and audit event are one transaction.\<close>

definition publish_run :: "scan_env \<Rightarrow> principal \<Rightarrow> string \<Rightarrow> string option \<Rightarrow> nat \<Rightarrow> run_doc \<Rightarrow> (db, unit) handler" where
  "publish_run se pr job lease files run =
     atomically
       (and_then (fence_publication job lease (sn_now se)) (\<lambda>_.
        and_then (save_run (en_client (sn_env se)) (sn_now se) run None) (\<lambda>_.
        and_then (change (link_scan_job job (rn_run_id run))) (\<lambda>_.
        and_then (update_job job lease COMPLETED (no_fields\<lparr>jf_attempts := Some 1, jf_progress_current := Some (files + 2),
             jf_progress_total := Some (files + 2), jf_progress_message := Some msg_done\<rparr>) (sn_now se)) (\<lambda>_.
        change (audit (sn_env se) 0 pr ''RUN_CREATED'' (Some (rn_run_id run))
          (JObj [(''filename'', jstr (rn_tender_filename run)), (''version_number'', JInt (rn_version_number run))])))))))"

definition publish_or_clean :: "scan_env \<Rightarrow> principal \<Rightarrow> string \<Rightarrow> string \<Rightarrow> string option \<Rightarrow> nat \<Rightarrow> run_doc \<Rightarrow> (store, unit) handler" where
  "publish_or_clean se pr dir job lease files run s =
     (case on_db (publish_run se pr job lease files run) s of
        (Inl LeaseLost, s1) \<Rightarrow> (Inl LeaseLost, remove_tree dir s1)
      | r \<Rightarrow> r)"

text \<open>From the stored tender on: duplicates, evidence, extraction, rules, publication.\<close>

definition scan_files ::
  "scan_env \<Rightarrow> principal \<Rightarrow> scan_request \<Rightarrow> (string \<times> ustr \<times> ustr option) list \<Rightarrow> string \<Rightarrow> string \<Rightarrow> string \<Rightarrow> string
     \<Rightarrow> run_doc option \<Rightarrow> string \<Rightarrow> (store, run_view) handler" where
  "scan_files se pr q metadata dir run job project parent digest =
     and_then (fetch (\<lambda>s. find_duplicate_run_ids (pr_workspace_id pr) digest (st_db s))) (\<lambda>duplicates.
     and_then (take_evidence se metadata dir job (sr_lease q) 1 (sr_evidence q)) (\<lambda>evidence.
     case sn_extract se (tender_target (sr_tender q)) (up_content (sr_tender q)) of
       None \<Rightarrow> reject_scan se dir job (sr_lease q) ''TENDER_EXTRACTION_FAILED'' (Some msg_tender_failed) (HTTPException 422)
     | Some pages0 \<Rightarrow>
         let pages = map (\<lambda>p. p\<lparr>pg_source_id := Some ''TENDER-001''\<rparr>) pages0
         in and_then (attempt (\<lambda>_. scanned_requirements se pages (concat (map snd evidence)) (map fst evidence))) (\<lambda>reqs.
            let doc = scanned_run se pr q run job project parent digest duplicates evidence pages reqs
            in and_then (publish_or_clean se pr dir job (sr_lease q) (length evidence) doc) (\<lambda>_.
               return_value (public_run doc)))))"

definition named_uploads :: "upload list \<Rightarrow> upload list" where
  "named_uploads us = filter (\<lambda>u. upload_name u \<noteq> '''') us"

definition load_parent :: "scan_env \<Rightarrow> principal \<Rightarrow> string option \<Rightarrow> db \<Rightarrow> run_doc option result" where
  "load_parent se pr parent d =
     (if truthy parent then bind_result (require_scoped (en_client (sn_env se)) (the parent) pr d) (\<lambda>r. Inr (Some r)) else Inr None)"

definition open_job :: "scan_env \<Rightarrow> principal \<Rightarrow> string option \<Rightarrow> string option \<Rightarrow> (db, string) handler" where
  "open_job se pr queued lease =
     (if truthy queued
      then and_then (update_job (the queued) lease RUNNING no_fields (sn_now se)) (\<lambda>_. return_value (the queued))
      else and_then (change (create_scan_job (sn_job_id se) (pr_workspace_id pr) None RUNNING None (sn_now se))) (\<lambda>_.
           return_value (sn_job_id se)))"

definition scan_run_id :: "scan_env \<Rightarrow> scan_request \<Rightarrow> string" where
  "scan_run_id se q = (if truthy (sr_job_id q) \<and> truthy (sr_lease q)
     then attempt_run_id (sn_uuid5 se) (the (sr_job_id q)) (the (sr_lease q)) else sn_run_id se)"

definition scan_dir :: "scan_env \<Rightarrow> scan_request \<Rightarrow> string" where
  "scan_dir se q = sn_upload_dir se @ ''/'' @ scan_run_id se q"

definition scan_job_id :: "scan_env \<Rightarrow> scan_request \<Rightarrow> string" where
  "scan_job_id se q = (if truthy (sr_job_id q) then the (sr_job_id q) else sn_job_id se)"

definition create_run :: "scan_env \<Rightarrow> principal \<Rightarrow> scan_request \<Rightarrow> (store, run_view) handler" where
  "create_run se pr q0 =
     (let q = q0\<lparr>sr_evidence := named_uploads (sr_evidence q0)\<rparr>
      in and_then (attempt (\<lambda>_. validate_intake (nf_utf8_length (sn_names se)) (sr_tender q) (sr_evidence q) (sr_company_name q) (sr_metadata q))) (\<lambda>_.
         and_then (on_db (resolve_project se pr (sr_project_id q))) (\<lambda>project.
         and_then (on_db (attempt (load_parent se pr (sr_parent_run_id q)))) (\<lambda>parent.
         and_then (refuse_if (\<not> is_supported (nf_lower (sn_names se)) (up_filename (sr_tender q))) 400) (\<lambda>_.
         and_then (attempt (\<lambda>_. parse_evidence_metadata (sn_loads se) (sr_metadata q))) (\<lambda>metadata.
         let run = scan_run_id se q0; dir = scan_dir se q0
         in and_then (on_db (open_job se pr (sr_job_id q) (sr_lease q))) (\<lambda>job.
            and_then (make_dir dir) (\<lambda>_.
            and_then (or_reject (store_file se True dir (tender_target (sr_tender q)) (sr_tender q))
                 (reject_scan se dir job (sr_lease q) ''UPLOAD_REJECTED'' None)) (\<lambda>digest.
            scan_files se pr q metadata dir run job (pj_project_id project) parent digest)))))))))"

section \<open>New versions\<close>

definition rescan_run :: "scan_env \<Rightarrow> principal \<Rightarrow> run_doc \<Rightarrow> scan_request \<Rightarrow> (store, run_view) handler" where
  "rescan_run se pr parent q =
     and_then (create_run se pr (q\<lparr>sr_project_id := (if truthy (sr_project_id q) then sr_project_id q else rn_project_id parent),
        sr_job_id := None, sr_lease := None, sr_parent_run_id := None\<rparr>)) (\<lambda>created.
     and_then (on_db (attempt (require (en_client (sn_env se)) (su_run_id (rw_summary created))))) (\<lambda>child0.
     let child = child0\<lparr>rn_parent_run_id := Some (rn_run_id parent), rn_version_number := rn_version_number parent + 1\<rparr>
     in and_then (on_db (save_run (en_client (sn_env se)) (sn_now se) child None)) (\<lambda>_.
        and_then (on_db (change (audit (sn_env se) 1 pr ''RUN_RESCANNED'' (Some (rn_run_id child))
             (JObj [(''parent_run_id'', jstr (rn_run_id parent)), (''version_number'', JInt (rn_version_number child))])))) (\<lambda>_.
        return_value (public_run child)))))"

section \<open>Queued scans\<close>

text \<open>The files of a job in its staging directory; each is stored and checked without counting PDF pages.\<close>

fun stage_evidence :: "scan_env \<Rightarrow> string \<Rightarrow> nat \<Rightarrow> upload list \<Rightarrow> (store, (string \<times> string) list) handler" where
  "stage_evidence se dir index [] = return_value []"
| "stage_evidence se dir index (u # us) =
     and_then (refuse_if (\<not> is_supported (nf_lower (sn_names se)) (up_filename u)) 400) (\<lambda>_.
     and_then (store_file se False dir (evidence_target index u) u) (\<lambda>_.
     and_then (stage_evidence se dir (Suc index) us) (\<lambda>rest.
     return_value ((dir @ ''/'' @ evidence_target index u, upload_name u) # rest))))"

definition or_remove :: "string \<Rightarrow> (store, 'a) handler \<Rightarrow> (store, 'a) handler" where
  "or_remove dir m s = (case m s of (Inl e, s1) \<Rightarrow> (Inl e, remove_tree dir s1) | r \<Rightarrow> r)"

definition stage_job :: "scan_env \<Rightarrow> principal \<Rightarrow> scan_request \<Rightarrow> (store, string) handler" where
  "stage_job se pr q0 =
     (let q = q0\<lparr>sr_evidence := named_uploads (sr_evidence q0)\<rparr>; tender = sr_tender q; job = sn_job_id se;
          dir = sn_staging_dir se @ ''/'' @ job
      in and_then (attempt (\<lambda>_. validate_intake (nf_utf8_length (sn_names se)) tender (sr_evidence q) (sr_company_name q) (sr_metadata q))) (\<lambda>_.
         and_then (attempt (\<lambda>_. parse_evidence_metadata (sn_loads se) (sr_metadata q))) (\<lambda>_.
         and_then (on_db (attempt (load_parent se pr (sr_parent_run_id q)))) (\<lambda>parent.
         let project = (case parent of None \<Rightarrow> sr_project_id q
               | Some r \<Rightarrow> if truthy (sr_project_id q) then sr_project_id q else rn_project_id r)
         in and_then (on_db (resolve_project se pr project)) (\<lambda>_.
            and_then (refuse_if (\<not> is_supported (nf_lower (sn_names se)) (up_filename tender)) 400) (\<lambda>_.
            and_then (make_dir dir) (\<lambda>_.
            and_then (or_remove dir
                 (and_then (store_file se False dir (tender_target tender) tender) (\<lambda>_. stage_evidence se dir 1 (sr_evidence q)))) (\<lambda>records.
            and_then (on_db (change (stage_writes job (pr_workspace_id pr)
                 \<lparr>jp_tender_path = dir @ ''/'' @ tender_target tender, jp_tender_filename = upload_name tender, jp_evidence = records,
                  jp_company_name = sr_company_name q, jp_evidence_metadata = sr_metadata q, jp_user_id = pr_user_id pr,
                  jp_role = pr_role pr, jp_project_id = project, jp_parent_run_id = sr_parent_run_id q\<rparr>
                 (no_fields\<lparr>jf_progress_total := Some (max 2 (length records + 2)), jf_progress_message := Some msg_staged\<rparr>)
                 (sn_now se) (sn_now se)))) (\<lambda>_.
            and_then (on_db (change (audit (sn_env se) 0 pr ''SCAN_JOB_QUEUED'' None
                 (JObj [(''job_id'', jstr job), (''filename'', jstr (upload_name tender))])))) (\<lambda>_.
            return_value job))))))))))"

definition path_parent :: "string \<Rightarrow> string" where
  "path_parent s = rev (tl (dropWhile (\<lambda>c. c \<noteq> CHR ''/'') (rev s)))"

definition path_file :: "string \<Rightarrow> string" where
  "path_file s = rev (takeWhile (\<lambda>c. c \<noteq> CHR ''/'') (rev s))"

text \<open>A staged file that is gone raises \<open>FileNotFoundError\<close>.\<close>

definition open_staged :: "store \<Rightarrow> string \<times> string \<Rightarrow> upload result" where
  "open_staged s r =
     (case r of (path, filename) \<Rightarrow>
        case st_dirs s (path_parent path) of
          None \<Rightarrow> Inl RuntimeError
        | Some files \<Rightarrow> (case map_of files (path_file path) of
            None \<Rightarrow> Inl RuntimeError
          | Some content \<Rightarrow> Inr \<lparr>up_filename = Some filename, up_content = content\<rparr>))"

definition error_name :: "error \<Rightarrow> string" where
  "error_name e = (case e of HTTPException _ \<Rightarrow> ''HTTPException'' | LeaseLost \<Rightarrow> ''LeaseLost'' | IntegrityError \<Rightarrow> ''IntegrityError''
     | TypeError \<Rightarrow> ''TypeError'' | ValueError \<Rightarrow> ''ValueError'' | KeyError \<Rightarrow> ''KeyError'' | AttributeError \<Rightarrow> ''AttributeError''
     | IndexError \<Rightarrow> ''IndexError'' | RuntimeError \<Rightarrow> ''OSError'' | InvalidToken \<Rightarrow> ''InvalidToken'')"

text \<open>The scan of a claimed job, from its staged files.\<close>

definition run_payload :: "scan_env \<Rightarrow> scan_job \<Rightarrow> job_payload \<Rightarrow> string \<Rightarrow> (store, unit) handler" where
  "run_payload se job p tok =
     and_then (attempt (\<lambda>s. open_staged s (jp_tender_path p, jp_tender_filename p))) (\<lambda>tender.
     and_then (attempt (\<lambda>s. map_result (open_staged s) (jp_evidence p))) (\<lambda>evidence.
     and_then (create_run se \<lparr>pr_workspace_id = sj_workspace_id job, pr_user_id = jp_user_id p, pr_role = jp_role p, pr_permissions = None\<rparr>
          \<lparr>sr_tender = tender, sr_evidence = evidence, sr_company_name = jp_company_name p, sr_metadata = jp_evidence_metadata p,
           sr_project_id = jp_project_id p, sr_job_id = Some (sj_job_id job), sr_lease = Some tok, sr_parent_run_id = jp_parent_run_id p\<rparr>) (\<lambda>_.
     change (remove_tree (path_parent (jp_tender_path p))))))"

definition settle_failure :: "scan_env \<Rightarrow> string \<Rightarrow> string \<Rightarrow> job_payload option \<Rightarrow> error \<Rightarrow> store \<Rightarrow> store" where
  "settle_failure se job tok payload e s =
     (if e = LeaseLost
      then (case (load_scan_job job (st_db s), payload) of
              (Some r, Some p) \<Rightarrow> if sj_status r = CANCELLED then remove_tree (path_parent (jp_tender_path p)) s else s
            | _ \<Rightarrow> s)
      else s\<lparr>st_db := snd (lease_update job tok (Some FAILED)
               (no_fields\<lparr>jf_error := Some (Some (error_name e)), jf_progress_message := Some msg_retryable\<rparr>) (sn_now se) (st_db s))\<rparr>)"

definition process_claimed :: "scan_env \<Rightarrow> scan_job \<Rightarrow> string \<Rightarrow> store \<Rightarrow> store" where
  "process_claimed se job tok s =
     (let n = (case sj_payload_json job of None \<Rightarrow> 0 | Some p \<Rightarrow> length (jp_evidence p));
          s1 = s\<lparr>st_db := snd (lease_update (sj_job_id job) tok None (no_fields\<lparr>jf_progress_total := Some (max 2 (n + 2)),
                  jf_progress_current := Some 1, jf_progress_message := Some msg_parsing\<rparr>) (sn_now se) (st_db s))\<rparr>
      in case (case sj_payload_json job of None \<Rightarrow> raise_error KeyError s1 | Some p \<Rightarrow> run_payload se job p tok s1) of
           (Inr _, s2) \<Rightarrow> s2
         | (Inl e, s2) \<Rightarrow> settle_failure se (sj_job_id job) tok (sj_payload_json job) e s2)"

definition process_job :: "scan_env \<Rightarrow> string \<Rightarrow> string option \<Rightarrow> store \<Rightarrow> store" where
  "process_job se job lease s =
     (case lease of
        None \<Rightarrow>
          (case claim (Some job) (sn_token se) (sn_now se) (st_db s) of
             (None, d) \<Rightarrow> s\<lparr>st_db := d\<rparr>
           | (Some r, d) \<Rightarrow> process_claimed se r (sn_token se) (s\<lparr>st_db := d\<rparr>))
      | Some tok \<Rightarrow>
          (case load_scan_job job (st_db s) of
             None \<Rightarrow> s
           | Some r \<Rightarrow>
               if sj_lease_token r \<noteq> Some tok \<or> sj_status r \<noteq> RUNNING \<or> sj_cancel_requested r then s
               else process_claimed se r tok s))"

text \<open>One turn of the worker outside production: claim the oldest job and run it.\<close>

definition run_one :: "scan_env \<Rightarrow> store \<Rightarrow> string option \<times> store" where
  "run_one se s =
     (case claim None (sn_token se) (sn_now se) (st_db s) of
        (None, d) \<Rightarrow> (None, s\<lparr>st_db := d\<rparr>)
      | (Some r, d) \<Rightarrow> (Some (sj_job_id r), process_job se (sj_job_id r) (sj_lease_token r) (s\<lparr>st_db := d\<rparr>)))"

section \<open>Triples of the scan\<close>

lemma keeps_on_db [keeps_intros]: "keeps f m \<Longrightarrow> keeps (\<lambda>s. f (st_db s)) (on_db m)" "keeps st_dirs (on_db m)"
  by (auto simp: keeps_def on_db_def split: prod.splits) (metis snd_conv)

lemma triple_on_db:
  assumes "\<And>s. triple (\<lambda>d. d = st_db s \<and> P s) m (\<lambda>x d. Q x (s\<lparr>st_db := d\<rparr>)) (\<lambda>e d. E e (s\<lparr>st_db := d\<rparr>))"
  shows "triple P (on_db m) Q E"
proof (rule tripleI)
  fix s x t assume "P s" "on_db m s = (Inr x, t)"
  then obtain d where "m (st_db s) = (Inr x, d)" "t = s\<lparr>st_db := d\<rparr>" by (auto simp: on_db_def split: prod.splits)
  with tripleD(1) [OF assms [of s], of "st_db s" x d] \<open>P s\<close> show "Q x t" by simp
next
  fix s e t assume "P s" "on_db m s = (Inl e, t)"
  then obtain d where "m (st_db s) = (Inl e, d)" "t = s\<lparr>st_db := d\<rparr>" by (auto simp: on_db_def split: prod.splits)
  with tripleD(2) [OF assms [of s], of "st_db s" e d] \<open>P s\<close> show "E e t" by simp
qed

text \<open>What a scan has decided before anyone looked at it: no status but open ones, a pass suggested only with a
  citation, no review item, no decision.\<close>

definition undecided :: "requirement \<Rightarrow> bool" where
  "undecided q \<longleftrightarrow> rq_status q \<in> {NEEDS_REVIEW, UNKNOWN} \<and> (rq_suggested_status q = Some PASS \<longrightarrow> rq_evidence q \<noteq> [])"

definition fresh_run :: "run_doc \<Rightarrow> bool" where
  "fresh_run run \<longleftrightarrow> list_all undecided (rn_requirements run) \<and> rv_items (rn_review run) = [] \<and> rn_decision run = None
     \<and> rn_archived_at run = None \<and> rn_revision run = 1"

definition scan_of :: "principal \<Rightarrow> string \<Rightarrow> run_doc \<Rightarrow> bool" where
  "scan_of pr run doc \<longleftrightarrow> fresh_run doc \<and> rn_run_id doc = run \<and> rn_workspace_id doc = pr_workspace_id pr
     \<and> rn_owner_id doc = pr_user_id pr"

lemma scanned_requirements_undecided:
  "\<exists>qs. scanned_requirements se tender_pages evidence_pages files = Inr qs \<and> list_all undecided qs"
proof (cases "evidence_pages \<noteq> [] \<and> files \<noteq> []")
  case True
  let ?m = "match_one (sn_lower se) (filter eligible evidence_pages) (Files files)"
  have "\<exists>qs. map_result ?m (extract_requirements tender_pages) = Inr qs"
    using True by (intro map_result_total match_one_total) simp
  then obtain qs where qs: "map_result ?m (extract_requirements tender_pages) = Inr qs" by blast
  then have m: "map ?m (extract_requirements tender_pages) = map Inr qs" by (simp add: map_result_Inr)
  have "undecided q" if "q \<in> set qs" for q
  proof -
    from that m obtain q0 where "q0 \<in> set (extract_requirements tender_pages)" "?m q0 = Inr q"
      by (metis image_iff image_set)
    then show ?thesis
      using match_one_verdict [of "sn_lower se" evidence_pages "Files files" q0 q] extracted_fresh
      by (auto simp: undecided_def machine_verdict_def)
  qed
  with True qs show ?thesis by (auto simp: scanned_requirements_def match_evidence_def list_all_iff)
next
  case False
  then show ?thesis
    using extracted_fresh by (fastforce simp: scanned_requirements_def list_all_iff undecided_def)
qed

lemma scanned_run_fresh:
  "list_all undecided reqs \<Longrightarrow> fresh_run (scanned_run se pr q run job project parent digest dups evidence pages reqs)"
  by (simp add: fresh_run_def scanned_run_def Let_def)

lemma scanned_run_fields [simp]:
  "rn_run_id (scanned_run se pr q run job project parent digest dups evidence pages reqs) = run"
  "rn_state (scanned_run se pr q run job project parent digest dups evidence pages reqs) \<noteq> None"
  "rn_workspace_id (scanned_run se pr q run job project parent digest dups evidence pages reqs) = pr_workspace_id pr"
  "rn_owner_id (scanned_run se pr q run job project parent digest dups evidence pages reqs) = pr_user_id pr"
  by (simp_all add: scanned_run_def Let_def)

lemma save_chunks_error: "save_chunks limit w cs = Inl e \<Longrightarrow> e = HTTPException 413"
  by (induction limit w cs rule: save_chunks.induct) (auto split: if_splits)

lemma store_file_error: "store_file se inspect dir name u s = (Inl e, t) \<Longrightarrow> \<exists>n. e = HTTPException n"
  by (auto simp: store_file_def save_upload_def validate_upload_content_def Let_def bind_result_def
      dest!: save_chunks_error split: sum.splits if_splits)

lemma store_file_state:
  "store_file se inspect dir name u s = (r, t) \<Longrightarrow> t = s \<or> (\<exists>content. t = put_file dir name content s)"
  by (auto simp: store_file_def split: sum.splits)

text \<open>
  The contract of a scan in its directory: \<open>I\<close> holds while files are stored, \<open>J\<close> once the directory is gone,
  \<open>E e\<close> when the scan ends with \<open>e\<close>, \<open>Q run\<close> when \<open>run\<close> was published. The provider says that storing a file
  keeps \<open>I\<close>, what a refusal and a publication lead to; the scan as a whole follows.
\<close>

locale scan_steps =
  fixes I J :: "store \<Rightarrow> bool" and E :: "error \<Rightarrow> store \<Rightarrow> bool" and Q :: "run_doc \<Rightarrow> store \<Rightarrow> bool"
    and se :: scan_env and pr :: principal and dir job :: string and lease :: "string option"
  assumes put: "I s \<Longrightarrow> I (put_file dir name content s)"
    and removed: "I s \<Longrightarrow> J (remove_tree dir s)"
    and failed: "triple J (on_db (update_job job lease FAILED (failed_fields err message) (sn_now se)))
      (\<lambda>_ t. \<forall>e. e \<noteq> LeaseLost \<longrightarrow> E e t) E"
    and published: "rn_state run \<noteq> None \<Longrightarrow> rn_revision run = 1 \<Longrightarrow>
      triple I (publish_or_clean se pr dir job lease n run) (\<lambda>_. Q run) E"
begin

lemma reject: "e \<noteq> LeaseLost \<Longrightarrow> triple I (reject_scan se dir job lease err message e) R E"
  unfolding reject_scan_def
  by (rule triple_and_then [where R = "\<lambda>_. J"], rule triple_basic(4), erule removed,
      rule triple_and_then, rule failed, rule triple_basic(2), simp)

lemma stored:
  "triple I (or_reject (store_file se inspect dir name u) (reject_scan se dir job lease err message)) (\<lambda>_. I) E"
proof (rule tripleI)
  fix s x t assume "I s" and r: "or_reject (store_file se inspect dir name u) (reject_scan se dir job lease err message) s = (Inr x, t)"
  then have "store_file se inspect dir name u s = (Inr x, t)"
    by (auto simp: or_reject_def reject_scan_def and_then_def raise_error_def split: prod.splits sum.splits error.splits)
  with \<open>I s\<close> show "I t" by (auto dest!: store_file_state intro: put)
next
  fix s e t assume "I s" and r: "or_reject (store_file se inspect dir name u) (reject_scan se dir job lease err message) s = (Inl e, t)"
  then obtain n t1 where s1: "store_file se inspect dir name u s = (Inl (HTTPException n), t1)"
    and t: "(reject_scan se dir job lease err message (HTTPException n) :: (store, string) handler) t1 = (Inl e, t)"
    by (auto simp: or_reject_def split: prod.splits sum.splits error.splits dest!: store_file_error)
  from s1 \<open>I s\<close> have "I t1" by (auto dest!: store_file_state intro: put)
  then show "E e t" by (rule tripleD(2) [OF reject _ t, rotated]) simp
qed

lemma evidence_taken: "triple I (take_evidence se metadata dir job lease k us) (\<lambda>_. I) E"
proof (induction us arbitrary: k)
  case Nil
  show ?case by (simp add: triple_basic)
next
  case (Cons u us)
  show ?case
    by (auto simp: Let_def split: option.split intro!: reject triple_and_then [OF stored] triple_and_then [OF Cons.IH] triple_basic)
qed

lemma scanned:
  assumes "sr_lease q = lease"
  shows "triple I (scan_files se pr q metadata dir run job project parent digest)
    (\<lambda>v t. \<exists>doc. v = public_run doc \<and> scan_of pr run doc \<and> Q doc t) E"
proof -
  have tail: "triple I (and_then (attempt (\<lambda>_. scanned_requirements se pages evidence_pages files)) (\<lambda>reqs.
        and_then (publish_or_clean se pr dir job lease n (scanned_run se pr q run job project parent digest dups evidence pages reqs)) (\<lambda>_.
        return_value (public_run (scanned_run se pr q run job project parent digest dups evidence pages reqs)))))
      (\<lambda>v t. \<exists>doc. v = public_run doc \<and> scan_of pr run doc \<and> Q doc t) E"
    for pages evidence_pages files n dups evidence
  proof -
    obtain reqs where reqs: "scanned_requirements se pages evidence_pages files = Inr reqs" "list_all undecided reqs"
      using scanned_requirements_undecided by blast
    let ?doc = "scanned_run se pr q run job project parent digest dups evidence pages reqs"
    have fresh: "fresh_run ?doc" using reqs(2) by (rule scanned_run_fresh)
    show ?thesis
    proof (rule triple_and_then [where R = "\<lambda>x t. x = reqs \<and> I t"], goal_cases)
      case 1
      show ?case by (rule triple_basic) (simp add: reqs)
    next
      case (2 x)
      have "triple I (and_then (publish_or_clean se pr dir job lease n ?doc) (\<lambda>_. return_value (public_run ?doc)))
          (\<lambda>v t. \<exists>doc. v = public_run doc \<and> scan_of pr run doc \<and> Q doc t) E"
        using fresh by (intro triple_and_then [OF published] triple_basic) (auto simp: fresh_run_def scan_of_def)
      then show ?case by (auto simp: triple_def)
    qed
  qed
  show ?thesis
    unfolding scan_files_def assms Let_def
    by (intro triple_and_then [where R = "\<lambda>_. I"] triple_basic evidence_taken)
      (auto split: option.split intro: reject tail)
qed

end


section \<open>Publication\<close>

text \<open>The row of a leased job that nobody cancelled, and what the operations of a scan do to it.\<close>

definition leased_row :: "string \<Rightarrow> string \<Rightarrow> (scan_job \<Rightarrow> bool) \<Rightarrow> db \<Rightarrow> bool" where
  "leased_row job tok C d \<longleftrightarrow> distinct (map sj_job_id (scan_jobs d))
     \<and> (\<exists>r. load_scan_job job d = Some r \<and> sj_lease_token r = Some tok \<and> \<not> sj_cancel_requested r \<and> C r)"

lemma leased_row_update:
  assumes "leased_row job tok C d" and "scan_jobs d' = sql_update P f (scan_jobs d)"
    and "\<And>r. P r \<Longrightarrow> sj_job_id (f r) = sj_job_id r \<and> sj_lease_token (f r) = sj_lease_token r \<and> sj_cancel_requested (f r) = sj_cancel_requested r"
    and "\<And>r. sj_job_id r = job \<Longrightarrow> sj_lease_token r = Some tok \<Longrightarrow> \<not> sj_cancel_requested r \<Longrightarrow> C r \<Longrightarrow> C' (if P r then f r else r)"
  shows "leased_row job tok C' d'"
proof -
  from assms(1) obtain r where r: "load_scan_job job d = Some r" "sj_lease_token r = Some tok" "\<not> sj_cancel_requested r" "C r"
    by (auto simp: leased_row_def)
  then have "sj_job_id r = job" by (auto simp: load_scan_job_def dest: sql_first_Some)
  moreover have "load_scan_job job d' = Some (if P r then f r else r)"
    using r(1) assms(2,3) sql_first_update [of P sj_job_id f job "scan_jobs d"] by (simp add: load_scan_job_def)
  moreover have "map sj_job_id (scan_jobs d') = map sj_job_id (scan_jobs d)"
    using assms(2,3) by (simp add: map_sql_update)
  ultimately show ?thesis
    using r assms(1,3) assms(4) [of r] by (auto simp: leased_row_def split: if_splits)
qed

lemma leased_row_same: "scan_jobs d' = scan_jobs d \<Longrightarrow> leased_row job tok C d \<Longrightarrow> leased_row job tok C d'"
  by (simp add: leased_row_def load_scan_job_def)

lemma leased_row_weaken: "leased_row job tok C d \<Longrightarrow> (\<And>r. C r \<Longrightarrow> C' r) \<Longrightarrow> leased_row job tok C' d"
  by (auto simp: leased_row_def)

abbreviation (input) running :: "scan_job \<Rightarrow> bool" where
  "running r \<equiv> sj_status r = RUNNING"

lemma running_holds:
  assumes "leased_row job tok running d"
  shows "sql_count (holds_lease job (Some tok)) (scan_jobs d) = 1"
proof -
  from assms obtain r where "sql_first (\<lambda>r. sj_job_id r = job) (scan_jobs d) = Some r"
    "sj_lease_token r = Some tok" "\<not> sj_cancel_requested r" "running r" "distinct (map sj_job_id (scan_jobs d))"
    by (auto simp: leased_row_def load_scan_job_def)
  then show ?thesis
    using sql_count_key [of sj_job_id "scan_jobs d" job "\<lambda>r. running r \<and> \<not> sj_cancel_requested r \<and> sj_lease_token r = Some tok"]
    by (simp add: holds_lease_def [abs_def])
qed

lemma lease_update_row:
  assumes "leased_row job tok running d" and "jf_cancel_requested f = None"
  shows "fst (lease_update job tok status f now d)"
    and "leased_row job tok (\<lambda>r. sj_status r = keep status RUNNING) (snd (lease_update job tok status f now d))"
proof -
  show "fst (lease_update job tok status f now d)" using running_holds [OF assms(1)] by (simp add: lease_update_def)
  show "leased_row job tok (\<lambda>r. sj_status r = keep status RUNNING) (snd (lease_update job tok status f now d))"
    by (rule leased_row_update [OF assms(1)], simp add: lease_update_def) (auto simp: assms(2) holds_lease_def)
qed

lemma scan_jobs_audit [simp]: "scan_jobs (audit en k pr ty run payload d) = scan_jobs d"
  by (simp add: audit_def record_audit_event_def Let_def)

lemma update_job_keeps [keeps_intros]:
  "keeps runs (update_job job lease st f now)" "keeps audit_events (update_job job lease st f now)"
  by (auto simp: update_job_def lease_update_def update_scan_job_def intro!: keeps_intros)

lemma leased_update_job:
  assumes "jf_cancel_requested f = None" and "tok \<noteq> ''''"
  shows "triple (leased_row job tok running) (update_job job (Some tok) status f now)
    (\<lambda>_. leased_row job tok (\<lambda>r. sj_status r = status)) E"
  using lease_update_row [of job tok _ "f\<lparr>jf_attempts := None\<rparr>" "Some status" now] assms
  by (auto simp: triple_def update_job_def truthy_def and_then_def perform_def return_value_def raise_error_def)

text \<open>A publication under a lease: with the lease it goes through and ends the lease; without it nothing is written.\<close>

lemma publish_run_error:
  assumes "publish_run se pr job lease n run d = (Inl e, d')" and "rn_state run \<noteq> None"
  shows "e = LeaseLost \<and> d' = d"
proof -
  obtain row where "run_to_storage (en_client (sn_env se)) run = Inr row" using run_to_storage_Some assms(2) by blast
  with assms(1) show ?thesis
    by (auto simp: publish_run_def atomically_def and_then_def fence_publication_def save_run_def change_def update_job_def
        perform_def return_value_def raise_error_def Let_def split: prod.splits sum.splits if_splits)
qed

lemma leased_publish:
  assumes "rn_state run \<noteq> None" and "tok \<noteq> ''''"
  shows "triple (leased_row job tok running) (publish_run se pr job (Some tok) n run)
    (\<lambda>_. leased_row job tok (\<lambda>r. sj_status r = COMPLETED \<and> sj_run_id r = Some (rn_run_id run))) (\<lambda>_ _. False)"
proof -
  let ?R = "leased_row job tok running"
  let ?L = "leased_row job tok (\<lambda>r. running r \<and> sj_run_id r = Some (rn_run_id run))"
  let ?D = "leased_row job tok (\<lambda>r. sj_status r = COMPLETED \<and> sj_run_id r = Some (rn_run_id run))"
  obtain row where row: "run_to_storage (en_client (sn_env se)) run = Inr row" using run_to_storage_Some assms(1) by blast
  have fence: "triple ?R (fence_publication job (Some tok) (sn_now se)) (\<lambda>_. ?R) (\<lambda>_ _. False)"
  proof -
    have "?R (d\<lparr>scan_jobs := sql_update (holds_lease job (Some tok)) (\<lambda>r. r\<lparr>sj_updated_at := sn_now se\<rparr>) (scan_jobs d)\<rparr>)" if "?R d" for d
      by (rule leased_row_update [OF that], simp) auto
    then show ?thesis using assms(2) by (auto simp: triple_def fence_publication_def running_holds)
  qed
  have save: "triple ?R (save_run (en_client (sn_env se)) (sn_now se) run None) (\<lambda>_. ?R) (\<lambda>_ _. False)"
    using row by (auto simp: triple_def save_run_def Let_def intro: leased_row_same [rotated])
  have link: "triple ?R (change (link_scan_job job (rn_run_id run))) (\<lambda>_. ?L) (\<lambda>_ _. False)"
    by (intro triple_basic) (rule leased_row_update [where C = running], assumption, simp add: link_scan_job_def, auto)
  have completed: "triple ?L (update_job job (Some tok) COMPLETED f now) (\<lambda>_. ?D) (\<lambda>_ _. False)" if "jf_cancel_requested f = None" for f now
  proof -
    have "?D (snd (lease_update job tok (Some COMPLETED) (f\<lparr>jf_attempts := None\<rparr>) now d))" if "?L d" for d
      by (rule leased_row_update [OF that], simp add: lease_update_def)
        (auto simp: \<open>jf_cancel_requested f = None\<close> holds_lease_def set_fields_def)
    moreover have "fst (lease_update job tok (Some COMPLETED) (f\<lparr>jf_attempts := None\<rparr>) now d)" if "?L d" for d
      using that \<open>jf_cancel_requested f = None\<close> by (intro lease_update_row leased_row_weaken [OF that]) auto
    ultimately show ?thesis
      using assms(2) by (auto simp: triple_def update_job_def truthy_def and_then_def perform_def return_value_def)
  qed
  have "triple ?R (and_then (fence_publication job (Some tok) (sn_now se)) (\<lambda>_.
      and_then (save_run (en_client (sn_env se)) (sn_now se) run None) (\<lambda>_.
      and_then (change (link_scan_job job (rn_run_id run))) (\<lambda>_.
      and_then (update_job job (Some tok) COMPLETED (no_fields\<lparr>jf_attempts := Some 1, jf_progress_current := Some (n + 2),
             jf_progress_total := Some (n + 2), jf_progress_message := Some msg_done\<rparr>) (sn_now se)) (\<lambda>_.
      change (audit (sn_env se) 0 pr ty ref payload)))))) (\<lambda>_. ?D) (\<lambda>_ _. False)" for ty ref payload
    by (intro triple_and_then [OF fence] triple_and_then [OF save] triple_and_then [OF link] triple_and_then [OF completed] triple_basic)
      (auto simp: no_fields_def intro: leased_row_same [rotated])
  then show ?thesis
    unfolding publish_run_def by (fastforce simp: triple_def atomically_def split: prod.splits sum.splits)
qed

section \<open>The whole scan\<close>

lemma reveal_as_error: "reveal_as client pick x \<noteq> Inl LeaseLost"
  by (auto simp: reveal_as_def reveal_def bind_result_def split: sum.splits option.splits if_splits stored.splits)

lemma load_run_error: "load_run client run d \<noteq> Inl LeaseLost"
  by (auto simp: reveal_as_error load_run_def run_from_storage_def bind_result_def split: option.splits sum.splits)

lemma load_parent_error: "load_parent se pr parent d \<noteq> Inl LeaseLost"
  using load_run_error [of "en_client (sn_env se)" "the parent" d]
  by (auto simp: load_parent_def require_scoped_def require_def bind_result_def split: option.splits sum.splits if_splits)

lemma evidence_metadata_error: "evidence_metadata keys \<noteq> Inl LeaseLost"
  by (auto simp: evidence_metadata_def bind_result_def split: option.splits sum.splits if_splits json.splits)

lemma map_result_error: "map_result f xs = Inl e \<Longrightarrow> \<exists>x \<in> set xs. f x = Inl e"
  by (induction xs) (auto simp: bind_result_def split: sum.splits)

lemma parse_metadata_error: "parse_evidence_metadata loads raw \<noteq> Inl LeaseLost"
proof
  assume "parse_evidence_metadata loads raw = Inl LeaseLost"
  then obtain x j where "(case j of JObj values \<Rightarrow> bind_result (evidence_metadata values) (\<lambda>m. Inr (x, m)) | _ \<Rightarrow> Inl (HTTPException 400))
      = (Inl LeaseLost :: (string \<times> ustr \<times> ustr option) result)"
    by (auto simp: parse_evidence_metadata_def dest!: map_result_error split: option.splits json.splits if_splits)
  then show False using evidence_metadata_error by (auto simp: bind_result_def split: json.splits sum.splits)
qed

lemma validate_intake_error: "validate_intake utf8_length tender evidence company metadata \<noteq> Inl LeaseLost"
  by (auto simp: validate_intake_def)

context scan_steps
begin

lemma created:
  assumes dir: "dir = scan_dir se q" and job: "job = scan_job_id se q" and lease: "lease = sr_lease q"
    and resolved: "triple P (on_db (resolve_project se pr (sr_project_id q))) (\<lambda>_. P) E"
    and refused: "\<And>s e. P s \<Longrightarrow> e \<noteq> LeaseLost \<Longrightarrow> E e s"
    and opened: "triple P (on_db (open_job se pr (sr_job_id q) lease)) (\<lambda>x t. x = job \<and> P t) E"
    and made: "\<And>s. P s \<Longrightarrow> st_dirs s dir = None \<Longrightarrow> I (s\<lparr>st_dirs := (st_dirs s)(dir \<mapsto> [])\<rparr>)"
  shows "triple P (create_run se pr q)
    (\<lambda>v t. \<exists>doc. v = public_run doc \<and> scan_of pr (scan_run_id se q) doc \<and> Q doc t) E"
proof -
  let ?V = "\<lambda>v t. \<exists>doc. v = public_run doc \<and> scan_of pr (scan_run_id se q) doc \<and> Q doc t"
  have attempt: "triple P (attempt f) (\<lambda>_. P) E" if "\<And>s. f s \<noteq> Inl LeaseLost" for f :: "store \<Rightarrow> 'x result"
    using that by (intro triple_basic) (auto split: sum.split intro: refused)
  have parent: "triple P (on_db (attempt (load_parent se pr (sr_parent_run_id q)))) (\<lambda>_. P) E"
    using load_parent_error [of se pr "sr_parent_run_id q"]
    by (auto simp: triple_def on_db_def attempt_def split: sum.splits intro: refused)
  have mk: "triple P (make_dir dir) (\<lambda>_. I) E"
    by (auto simp: triple_def make_dir_def intro: made refused)
  have rest: "triple (\<lambda>t. x = job \<and> P t) (and_then (make_dir dir) (\<lambda>_.
        and_then (or_reject (store_file se True dir name u) (reject_scan se dir x lease ''UPLOAD_REJECTED'' None)) (\<lambda>digest.
        scan_files se pr q1 metadata dir (scan_run_id se q) x project par digest))) ?V E"
    if "sr_lease q1 = lease" for x name u q1 metadata project par
  proof (cases "x = job")
    case True
    show ?thesis
      unfolding True simp_thms by (intro triple_and_then [where R = "\<lambda>_. I"] mk stored scanned that)
  qed (simp add: triple_def)
  show ?thesis
    unfolding create_run_def Let_def dir [symmetric]
    by (simp add: lease [symmetric])
      (intro triple_and_then [OF opened] rest triple_and_then [where R = "\<lambda>_. P"] attempt resolved parent triple_basic;
       auto simp: lease validate_intake_error parse_metadata_error intro: refused)
qed

end


section \<open>Three readings of the contract\<close>

text \<open>First: what a failed scan leaves. The state before is \<open>s0\<close>.\<close>

definition untouched :: "store \<Rightarrow> store \<Rightarrow> bool" where
  "untouched s0 s \<longleftrightarrow> runs (st_db s) = runs (st_db s0) \<and> audit_events (st_db s) = audit_events (st_db s0) \<and> st_dirs s = st_dirs s0"

definition only_in :: "string \<Rightarrow> store \<Rightarrow> store \<Rightarrow> bool" where
  "only_in dir s0 s \<longleftrightarrow> runs (st_db s) = runs (st_db s0) \<and> audit_events (st_db s) = audit_events (st_db s0)
     \<and> st_dirs s0 dir = None \<and> (\<exists>x. st_dirs s = (st_dirs s0)(dir := x))"

lemma untouched_keeps:
  assumes "keeps runs m" and "keeps audit_events m"
  shows "triple (untouched s0) (on_db m) (\<lambda>_. untouched s0) (\<lambda>_. untouched s0)"
  using keeps_on_db(1) [OF assms(1)] keeps_on_db(1) [OF assms(2)] keeps_on_db(2) [of m]
  by (auto simp: triple_def untouched_def split: prod.splits sum.splits dest: keepsD)

lemma publish_or_clean_error:
  assumes "publish_or_clean se pr dir job lease n run s = (Inl e, t)" and "rn_state run \<noteq> None"
  shows "e = LeaseLost \<and> t = remove_tree dir s \<and> publish_run se pr job lease n run (st_db s) = (Inl LeaseLost, st_db s)"
  using assms publish_run_error [of se pr job lease n run "st_db s"]
  by (auto simp: publish_or_clean_def on_db_def split: prod.splits sum.splits error.splits)

interpretation cleanup: scan_steps "only_in dir s0" "untouched s0" "\<lambda>_. untouched s0" "\<lambda>_ _. True" se pr dir job lease
proof
  fix s name content
  assume "only_in dir s0 s"
  then show "only_in dir s0 (put_file dir name content s)" "untouched s0 (remove_tree dir s)"
    by (auto simp: only_in_def untouched_def put_file_def remove_tree_def fun_eq_iff)
next
  fix err message
  show "triple (untouched s0) (on_db (update_job job lease FAILED (failed_fields err message) (sn_now se)))
      (\<lambda>_ t. \<forall>e. e \<noteq> LeaseLost \<longrightarrow> untouched s0 t) (\<lambda>_. untouched s0)"
    by (rule triple_weaken [OF untouched_keeps]) (auto intro: keeps_intros)
next
  fix run :: run_doc and n assume st: "rn_state run \<noteq> None"
  show "triple (only_in dir s0) (publish_or_clean se pr dir job lease n run) (\<lambda>_ _. True) (\<lambda>_. untouched s0)"
    by (rule tripleI)
      (auto dest!: publish_or_clean_error [OF _ st] simp: only_in_def untouched_def remove_tree_def fun_eq_iff)
qed

lemma resolve_project_keeps:
  assumes "\<And>now w d. f (ensure_workspace_row now w d) = f d" and "\<And>x d. f (d\<lparr>projects := x\<rparr>) = f d"
  shows "keeps f (resolve_project se pr project)"
proof -
  have "keeps f (ensure_default_project w i now)" for w i now
    using assms by (auto simp: keeps_def ensure_default_project_def create_project_def Let_def split: option.splits sum.splits)
  then show ?thesis unfolding resolve_project_def by (auto intro!: keeps_intros)
qed

lemma open_job_keeps [keeps_intros]: "keeps runs (open_job se pr queued lease)" "keeps audit_events (open_job se pr queued lease)"
  by (auto simp: open_job_def create_scan_job_def Let_def intro!: keeps_intros)

lemma open_job_value: "open_job se pr (sr_job_id q) lease d = (Inr x, d') \<Longrightarrow> x = scan_job_id se q"
  by (auto simp: open_job_def scan_job_id_def and_then_def return_value_def split: prod.splits sum.splits if_splits)

lemma create_run_cleanup: "triple (untouched s0) (create_run se pr q) (\<lambda>_ _. True) (\<lambda>_. untouched s0)"
proof -
  have "triple (untouched s0) (on_db (open_job se pr (sr_job_id q) (sr_lease q)))
      (\<lambda>x t. x = scan_job_id se q \<and> untouched s0 t) (\<lambda>_. untouched s0)"
    using untouched_keeps [OF open_job_keeps, of s0 se pr "sr_job_id q" "sr_lease q"] open_job_value
    by (fastforce simp: triple_def on_db_def split: prod.splits sum.splits)
  moreover have "triple (untouched s0) (on_db (resolve_project se pr (sr_project_id q))) (\<lambda>_. untouched s0) (\<lambda>_. untouched s0)"
    by (intro untouched_keeps resolve_project_keeps) simp_all
  ultimately have "triple (untouched s0) (create_run se pr q)
      (\<lambda>v t. \<exists>doc. v = public_run doc \<and> scan_of pr (scan_run_id se q) doc \<and> True) (\<lambda>_. untouched s0)"
    by (intro cleanup.created [where dir = "scan_dir se q"]) (auto simp: untouched_def only_in_def)
  then show ?thesis by (rule triple_weaken) auto
qed


text \<open>Second: what a successful scan published can be loaded.\<close>

definition readable :: "fernet option \<Rightarrow> db \<Rightarrow> bool" where
  "readable client d \<longleftrightarrow> runs_wf d \<and> fernet_ok client"

lemma triple_atomically:
  "triple P m Q (\<lambda>_ _. True) \<Longrightarrow> triple P (atomically m) Q (\<lambda>_ _. True)"
  by (fastforce simp: triple_def atomically_def split: prod.splits sum.splits)

lemma triple_same_runs:
  assumes "keeps runs m" and "\<And>d d'. runs d' = runs d \<Longrightarrow> P d \<Longrightarrow> P d'"
  shows "triple P m (\<lambda>_. P) (\<lambda>_ _. True)"
  using triple_keeps [OF assms] by (rule triple_weaken) auto

lemma readable_same_runs: "runs d' = runs d \<Longrightarrow> readable client d \<Longrightarrow> readable client d'"
  by (simp add: readable_def runs_wf_def)

lemma load_same_runs: "runs d' = runs d \<Longrightarrow> load_run client run d = x \<Longrightarrow> load_run client run d' = x"
  by (simp add: load_run_def)

lemma fence_keeps [keeps_intros]: "keeps runs (fence_publication job lease now)"
  by (auto simp: keeps_def fence_publication_def Let_def)

lemma publish_run_loads:
  assumes "rn_revision run \<noteq> 0"
  shows "triple (readable (en_client (sn_env se))) (publish_run se pr job lease n run)
    (\<lambda>_ d. load_run (en_client (sn_env se)) (rn_run_id run) d = Inr (Some (recount run))) (\<lambda>_ _. True)"
proof -
  let ?c = "en_client (sn_env se)"
  let ?L = "\<lambda>d. load_run ?c (rn_run_id run) d = Inr (Some (recount run))"
  have save: "triple (readable ?c) (save_run ?c (sn_now se) run None) (\<lambda>_. ?L) (\<lambda>_ _. True)"
  proof (rule tripleI)
    fix d r d' assume "readable ?c d" and s: "save_run ?c (sn_now se) run None d = (Inr r, d')"
    moreover have "r = run" using s by (auto simp: save_run_def Let_def split: sum.splits)
    ultimately show "?L d'" using save_then_load [of ?c d run None "sn_now se" r d'] assms by (simp add: readable_def)
  qed simp
  have later: "triple ?L m (\<lambda>_. ?L) (\<lambda>_ _. True)" if "keeps runs m" for m :: "(db, unit) handler"
    using that by (rule triple_same_runs) (rule load_same_runs)
  show ?thesis
    unfolding publish_run_def
    by (intro triple_atomically triple_and_then [OF triple_same_runs [OF fence_keeps readable_same_runs]]
        triple_and_then [OF save] triple_and_then [OF later] later) (auto simp: link_scan_job_def intro!: keeps_intros)
qed

interpretation loadable: scan_steps "\<lambda>s. readable (en_client (sn_env se)) (st_db s)" "\<lambda>_. True" "\<lambda>_ _. True"
  "\<lambda>run s. load_run (en_client (sn_env se)) (rn_run_id run) (st_db s) = Inr (Some (recount run))" se pr dir job lease
proof
  fix run :: run_doc and n assume "rn_revision run = 1"
  then show "triple (\<lambda>s. readable (en_client (sn_env se)) (st_db s)) (publish_or_clean se pr dir job lease n run)
      (\<lambda>_ s. load_run (en_client (sn_env se)) (rn_run_id run) (st_db s) = Inr (Some (recount run))) (\<lambda>_ _. True)"
    using tripleD(1) [OF publish_run_loads [of run se pr job lease n]]
    by (auto simp: publish_or_clean_def on_db_def intro!: tripleI split: prod.splits sum.splits error.splits)
qed (auto simp: put_file_def triple_def split: prod.splits sum.splits)

lemma create_run_loads:
  "triple (\<lambda>s. readable (en_client (sn_env se)) (st_db s)) (create_run se pr q)
     (\<lambda>v t. \<exists>doc. v = public_run doc \<and> scan_of pr (scan_run_id se q) doc
        \<and> load_run (en_client (sn_env se)) (rn_run_id doc) (st_db t) = Inr (Some (recount doc))) (\<lambda>_ _. True)"
proof -
  let ?R = "\<lambda>s. readable (en_client (sn_env se)) (st_db s)"
  have db: "triple ?R (on_db m) (\<lambda>_. ?R) (\<lambda>_ _. True)" if "keeps runs m" for m :: "(db, 'x) handler"
    by (rule triple_weaken [OF triple_keeps [OF keeps_on_db(1) [OF that], of ?R]]) (auto intro: readable_same_runs)
  have "triple ?R (on_db (open_job se pr (sr_job_id q) (sr_lease q))) (\<lambda>x t. x = scan_job_id se q \<and> ?R t) (\<lambda>_ _. True)"
    using db [OF open_job_keeps(1), of se pr "sr_job_id q" "sr_lease q"] open_job_value
    by (fastforce simp: triple_def on_db_def split: prod.splits sum.splits)
  then show ?thesis
    by (intro loadable.created [where dir = "scan_dir se q"] db resolve_project_keeps) auto
qed


text \<open>Third: how a scan under a lease settles its job.\<close>

definition in_work :: "string \<Rightarrow> string \<Rightarrow> store \<Rightarrow> bool" where
  "in_work job tok s \<longleftrightarrow> tok \<noteq> '''' \<and> leased_row job tok running (st_db s)"

definition completed_with :: "string \<Rightarrow> string \<Rightarrow> string \<Rightarrow> store \<Rightarrow> bool" where
  "completed_with job tok run s \<longleftrightarrow> leased_row job tok (\<lambda>r. sj_status r = COMPLETED \<and> sj_run_id r = Some run) (st_db s)"

definition stopped :: "string \<Rightarrow> string \<Rightarrow> error \<Rightarrow> store \<Rightarrow> bool" where
  "stopped job tok e s \<longleftrightarrow> e \<noteq> LeaseLost \<and> leased_row job tok (\<lambda>r. sj_status r \<in> {RUNNING, FAILED}) (st_db s)"

lemma in_work_db:
  assumes "triple (leased_row job tok running) m (\<lambda>_. leased_row job tok running) (\<lambda>_ _. False)"
  shows "triple (in_work job tok) (on_db m) (\<lambda>_. in_work job tok) E"
  using assms by (fastforce simp: triple_def in_work_def on_db_def split: prod.splits sum.splits)

interpretation settling: scan_steps "in_work job tok" "in_work job tok" "stopped job tok"
  "\<lambda>run. completed_with job tok (rn_run_id run)" se pr dir job "Some tok"
proof
  fix s name content
  assume "in_work job tok s"
  then show "in_work job tok (put_file dir name content s)" "in_work job tok (remove_tree dir s)"
    by (simp_all add: in_work_def put_file_def remove_tree_def)
next
  fix err message
  have "tok \<noteq> '''' \<Longrightarrow> triple (leased_row job tok running) (update_job job (Some tok) FAILED (failed_fields err message) (sn_now se))
      (\<lambda>_. leased_row job tok (\<lambda>r. sj_status r = FAILED)) (\<lambda>_ _. False)"
    by (rule leased_update_job) (simp_all add: failed_fields_def no_fields_def)
  then show "triple (in_work job tok) (on_db (update_job job (Some tok) FAILED (failed_fields err message) (sn_now se)))
      (\<lambda>_ t. \<forall>e. e \<noteq> LeaseLost \<longrightarrow> stopped job tok e t) (stopped job tok)"
    by (fastforce simp: triple_def in_work_def stopped_def on_db_def intro: leased_row_weaken split: prod.splits sum.splits)
next
  fix run :: run_doc and n assume st: "rn_state run \<noteq> None"
  show "triple (in_work job tok) (publish_or_clean se pr dir job (Some tok) n run) (\<lambda>_. completed_with job tok (rn_run_id run)) (stopped job tok)"
    using leased_publish [OF st, of tok job se pr n]
    by (fastforce simp: triple_def in_work_def completed_with_def publish_or_clean_def on_db_def split: prod.splits sum.splits error.splits)
qed

lemma resolve_project_error: "resolve_project se pr project d = (Inl e, d') \<Longrightarrow> e \<noteq> LeaseLost"
proof -
  have "triple (\<lambda>_. True) (ensure_default_project w i now) (\<lambda>_ _. True) (\<lambda>e _. e \<noteq> LeaseLost)" for w i now
    by (auto simp: triple_def ensure_default_project_def create_project_def sql_insert_unique_def Let_def split: option.splits sum.splits if_splits)
  then have "triple (\<lambda>_. True) (resolve_project se pr project) (\<lambda>_ _. True) (\<lambda>e _. e \<noteq> LeaseLost)"
    unfolding resolve_project_def
    by (auto intro!: triple_and_then [where R = "\<lambda>_ _. True"] triple_basic split: option.split)
  then show "resolve_project se pr project d = (Inl e, d') \<Longrightarrow> e \<noteq> LeaseLost" by (auto dest: tripleD(2))
qed

lemma create_run_settles:
  assumes "sr_job_id q = Some job" and "job \<noteq> ''''" and "sr_lease q = Some tok"
  shows "triple (in_work job tok) (create_run se pr q)
    (\<lambda>v t. \<exists>doc. v = public_run doc \<and> scan_of pr (scan_run_id se q) doc \<and> completed_with job tok (rn_run_id doc) t) (stopped job tok)"
proof (rule settling.created [where dir = "scan_dir se q"])
  have "keeps scan_jobs (resolve_project se pr (sr_project_id q))" by (intro resolve_project_keeps) simp_all
  note jobs = keepsD [OF this]
  show "triple (in_work job tok) (on_db (resolve_project se pr (sr_project_id q))) (\<lambda>_. in_work job tok) (stopped job tok)"
  proof (intro triple_on_db tripleI)
    fix s d x d' assume d: "d = st_db s \<and> in_work job tok s" "resolve_project se pr (sr_project_id q) d = (Inr x, d')"
    then show "in_work job tok (s\<lparr>st_db := d'\<rparr>)" using jobs [OF d(2)] by (auto simp: in_work_def intro: leased_row_same)
  next
    fix s d e d' assume d: "d = st_db s \<and> in_work job tok s" "resolve_project se pr (sr_project_id q) d = (Inl e, d')"
    then have "leased_row job tok running d'" using jobs [OF d(2)] by (auto simp: in_work_def intro: leased_row_same)
    then show "stopped job tok e (s\<lparr>st_db := d'\<rparr>)"
      using resolve_project_error [OF d(2)] by (auto simp: stopped_def intro: leased_row_weaken)
  qed
  have "tok \<noteq> '''' \<Longrightarrow> triple (leased_row job tok running) (update_job job (Some tok) RUNNING no_fields (sn_now se))
      (\<lambda>_. leased_row job tok running) (\<lambda>_ _. False)"
    by (rule leased_update_job) (simp_all add: no_fields_def)
  then show "triple (in_work job tok) (on_db (open_job se pr (sr_job_id q) (Some tok))) (\<lambda>x t. x = job \<and> in_work job tok t) (stopped job tok)"
    using assms by (fastforce simp: triple_def in_work_def on_db_def open_job_def truthy_def and_then_def return_value_def split: prod.splits sum.splits)
qed (use assms in \<open>auto simp: scan_job_id_def truthy_def in_work_def stopped_def intro: leased_row_weaken\<close>)


section \<open>The worker\<close>

lemma run_payload_settles:
  assumes "sj_job_id r \<noteq> ''''" and "job = sj_job_id r"
  shows "triple (in_work job tok) (run_payload se r p tok)
    (\<lambda>_. completed_with job tok (attempt_run_id (sn_uuid5 se) job tok)) (stopped job tok)"
proof -
  have staged: "open_staged s f \<noteq> Inl LeaseLost" for s f
    by (auto simp: open_staged_def split: prod.splits option.splits)
  have attempt: "triple (in_work job tok) (attempt f) (\<lambda>_. in_work job tok) (stopped job tok)"
    if "\<And>s. f s \<noteq> Inl LeaseLost" for f :: "store \<Rightarrow> 'x result"
    using that by (intro triple_basic) (auto simp: in_work_def stopped_def split: sum.split intro: leased_row_weaken)
  have all_staged: "map_result (open_staged s) fs \<noteq> Inl LeaseLost" for s fs
    using staged map_result_error by metis
  have clean: "triple (completed_with job tok run) (change (remove_tree d)) (\<lambda>_. completed_with job tok run) E" for run d E
    by (intro triple_basic) (simp add: completed_with_def remove_tree_def)
  show ?thesis
    unfolding run_payload_def
  proof (intro triple_and_then [OF _ clean] triple_and_then [where R = "\<lambda>_. in_work job tok"] attempt staged all_staged, goal_cases)
    case (1 tender evidence)
    let ?q = "\<lparr>sr_tender = tender, sr_evidence = evidence, sr_company_name = jp_company_name p, sr_metadata = jp_evidence_metadata p,
           sr_project_id = jp_project_id p, sr_job_id = Some (sj_job_id r), sr_lease = Some tok, sr_parent_run_id = jp_parent_run_id p\<rparr>"
    show ?case
    proof (cases "tok = ''''")
      case False
      then have id: "scan_run_id se ?q = attempt_run_id (sn_uuid5 se) job tok" using assms by (simp add: scan_run_id_def truthy_def)
      show ?thesis
        by (rule triple_weaken [OF create_run_settles [of ?q job tok]]) (use assms id in \<open>auto simp: scan_of_def\<close>)
    qed (simp add: triple_def in_work_def)
  qed
qed

lemma settle_failure_fails:
  assumes "stopped job tok e s"
  shows "leased_row job tok (\<lambda>r. sj_status r = FAILED) (st_db (settle_failure se job tok payload e s))"
proof -
  let ?d = "snd (lease_update job tok (Some FAILED) (no_fields\<lparr>jf_error := Some (Some (error_name e)),
      jf_progress_message := Some msg_retryable\<rparr>) (sn_now se) (st_db s))"
  from assms have row: "leased_row job tok (\<lambda>r. sj_status r \<in> {RUNNING, FAILED}) (st_db s)" by (simp add: stopped_def)
  have "leased_row job tok (\<lambda>r. sj_status r = FAILED) ?d"
    by (rule leased_row_update [OF row], simp add: lease_update_def) (auto simp: holds_lease_def no_fields_def)
  with assms show ?thesis by (simp add: settle_failure_def stopped_def)
qed

definition settled :: "scan_env \<Rightarrow> string \<Rightarrow> string \<Rightarrow> store \<Rightarrow> bool" where
  "settled se job tok s \<longleftrightarrow> completed_with job tok (attempt_run_id (sn_uuid5 se) job tok) s
     \<or> leased_row job tok (\<lambda>r. sj_status r = FAILED) (st_db s)"

lemma process_claimed_settles:
  assumes "in_work (sj_job_id r) tok s" and "sj_job_id r \<noteq> ''''"
  shows "settled se (sj_job_id r) tok (process_claimed se r tok s)"
proof -
  let ?job = "sj_job_id r"
  define s1 where "s1 = s\<lparr>st_db := snd (lease_update ?job tok None (no_fields\<lparr>jf_progress_total :=
      Some (max 2 ((case sj_payload_json r of None \<Rightarrow> 0 | Some p \<Rightarrow> length (jp_evidence p)) + 2)),
      jf_progress_current := Some 1, jf_progress_message := Some msg_parsing\<rparr>) (sn_now se) (st_db s))\<rparr>"
  have w: "in_work ?job tok s1"
    using assms(1) lease_update_row(2) [of ?job tok "st_db s" _ None] by (simp add: in_work_def s1_def no_fields_def)
  have p: "process_claimed se r tok s = (case (case sj_payload_json r of None \<Rightarrow> raise_error KeyError s1 | Some p \<Rightarrow> run_payload se r p tok s1) of
      (Inr _, s2) \<Rightarrow> s2 | (Inl e, s2) \<Rightarrow> settle_failure se ?job tok (sj_payload_json r) e s2)"
    unfolding process_claimed_def Let_def s1_def ..
  show ?thesis
  proof (cases "sj_payload_json r")
    case None
    have "stopped ?job tok KeyError s1" using w by (auto simp: in_work_def stopped_def intro: leased_row_weaken)
    with None show ?thesis by (simp add: p raise_error_def settled_def settle_failure_fails)
  next
    case (Some py)
    obtain res s2 where res: "run_payload se r py tok s1 = (res, s2)" by (cases "run_payload se r py tok s1")
    show ?thesis
    proof (cases res)
      case (Inl e)
      with res have "stopped ?job tok e s2" using tripleD(2) [OF run_payload_settles [OF assms(2) refl] w] by simp
      with Some res Inl show ?thesis by (simp add: p settled_def settle_failure_fails)
    next
      case (Inr x)
      with res have "completed_with ?job tok (attempt_run_id (sn_uuid5 se) ?job tok) s2"
        using tripleD(1) [OF run_payload_settles [OF assms(2) refl] w] by simp
      with Some res Inr show ?thesis by (simp add: p settled_def)
    qed
  qed
qed


lemma process_job_settles:
  assumes "in_work job tok s" and "job \<noteq> ''''"
  shows "settled se job tok (process_job se job (Some tok) s)"
proof -
  from assms(1) obtain r where r: "load_scan_job job (st_db s) = Some r" "sj_lease_token r = Some tok" "running r" "\<not> sj_cancel_requested r"
    by (auto simp: in_work_def leased_row_def)
  then have "sj_job_id r = job" by (auto simp: load_scan_job_def dest: sql_first_Some)
  with r assms process_claimed_settles [of r tok s se] show ?thesis by (simp add: process_job_def)
qed

lemma claimed_in_work:
  assumes "distinct (map sj_job_id (scan_jobs d))" and "tok \<noteq> ''''" and "claim job tok now d = (Some r, d')"
  shows "in_work (sj_job_id r) tok (s\<lparr>st_db := d'\<rparr>) \<and> sj_lease_token r = Some tok \<and> (\<exists>r0 \<in> set (scan_jobs d). sj_job_id r0 = sj_job_id r)"
proof -
  from claim_eq [OF assms(1), of job tok now] assms(3) obtain r0 where r0: "r0 \<in> set (scan_jobs d)" "claimable r0"
    and r: "r = r0\<lparr>sj_status := RUNNING, sj_lease_token := Some tok, sj_attempts := sj_attempts r0 + 1, sj_updated_at := now\<rparr>"
    and d': "d' = d\<lparr>scan_jobs := map (\<lambda>x. if x = r0 then claim_row tok now x else x) (scan_jobs d)\<rparr>"
    by (auto simp: claim_candidate_def)
  have ids: "map sj_job_id (scan_jobs d') = map sj_job_id (scan_jobs d)" by (simp add: d')
  have "claim_row tok now r0 \<in> set (scan_jobs d')" using r0(1) by (auto simp: d')
  with sql_first_key [of sj_job_id "scan_jobs d'" "claim_row tok now r0"] assms(1) ids
  have "load_scan_job (sj_job_id r0) d' = Some (claim_row tok now r0)" by (simp add: load_scan_job_def)
  with assms(1,2) ids r0 show ?thesis by (auto simp: in_work_def leased_row_def r claimable_def)
qed

section \<open>A scan of one page\<close>

definition demo_scan_env :: scan_env where
  "demo_scan_env = \<lparr>sn_env = demo_env,
     sn_names = \<lparr>nf_lower = id, nf_casefold = id, nf_fold_bytes = id, nf_utf8_length = length, nf_sha256 = (\<lambda>_. ''h'')\<rparr>,
     sn_view = (\<lambda>_ content. \<lparr>fv_content = content, fv_pdf_pages = None, fv_archive = None\<rparr>),
     sn_extract = (\<lambda>_ _. Some [demo_tender_page]), sn_loads = (\<lambda>_. None), sn_lower = id, sn_uuid5 = (\<lambda>s. CHR ''v'' # s),
     sn_run_id = ''r'', sn_job_id = ''j'', sn_project_id = ''p'', sn_token = ''t'', sn_upload_dir = ''up'', sn_staging_dir = ''staging''\<rparr>"

definition demo_request :: scan_request where
  "demo_request = \<lparr>sr_tender = \<lparr>up_filename = Some ''t.txt'', up_content = [65, 66]\<rparr>, sr_evidence = [], sr_company_name = [65],
     sr_metadata = None, sr_project_id = None, sr_job_id = None, sr_lease = None, sr_parent_run_id = None\<rparr>"

definition demo_project :: project_row where
  "demo_project = \<lparr>pj_project_id = ''p'', pj_workspace_id = ''w'', pj_name = [], pj_code = ''DEFAULT'', pj_archived_at = None,
     pj_created_at = 0, pj_updated_at = 0\<rparr>"

definition demo_store :: store where
  "demo_store = \<lparr>st_db = empty_db\<lparr>projects := [demo_project]\<rparr>, st_dirs = (\<lambda>_. None)\<rparr>"

definition demo_waiting :: store where
  "demo_waiting = \<lparr>st_db = create_scan_job ''j'' ''w'' None PENDING None 1 empty_db, st_dirs = (\<lambda>_. None)\<rparr>"

lemma demo_stored: "store_file demo_scan_env True ''up/r'' (tender_target (sr_tender demo_request)) (sr_tender demo_request) s
    = (Inr ''h'', put_file ''up/r'' ''tender-t.txt'' [65, 66] s)"
  apply (simp add: store_file_def demo_scan_env_def demo_request_def tender_target_def upload_name_def safe_filename_def path_name_def
    path_parts_def save_upload_def CHUNK_BYTES_def MAX_UPLOAD_BYTES_def read_chunks.simps validate_upload_content_def path_suffix_def
    scan_upload_safety_def is_office_def Let_def)
  done

lemma demo_resolved: "resolve_project demo_scan_env demo_pr None (st_db demo_store) = (Inr demo_project, st_db demo_store)"
  by (simp add: resolve_project_def truthy_def ensure_default_project_def demo_pr_def demo_store_def demo_project_def sql_first_def
      flow_simps and_then_def refuse_if_def fetch_def user_can_access_project_def)

lemma publish_direct:
  assumes "rn_state run \<noteq> None" and "sql_count (holds_lease job None) (scan_jobs (st_db s)) = 1"
  shows "\<exists>t. publish_or_clean se pr dir job None n run s = (Inr (), t)"
proof -
  obtain row where "run_to_storage (en_client (sn_env se)) run = Inr row" using run_to_storage_Some assms(1) by blast
  with assms(2) show ?thesis
    by (simp add: publish_or_clean_def on_db_def publish_run_def atomically_def and_then_def fence_publication_def save_run_def
        change_def update_job_def truthy_def Let_def)
qed

lemma demo_files_succeed:
  assumes "sql_count (holds_lease job None) (scan_jobs (st_db s)) = 1"
  shows "\<exists>v t. scan_files demo_scan_env demo_pr demo_request metadata dir run job project parent digest s = (Inr v, t)"
proof -
  have e: "sn_extract demo_scan_env x y = Some [demo_tender_page]" for x y by (simp add: demo_scan_env_def)
  have q: "sr_evidence demo_request = []" "sr_lease demo_request = None" by (simp_all add: demo_request_def)
  obtain reqs where reqs: "scanned_requirements demo_scan_env [demo_tender_page\<lparr>pg_source_id := Some ''TENDER-001''\<rparr>] [] [] = Inr reqs"
    using scanned_requirements_undecided by blast
  have "\<exists>t. publish_or_clean demo_scan_env demo_pr dir job None 0 (scanned_run demo_scan_env demo_pr demo_request run job project parent digest dups
      [] [demo_tender_page\<lparr>pg_source_id := Some ''TENDER-001''\<rparr>] reqs) s = (Inr (), t)" for dups
    by (rule publish_direct [OF _ assms]) simp
  then obtain pub where "publish_or_clean demo_scan_env demo_pr dir job None 0 (scanned_run demo_scan_env demo_pr demo_request run job project parent digest dups
      [] [demo_tender_page\<lparr>pg_source_id := Some ''TENDER-001''\<rparr>] reqs) s = (Inr (), pub dups)" for dups by metis
  then show ?thesis by (simp add: scan_files_def q e reqs and_then_def fetch_def attempt_def return_value_def Let_def)
qed

lemma demo_scan_succeeds: "\<exists>v t. create_run demo_scan_env demo_pr demo_request demo_store = (Inr v, t)"
proof -
  let ?q = "demo_request\<lparr>sr_evidence := named_uploads (sr_evidence demo_request)\<rparr>"
  let ?s = "demo_store\<lparr>st_db := create_scan_job ''j'' ''w'' None RUNNING None 20 (st_db demo_store), st_dirs := (\<lambda>_. None)(''up/r'' \<mapsto> [])\<rparr>"
  have q: "?q = demo_request" by (simp add: demo_request_def named_uploads_def)
  have intake: "validate_intake (nf_utf8_length (sn_names demo_scan_env)) (sr_tender demo_request) (sr_evidence demo_request)
      (sr_company_name demo_request) None = Inr ()"
    by (simp add: demo_request_def demo_scan_env_def validate_intake_def bad_name_def MAX_EVIDENCE_FILES_def)
  have supported: "is_supported (nf_lower (sn_names demo_scan_env)) (up_filename (sr_tender demo_request))"
    by (simp add: demo_request_def demo_scan_env_def is_supported_def path_suffix_def path_name_def path_parts_def
        SUPPORTED_UPLOAD_EXTENSIONS_def Let_def)
  have dir: "scan_dir demo_scan_env demo_request = ''up/r''"
    by (simp add: scan_dir_def scan_run_id_def demo_request_def demo_scan_env_def truthy_def)
  have absent: "sr_project_id demo_request = None" "sr_job_id demo_request = None" "sr_lease demo_request = None"
    "sr_parent_run_id demo_request = None" "sr_metadata demo_request = None"
    by (simp_all add: demo_request_def)
  have opened: "open_job demo_scan_env demo_pr None None d = (Inr ''j'', create_scan_job ''j'' ''w'' None RUNNING None 20 d)" for d
    by (simp add: open_job_def truthy_def flow_simps demo_scan_env_def demo_pr_def sn_now_def demo_env_def)
  have "sql_count (holds_lease ''j'' None) (scan_jobs (st_db (put_file d n c ?s))) = 1" for d n c
    by (simp add: create_scan_job_def Let_def demo_store_def empty_db_def sql_upsert_def sql_insert_def sql_count_def holds_lease_def put_file_def)
  note done_files = demo_files_succeed [OF this]
  have "st_dirs demo_store = (\<lambda>_. None)" by (simp add: demo_store_def)
  then show ?thesis
    using done_files
    by (simp add: create_run_def q Let_def flow_simps and_then_def refuse_if_def on_db_def attempt_def absent intake supported dir demo_resolved
        demo_stored load_parent_def truthy_def parse_evidence_metadata_def opened make_dir_def or_reject_def)
qed

section \<open>Properties\<close>



text \<open>C12: One turn of the worker settles what it takes. With an empty queue (no pending job with attempts left) it
  changes nothing; otherwise it takes a job and, whatever happens to the scan, leaves the job completed and linked to
  the run of this attempt, or failed; it never leaves it running.\<close>

theorem worker_settles_its_job:
  assumes "distinct (map sj_job_id (scan_jobs (st_db s)))" and "'''' \<notin> sj_job_id ` set (scan_jobs (st_db s))" and "sn_token se \<noteq> ''''"
  shows "case run_one se s of
      (None, t) \<Rightarrow> t = s \<and> (\<forall>r \<in> set (scan_jobs (st_db s)). \<not> claimable r)
    | (Some job, t) \<Rightarrow> \<exists>r. load_scan_job job (st_db t) = Some r \<and> sj_lease_token r = Some (sn_token se)
        \<and> (sj_status r = FAILED \<or> sj_status r = COMPLETED \<and> sj_run_id r = Some (attempt_run_id (sn_uuid5 se) job (sn_token se)))"
proof (cases "claim None (sn_token se) (sn_now se) (st_db s)")
  case (Pair c d)
  show ?thesis
  proof (cases c)
    case None
    with Pair claim_eq [OF assms(1), of None "sn_token se" "sn_now se"]
    show ?thesis by (auto simp: run_one_def claim_candidate_def)
  next
    case (Some r)
    with claimed_in_work [OF assms(1,3), of None "sn_now se" r d s] Pair
    have r: "in_work (sj_job_id r) (sn_token se) (s\<lparr>st_db := d\<rparr>)" "sj_lease_token r = Some (sn_token se)"
      "\<exists>r0 \<in> set (scan_jobs (st_db s)). sj_job_id r0 = sj_job_id r" by auto
    with assms(2) have "sj_job_id r \<noteq> ''''" by (metis imageI)
    from process_job_settles [OF r(1) this, of se] Pair Some r(2)
    show ?thesis by (auto simp: run_one_def settled_def completed_with_def leased_row_def)
  qed
qed


theorem worker_settles_its_job_witness:
  "\<exists>job t r. run_one demo_scan_env demo_waiting = (Some job, t) \<and> load_scan_job job (st_db t) = Some r
     \<and> sj_status r \<in> {COMPLETED, FAILED}"
proof -
  have rows: "scan_jobs (st_db demo_waiting) = [\<lparr>sj_job_id = ''j'', sj_workspace_id = ''w'', sj_run_id = None, sj_status = PENDING,
      sj_attempts = 0, sj_error = None, sj_progress_current = 0, sj_progress_total = 0, sj_progress_message = [],
      sj_cancel_requested = False, sj_lease_token = None, sj_payload_json = None, sj_created_at = 1, sj_updated_at = 1\<rparr>]"
    by (simp add: demo_waiting_def create_scan_job_def Let_def empty_db_def sql_upsert_def sql_insert_def)
  have "sn_token demo_scan_env \<noteq> ''''" by (simp add: demo_scan_env_def)
  from worker_settles_its_job [of demo_waiting demo_scan_env, OF _ _ this] show ?thesis
    by (cases "run_one demo_scan_env demo_waiting") (auto simp: rows claimable_def MAX_JOB_ATTEMPTS_def split: option.splits)
qed

end
