(* ===== verification/Worker.thy ===== *)
theory Worker
  imports Scan
begin

text \<open>
  The worker: the supervision of a child process (\<open>src/app/job_runner.py\<close>) and the polling loop (\<open>src/app/worker.py\<close>).
  In production a claimed job runs in a child process; the supervisor renews the lease, ends the child when the
  lease or the time is gone, and settles the job and its files at the end. What the child and everyone else do
  while the supervisor waits is an arbitrary change of the store. Clocks of the deadline are in milliseconds.
\<close>

section \<open>Supervision\<close>

definition JOB_TIMEOUT_SECONDS :: int where
  "JOB_TIMEOUT_SECONDS = 600"

text \<open>One round of the loop: the clock at the check of the deadline, the time of the writes, what happened while
  the supervisor waited (or stopped the child), and whether the child has ended after that.\<close>

record turn =
  tn_clock :: int
  tn_now :: timestamp
  tn_world :: "store \<Rightarrow> store"
  tn_exited :: bool

definition msg_no_worker :: ustr where
  "msg_no_worker = [22788, 29702, 36827, 31243, 26242, 26102, 26080, 27861, 21551, 21160, 65292, 35831, 31245, 21518, 37325, 35797]"

definition msg_timeout :: ustr where
  "msg_timeout = [25195, 25551, 36229, 36807, 22788, 29702, 26102, 38480, 65292, 35831, 25286, 20998, 25991, 20214, 21518, 37325, 35797]"

definition msg_interrupted :: ustr where
  "msg_interrupted = [22788, 29702, 36827, 31243, 20013, 26029, 65292, 21487, 37325, 35797]"

definition fail_lease :: "string \<Rightarrow> string \<Rightarrow> string \<Rightarrow> ustr \<Rightarrow> timestamp \<Rightarrow> store \<Rightarrow> store" where
  "fail_lease job tok err message now s =
     s\<lparr>st_db := snd (lease_update job tok (Some FAILED)
        (no_fields\<lparr>jf_error := Some (Some err), jf_progress_message := Some message\<rparr>) now (st_db s))\<rparr>"

text \<open>The loop. It answers whether it ended; with no further round it is still waiting.\<close>

fun watch :: "string \<Rightarrow> string \<Rightarrow> int \<Rightarrow> turn list \<Rightarrow> store \<Rightarrow> bool \<times> store" where
  "watch job tok deadline [] s = (False, s)"
| "watch job tok deadline (t # ts) s =
     (case lease_update job tok None no_fields (tn_now t) (st_db s) of (held, d) \<Rightarrow>
        let s1 = tn_world t (s\<lparr>st_db := d\<rparr>)
        in if \<not> held then (True, s1)
           else if deadline - tn_clock t \<le> 0 then (True, fail_lease job tok ''SCAN_TIMEOUT'' msg_timeout (tn_now t) s1)
           else if tn_exited t then (True, s1)
           else watch job tok deadline ts s1)"

text \<open>The files at the end: the attempt's directory goes unless its run was stored, the staged files go when the
  job needs them no more. A run that cannot be read raises.\<close>

definition clean_up :: "scan_env \<Rightarrow> string \<Rightarrow> string \<Rightarrow> (store, unit) handler" where
  "clean_up se job tok s =
     (let run = attempt_run_id (sn_uuid5 se) job tok
      in case load_run (en_client (sn_env se)) run (st_db s) of
           Inl e \<Rightarrow> (Inl e, s)
         | Inr r \<Rightarrow>
             let s1 = (if r = None then remove_tree (sn_upload_dir se @ ''/'' @ run) s else s)
             in (Inr (), case load_scan_job job (st_db s1) of
                   None \<Rightarrow> s1
                 | Some row \<Rightarrow> if sj_status row \<in> {CANCELLED, COMPLETED} then remove_tree (sn_staging_dir se @ ''/'' @ job) s1 else s1))"

text \<open>\<open>started\<close> is false when the child could not be created, \<open>begun\<close> is the clock at its start, \<open>final\<close> the time of the last
  write. No value means that the supervisor still waits.\<close>

definition supervise ::
  "scan_env \<Rightarrow> string \<Rightarrow> string \<Rightarrow> bool \<Rightarrow> int \<Rightarrow> turn list \<Rightarrow> timestamp \<Rightarrow> store \<Rightarrow> (unit result \<times> store) option" where
  "supervise se job tok started begun turns final s =
     (if \<not> started then Some (Inr (), fail_lease job tok ''WORKER_START_FAILED'' msg_no_worker final s)
      else case watch job tok (begun + JOB_TIMEOUT_SECONDS * 1000) turns s of
        (False, _) \<Rightarrow> None
      | (True, s1) \<Rightarrow> Some (clean_up se job tok (fail_lease job tok ''WORKER_EXITED'' msg_interrupted final s1)))"

section \<open>Polling\<close>

text \<open>One pass of the loop: requeue what is stale, then one turn. With an empty queue the loop sleeps.\<close>

definition worker_pass :: "int \<Rightarrow> scan_env \<Rightarrow> store \<Rightarrow> string option \<times> store" where
  "worker_pass stale_seconds se s =
     run_one se (s\<lparr>st_db := snd (requeue_stale_scan_jobs stale_seconds (sn_now se) (st_db s))\<rparr>)"

fun run_turns :: "scan_env list \<Rightarrow> store \<Rightarrow> store" where
  "run_turns [] s = s"
| "run_turns (se # ses) s = run_turns ses (snd (run_one se s))"

section \<open>The end of supervision\<close>

text \<open>A wait ends after five seconds, at the deadline, or when the child ends.\<close>

fun paced :: "int \<Rightarrow> int \<Rightarrow> turn list \<Rightarrow> bool" where
  "paced earliest deadline [] \<longleftrightarrow> True"
| "paced earliest deadline (t # ts) \<longleftrightarrow>
     earliest \<le> tn_clock t \<and> paced (tn_clock t + min 5000 (deadline - tn_clock t)) deadline ts"

lemma watch_ends:
  assumes "paced earliest deadline ts" and "deadline \<le> earliest + 5000 * int k" and "k < length ts"
  shows "fst (watch job tok deadline ts s)"
  using assms
proof (induction ts arbitrary: earliest k s)
  case (Cons t ts)
  obtain held d where u: "lease_update job tok None no_fields (tn_now t) (st_db s) = (held, d)" by fastforce
  show ?case
  proof (cases "held \<and> tn_clock t < deadline \<and> \<not> tn_exited t")
    case True
    with Cons.prems have "k \<noteq> 0" by auto
    have le: "deadline \<le> tn_clock t + min 5000 (deadline - tn_clock t) + 5000 * int (k - 1)"
      using Cons.prems \<open>k \<noteq> 0\<close> by (auto simp: of_nat_diff min_def)
    have "fst (watch job tok deadline ts s')" for s'
      by (rule Cons.IH [OF _ le]) (use Cons.prems(1,3) \<open>k \<noteq> 0\<close> in auto)
    with True u show ?thesis by simp
  qed (use u in \<open>auto simp: Let_def\<close>)
qed simp

lemma fail_lease_ends: "\<forall>r \<in> set (scan_jobs (st_db (fail_lease job tok err message now s))). \<not> holds_lease job (Some tok) r"
  by (simp add: fail_lease_def lease_update_def ball_sql_update holds_lease_def)

lemma clean_up_db: "clean_up se job tok s = (r, t) \<Longrightarrow> st_db t = st_db s"
  by (auto simp: clean_up_def remove_tree_def Let_def split: sum.splits option.splits if_splits)

lemma clean_up_files:
  assumes "clean_up se job tok s = (Inr (), t)" and "sn_upload_dir se @ ''/'' @ attempt_run_id (sn_uuid5 se) job tok \<noteq> sn_staging_dir se @ ''/'' @ job"
  shows "load_run (en_client (sn_env se)) (attempt_run_id (sn_uuid5 se) job tok) (st_db t) = Inr None
      \<Longrightarrow> st_dirs t (sn_upload_dir se @ ''/'' @ attempt_run_id (sn_uuid5 se) job tok) = None"
    and "load_scan_job job (st_db t) = Some r \<Longrightarrow> sj_status r \<in> {CANCELLED, COMPLETED}
      \<Longrightarrow> st_dirs t (sn_staging_dir se @ ''/'' @ job) = None"
  using assms by (auto simp: clean_up_def remove_tree_def Let_def split: sum.splits option.splits if_splits)

section \<open>Other jobs\<close>

text \<open>The rows of other jobs are not touched by the scan of a job.\<close>

definition others :: "string \<Rightarrow> db \<Rightarrow> scan_job list" where
  "others job d = filter (\<lambda>r. sj_job_id r \<noteq> job) (scan_jobs d)"

lemma others_update:
  assumes "scan_jobs d' = sql_update P f (scan_jobs d)"
    and "\<And>r. P r \<Longrightarrow> sj_job_id r = job" and "\<And>r. sj_job_id (f r) = sj_job_id r"
  shows "others job d' = others job d"
proof -
  have "filter (\<lambda>r. sj_job_id r \<noteq> job) (sql_update P f t) = filter (\<lambda>r. sj_job_id r \<noteq> job) t" for t
    using assms(2,3) by (induction t) auto
  then show ?thesis by (simp add: others_def assms(1))
qed

lemma others_lease_update [simp]: "others job (snd (lease_update job tok st f now d)) = others job d"
  by (rule others_update, simp add: lease_update_def) (auto simp: holds_lease_def)

lemma others_update_job [simp]: "others job (update_scan_job job st f now d) = others job d"
  by (rule others_update, simp add: update_scan_job_def) auto

lemma others_link [simp]: "others job (link_scan_job job run d) = others job d"
  by (rule others_update, simp add: link_scan_job_def) auto

lemma others_fence [simp]: "others job (snd (fence_publication job lease now d)) = others job d"
proof -
  have "others job (d\<lparr>scan_jobs := sql_update (holds_lease job tok) (\<lambda>r. r\<lparr>sj_updated_at := now\<rparr>) (scan_jobs d)\<rparr>) = others job d" for tok
    by (rule others_update, simp) (auto simp: holds_lease_def)
  then show ?thesis by (simp add: fence_publication_def Let_def)
qed

lemma update_job_others [keeps_intros]: "keeps (others job) (update_job job lease st f now)"
  unfolding update_job_def by (intro keeps_intros) simp_all

lemma others_same: "scan_jobs d' = scan_jobs d \<Longrightarrow> others job d' = others job d"
  by (simp add: others_def)

lemma publish_run_others [keeps_intros]: "keeps (others job) (publish_run se pr job lease n run)"
proof -
  have "keeps (others job) (fence_publication job lease (sn_now se))"
    by (simp add: keeps_def)
  moreover have "keeps (others job) (save_run (en_client (sn_env se)) (sn_now se) run None)"
    by (auto simp: keeps_def save_run_def others_def Let_def split: sum.splits)
  moreover have "keeps (others job) (change (link_scan_job job ref))" for ref
    by (simp add: keeps_def change_def)
  moreover have "keeps (others job) (change (audit (sn_env se) 0 pr ty ref payload))" for ty ref payload
    by (auto simp: keeps_def change_def intro: others_same)
  ultimately have "keeps (others job) (and_then (fence_publication job lease (sn_now se)) (\<lambda>_.
      and_then (save_run (en_client (sn_env se)) (sn_now se) run None) (\<lambda>_.
      and_then (change (link_scan_job job ref)) (\<lambda>_.
      and_then (update_job job lease COMPLETED f now) (\<lambda>_. change (audit (sn_env se) 0 pr ty ref' payload))))))" for f now ref ref' ty payload
    by (intro keeps_and_then update_job_others) blast+
  then show ?thesis
    unfolding publish_run_def by (auto simp: keeps_def atomically_def split: prod.splits sum.splits) (metis snd_conv)
qed

definition unmoved :: "string \<Rightarrow> scan_job list \<Rightarrow> store \<Rightarrow> bool" where
  "unmoved job rs s \<longleftrightarrow> others job (st_db s) = rs"

lemma unmoved_on_db:
  assumes "keeps (others job) m"
  shows "triple (unmoved job rs) (on_db m) (\<lambda>_. unmoved job rs) (\<lambda>_. unmoved job rs)"
  by (rule triple_keeps [OF keeps_on_db(1) [OF assms]]) (simp add: unmoved_def)

interpretation framed: scan_steps "unmoved job rs" "unmoved job rs" "\<lambda>_. unmoved job rs" "\<lambda>_. unmoved job rs" se pr dir job lease
proof
  fix s name content
  assume "unmoved job rs s"
  then show "unmoved job rs (put_file dir name content s)" "unmoved job rs (remove_tree dir s)"
    by (simp_all add: unmoved_def put_file_def remove_tree_def)
next
  fix err message
  show "triple (unmoved job rs) (on_db (update_job job lease FAILED (failed_fields err message) (sn_now se)))
      (\<lambda>_ t. \<forall>e. e \<noteq> LeaseLost \<longrightarrow> unmoved job rs t) (\<lambda>_. unmoved job rs)"
    by (rule triple_weaken [OF unmoved_on_db [OF update_job_others]]) auto
next
  fix run :: run_doc and n
  have "keeps (\<lambda>s. others job (st_db s)) (publish_or_clean se pr dir job lease n run)"
    using keeps_on_db(1) [OF publish_run_others [of job se pr lease n run]]
    by (auto simp: keeps_def publish_or_clean_def remove_tree_def split: prod.splits sum.splits error.splits) (metis snd_conv)+
  then show "triple (unmoved job rs) (publish_or_clean se pr dir job lease n run) (\<lambda>_. unmoved job rs) (\<lambda>_. unmoved job rs)"
    by (rule triple_keeps) (simp add: unmoved_def)
qed

lemma create_run_unmoved:
  assumes "sr_job_id q = Some job" and "job \<noteq> ''''"
  shows "triple (unmoved job rs) (create_run se pr q) (\<lambda>_. unmoved job rs) (\<lambda>_. unmoved job rs)"
proof -
  have "keeps scan_jobs (resolve_project se pr (sr_project_id q))" by (intro resolve_project_keeps) simp_all
  then have resolved: "keeps (others job) (resolve_project se pr (sr_project_id q))" by (simp add: keeps_def others_def)
  have "keeps (others job) (open_job se pr (Some job) (sr_lease q))"
    using assms(2) unfolding open_job_def by (auto simp: truthy_def intro!: keeps_intros)
  from unmoved_on_db [OF this] have "triple (unmoved job rs) (on_db (open_job se pr (Some job) (sr_lease q)))
      (\<lambda>x t. x = job \<and> unmoved job rs t) (\<lambda>_. unmoved job rs)"
    using assms open_job_value [of se pr q "sr_lease q"]
    by (fastforce simp: triple_def on_db_def scan_job_id_def truthy_def split: prod.splits sum.splits)
  with assms resolved have "triple (unmoved job rs) (create_run se pr q)
      (\<lambda>v t. \<exists>doc. v = public_run doc \<and> scan_of pr (scan_run_id se q) doc \<and> unmoved job rs t) (\<lambda>_. unmoved job rs)"
    by (intro framed.created [where dir = "scan_dir se q"] unmoved_on_db) (auto simp: scan_job_id_def truthy_def unmoved_def)
  then show ?thesis by (rule triple_weaken) auto
qed

lemma run_payload_unmoved:
  assumes "sj_job_id r \<noteq> ''''"
  shows "triple (unmoved (sj_job_id r) rs) (run_payload se r p tok) (\<lambda>_. unmoved (sj_job_id r) rs) (\<lambda>_. unmoved (sj_job_id r) rs)"
  unfolding run_payload_def
  by (intro triple_and_then [where R = "\<lambda>_. unmoved (sj_job_id r) rs"] create_run_unmoved triple_basic)
    (use assms in \<open>auto simp: unmoved_def remove_tree_def split: sum.split\<close>)

lemma process_claimed_others:
  assumes "sj_job_id r \<noteq> ''''"
  shows "others (sj_job_id r) (st_db (process_claimed se r tok s)) = others (sj_job_id r) (st_db s)"
proof -
  have settle: "others (sj_job_id r) (st_db (settle_failure se (sj_job_id r) tok py e s')) = others (sj_job_id r) (st_db s')" for py e s'
    by (auto simp: settle_failure_def remove_tree_def split: option.splits)
  have run: "others (sj_job_id r) (st_db t) = others (sj_job_id r) (st_db s')" if "run_payload se r p tok s' = (res, t)" for p s' res t
    using tripleD [OF run_payload_unmoved [OF assms, of "others (sj_job_id r) (st_db s')" se p tok], of s'] that
    by (cases res) (auto simp: unmoved_def)
  define s1 where "s1 = s\<lparr>st_db := snd (lease_update (sj_job_id r) tok None (no_fields\<lparr>jf_progress_total :=
      Some (max 2 ((case sj_payload_json r of None \<Rightarrow> 0 | Some p \<Rightarrow> length (jp_evidence p)) + 2)),
      jf_progress_current := Some 1, jf_progress_message := Some msg_parsing\<rparr>) (sn_now se) (st_db s))\<rparr>"
  have s1: "others (sj_job_id r) (st_db s1) = others (sj_job_id r) (st_db s)" by (simp add: s1_def)
  have "process_claimed se r tok s = (case (case sj_payload_json r of None \<Rightarrow> raise_error KeyError s1 | Some p \<Rightarrow> run_payload se r p tok s1) of
      (Inr _, s2) \<Rightarrow> s2 | (Inl e, s2) \<Rightarrow> settle_failure se (sj_job_id r) tok (sj_payload_json r) e s2)"
    unfolding process_claimed_def Let_def s1_def ..
  then show ?thesis
    using s1 settle run [of _ s1] by (auto simp: raise_error_def split: option.splits prod.splits sum.splits)
qed

section \<open>The queue runs empty\<close>

definition ready :: "store \<Rightarrow> nat" where
  "ready s = length (filter claimable (scan_jobs (st_db s)))"

definition well_kept :: "store \<Rightarrow> bool" where
  "well_kept s \<longleftrightarrow> distinct (map sj_job_id (scan_jobs (st_db s))) \<and> '''' \<notin> sj_job_id ` set (scan_jobs (st_db s))"

lemma settled_row:
  assumes "settled se job tok s"
  shows "distinct (map sj_job_id (scan_jobs (st_db s)))"
    and "\<And>r. r \<in> set (scan_jobs (st_db s)) \<Longrightarrow> sj_job_id r = job \<Longrightarrow> \<not> claimable r"
proof -
  from assms obtain x where x: "distinct (map sj_job_id (scan_jobs (st_db s)))" "load_scan_job job (st_db s) = Some x" "\<not> claimable x"
    by (auto simp: settled_def completed_with_def leased_row_def claimable_def)
  then show "distinct (map sj_job_id (scan_jobs (st_db s)))" by simp
  fix r assume r: "r \<in> set (scan_jobs (st_db s))" "sj_job_id r = job"
  from x(2) have "x \<in> set (scan_jobs (st_db s))" "sj_job_id x = job" by (auto simp: load_scan_job_def dest: sql_first_Some)
  with r x(1) have "r = x" by (auto dest: distinct_key_eq)
  with x(3) show "\<not> claimable r" by simp
qed

lemma ready_split:
  assumes "\<And>r. r \<in> set (scan_jobs (st_db s)) \<Longrightarrow> sj_job_id r = job \<Longrightarrow> \<not> claimable r"
  shows "ready s = length (filter claimable (others job (st_db s)))"
  using assms by (auto simp: ready_def others_def intro!: arg_cong [of _ _ length] filter_cong)

lemma process_job_others:
  assumes "job \<noteq> ''''"
  shows "others job (st_db (process_job se job (Some tok) s)) = others job (st_db s)"
proof (cases "load_scan_job job (st_db s)")
  case (Some r)
  then have "sj_job_id r = job" by (auto simp: load_scan_job_def dest: sql_first_Some)
  with Some assms process_claimed_others [of r se tok s] show ?thesis by (simp add: process_job_def)
qed (simp add: process_job_def)

lemma claim_others:
  assumes "distinct (map sj_job_id (scan_jobs d))" and "claim job tok now d = (Some r, d')"
  shows "others (sj_job_id r) d' = others (sj_job_id r) d" and "\<exists>r0 \<in> set (scan_jobs d). claimable r0 \<and> sj_job_id r0 = sj_job_id r"
proof -
  from claim_eq [OF assms(1), of job tok now] assms(2) obtain r0 where r0: "r0 \<in> set (scan_jobs d)" "claimable r0"
    and r: "r = r0\<lparr>sj_status := RUNNING, sj_lease_token := Some tok, sj_attempts := sj_attempts r0 + 1, sj_updated_at := now\<rparr>"
    and d: "d' = d\<lparr>scan_jobs := map (\<lambda>x. if x = r0 then claim_row tok now x else x) (scan_jobs d)\<rparr>"
    by (auto simp: claim_candidate_def)
  from r have id: "sj_job_id r = sj_job_id r0" by simp
  from d have d': "scan_jobs d' = map (\<lambda>x. if x = r0 then claim_row tok now x else x) (scan_jobs d)" by simp
  have "filter (\<lambda>x. sj_job_id x \<noteq> sj_job_id r0) (map (\<lambda>x. if x = r0 then claim_row tok now x else x) t)
      = filter (\<lambda>x. sj_job_id x \<noteq> sj_job_id r0) t" for t
    by (induction t) auto
  then show "others (sj_job_id r) d' = others (sj_job_id r) d" by (simp add: others_def id d')
  show "\<exists>r0 \<in> set (scan_jobs d). claimable r0 \<and> sj_job_id r0 = sj_job_id r" using r0 id by auto
qed

lemma fewer_ready:
  assumes "r \<in> set (scan_jobs (st_db s))" and "claimable r" and "sj_job_id r = job"
  shows "length (filter claimable (others job (st_db s))) < ready s"
proof -
  have "filter claimable (others job (st_db s)) = filter (\<lambda>x. sj_job_id x \<noteq> job) (filter claimable (scan_jobs (st_db s)))"
    by (simp add: others_def conj_commute)
  then show ?thesis using assms length_filter_less [of r "filter claimable (scan_jobs (st_db s))" "\<lambda>x. sj_job_id x \<noteq> job"]
    by (simp add: ready_def)
qed

lemma run_one_step:
  assumes "well_kept s" and "sn_token se \<noteq> ''''"
  shows "well_kept (snd (run_one se s)) \<and> (ready s = 0 \<and> run_one se s = (None, s) \<or> ready (snd (run_one se s)) < ready s)"
proof (cases "claim None (sn_token se) (sn_now se) (st_db s)")
  case (Pair c d)
  show ?thesis
  proof (cases c)
    case None
    with Pair claim_eq [of "st_db s" None "sn_token se" "sn_now se"] assms(1)
    show ?thesis by (auto simp: run_one_def claim_candidate_def ready_def well_kept_def filter_empty_conv)
  next
    case (Some r)
    let ?job = "sj_job_id r" and ?t = "snd (run_one se s)"
    from assms(1) have dist: "distinct (map sj_job_id (scan_jobs (st_db s)))" by (simp add: well_kept_def)
    have w: "in_work ?job (sn_token se) (s\<lparr>st_db := d\<rparr>)" "sj_lease_token r = Some (sn_token se)" "?job \<noteq> ''''"
      using claimed_in_work [OF dist assms(2), of None "sn_now se" r d s] Pair Some assms(1)
      by (auto simp: well_kept_def) (metis imageI)
    have t: "?t = process_job se ?job (Some (sn_token se)) (s\<lparr>st_db := d\<rparr>)" using Pair Some w(2) by (simp add: run_one_def)
    have settled: "settled se ?job (sn_token se) ?t" unfolding t using w(1,3) by (rule process_job_settles)
    have others: "others ?job (st_db ?t) = others ?job (st_db s)"
      using process_job_others [OF w(3), of se "sn_token se" "s\<lparr>st_db := d\<rparr>"] claim_others(1) [OF dist] Pair Some t by auto
    obtain r0 where r0: "r0 \<in> set (scan_jobs (st_db s))" "claimable r0" "sj_job_id r0 = ?job"
      using claim_others(2) [OF dist] Pair Some by blast
    have "sj_job_id x \<noteq> ''''" if "x \<in> set (scan_jobs (st_db ?t))" for x
    proof (cases "sj_job_id x = ?job")
      case False
      with that have "x \<in> set (others ?job (st_db ?t))" by (simp add: others_def)
      with others assms(1) show ?thesis by (auto simp: others_def well_kept_def image_iff)
    qed (use w(3) in simp)
    then have "'''' \<notin> sj_job_id ` set (scan_jobs (st_db ?t))" by (metis imageE)
    then have "well_kept ?t" using settled_row(1) [OF settled] by (simp add: well_kept_def)
    moreover have "ready ?t < ready s"
      using ready_split [OF settled_row(2) [OF settled]] fewer_ready [OF r0] by (simp add: others)
    ultimately show ?thesis by blast
  qed
qed

lemma run_turns_drain:
  "well_kept s \<Longrightarrow> '''' \<notin> sn_token ` set ses \<Longrightarrow> ready s \<le> length ses \<Longrightarrow> ready (run_turns ses s) = 0"
proof (induction ses arbitrary: s)
  case (Cons se ses)
  from run_one_step [OF Cons.prems(1), of se] Cons.prems(2)
  have "well_kept (snd (run_one se s))" "ready (snd (run_one se s)) \<le> ready s - 1" by auto
  with Cons show ?case by auto
qed simp

section \<open>Properties\<close>

text \<open>C13: Supervision ends and settles the job. When waits end as documented (after five seconds, at the deadline, or
  when the child ends), 121 rounds are enough for the supervisor to finish, whatever the child and all others did to
  the database and the files in between. Afterwards no row of the job is held by this lease; and unless the stored run
  cannot be read, the directory of the attempt is gone if its run was not stored, and the staged files are gone if
  the job is completed or cancelled.\<close>

theorem supervision_ends_and_settles:
  assumes "paced begun (begun + JOB_TIMEOUT_SECONDS * 1000) turns" and "121 \<le> length turns"
    and "sn_upload_dir se @ ''/'' @ attempt_run_id (sn_uuid5 se) job tok \<noteq> sn_staging_dir se @ ''/'' @ job"
  shows "\<exists>r t. supervise se job tok True begun turns final s = Some (r, t)
    \<and> (\<forall>row \<in> set (scan_jobs (st_db t)). \<not> holds_lease job (Some tok) row)
    \<and> (r = Inr () \<longrightarrow>
        (load_run (en_client (sn_env se)) (attempt_run_id (sn_uuid5 se) job tok) (st_db t) = Inr None
          \<longrightarrow> st_dirs t (sn_upload_dir se @ ''/'' @ attempt_run_id (sn_uuid5 se) job tok) = None)
        \<and> (\<forall>row. load_scan_job job (st_db t) = Some row \<and> sj_status row \<in> {CANCELLED, COMPLETED}
          \<longrightarrow> st_dirs t (sn_staging_dir se @ ''/'' @ job) = None))"
proof -
  let ?d = "begun + JOB_TIMEOUT_SECONDS * 1000"
  have "fst (watch job tok ?d turns s)"
    by (rule watch_ends [OF assms(1), where k = 120]) (use assms(2) in \<open>simp_all add: JOB_TIMEOUT_SECONDS_def\<close>)
  then obtain s1 where w: "watch job tok ?d turns s = (True, s1)" by (metis prod.collapse)
  let ?s2 = "fail_lease job tok ''WORKER_EXITED'' msg_interrupted final s1"
  obtain r t where c: "clean_up se job tok ?s2 = (r, t)" by fastforce
  have "\<forall>row \<in> set (scan_jobs (st_db t)). \<not> holds_lease job (Some tok) row"
    using clean_up_db [OF c] fail_lease_ends by metis
  moreover have "supervise se job tok True begun turns final s = Some (r, t)" using w c by (simp add: supervise_def)
  ultimately show ?thesis using clean_up_files [of se job tok ?s2 t] c assms(3) by auto
qed

text \<open>C14: The queue runs empty: as long as nothing new is queued, one turn of the worker per pending job with
  attempts left is enough, and afterwards no such job is left, whatever the scans meet with.\<close>

theorem queue_runs_empty:
  assumes "distinct (map sj_job_id (scan_jobs (st_db s)))" and "'''' \<notin> sj_job_id ` set (scan_jobs (st_db s))"
    and "'''' \<notin> sn_token ` set ses" and "length (filter claimable (scan_jobs (st_db s))) \<le> length ses"
  shows "\<forall>r \<in> set (scan_jobs (st_db (run_turns ses s))). \<not> claimable r"
proof -
  have "ready (run_turns ses s) = 0"
    by (rule run_turns_drain) (use assms in \<open>simp_all add: well_kept_def ready_def\<close>)
  then show ?thesis by (simp add: ready_def filter_empty_conv)
qed


lemma paced_at_deadline: "earliest \<le> deadline \<Longrightarrow> \<forall>t \<in> set ts. tn_clock t = deadline \<Longrightarrow> paced earliest deadline ts"
  by (induction ts arbitrary: earliest) auto

text \<open>A child that hangs until the deadline.\<close>

theorem supervision_ends_and_settles_witness:
  "\<exists>r t. supervise demo_scan_env ''j'' ''t'' True 0
       (replicate 121 \<lparr>tn_clock = 600000, tn_now = 30, tn_world = id, tn_exited = False\<rparr>) 40 demo_waiting = Some (r, t)
     \<and> filter (holds_lease ''j'' (Some ''t'')) (scan_jobs (st_db t)) = []"
proof -
  have "paced 0 (0 + JOB_TIMEOUT_SECONDS * 1000)
      (replicate 121 \<lparr>tn_clock = 600000, tn_now = 30, tn_world = id, tn_exited = False\<rparr>)"
    by (rule paced_at_deadline) (simp_all add: JOB_TIMEOUT_SECONDS_def)
  moreover have "sn_upload_dir demo_scan_env @ ''/'' @ attempt_run_id (sn_uuid5 demo_scan_env) ''j'' ''t''
      \<noteq> sn_staging_dir demo_scan_env @ ''/'' @ ''j''"
    by (simp add: demo_scan_env_def)
  ultimately show ?thesis
    using supervision_ends_and_settles [of 0 "replicate 121 \<lparr>tn_clock = 600000, tn_now = 30, tn_world = id, tn_exited = False\<rparr>"
        demo_scan_env "''j''" "''t''" 40 demo_waiting] by (auto simp: filter_empty_conv)
qed

theorem queue_runs_empty_witness: "filter claimable (scan_jobs (st_db (run_turns [demo_scan_env] demo_waiting))) = []"
  unfolding filter_empty_conv
  by (rule queue_runs_empty)
    (simp_all add: demo_waiting_def create_scan_job_def Let_def empty_db_def sql_upsert_def sql_insert_def demo_scan_env_def)

end
