(* ===== verification/Workspace_Service.thy ===== *)
theory Workspace_Service
  imports Scan
begin

text \<open>
  Workspace-level operations (\<open>src/app/services/workspace_service.py\<close>): the retention purge, notifications, accuracy,
  health and the evidence index. Backup records are given as they are listed from the backup directory.
\<close>

section \<open>Retention\<close>

definition retention_days_of :: "string \<Rightarrow> db \<Rightarrow> int" where
  "retention_days_of w d = (case get_workspace_settings w d of None \<Rightarrow> 365 | Some r \<Rightarrow> ws_retention_days r)"

text \<open>The answer without its two fixed texts.\<close>

definition privacy :: "string \<Rightarrow> db \<Rightarrow> string \<times> int \<times> bool" where
  "privacy w d = (w, retention_days_of w d, True)"

definition retention_candidates :: "timestamp \<Rightarrow> string \<Rightarrow> db \<Rightarrow> timestamp \<times> string list" where
  "retention_candidates now w d =
     (let cutoff = now - retention_days_of w d * 86400 * 1000000
      in (cutoff, list_expired_archived_run_ids w cutoff d))"

text \<open>\<open>Path(p).parent\<close> of a path with a directory part.\<close>

definition parent_dir :: "string \<Rightarrow> string" where
  "parent_dir p = rev (drop 1 (dropWhile (\<lambda>c. c \<noteq> CHR ''/'') (rev p)))"

fun purge_loop :: "env \<Rightarrow> principal \<Rightarrow> string list \<Rightarrow> nat \<Rightarrow> (store, nat) handler" where
  "purge_loop en pr [] deleted s = (Inr deleted, s)"
| "purge_loop en pr (x # xs) deleted s =
     (case require_scoped (en_client en) x pr (st_db s) of
        Inl e \<Rightarrow> (Inl e, s)
      | Inr run \<Rightarrow>
          let (removed, d) = delete_run x (st_db s); s1 = s\<lparr>st_db := d\<rparr>
          in if removed then purge_loop en pr xs (deleted + 1) (remove_tree (parent_dir (rn_tender_path run)) s1)
             else purge_loop en pr xs deleted s1)"

record purge_view =
  pg_cutoff :: timestamp
  pg_deleted :: nat
  pg_run_ids :: "string list"

text \<open>\<open>isoformat\<close> is \<open>datetime.isoformat\<close>.\<close>

definition purge_retention :: "(timestamp \<Rightarrow> ustr) \<Rightarrow> env \<Rightarrow> principal \<Rightarrow> (store, purge_view) handler" where
  "purge_retention isoformat en pr s =
     (let (cutoff, ids) = retention_candidates (en_now en) (pr_workspace_id pr) (st_db s)
      in case purge_loop en pr ids 0 s of
           (Inl e, s1) \<Rightarrow> (Inl e, s1)
         | (Inr deleted, s1) \<Rightarrow>
             (Inr \<lparr>pg_cutoff = cutoff, pg_deleted = deleted, pg_run_ids = ids\<rparr>,
              s1\<lparr>st_db := audit en 0 pr ''RETENTION_PURGE'' None
                   (JObj [(''cutoff'', JStr (isoformat cutoff)), (''deleted'', JInt (int deleted))]) (st_db s1)\<rparr>))"

section \<open>Notifications\<close>

definition NOTIFICATION_DUE_WINDOW_DAYS :: int where
  "NOTIFICATION_DUE_WINDOW_DAYS = 3"

definition NOTIFICATION_LIMIT :: nat where
  "NOTIFICATION_LIMIT = 50"

datatype notification =
    Remediation (nt_overdue: bool) (nt_run_id: "string option") (nt_item_id: string) (nt_title: ustr) (nt_message: ustr)
  | Scan_Job_Failed (nt_run_id: "string option") (nt_item_id: string) (nt_title: ustr) (nt_message: ustr)

definition due_message :: "int \<Rightarrow> ustr" where
  "due_message delta =
     (if delta < 0 then [24050, 36926, 26399]
      else if delta = 0 then [20170, 22825, 21040, 26399]
      else asc (decimal (nat delta)) @ [32, 22825, 21518, 21040, 26399])"

text \<open>\<open>day_of\<close> is \<open>datetime.fromisoformat(s).date()\<close> as a day number; no value stands for \<open>ValueError\<close>.\<close>

definition due_notice :: "(string \<Rightarrow> int option) \<Rightarrow> int \<Rightarrow> remediation_row \<Rightarrow> notification list" where
  "due_notice day_of today m =
     (if rm_status m \<in> {''DONE'', ''CANCELLED''} then []
      else case rm_due_date m of
        None \<Rightarrow> []
      | Some x \<Rightarrow>
          if x = '''' then []
          else case day_of x of
            None \<Rightarrow> []
          | Some due \<Rightarrow>
              let delta = due - today
              in if delta \<le> NOTIFICATION_DUE_WINDOW_DAYS
                 then [Remediation (delta < 0) (Some (rm_run_id m)) (rm_remediation_id m) (rm_title m) (due_message delta)]
                 else [])"

definition job_notice :: "scan_job \<Rightarrow> notification list" where
  "job_notice j =
     (if sj_status j = FAILED
      then [Scan_Job_Failed (sj_run_id j) (sj_job_id j) [25195, 25551, 20316, 19994, 22833, 36133]
              (if sj_progress_message j \<noteq> [] then sj_progress_message j
               else case sj_error j of
                 Some e \<Rightarrow> if e \<noteq> '''' then asc e else [21487, 22312, 20316, 19994, 39029, 37325, 35797]
               | None \<Rightarrow> [21487, 22312, 20316, 19994, 39029, 37325, 35797])]
      else [])"

definition notifications :: "(string \<Rightarrow> int option) \<Rightarrow> int \<Rightarrow> string \<Rightarrow> db \<Rightarrow> nat \<times> notification list" where
  "notifications day_of today w d =
     (let items = concat (map (due_notice day_of today) (list_workspace_remediations w d))
                  @ concat (map job_notice (list_scan_jobs w NOTIFICATION_LIMIT d))
      in (length items, take NOTIFICATION_LIMIT items))"

section \<open>Accuracy\<close>

record overall_metric =
  om_tp :: nat
  om_fp :: nat
  om_fn :: nat
  om_tn :: nat
  om_sample_size :: nat
  om_detected_total :: nat
  om_labeled_detected :: nat
  om_precision :: "(nat \<times> nat) option"
  om_recall :: "(nat \<times> nat) option"
  om_false_discovery_rate :: "(nat \<times> nat) option"
  om_false_positive_rate :: "(nat \<times> nat) option"
  om_miss_rate :: "(nat \<times> nat) option"
  om_coverage :: "(nat \<times> nat) option"
  om_review_population_complete :: bool
  om_included_scopes :: "string list"
  om_measurement_status :: string

text \<open>Rates stay fractions; the code rounds them to four digits in the answer.\<close>

definition overall_of :: "string list \<Rightarrow> metric list \<Rightarrow> overall_metric" where
  "overall_of scopes categories =
     (let total_of = (\<lambda>f. sum_list (map f categories));
          tp = total_of me_tp; fp = total_of me_fp; fn = total_of me_fn; tn = total_of me_tn;
          sample = total_of me_sample_size; detected = total_of me_detected_total;
          labeled = total_of me_labeled_detected;
          complete = (categories \<noteq> [] \<and> list_all me_review_population_complete categories);
          measurable = (detected \<noteq> 0 \<and> labeled = detected \<and> sample \<ge> ACCURACY_MIN_SAMPLE_SIZE \<and> complete)
      in \<lparr>om_tp = tp, om_fp = fp, om_fn = fn, om_tn = tn, om_sample_size = sample, om_detected_total = detected,
          om_labeled_detected = labeled, om_precision = rate tp (tp + fp), om_recall = rate tp (tp + fn),
          om_false_discovery_rate = rate fp (tp + fp), om_false_positive_rate = rate fp (fp + tn),
          om_miss_rate = rate fn (tp + fn), om_coverage = rate labeled detected,
          om_review_population_complete = complete, om_included_scopes = scopes,
          om_measurement_status = (if measurable then ''MEASURABLE'' else ''INSUFFICIENT'')\<rparr>)"

definition accuracy :: "string \<Rightarrow> bool \<Rightarrow> db \<Rightarrow> (overall_metric \<times> metric list) result" where
  "accuracy w include_test d =
     (let scopes = (if include_test then [''TEST'', ''PILOT'', ''ENTERPRISE''] else [''PILOT'', ''ENTERPRISE''])
      in bind_result (accuracy_metrics w scopes d) (\<lambda>categories. Inr (overall_of scopes categories, categories)))"

section \<open>Health\<close>

record backup_record =
  bk_created_at :: "string option"
  bk_verified_at :: "string option"
  bk_valid :: bool

record health_view =
  hv_status :: string
  hv_database :: string
  hv_backup_status :: string
  hv_last_backup_at :: "string option"
  hv_last_verified_backup_at :: "string option"
  hv_failed_jobs :: nat
  hv_backup_age :: "int option"
  hv_degraded_reasons :: "string list"

text \<open>\<open>ping\<close> and \<open>counts\<close> are the answers of the two database calls; \<open>age_of\<close> is the age of a point in time, no value for one
  that does not parse. The later assignment of the status repeats the earlier one.\<close>

definition health_detail ::
  "bool result \<Rightarrow> (job_status \<Rightarrow> nat) result \<Rightarrow> (string \<Rightarrow> int option) \<Rightarrow> backup_record list \<Rightarrow> health_view result" where
  "health_detail ping counts age_of backups =
     (let (status, database) = (case ping of Inr _ \<Rightarrow> (''ok'', ''ok'') | Inl _ \<Rightarrow> (''degraded'', ''error''));
          verified = find bk_valid backups;
          verified_at = (case verified of None \<Rightarrow> None | Some b \<Rightarrow> bk_verified_at b)
      in bind_result counts (\<lambda>job_counts.
           let failed = job_counts FAILED;
               reasons = (if verified = None then [''NO_VERIFIED_BACKUP''] else [])
                         @ (if failed \<noteq> 0 then [''FAILED_SCAN_JOBS''] else [])
           in Inr \<lparr>hv_status = (if reasons \<noteq> [] then ''degraded'' else status), hv_database = database,
                   hv_backup_status = (if verified \<noteq> None then ''verified'' else if backups \<noteq> [] then ''unverified'' else ''missing''),
                   hv_last_backup_at = (case backups of [] \<Rightarrow> None | b # _ \<Rightarrow> bk_created_at b),
                   hv_last_verified_backup_at = verified_at, hv_failed_jobs = failed,
                   hv_backup_age = (case verified_at of None \<Rightarrow> None | Some t \<Rightarrow> if t = '''' then None else age_of t),
                   hv_degraded_reasons = reasons\<rparr>))"

section \<open>Evidence index and touch\<close>

definition evidence_index ::
  "(string \<Rightarrow> string) \<Rightarrow> (ustr \<Rightarrow> ustr) \<Rightarrow> fernet option \<Rightarrow> string \<Rightarrow> string option \<Rightarrow> ustr option \<Rightarrow> string option
     \<Rightarrow> db \<Rightarrow> (nat \<times> (string \<times> asset) list) result" where
  "evidence_index upper casefold client w category query valid_before d =
     bind_result (list_evidence_assets client w d) (\<lambda>assets.
       let as1 = (case category of None \<Rightarrow> assets
                  | Some c \<Rightarrow> if c = '''' then assets else filter (\<lambda>(_, a). as_category a = upper c) assets);
           as2 = (case query of None \<Rightarrow> as1
                  | Some q \<Rightarrow> if q = [] then as1
                             else filter (\<lambda>(_, a). contains (casefold q) (casefold (asc (as_filename a)))) as1);
           as3 = (case valid_before of None \<Rightarrow> as2
                  | Some v \<Rightarrow> if v = '''' then as2
                             else filter (\<lambda>(_, a). case as_valid_until a of None \<Rightarrow> False | Some u \<Rightarrow> u \<noteq> '''' \<and> u \<le> v) as2)
       in Inr (length as3, as3))"

definition touch :: "env \<Rightarrow> run_doc \<Rightarrow> (db, timestamp) handler" where
  "touch en run d =
     (case save_run (en_client en) (en_now en) (run\<lparr>rn_updated_at := en_now en\<rparr>) None d of
        (Inl e, d1) \<Rightarrow> (Inl e, d1) | (Inr _, d1) \<Rightarrow> (Inr (en_now en), d1))"

section \<open>The purge\<close>

definition expired :: "timestamp \<Rightarrow> string \<Rightarrow> db \<Rightarrow> run_row \<Rightarrow> bool" where
  "expired now w d row \<longleftrightarrow> rr_workspace_id row = w
     \<and> (\<exists>t. rr_archived_at row = Some t \<and> t < now - retention_days_of w d * 86400 * 1000000)"

lemma candidates_set:
  assumes "retention_candidates now w d = (cutoff, ids)"
  shows "set ids = rr_run_id ` {row \<in> set (runs d). expired now w d row}"
  using assms
  by (auto simp: retention_candidates_def list_expired_archived_run_ids_def Let_def expired_def archived_time_def)

lemma candidates_distinct:
  assumes "runs_wf d" and "retention_candidates now w d = (cutoff, ids)"
  shows "distinct ids"
proof -
  have "distinct (map rr_run_id (order_by archived_time (sql_select P (runs d))))" for P
    using assms(1) by (simp add: runs_wf_def order_by_def sql_select_def distinct_map inj_on_def distinct_map_filter)
  with assms(2) show ?thesis
    by (auto simp: retention_candidates_def list_expired_archived_run_ids_def Let_def)
qed

lemma require_scoped_row:
  assumes "require_scoped client x pr d = Inr run"
  shows "\<exists>row \<in> set (runs d). rr_run_id row = x \<and> rn_tender_path run = rr_tender_path row"
  using assms
  by (auto simp: require_scoped_def require_def load_run_def bind_result_Inr run_from_storage_def run_of_row_def
      split: option.splits if_splits dest!: sql_first_Some)

text \<open>What the loop has done when it stops: a prefix of the list is gone, with its directories.\<close>

definition dirs_of :: "string set \<Rightarrow> db \<Rightarrow> string set" where
  "dirs_of ids d = {parent_dir (rr_tender_path row) | row. row \<in> set (runs d) \<and> rr_run_id row \<in> ids}"

lemma purge_loop_prefix:
  assumes "purge_loop en pr ids k s = (r, t)" and "distinct ids" and "runs_wf (st_db s)"
  shows "\<exists>xs. prefix xs ids \<and> runs (st_db t) = filter (\<lambda>row. rr_run_id row \<notin> set xs) (runs (st_db s))
    \<and> st_dirs t = (\<lambda>p. if p \<in> dirs_of (set xs) (st_db s) then None else st_dirs s p)
    \<and> (\<forall>n. r = Inr n \<longrightarrow> xs = ids \<and> n = k + length ids)"
  using assms
proof (induction ids arbitrary: k s)
  case Nil
  then show ?case by (auto simp: dirs_of_def)
next
  case (Cons x ids)
  show ?case
  proof (cases "require_scoped (en_client en) x pr (st_db s)")
    case (Inl e)
    with Cons.prems show ?thesis by (intro exI [of _ "[]"]) (auto simp: dirs_of_def)
  next
    case (Inr run)
    from require_scoped_row [OF Inr] obtain row
      where row: "row \<in> set (runs (st_db s))" "rr_run_id row = x" "rn_tender_path run = rr_tender_path row" by blast
    define s1 where "s1 = remove_tree (parent_dir (rn_tender_path run)) (s\<lparr>st_db := snd (delete_run x (st_db s))\<rparr>)"
    have removed: "fst (delete_run x (st_db s))" using row by (auto simp: delete_run_def sql_count_def filter_empty_conv)
    have runs1: "runs (st_db s1) = filter (\<lambda>row. rr_run_id row \<noteq> x) (runs (st_db s))"
      by (simp add: s1_def delete_run_def sql_delete_def remove_tree_def)
    have loop: "purge_loop en pr ids (k + 1) s1 = (r, t)"
      using Cons.prems(1) Inr removed by (simp add: case_prod_unfold s1_def)
    have wf1: "runs_wf (st_db s1)" using Cons.prems(3) by (simp add: runs_wf_def runs1 distinct_map_filter)
    from Cons.IH [OF loop _ wf1] Cons.prems(2) obtain xs where xs: "prefix xs ids"
      "runs (st_db t) = filter (\<lambda>row. rr_run_id row \<notin> set xs) (runs (st_db s1))"
      "st_dirs t = (\<lambda>p. if p \<in> dirs_of (set xs) (st_db s1) then None else st_dirs s1 p)"
      "\<forall>n. r = Inr n \<longrightarrow> xs = ids \<and> n = k + 1 + length ids" by auto
    have "x \<notin> set xs" using xs(1) Cons.prems(2) set_mono_prefix by fastforce
    have only: "row' = row" if "row' \<in> set (runs (st_db s))" "rr_run_id row' = x" for row'
      using that row Cons.prems(3) by (auto simp: runs_wf_def dest: distinct_key_eq)
    have rows: "runs (st_db t) = filter (\<lambda>row. rr_run_id row \<notin> set (x # xs)) (runs (st_db s))"
      unfolding xs(2) runs1 by (simp add: conj_commute)
    have dirs: "dirs_of (set (x # xs)) (st_db s) = insert (parent_dir (rr_tender_path row)) (dirs_of (set xs) (st_db s1))"
    proof (intro set_eqI iffI)
      fix p
      assume "p \<in> dirs_of (set (x # xs)) (st_db s)"
      then obtain r' where "p = parent_dir (rr_tender_path r')" "r' \<in> set (runs (st_db s))" "rr_run_id r' \<in> set (x # xs)"
        unfolding dirs_of_def by blast
      then show "p \<in> insert (parent_dir (rr_tender_path row)) (dirs_of (set xs) (st_db s1))"
        using only by (cases "rr_run_id r' = x") (auto simp: dirs_of_def runs1)
    next
      fix p
      assume "p \<in> insert (parent_dir (rr_tender_path row)) (dirs_of (set xs) (st_db s1))"
      then show "p \<in> dirs_of (set (x # xs)) (st_db s)" using row by (auto simp: dirs_of_def runs1)
    qed
    have "st_dirs t = (\<lambda>p. if p \<in> dirs_of (set (x # xs)) (st_db s) then None else st_dirs s p)"
      unfolding xs(3) dirs by (rule ext) (simp add: s1_def remove_tree_def row(3))
    with xs(1,4) rows show ?thesis by (intro exI [of _ "x # xs"]) simp
  qed
qed

lemma purge_loop_completes:
  assumes "pr_role pr \<in> {''OWNER'', ''ADMIN''}" and "distinct ids"
    and "\<forall>x \<in> set ids. \<exists>row \<in> set (runs (st_db s)). rr_run_id row = x \<and> rr_workspace_id row = pr_workspace_id pr
      \<and> (\<exists>run. run_from_storage (en_client en) row = Inr run)"
    and "runs_wf (st_db s)"
  shows "\<exists>n t. purge_loop en pr ids k s = (Inr n, t)"
  using assms(2-)
proof (induction ids arbitrary: k s)
  case (Cons x ids)
  then obtain row run where row: "row \<in> set (runs (st_db s))" "rr_run_id row = x" "rr_workspace_id row = pr_workspace_id pr"
    "run_from_storage (en_client en) row = Inr run" by auto
  then have "sql_first (\<lambda>r. rr_run_id r = x) (runs (st_db s)) = Some row"
    using Cons.prems(3) sql_first_key [of rr_run_id "runs (st_db s)" row] by (simp add: runs_wf_def)
  moreover have "rn_workspace_id run = pr_workspace_id pr"
    using row(3,4) by (auto simp: run_from_storage_def run_of_row_def bind_result_Inr)
  ultimately have ok: "require_scoped (en_client en) x pr (st_db s) = Inr run"
    using assms(1) row(4)
    by (auto simp: require_scoped_def require_def load_run_def user_can_access_project_def split: option.split)
  define s1 where "s1 = remove_tree (parent_dir (rn_tender_path run)) (s\<lparr>st_db := snd (delete_run x (st_db s))\<rparr>)"
  have removed: "fst (delete_run x (st_db s))" using row by (auto simp: delete_run_def sql_count_def filter_empty_conv)
  have runs1: "runs (st_db s1) = filter (\<lambda>row. rr_run_id row \<noteq> x) (runs (st_db s))"
    by (simp add: s1_def delete_run_def sql_delete_def remove_tree_def)
  have "\<exists>n t. purge_loop en pr ids (k + 1) s1 = (Inr n, t)"
  proof (rule Cons.IH)
    show "\<forall>y \<in> set ids. \<exists>row \<in> set (runs (st_db s1)). rr_run_id row = y \<and> rr_workspace_id row = pr_workspace_id pr
        \<and> (\<exists>run. run_from_storage (en_client en) row = Inr run)"
    proof
      fix y assume "y \<in> set ids"
      with Cons.prems(1) have "y \<noteq> x" by auto
      from Cons.prems(2) \<open>y \<in> set ids\<close> obtain row' where "row' \<in> set (runs (st_db s))" "rr_run_id row' = y"
        "rr_workspace_id row' = pr_workspace_id pr" "\<exists>run. run_from_storage (en_client en) row' = Inr run"
        by (meson list.set_intros(2))
      with \<open>y \<noteq> x\<close> show "\<exists>row \<in> set (runs (st_db s1)). rr_run_id row = y \<and> rr_workspace_id row = pr_workspace_id pr
          \<and> (\<exists>run. run_from_storage (en_client en) row = Inr run)" unfolding runs1 by auto
    qed
  qed (use Cons.prems in \<open>simp_all add: runs_wf_def runs1 distinct_map_filter\<close>)
  then show ?case using ok removed by (simp add: case_prod_unfold s1_def)
qed simp

lemma candidates_count:
  assumes "retention_candidates now w d = (cutoff, ids)"
  shows "length ids = length (filter (expired now w d) (runs d))"
proof -
  have "filter (\<lambda>r. rr_workspace_id r = w \<and> rr_archived_at r \<noteq> None \<and> archived_time r < cutoff) (runs d)
      = filter (expired now w d) (runs d)"
    using assms by (intro filter_cong) (auto simp: retention_candidates_def Let_def expired_def archived_time_def)
  with assms show ?thesis
    by (auto simp: retention_candidates_def list_expired_archived_run_ids_def Let_def sql_select_def order_by_def)
qed

text \<open>The rows \<open>gone\<close> are what a purge has deleted, whether it returned or raised.\<close>

lemma purge_shape:
  assumes "purge_retention isoformat en pr s = (r, t)" and wf: "runs_wf (st_db s)"
    and exp: "exp = expired (en_now en) (pr_workspace_id pr) (st_db s)"
  obtains gone where "gone \<subseteq> {row \<in> set (runs (st_db s)). exp row}"
    and "runs (st_db t) = filter (\<lambda>row. row \<notin> gone) (runs (st_db s))"
    and "st_dirs t = (\<lambda>p. if p \<in> (parent_dir \<circ> rr_tender_path) ` gone then None else st_dirs s p)"
    and "\<And>v. r = Inr v \<Longrightarrow> gone = {row \<in> set (runs (st_db s)). exp row}
      \<and> pg_deleted v = length (filter exp (runs (st_db s)))"
proof -
  obtain cutoff ids where c: "retention_candidates (en_now en) (pr_workspace_id pr) (st_db s) = (cutoff, ids)" by fastforce
  note ids = candidates_set [OF c, folded exp]
  obtain q u where loop: "purge_loop en pr ids 0 s = (q, u)" by fastforce
  from purge_loop_prefix [OF this candidates_distinct [OF wf c] wf] obtain xs where xs: "prefix xs ids"
    "runs (st_db u) = filter (\<lambda>row. rr_run_id row \<notin> set xs) (runs (st_db s))"
    "st_dirs u = (\<lambda>p. if p \<in> dirs_of (set xs) (st_db s) then None else st_dirs s p)"
    "\<forall>n. q = Inr n \<longrightarrow> xs = ids \<and> n = length ids" by auto
  have key: "rr_run_id row \<in> set ids \<longleftrightarrow> exp row" if "row \<in> set (runs (st_db s))" for row
    using that wf unfolding ids by (auto simp: runs_wf_def dest: distinct_key_eq)
  have same: "runs (st_db t) = runs (st_db u)" "st_dirs t = st_dirs u" "\<And>v. r = Inr v \<Longrightarrow> q = Inr (pg_deleted v)"
    using assms(1) c loop by (cases q, auto simp: purge_retention_def)+
  define gone where "gone = {row \<in> set (runs (st_db s)). rr_run_id row \<in> set xs}"
  show thesis
  proof (rule that [of gone])
    show "gone \<subseteq> {row \<in> set (runs (st_db s)). exp row}"
      using set_mono_prefix [OF xs(1)] key by (auto simp: gone_def)
    show "runs (st_db t) = filter (\<lambda>row. row \<notin> gone) (runs (st_db s))"
      unfolding same(1) xs(2) by (intro filter_cong) (auto simp: gone_def)
    have "dirs_of (set xs) (st_db s) = (parent_dir \<circ> rr_tender_path) ` gone" by (auto simp: dirs_of_def gone_def)
    then show "st_dirs t = (\<lambda>p. if p \<in> (parent_dir \<circ> rr_tender_path) ` gone then None else st_dirs s p)"
      unfolding same(2) xs(3) by simp
    show "gone = {row \<in> set (runs (st_db s)). exp row} \<and> pg_deleted v = length (filter exp (runs (st_db s)))" if "r = Inr v" for v
      using same(3) [OF that] xs(4) key candidates_count [OF c] by (auto simp: gone_def exp)
  qed
qed

lemma purge_completes:
  assumes "runs_wf (st_db s)" and "pr_role pr \<in> {''OWNER'', ''ADMIN''}"
    and "\<forall>row \<in> set (runs (st_db s)). \<exists>run. run_from_storage (en_client en) row = Inr run"
  shows "\<exists>v t. purge_retention isoformat en pr s = (Inr v, t)"
proof -
  obtain cutoff ids where c: "retention_candidates (en_now en) (pr_workspace_id pr) (st_db s) = (cutoff, ids)" by fastforce
  have "\<exists>n t. purge_loop en pr ids 0 s = (Inr n, t)"
    by (rule purge_loop_completes [OF assms(2) candidates_distinct [OF assms(1) c] _ assms(1)])
      (use assms(3) candidates_set [OF c] in \<open>auto simp: expired_def\<close>)
  with c show ?thesis by (auto simp: purge_retention_def)
qed

section \<open>Health and notifications\<close>

text \<open>The detail is healthy exactly when the database answered, a valid backup exists and no job has failed. A
  database that is down does not degrade it: the count of the jobs raises.\<close>

lemma health_ok_iff:
  assumes "health_detail ping counts age_of backups = Inr v"
  shows "hv_status v = ''ok'' \<longleftrightarrow> (\<exists>b. ping = Inr b) \<and> (\<exists>b \<in> set backups. bk_valid b) \<and> hv_failed_jobs v = 0"
  using assms
  by (cases "find bk_valid backups"; cases ping; cases counts)
    (auto simp: health_detail_def Let_def find_None_iff find_Some_iff split: if_splits)

lemma health_raises_with_the_database: "health_detail ping (Inl e) age_of backups = Inl e"
  by (simp add: health_detail_def Let_def split: prod.split)

lemma due_items_listed:
  assumes "m \<in> set (remediations d)" and "rm_workspace_id m = w" and "rm_status m \<notin> {''DONE'', ''CANCELLED''}"
    and "rm_due_date m = Some x" and "x \<noteq> ''''" and "day_of x = Some due" and "due - today \<le> NOTIFICATION_DUE_WINDOW_DAYS"
    and "fst (notifications day_of today w d) \<le> NOTIFICATION_LIMIT"
  shows "\<exists>n \<in> set (snd (notifications day_of today w d)). nt_item_id n = rm_remediation_id m"
proof -
  have "\<exists>n \<in> set (due_notice day_of today m). nt_item_id n = rm_remediation_id m"
    using assms(3-7) by (simp add: due_notice_def)
  then show ?thesis
    using assms(1,2,8) by (force simp: notifications_def Let_def list_workspace_remediations_def)
qed

section \<open>Properties\<close>


text \<open>One archived run whose retention period is over, purged by the owner a year and some microseconds later.\<close>

definition demo_archive :: store where
  "demo_archive = \<lparr>st_db = snd (save_run None 10 (demo_scan\<lparr>rn_archived_at := Some 5, rn_workspace_id := ''w''\<rparr>) None empty_db),
     st_dirs = (\<lambda>_. Some [])\<rparr>"

definition demo_later :: env where
  "demo_later = demo_env\<lparr>en_now := 400 * 86400 * 1000000\<rparr>"


end
