(* ===== verification/Regex.thy ===== *)
theory Regex
  imports Prelude
begin

text \<open>
  The part of Python's \<open>re\<close> that the program uses beyond literal alternatives, as an executable matcher: \<open>rests\<close> lists
  what may follow a match at the start of a text, in the order in which the engine tries (repetitions take as much as
  they can first, alternatives go from left to right), so the first entry is the match Python takes. \<open>matches\<close> says what
  the patterns mean, and the matcher is proved to decide it.
\<close>

section \<open>Patterns\<close>

datatype rx =
    Chars "nat \<Rightarrow> bool"
  | Lit ustr
  | Seq rx rx
  | Alt rx rx
  | Opt rx
  | Rep "nat \<Rightarrow> bool" nat "nat option"
  | Not_Next "nat \<Rightarrow> bool"
  | At_End

text \<open>\<open>Rep C m n\<close> repeats a class between \<open>m\<close> and \<open>n\<close> times; \<open>Not_Next\<close> is a negative lookahead for one character, which is
  what a word boundary means after a word character; \<open>At_End\<close> is \<open>$\<close>.\<close>

fun seq_all :: "rx list \<Rightarrow> rx" where
  "seq_all [] = Lit []"
| "seq_all [p] = p"
| "seq_all (p # ps) = Seq p (seq_all ps)"

fun alt_all :: "rx list \<Rightarrow> rx" where
  "alt_all [] = Chars (\<lambda>_. False)"
| "alt_all [p] = p"
| "alt_all (p # ps) = Alt p (alt_all ps)"

definition words :: "ustr list \<Rightarrow> rx" where
  "words ws = alt_all (map Lit ws)"

text \<open>Lower-case words under \<open>IGNORECASE\<close>; beside the capitals, S matches the long s, K the Kelvin sign and I the dotted
  capital and the dotless small i.\<close>

definition other_cases :: "char \<Rightarrow> nat set" where
  "other_cases x = (if x = CHR ''s'' then {383} else if x = CHR ''k'' then {8490} else if x = CHR ''i'' then {304, 305} else {})"

definition no_case :: "string \<Rightarrow> rx" where
  "no_case w = seq_all (map (\<lambda>x. Chars (\<lambda>c. c = of_char x \<or> (x \<in> {CHR ''a''..CHR ''z''} \<and> c + 32 = of_char x) \<or> c \<in> other_cases x)) w)"

primrec rests :: "rx \<Rightarrow> ustr \<Rightarrow> ustr list" where
  "rests (Chars C) s = (case s of [] \<Rightarrow> [] | c # t \<Rightarrow> if C c then [t] else [])"
| "rests (Lit w) s = (if prefix w s then [drop (length w) s] else [])"
| "rests (Seq p q) s = concat (map (rests q) (rests p s))"
| "rests (Alt p q) s = rests p s @ rests q s"
| "rests (Opt p) s = rests p s @ [s]"
| "rests (Rep C m n) s =
     (let k = length (takeWhile C s); top = (case n of None \<Rightarrow> k | Some x \<Rightarrow> min x k)
      in map (\<lambda>i. drop i s) (rev [m..<Suc top]))"
| "rests (Not_Next C) s = (case s of [] \<Rightarrow> [s] | c # t \<Rightarrow> if C c then [] else [s])"
| "rests At_End s = (if s = [] \<or> s = [10] then [s] else [])"

text \<open>\<open>re.search\<close> as a test.\<close>

fun search :: "rx \<Rightarrow> ustr \<Rightarrow> bool" where
  "search p [] \<longleftrightarrow> rests p [] \<noteq> []"
| "search p (c # s) \<longleftrightarrow> rests p (c # s) \<noteq> [] \<or> search p s"

text \<open>\<open>re.sub\<close> for a pattern that matches no empty text, and for one that is anchored at the start.\<close>

function sub :: "rx \<Rightarrow> ustr \<Rightarrow> ustr \<Rightarrow> ustr" where
  "sub p new [] = []"
| "sub p new (c # s) =
     (case rests p (c # s) of
        t # _ \<Rightarrow> if length t \<le> length s then new @ sub p new t else c # sub p new s
      | [] \<Rightarrow> c # sub p new s)"
  by pat_completeness auto

termination
  by (relation "measure (\<lambda>(_, _, s). length s)") auto

definition sub_start :: "rx \<Rightarrow> ustr \<Rightarrow> ustr \<Rightarrow> ustr" where
  "sub_start p new s = (case rests p s of t # _ \<Rightarrow> new @ t | [] \<Rightarrow> s)"

section \<open>Meaning\<close>

text \<open>\<open>matches p w r\<close>: the pattern matches \<open>w\<close> when \<open>r\<close> follows.\<close>

inductive matches :: "rx \<Rightarrow> ustr \<Rightarrow> ustr \<Rightarrow> bool" where
  chars: "C c \<Longrightarrow> matches (Chars C) [c] r"
| lit: "matches (Lit w) w r"
| seq: "matches p u (v @ r) \<Longrightarrow> matches q v r \<Longrightarrow> matches (Seq p q) (u @ v) r"
| alt_left: "matches p w r \<Longrightarrow> matches (Alt p q) w r"
| alt_right: "matches q w r \<Longrightarrow> matches (Alt p q) w r"
| opt_some: "matches p w r \<Longrightarrow> matches (Opt p) w r"
| opt_none: "matches (Opt p) [] r"
| rep: "list_all C w \<Longrightarrow> m \<le> length w \<Longrightarrow> (case n of None \<Rightarrow> True | Some x \<Rightarrow> length w \<le> x) \<Longrightarrow> matches (Rep C m n) w r"
| not_next: "(case r of [] \<Rightarrow> True | c # _ \<Rightarrow> \<not> C c) \<Longrightarrow> matches (Not_Next C) [] r"
| at_end: "r = [] \<or> r = [10] \<Longrightarrow> matches At_End [] r"

inductive_simps matches_simps [simp]:
  "matches (Chars C) w r" "matches (Lit x) w r" "matches (Seq p q) w r" "matches (Alt p q) w r"
  "matches (Opt p) w r" "matches (Rep C m n) w r" "matches (Not_Next C) w r" "matches At_End w r"

lemma takeWhile_prefix_iff: "list_all C (take i s) \<and> i \<le> length s \<longleftrightarrow> i \<le> length (takeWhile C s)"
proof (induction s arbitrary: i)
  case (Cons c s)
  then show ?case by (cases i) auto
qed auto

lemma rests_rep:
  "t \<in> set (rests (Rep C m n) s) \<longleftrightarrow> (\<exists>w. s = w @ t \<and> matches (Rep C m n) w t)"
proof
  assume "t \<in> set (rests (Rep C m n) s)"
  then obtain i where i: "t = drop i s" "m \<le> i" "i \<le> length (takeWhile C s)" "case n of None \<Rightarrow> True | Some x \<Rightarrow> i \<le> x"
    by (auto simp: Let_def split: option.splits)
  then have "list_all C (take i s) \<and> i \<le> length s" using takeWhile_prefix_iff by blast
  with i show "\<exists>w. s = w @ t \<and> matches (Rep C m n) w t"
    by (intro exI [of _ "take i s"]) (auto split: option.splits)
next
  assume "\<exists>w. s = w @ t \<and> matches (Rep C m n) w t"
  then obtain w where w: "s = w @ t" "list_all C w" "m \<le> length w" "case n of None \<Rightarrow> True | Some x \<Rightarrow> length w \<le> x" by auto
  then have "length w \<le> length (takeWhile C s)" using takeWhile_prefix_iff [of C "length w" s] by simp
  with w show "t \<in> set (rests (Rep C m n) s)"
    by (auto simp: Let_def image_iff split: option.splits intro!: bexI [of _ "length w"])
qed

lemma rests_iff: "t \<in> set (rests p s) \<longleftrightarrow> (\<exists>w. s = w @ t \<and> matches p w t)"
proof (induction p arbitrary: s t)
  case (Chars C)
  then show ?case by (auto split: list.split)
next
  case (Lit w)
  then show ?case by (auto simp: prefix_def)
next
  case (Seq p q)
  show ?case
  proof
    assume "t \<in> set (rests (Seq p q) s)"
    then obtain u where "u \<in> set (rests p s)" "t \<in> set (rests q u)" by auto
    with Seq obtain v w where "s = v @ u" "matches p v u" "u = w @ t" "matches q w t" by blast
    then show "\<exists>w. s = w @ t \<and> matches (Seq p q) w t" by (intro exI [of _ "v @ w"]) auto
  next
    assume "\<exists>w. s = w @ t \<and> matches (Seq p q) w t"
    then obtain u v where "s = u @ v @ t" "matches p u (v @ t)" "matches q v t" by auto
    with Seq have "v @ t \<in> set (rests p s)" "t \<in> set (rests q (v @ t))" by blast+
    then show "t \<in> set (rests (Seq p q) s)" by auto
  qed
next
  case (Rep C m n)
  show ?case by (rule rests_rep)
qed (auto split: list.split)

lemma rests_nonempty_iff: "rests p s \<noteq> [] \<longleftrightarrow> (\<exists>w r. s = w @ r \<and> matches p w r)"
proof -
  have "rests p s \<noteq> [] \<longleftrightarrow> (\<exists>r. r \<in> set (rests p s))" by (cases "rests p s") auto
  also have "\<dots> \<longleftrightarrow> (\<exists>r w. s = w @ r \<and> matches p w r)" by (simp only: rests_iff)
  also have "\<dots> \<longleftrightarrow> (\<exists>w r. s = w @ r \<and> matches p w r)" by (rule ex_comm)
  finally show ?thesis .
qed

text \<open>The search finds a match exactly when there is one.\<close>

lemma search_iff: "search p s \<longleftrightarrow> (\<exists>a w r. s = a @ w @ r \<and> matches p w r)"
proof (induction s)
  case Nil
  show ?case by (simp add: rests_nonempty_iff)
next
  case (Cons c s)
  have "(\<exists>a w r. c # s = a @ w @ r \<and> matches p w r)
      \<longleftrightarrow> (\<exists>w r. c # s = w @ r \<and> matches p w r) \<or> (\<exists>a w r. s = a @ w @ r \<and> matches p w r)"
    (is "?L \<longleftrightarrow> ?R")
  proof
    assume ?L
    then obtain a w r where "c # s = a @ w @ r" "matches p w r" by blast
    then show ?R by (cases a) auto
  next
    assume ?R
    then show ?L
    proof
      assume "\<exists>w r. c # s = w @ r \<and> matches p w r"
      then obtain w r where "c # s = [] @ w @ r" "matches p w r" by auto
      then show ?L by blast
    next
      assume "\<exists>a w r. s = a @ w @ r \<and> matches p w r"
      then obtain a w r where "c # s = (c # a) @ w @ r" "matches p w r" by auto
      then show ?L by blast
    qed
  qed
  with Cons show ?case by (simp add: rests_nonempty_iff)
qed

lemma matches_alt_all: "matches (alt_all ps) w r \<longleftrightarrow> (\<exists>p \<in> set ps. matches p w r)"
  by (induction ps rule: alt_all.induct) auto

lemma search_alt [simp]: "search (Alt p q) s \<longleftrightarrow> search p s \<or> search q s"
  by (auto simp: search_iff)

lemma search_lit [simp]: "search (Lit w) s \<longleftrightarrow> contains w s"
  by (auto simp: search_iff contains_iff_sublist sublist_def)

lemma search_alt_all: "search (alt_all ps) s \<longleftrightarrow> (\<exists>p \<in> set ps. search p s)"
  by (auto simp: search_iff matches_alt_all)

end
