(* ===== verification/Ocr_Privacy.thy ===== *)
theory Ocr_Privacy
  imports Regex Complex_Main
begin

text \<open>
  The privacy gate in front of cloud text recognition (\<open>src/app/ocr_privacy.py\<close>): which pages may be sent, which lines
  must be blacked out, and what a redacted page consists of. Painting and hashing an image are parameters; the model
  keeps the rectangles that are painted. \<open>digit\<close> is the class \<open>\d\<close> of decimal digits, \<open>lower\<close> is \<open>str.lower\<close>.
\<close>

section \<open>Settings\<close>

record ocr_settings =
  os_egress_mode :: ustr
  os_egress_allowed :: ustr
  os_escalate_min_conf :: "rat option"

text \<open>The last one is the value of \<open>BID_OCR_ESCALATE_MIN_CONF\<close> if it reads as a number.\<close>

datatype egress = Never | Redacted_Only | Vpc_Private

definition egress_mode :: "(ustr \<Rightarrow> ustr) \<Rightarrow> ocr_settings \<Rightarrow> egress" where
  "egress_mode lower st =
     (let mode = lower (strip (os_egress_mode st))
      in if mode \<in> {asc ''redacted_only'', asc ''redacted'', asc ''t1''} then Redacted_Only
         else if mode \<in> {asc ''vpc_private'', asc ''vpc'', asc ''t2''} then Vpc_Private
         else Never)"

definition is_true :: "(ustr \<Rightarrow> ustr) \<Rightarrow> ustr \<Rightarrow> bool" where
  "is_true lower v \<longleftrightarrow> lower (strip v) \<in> {asc ''1'', asc ''true'', asc ''yes''}"

definition egress_allowed_for_cloud :: "(ustr \<Rightarrow> ustr) \<Rightarrow> ocr_settings \<Rightarrow> bool" where
  "egress_allowed_for_cloud lower st \<longleftrightarrow>
     is_true lower (os_egress_allowed st) \<and> egress_mode lower st \<in> {Redacted_Only, Vpc_Private}"

definition escalate_min_confidence :: "ocr_settings \<Rightarrow> rat" where
  "escalate_min_confidence st = (case os_escalate_min_conf st of None \<Rightarrow> 55 / 100 | Some x \<Rightarrow> x)"

section \<open>Pages\<close>

definition BLOCK_ESCALATION_PATTERNS :: "(string \<times> rx) list" where
  "BLOCK_ESCALATION_PATTERNS =
     [(''seal'', words [[20844, 31456], [21360, 31456], [40092, 31456], [39569, 32541, 31456]]),
      (''id_card'', words [[23621, 27665, 36523, 20221, 35777], [36523, 20221, 35777, 21495], [36523, 20221, 35777, 22797, 21360, 20214]]),
      (''license_scan'', alt_all [Lit [33829, 19994, 25191, 29031, 21103, 26412],
          seq_all [Lit [21307, 30103, 22120, 26800], words [[32463, 33829], [29983, 20135]], Lit [35768, 21487, 35777]],
          Lit [27880, 20876, 35777, 22797, 21360, 20214], Lit [35768, 21487, 35777, 22797, 21360, 20214]]),
      (''bank_receipt'', words [[24320, 25143, 35768, 21487, 35777], [38134, 34892, 22238, 21333], [27719, 27454, 20973, 35777]]),
      (''handwritten_signature'', words [[20146, 31508, 31614, 21517], [25163, 20889, 31614, 21517]]),
      (''contact_sheet'', alt_all [Lit [37319, 36141, 20154, 20449, 24687], Lit [20195, 29702, 26426, 26500, 20449, 24687], Lit [32852, 31995, 26041, 27861],
          seq_all [Lit [32852, 31995, 20154], Rep is_space 0 None, Chars (\<lambda>c. c \<in> {58, 65306})]])]"

definition ESCALATE_HINT_PATTERNS :: "(string \<times> rx) list" where
  "ESCALATE_HINT_PATTERNS =
     [(''toc'', alt_all [Lit [30446, 24405], seq_all [Lit [30446], Rep is_space 0 None, Lit [24405]]]),
      (''dense_table'', words [[24320, 26631, 19968, 35272, 34920], [25253, 20215, 26126, 32454], [20559, 31163, 34920], [35780, 20998, 34920], [25216, 26415, 21442, 25968, 34920]])]"

record page_risk =
  ri_page_types :: "string list"
  ri_block_escalation :: bool
  ri_block_reasons :: "string list"
  ri_escalate_hints :: "string list"

definition found_in :: "ustr \<Rightarrow> (string \<times> rx) list \<Rightarrow> string list" where
  "found_in blob patterns = map fst (filter (\<lambda>(name, p). search p blob) patterns)"

definition classify_page_text :: "ustr \<Rightarrow> page_risk" where
  "classify_page_text blob =
     (let blocked = found_in blob BLOCK_ESCALATION_PATTERNS; hints = found_in blob ESCALATE_HINT_PATTERNS
      in \<lparr>ri_page_types = (if blocked @ hints = [] then [''body''] else blocked @ hints),
          ri_block_escalation = (blocked \<noteq> []), ri_block_reasons = blocked, ri_escalate_hints = hints\<rparr>)"

text \<open>The decision with its reason; a confidence may be missing. Heights are in points.\<close>

definition should_escalate_to_cloud ::
  "(ustr \<Rightarrow> ustr) \<Rightarrow> ocr_settings \<Rightarrow> ustr \<Rightarrow> rat option \<Rightarrow> page_risk \<Rightarrow> rat \<Rightarrow> bool \<times> string" where
  "should_escalate_to_cloud lower st local_text local_confidence risk height =
     (if \<not> egress_allowed_for_cloud lower st then (False, ''egress_disabled'')
      else if ri_block_escalation risk then (False, ''blocked:'' @ join '','' (ri_block_reasons risk))
      else let n = length (strip local_text);
               reasons =
                 (case local_confidence of Some x \<Rightarrow> if x < escalate_min_confidence st then [''low_confidence''] else [] | None \<Rightarrow> [])
                 @ (if n < 40 then [''short_text''] else [])
                 @ (if height \<ge> 700 \<and> n < 500 then [''possible_truncation''] else [])
                 @ (if ri_escalate_hints risk \<noteq> [] then [''hint:'' @ join '','' (ri_escalate_hints risk)] else [])
           in if reasons = [] then (False, ''local_ok'') else (True, join '','' reasons))"

section \<open>Lines\<close>

definition ideograph :: "nat \<Rightarrow> bool" where
  "ideograph c \<longleftrightarrow> 19968 \<le> c \<and> c \<le> 40959"

definition MOBILE :: "(nat \<Rightarrow> bool) \<Rightarrow> rx" where
  "MOBILE digit = seq_all [Lit [49], Chars (\<lambda>c. 51 \<le> c \<and> c \<le> 57), Rep digit 9 (Some 9)]"

definition LANDLINE :: "(nat \<Rightarrow> bool) \<Rightarrow> rx" where
  "LANDLINE digit = seq_all [Lit [48], Rep digit 2 (Some 3), Opt (Lit [45]), Rep digit 7 (Some 8)]"

definition NATIONAL_ID :: "(nat \<Rightarrow> bool) \<Rightarrow> rx" where
  "NATIONAL_ID digit = seq_all [Rep digit 17 (Some 17), Chars (\<lambda>c. digit c \<or> c = 88 \<or> c = 120)]"

definition PII_LINE_PATTERNS :: "(nat \<Rightarrow> bool) \<Rightarrow> rx list" where
  "PII_LINE_PATTERNS digit =
     [MOBILE digit, LANDLINE digit, NATIONAL_ID digit,
      seq_all [Rep ideograph 1 (Some 3), words [[22899, 22763], [20808, 29983], [20027, 20219], [31185, 38271]]],
      seq_all [alt_all [Lit [32852, 31995, 20154], Lit [30005, 35805], Lit [22320, 22336], Lit [37038, 31665],
                 seq_all [Lit [69], Opt (Lit [45]), Lit (asc ''mail'')]],
               Rep is_space 0 None, Chars (\<lambda>c. c \<in> {58, 65306})],
      Alt (seq_all [no_case ''http'', Opt (no_case ''s''), Lit (asc ''://'')]) (Seq (no_case ''www'') (Lit [46]))]"

definition line_needs_mask :: "(nat \<Rightarrow> bool) \<Rightarrow> ustr \<Rightarrow> bool" where
  "line_needs_mask digit txt =
     (let value = strip txt in value \<noteq> [] \<and> list_ex (\<lambda>p. search p value) (PII_LINE_PATTERNS digit))"

section \<open>Redaction\<close>

type_synonym bbox = "rat \<times> rat \<times> rat \<times> rat"

record ocr_line =
  ol_text :: ustr
  ol_confidence :: "rat option"
  ol_bbox :: "bbox option"

record redaction =
  rd_rects :: "bbox list"
  rd_clean :: bool
  rd_residual_findings :: "string list"
  rd_masked_line_count :: nat

definition ID_TOKEN :: "(nat \<Rightarrow> bool) \<Rightarrow> rx" where
  "ID_TOKEN digit = alt_all [Lit [36523, 20221, 35777, 21495], NATIONAL_ID digit, MOBILE digit]"

definition VISIBLE_TOKEN :: "(nat \<Rightarrow> bool) \<Rightarrow> rx" where
  "VISIBLE_TOKEN digit = alt_all [MOBILE digit, NATIONAL_ID digit]"

definition padded :: "rat \<Rightarrow> rat \<Rightarrow> bbox \<Rightarrow> bbox" where
  "padded width height b =
     (case b of (x0, y0, x1, y1) \<Rightarrow> (max 0 (x0 - 2), max 0 (y0 - 2), min width (x1 + 2), min height (y1 + 2)))"

text \<open>The first pass over the lines: the rectangles to paint, the number of masked lines and the findings.\<close>

fun mask_lines :: "(nat \<Rightarrow> bool) \<Rightarrow> rat \<Rightarrow> rat \<Rightarrow> ocr_line list \<Rightarrow> bbox list \<times> nat \<times> string list" where
  "mask_lines digit width height [] = ([], 0, [])"
| "mask_lines digit width height (l # ls) =
     (let (rects, masked, residuals) = mask_lines digit width height ls
      in if \<not> line_needs_mask digit (ol_text l)
         then (rects, masked, if search (ID_TOKEN digit) (ol_text l) then ''unmasked_pii_token'' # residuals else residuals)
         else case ol_bbox l of
           None \<Rightarrow> (rects, masked, ''pii_without_bbox'' # residuals)
         | Some b \<Rightarrow> (padded width height b # rects, masked + 1, residuals))"

text \<open>The second pass: what would stay visible.\<close>

definition still_visible :: "(nat \<Rightarrow> bool) \<Rightarrow> ocr_line list \<Rightarrow> string list" where
  "still_visible digit ls =
     map (\<lambda>_. ''pii_still_visible'')
       (filter (\<lambda>l. \<not> (line_needs_mask digit (ol_text l) \<and> ol_bbox l = None)
          \<and> \<not> (ol_bbox l \<noteq> None \<and> line_needs_mask digit (ol_text l))
          \<and> search (VISIBLE_TOKEN digit) (ol_text l)) ls)"

definition redact_png_bytes :: "(nat \<Rightarrow> bool) \<Rightarrow> rat \<Rightarrow> rat \<Rightarrow> ocr_line list \<Rightarrow> redaction" where
  "redact_png_bytes digit width height ls =
     (let (rects, masked, residuals) = mask_lines digit width height ls;
          findings = sort (remdups (residuals @ still_visible digit ls));
          header = height * (8 / 100); footer = height * (8 / 100)
      in \<lparr>rd_rects = [(0, 0, width, header), (0, height - footer, width, height)] @ rects,
          rd_clean = (''pii_still_visible'' \<notin> set findings \<and> ''unmasked_pii_token'' \<notin> set findings
                      \<and> ''pii_without_bbox'' \<notin> set findings),
          rd_residual_findings = findings, rd_masked_line_count = masked\<rparr>)"

section \<open>Texts\<close>

text \<open>\<open>int(len(local) * 1.05)\<close>, with exact arithmetic.\<close>

definition merge_ocr_texts :: "ustr \<Rightarrow> ustr \<Rightarrow> ustr" where
  "merge_ocr_texts local_text cloud_text =
     (let loc = strip local_text; cloud = strip cloud_text
      in if cloud = [] then loc else if loc = [] then cloud
         else if length cloud \<ge> length loc * 105 div 100 then cloud else loc)"

text \<open>A box of an engine: four numbers, a list of corner points, or something else.\<close>

datatype engine_box = Four rat rat rat rat | Points "(rat \<times> rat) list" | No_Box

definition quad_to_bbox :: "engine_box \<Rightarrow> bbox option" where
  "quad_to_bbox box =
     (case box of
        Four x0 y0 x1 y1 \<Rightarrow> Some (min x0 x1, min y0 y1, max x0 x1, max y0 y1)
      | Points ps \<Rightarrow> if ps = [] then None
                   else Some (Min (fst ` set ps), Min (snd ` set ps), Max (fst ` set ps), Max (snd ` set ps))
      | No_Box \<Rightarrow> None)"

section \<open>Facts\<close>

lemma lstrip_keeps:
  assumes "w \<noteq> []" and "\<not> is_space (hd w)"
  shows "\<exists>a'. lstrip (a @ w @ r) = a' @ w @ r"
proof (induction a)
  case Nil
  with assms show ?case by (cases w) (auto simp: lstrip_def)
next
  case (Cons c a)
  then show ?case by (cases "is_space c") (auto simp: lstrip_def)
qed

lemma strip_keeps:
  assumes "w \<noteq> []" and "\<not> is_space (hd w)" and "\<not> is_space (last w)"
  shows "\<exists>a' r'. strip (a @ w @ r) = a' @ w @ r'"
proof -
  from lstrip_keeps [OF assms(1,2)] obtain a' where "lstrip (a @ w @ r) = a' @ w @ r" by blast
  moreover from lstrip_keeps [of "rev w" "rev r" "rev a'"] assms obtain b where "lstrip (rev (a' @ w @ r)) = b @ rev w @ rev a'"
    by (auto simp: hd_rev)
  ultimately have "strip (a @ w @ r) = a' @ w @ rev b" by (simp add: strip_def)
  then show ?thesis by blast
qed

text \<open>Numbers are found in the stripped line too.\<close>

lemma search_number_strip:
  assumes "\<forall>c. digit c \<longrightarrow> \<not> is_space c" and "p \<in> {MOBILE digit, NATIONAL_ID digit}" and "search p s"
  shows "search p (strip s)"
proof -
  from assms(3) obtain a w r where s: "s = a @ w @ r" "matches p w r" by (auto simp: search_iff)
  have any: "matches p w r'" for r' using s(2) assms(2) by (auto simp: MOBILE_def NATIONAL_ID_def)
  have w: "w \<noteq> [] \<and> list_all (\<lambda>c. digit c \<or> 49 \<le> c \<and> c \<le> 57 \<or> c = 88 \<or> c = 120) w"
    using s(2) assms(2) by (auto simp: MOBILE_def NATIONAL_ID_def list_all_iff)
  have "\<not> is_space c" if "c \<in> set w" for c
    using that w assms(1) by (auto simp: list_all_iff is_space_def)
  with w obtain a' r' where "strip s = a' @ w @ r'" using strip_keeps [of w a r] s(1) by auto
  with any show ?thesis unfolding search_iff by blast
qed

lemma number_needs_mask:
  assumes "\<forall>c. digit c \<longrightarrow> \<not> is_space c" and "search (MOBILE digit) s \<or> search (NATIONAL_ID digit) s"
  shows "line_needs_mask digit s"
proof -
  have "search (MOBILE digit) (strip s) \<or> search (NATIONAL_ID digit) (strip s)"
    using search_number_strip [OF assms(1)] assms(2) by blast
  moreover from this have "strip s \<noteq> []" by (auto simp: MOBILE_def NATIONAL_ID_def Let_def)
  ultimately show ?thesis by (auto simp: line_needs_mask_def PII_LINE_PATTERNS_def)
qed

text \<open>So the finding of the second pass is never made.\<close>

lemma nothing_still_visible:
  assumes "\<forall>c. digit c \<longrightarrow> \<not> is_space c"
  shows "still_visible digit ls = []"
  using number_needs_mask [OF assms] by (fastforce simp: still_visible_def VISIBLE_TOKEN_def filter_empty_conv)

definition boxes :: "(nat \<Rightarrow> bool) \<Rightarrow> ocr_line list \<Rightarrow> bbox list" where
  "boxes digit ls = List.map_filter (\<lambda>l. if line_needs_mask digit (ol_text l) then ol_bbox l else None) ls"

lemma mask_lines_rects: "fst (mask_lines digit width height ls) = map (padded width height) (boxes digit ls)"
  by (induction ls) (auto simp: boxes_def List.map_filter_simps Let_def split: prod.splits option.splits)

lemma in_boxes: "b \<in> set (boxes digit ls) \<longleftrightarrow> (\<exists>l \<in> set ls. line_needs_mask digit (ol_text l) \<and> ol_bbox l = Some b)"
  by (induction ls) (auto simp: boxes_def List.map_filter_simps split: option.splits)

lemma mask_lines_findings:
  assumes "mask_lines digit width height ls = (rects, masked, residuals)"
  shows "''unmasked_pii_token'' \<in> set residuals \<longleftrightarrow> (\<exists>l \<in> set ls. \<not> line_needs_mask digit (ol_text l) \<and> search (ID_TOKEN digit) (ol_text l))"
    and "''pii_without_bbox'' \<in> set residuals \<longleftrightarrow> (\<exists>l \<in> set ls. line_needs_mask digit (ol_text l) \<and> ol_bbox l = None)"
    and "''pii_still_visible'' \<notin> set residuals"
  using assms
  by (induction ls arbitrary: rects masked residuals) (auto simp: Let_def split: if_splits option.splits prod.splits)

definition inside :: "rat \<times> rat \<Rightarrow> bbox \<Rightarrow> bool" where
  "inside p b = (case (p, b) of ((x, y), x0, y0, x1, y1) \<Rightarrow> x0 \<le> x \<and> x \<le> x1 \<and> y0 \<le> y \<and> y \<le> y1)"

lemma padded_covers:
  "inside p b \<Longrightarrow> inside p (0, 0, width, height) \<Longrightarrow> inside p (padded width height b)"
  by (auto simp: inside_def padded_def split: prod.splits)

lemma escalation_granted:
  "fst (should_escalate_to_cloud lower st txt conf (classify_page_text txt) height) \<longleftrightarrow>
     is_true lower (os_egress_allowed st) \<and> egress_mode lower st \<noteq> Never
     \<and> (\<forall>(name, p) \<in> set BLOCK_ESCALATION_PATTERNS. \<not> search p txt)
     \<and> ((\<exists>x. conf = Some x \<and> x < escalate_min_confidence st) \<or> length (strip txt) < 40
        \<or> (height \<ge> 700 \<and> length (strip txt) < 500) \<or> (\<exists>(name, p) \<in> set ESCALATE_HINT_PATTERNS. search p txt))"
proof -
  have blocked: "ri_block_escalation (classify_page_text txt) \<longleftrightarrow> \<not> (\<forall>(name, p) \<in> set BLOCK_ESCALATION_PATTERNS. \<not> search p txt)"
    by (auto simp: classify_page_text_def Let_def found_in_def filter_empty_conv)
  have hints: "ri_escalate_hints (classify_page_text txt) \<noteq> [] \<longleftrightarrow> (\<exists>(name, p) \<in> set ESCALATE_HINT_PATTERNS. search p txt)"
    by (auto simp: classify_page_text_def Let_def found_in_def filter_empty_conv)
  have modes: "egress_mode lower st \<in> {Redacted_Only, Vpc_Private} \<longleftrightarrow> egress_mode lower st \<noteq> Never"
    by (cases "egress_mode lower st") auto
  show ?thesis
    unfolding should_escalate_to_cloud_def egress_allowed_for_cloud_def modes Let_def
    using blocked hints by (auto split: option.splits)
qed

section \<open>Properties\<close>

text \<open>C20: What a redaction calls clean: exactly the pages on which every line with personal data has a box and no other
  line speaks of an identity number. On any page every point of a box of such a line is covered by a painted rectangle,
  and so are the bands at the top and the bottom. The only assumption is that a digit is not white space.\<close>

theorem clean_redaction_covers_personal_data:
  assumes "\<forall>c. digit c \<longrightarrow> \<not> is_space c"
  shows "(rd_clean (redact_png_bytes digit width height ls) \<longleftrightarrow>
      (\<forall>l \<in> set ls. if line_needs_mask digit (ol_text l) then ol_bbox l \<noteq> None else \<not> search (ID_TOKEN digit) (ol_text l)))
    \<and> (\<forall>l \<in> set ls. \<forall>b p. line_needs_mask digit (ol_text l) \<and> ol_bbox l = Some b \<and> inside p b \<and> inside p (0, 0, width, height)
        \<longrightarrow> (\<exists>rect \<in> set (rd_rects (redact_png_bytes digit width height ls)). inside p rect))
    \<and> (\<forall>x y. 0 \<le> x \<and> x \<le> width \<and> (0 \<le> y \<and> y \<le> height * (8 / 100) \<or> height - height * (8 / 100) \<le> y \<and> y \<le> height)
        \<longrightarrow> (\<exists>rect \<in> set (rd_rects (redact_png_bytes digit width height ls)). inside (x, y) rect))"
proof -
  obtain rects masked residuals where m: "mask_lines digit width height ls = (rects, masked, residuals)"
    by (cases "mask_lines digit width height ls")
  note f = mask_lines_findings [OF m]
  have rd: "rd_rects (redact_png_bytes digit width height ls)
      = [(0, 0, width, height * (8 / 100)), (0, height - height * (8 / 100), width, height)] @ rects"
    by (simp add: redact_png_bytes_def m Let_def)
  have "rd_clean (redact_png_bytes digit width height ls) \<longleftrightarrow>
      (\<forall>l \<in> set ls. if line_needs_mask digit (ol_text l) then ol_bbox l \<noteq> None else \<not> search (ID_TOKEN digit) (ol_text l))"
    using f(1-3) nothing_still_visible [OF assms] by (auto simp: redact_png_bytes_def m Let_def)
  moreover have "\<exists>rect \<in> set (rd_rects (redact_png_bytes digit width height ls)). inside p rect"
    if "l \<in> set ls" "line_needs_mask digit (ol_text l)" "ol_bbox l = Some b" "inside p b" "inside p (0, 0, width, height)" for l b p
  proof -
    have "b \<in> set (boxes digit ls)" using that(1-3) unfolding in_boxes by blast
    then have "padded width height b \<in> set rects" using mask_lines_rects [of digit width height ls] by (simp add: m)
    with padded_covers [OF that(4,5)] show ?thesis unfolding rd by auto
  qed
  moreover have "\<exists>rect \<in> set (rd_rects (redact_png_bytes digit width height ls)). inside (x, y) rect"
    if "0 \<le> x" "x \<le> width" "0 \<le> y \<and> y \<le> height * (8 / 100) \<or> height - height * (8 / 100) \<le> y \<and> y \<le> height" for x y
    using that unfolding rd by (auto simp: inside_def)
  ultimately show ?thesis by blast
qed

theorem clean_redaction_covers_personal_data_witness:
  "rd_clean (redact_png_bytes (\<lambda>c. 48 \<le> c \<and> c \<le> 57) 100 100
     [\<lparr>ol_text = asc ''13812345678'', ol_confidence = None, ol_bbox = Some (10, 20, 30, 40)\<rparr>])
   \<and> \<not> rd_clean (redact_png_bytes (\<lambda>c. 48 \<le> c \<and> c \<le> 57) 100 100
     [\<lparr>ol_text = asc ''13812345678'', ol_confidence = None, ol_bbox = None\<rparr>])"
proof -
  have digit: "\<forall>c. 48 \<le> c \<and> c \<le> 57 \<longrightarrow> \<not> is_space c" by (simp add: is_space_def)
  have "search (MOBILE (\<lambda>c. 48 \<le> c \<and> c \<le> 57)) (asc ''13812345678'')" by (simp add: MOBILE_def asc_def Let_def)
  then have "line_needs_mask (\<lambda>c. 48 \<le> c \<and> c \<le> 57) (asc ''13812345678'')" using number_needs_mask [OF digit] by blast
  with clean_redaction_covers_personal_data [OF digit] show ?thesis by simp
qed

text \<open>A page may leave only on a decision of the operator and only when it shows nothing that is barred: an escalation
  is granted exactly when the switch is on, the mode is one of the two that allow it, no barred pattern occurs in the
  recognised text, and there is a reason to ask.\<close>

lemma escalation_needs_permission:
  "fst (should_escalate_to_cloud lower st txt conf (classify_page_text txt) height) \<longleftrightarrow>
     is_true lower (os_egress_allowed st) \<and> egress_mode lower st \<noteq> Never
     \<and> (\<forall>(name, p) \<in> set BLOCK_ESCALATION_PATTERNS. \<not> search p txt)
     \<and> ((\<exists>x. conf = Some x \<and> x < escalate_min_confidence st) \<or> length (strip txt) < 40
        \<or> (height \<ge> 700 \<and> length (strip txt) < 500) \<or> (\<exists>(name, p) \<in> set ESCALATE_HINT_PATTERNS. search p txt))"
  by (rule escalation_granted)

end
