(* ===== verification/Ocr.thy ===== *)
theory Ocr
  imports Ocr_Privacy Models
begin

text \<open>
  The adapters for text recognition (\<open>src/app/ocr.py\<close>). The engines and the HTTP exchange are parameters; what the
  program sends to the cloud is recorded: the value of a call is its answer together with the list of what it sent.
  No answer stands for \<open>OCRUnavailable\<close>. Confidences are rational numbers where the code has floats.
\<close>

section \<open>Values\<close>

text \<open>An image that is rendered from a page, whole or a horizontal strip of it, or a redacted page.\<close>

datatype image = Rendered nat "(rat \<times> rat) option" | Painted nat redaction

datatype sending = Sent image | Slept rat

record ocr_result =
  or_text :: ustr
  or_confidence :: "rat option"
  or_provider :: string
  or_lines :: "ocr_line list"

text \<open>What engines return: rows of a box and fields, or an object with parallel lists.\<close>

datatype cell = Str ustr | Num rat | Tuple "cell list" | Absent

type_synonym item = "(engine_box \<times> cell list) option"

datatype engine_rows = No_Rows | Txts "cell list" "cell list" "engine_box list" | Items "item list"

datatype http_answer = Body "json option" | Status nat | Unreachable

record python_text =
  py_lower :: "ustr \<Rightarrow> ustr"
  py_repr :: "cell \<Rightarrow> ustr"
  py_parse_float :: "ustr \<Rightarrow> rat option"
  py_unescape :: "ustr \<Rightarrow> ustr"
  py_word :: "nat \<Rightarrow> bool"

record engines =
  eg_paddle :: "image \<Rightarrow> item list list option"
  eg_rapid :: "image \<Rightarrow> engine_rows option"
  eg_cloud :: "image \<Rightarrow> nat \<Rightarrow> http_answer"

fun truthy :: "cell \<Rightarrow> bool" where
  "truthy (Str s) \<longleftrightarrow> s \<noteq> []"
| "truthy (Num x) \<longleftrightarrow> x \<noteq> 0"
| "truthy (Tuple xs) \<longleftrightarrow> xs \<noteq> []"
| "truthy Absent \<longleftrightarrow> False"

definition str_of :: "python_text \<Rightarrow> cell \<Rightarrow> ustr" where
  "str_of py c = (case c of Str s \<Rightarrow> s | _ \<Rightarrow> py_repr py c)"

definition float_of :: "python_text \<Rightarrow> cell \<Rightarrow> rat option" where
  "float_of py c = (case c of Num x \<Rightarrow> Some x | Str s \<Rightarrow> py_parse_float py s | _ \<Rightarrow> None)"

definition mean :: "rat list \<Rightarrow> rat option" where
  "mean xs = (if xs = [] then None else Some (sum_list xs / of_nat (length xs)))"

section \<open>Lines of an answer\<close>

definition line_of :: "python_text \<Rightarrow> cell \<Rightarrow> cell option \<Rightarrow> engine_box \<Rightarrow> ocr_line list" where
  "line_of py txt score box =
     (if truthy txt \<and> strip (str_of py txt) \<noteq> []
      then [\<lparr>ol_text = strip (str_of py txt),
             ol_confidence = (case score of None \<Rightarrow> None | Some c \<Rightarrow> float_of py c), ol_bbox = quad_to_bbox box\<rparr>]
      else [])"

definition item_lines :: "python_text \<Rightarrow> item \<Rightarrow> ocr_line list" where
  "item_lines py it =
     (case it of
        Some (box, [txt]) \<Rightarrow> line_of py txt None box
      | Some (box, txt # score # _) \<Rightarrow> line_of py txt (Some score) box
      | _ \<Rightarrow> [])"

definition nth_or :: "'a list \<Rightarrow> nat \<Rightarrow> 'a option" where
  "nth_or xs i = (if i < length xs then Some (xs ! i) else None)"

definition parse_lines_from_rapid_rows :: "python_text \<Rightarrow> engine_rows \<Rightarrow> ocr_line list" where
  "parse_lines_from_rapid_rows py rows =
     (case rows of
        No_Rows \<Rightarrow> []
      | Txts txts scores bxs \<Rightarrow>
          concat (map (\<lambda>(i, txt). line_of py txt (nth_or scores i) (case nth_or bxs i of None \<Rightarrow> No_Box | Some b \<Rightarrow> b))
            (enumerate 0 txts))
      | Items items \<Rightarrow> concat (map (item_lines py) items))"

section \<open>Local engines\<close>

definition joined :: "ustr list \<Rightarrow> ustr" where
  "joined ls = strip (join [10] ls)"

definition paddle_item :: "python_text \<Rightarrow> item \<Rightarrow> ustr list \<times> rat list" where
  "paddle_item py it =
     (case it of
        Some (_, Tuple (txt # later) # _) \<Rightarrow>
          (let t = strip (str_of py txt)
           in (if t \<noteq> [] then [t] else [],
               case later of [] \<Rightarrow> [] | score # _ \<Rightarrow> case float_of py score of None \<Rightarrow> [] | Some x \<Rightarrow> [x]))
      | _ \<Rightarrow> ([], []))"

definition paddle_extract :: "python_text \<Rightarrow> item list list option \<Rightarrow> ocr_result option" where
  "paddle_extract py raw =
     (case raw of
        None \<Rightarrow> None
      | Some blocks \<Rightarrow>
          let found = map (paddle_item py) (concat blocks); txt = joined (concat (map fst found))
          in if txt = [] then None
             else Some \<lparr>or_text = txt, or_confidence = mean (concat (map snd found)), or_provider = ''paddleocr'',
                        or_lines = parse_lines_from_rapid_rows py (case blocks of [] \<Rightarrow> Items [] | b # _ \<Rightarrow> Items b)\<rparr>)"

definition rapid_pair :: "python_text \<Rightarrow> cell \<Rightarrow> cell option \<Rightarrow> ustr list \<times> rat list" where
  "rapid_pair py txt score =
     (if truthy txt \<and> strip (str_of py txt) \<noteq> []
      then ([strip (str_of py txt)],
            case score of None \<Rightarrow> [] | Some c \<Rightarrow> if c = Absent then [] else case float_of py c of None \<Rightarrow> [] | Some x \<Rightarrow> [x])
      else ([], []))"

definition rapid_item :: "python_text \<Rightarrow> item \<Rightarrow> ustr list \<times> rat list" where
  "rapid_item py it =
     (case it of
        Some (_, txt # score # _) \<Rightarrow> rapid_pair py txt (Some score)
      | Some (_, [Str s]) \<Rightarrow> rapid_pair py (Str s) None
      | _ \<Rightarrow> ([], []))"

definition rapid_extract :: "python_text \<Rightarrow> engine_rows option \<Rightarrow> ocr_result option" where
  "rapid_extract py raw =
     (case raw of
        None \<Rightarrow> None
      | Some rows \<Rightarrow>
          let found = (case rows of
                  No_Rows \<Rightarrow> []
                | Txts txts scores _ \<Rightarrow> map (\<lambda>(txt, score). rapid_pair py txt (Some score)) (zip txts scores)
                | Items items \<Rightarrow> map (rapid_item py) items);
              txt = joined (concat (map fst found))
          in if txt = [] then None
             else Some \<lparr>or_text = txt, or_confidence = mean (concat (map snd found)), or_provider = ''rapidocr'',
                        or_lines = parse_lines_from_rapid_rows py rows\<rparr>)"

section \<open>The cloud\<close>

text \<open>The loop over the attempts: \<open>left\<close> more may be made, the first of them has number \<open>k\<close>. Three client errors are not
  retried.\<close>

primrec qwen_attempts :: "(nat \<Rightarrow> http_answer) \<Rightarrow> image \<Rightarrow> nat \<Rightarrow> nat \<Rightarrow> json option option \<times> sending list" where
  "qwen_attempts http img 0 k = (None, [])"
| "qwen_attempts http img (Suc left) k =
     (case http k of
        Body j \<Rightarrow> (Some j, [Sent img])
      | answer \<Rightarrow>
          if answer \<in> {Status 400, Status 401, Status 403} \<or> left = 0 then (None, [Sent img])
          else let (r, later) = qwen_attempts http img left (k + 1)
               in (r, Sent img # Slept (min 8 (2 ^ (k - 1) / 2)) # later))"

definition member :: "string \<Rightarrow> json \<Rightarrow> json option" where
  "member k j = (case j of JObj kvs \<Rightarrow> map_of kvs k | _ \<Rightarrow> None)"

definition first_of :: "json \<Rightarrow> json option" where
  "first_of j = (case j of JList (x # _) \<Rightarrow> Some x | _ \<Rightarrow> None)"

definition part_text :: "json \<Rightarrow> ustr list" where
  "part_text j =
     (case j of JStr s \<Rightarrow> [s] | JObj kvs \<Rightarrow> (case map_of kvs ''text'' of Some (JStr s) \<Rightarrow> [s] | _ \<Rightarrow> []) | _ \<Rightarrow> [])"

definition response_text :: "json \<Rightarrow> ustr option" where
  "response_text j =
     Option.bind (member ''choices'' j) (\<lambda>cs.
     Option.bind (first_of cs) (\<lambda>c.
     Option.bind (member ''message'' c) (\<lambda>m.
     Option.bind (member ''content'' m) (\<lambda>content.
       case content of JStr s \<Rightarrow> Some s | JList items \<Rightarrow> Some (join [10] (concat (map part_text items))) | _ \<Rightarrow> None))))"

definition FENCE :: ustr where
  "FENCE = [96, 96, 96]"

definition markup_tag :: "python_text \<Rightarrow> rx" where
  "markup_tag py =
     seq_all [Lit [60], Opt (Lit [47]),
       alt_all [no_case ''html'', no_case ''body'', no_case ''div'', no_case ''p'',
         Seq (no_case ''h'') (Chars (\<lambda>c. 49 \<le> c \<and> c \<le> 54)), no_case ''table'', no_case ''tr'', no_case ''td'', no_case ''br''],
       Not_Next (py_word py)]"

definition strip_fence :: "ustr \<Rightarrow> ustr" where
  "strip_fence s =
     (if prefix FENCE s
      then sub (seq_all [Rep is_space 0 None, Lit FENCE, At_End]) []
             (sub_start (seq_all [Lit FENCE, Opt (alt_all [no_case ''html'', no_case ''markdown'', no_case ''text'', no_case ''json'']),
                Rep is_space 0 None]) [] s)
      else s)"

definition strip_markup :: "python_text \<Rightarrow> ustr \<Rightarrow> ustr" where
  "strip_markup py s =
     (if search (markup_tag py) s
      then sub (seq_all [Lit [60], Rep (\<lambda>c. c \<noteq> 62) 1 None, Lit [62]]) []
             (sub (seq_all [Lit [60, 47], no_case ''p'', Rep is_space 0 None, Lit [62]]) [10]
             (sub (seq_all [Lit [60], no_case ''br'', Rep is_space 0 None, Opt (Lit [47]), Lit [62]]) [10] s))
      else s)"

definition sanitize_ocr_text :: "python_text \<Rightarrow> ustr \<Rightarrow> ustr" where
  "sanitize_ocr_text py txt =
     strip (sub (Rep (\<lambda>c. c = 10) 3 None) [10, 10]
       (sub (seq_all [Rep (\<lambda>c. c = 32 \<or> c = 9) 1 None, Lit [10]]) [10]
         (py_unescape py (strip_markup py (strip_fence (strip txt))))))"

text \<open>\<open>str.count\<close> of a word that is not empty.\<close>

function count_sub :: "ustr \<Rightarrow> ustr \<Rightarrow> nat" where
  "count_sub w [] = 0"
| "count_sub w (c # s) = (if prefix w (c # s) then 1 + count_sub w (drop (length w - 1) s) else count_sub w s)"
  by pat_completeness auto

termination
  by (relation "measure (\<lambda>(_, s). length s)") auto

definition looks_truncated_or_markup :: "python_text \<Rightarrow> ustr \<Rightarrow> ustr \<Rightarrow> bool" where
  "looks_truncated_or_markup py raw cleaned \<longleftrightarrow>
     (let r = py_lower py raw
      in contains (FENCE @ asc ''html'') r \<or> contains (asc ''<html'') r \<or> count_sub (asc ''</p>'') r \<ge> 5
         \<or> (cleaned \<noteq> [] \<and> length cleaned < 500 \<and> (contains (asc ''<html'') r \<or> contains FENCE r)))"

definition qwen_result :: "python_text \<Rightarrow> json option \<Rightarrow> ocr_result option" where
  "qwen_result py body =
     (case Option.bind body response_text of
        None \<Rightarrow> None
      | Some txt \<Rightarrow>
          let cleaned = sanitize_ocr_text py txt
          in if cleaned = [] then None
             else Some \<lparr>or_text = cleaned,
                        or_confidence = (if looks_truncated_or_markup py txt cleaned then Some (35 / 100) else None),
                        or_provider = ''qwen-vl-ocr'', or_lines = []\<rparr>)"

section \<open>Adapters\<close>

datatype adapter = Disabled | Qwen nat | Paddle | Rapid | Hybrid adapter "adapter option"

definition enabled :: "adapter \<Rightarrow> bool" where
  "enabled a \<longleftrightarrow> a \<noteq> Disabled"

definition should_try_fallback :: "ocr_result \<Rightarrow> bool" where
  "should_try_fallback r \<longleftrightarrow>
     (case or_confidence r of Some x \<Rightarrow> x < 1 / 2 | None \<Rightarrow> False) \<or> length (strip (or_text r)) < 40"

text \<open>The longer text wins if it is longer by more than a tenth.\<close>

definition combine :: "ocr_result \<Rightarrow> ocr_result \<Rightarrow> ocr_result" where
  "combine primary fallback =
     (if 10 * length (or_text fallback) > 11 * length (or_text primary) then fallback else primary)
       \<lparr>or_provider := ''hybrid:'' @ or_provider primary @ ''+'' @ or_provider fallback\<rparr>"

fun run_adapter :: "python_text \<Rightarrow> engines \<Rightarrow> adapter \<Rightarrow> image \<Rightarrow> ocr_result option \<times> sending list" where
  "run_adapter py eg Disabled img = (None, [])"
| "run_adapter py eg (Qwen n) img =
     (case qwen_attempts (eg_cloud eg img) img n 1 of
        (None, sent) \<Rightarrow> (None, sent) | (Some body, sent) \<Rightarrow> (qwen_result py body, sent))"
| "run_adapter py eg Paddle img = (paddle_extract py (eg_paddle eg img), [])"
| "run_adapter py eg Rapid img = (rapid_extract py (eg_rapid eg img), [])"
| "run_adapter py eg (Hybrid p f) img =
     (case run_adapter py eg p img of (r, sent) \<Rightarrow>
        if (case r of Some x \<Rightarrow> \<not> should_try_fallback x | None \<Rightarrow> False) then (r, sent)
        else case f of
          None \<Rightarrow> (r, sent)
        | Some g \<Rightarrow>
            if \<not> enabled g then (r, sent)
            else case run_adapter py eg g img of
              (None, later) \<Rightarrow> (r, sent @ later)
            | (Some y, later) \<Rightarrow>
                (Some (case r of None \<Rightarrow> y\<lparr>or_provider := ''hybrid:'' @ or_provider y\<rparr> | Some x \<Rightarrow> combine x y), sent @ later))"

section \<open>Selection\<close>

text \<open>The environment variables; a missing one is \<open>None\<close> where the code's default depends on the system.\<close>

record ocr_env =
  oe_settings :: ocr_settings
  oe_provider :: "ustr option"
  oe_primary :: "ustr option"
  oe_fallback :: "ustr option"
  oe_cloud_provider :: "ustr option"
  oe_api_key :: ustr
  oe_max_attempts :: int
  oe_windows :: bool

definition QWEN_NAMES :: "ustr set" where
  "QWEN_NAMES = {asc ''qwen'', asc ''qwen-vl-ocr'', asc ''qwen_vl_ocr''}"

text \<open>No adapter stands for \<open>ValueError\<close>: an unknown name, or a key that is blank but not empty.\<close>

definition build_named_adapter :: "(ustr \<Rightarrow> ustr) \<Rightarrow> ocr_env \<Rightarrow> ustr \<Rightarrow> adapter option" where
  "build_named_adapter lower env name =
     (let key = lower (strip name)
      in if key \<in> {[], asc ''disabled'', asc ''off'', asc ''none''} then Some Disabled
         else if key \<in> QWEN_NAMES then
           (if oe_api_key env = [] then Some Disabled
            else if strip (oe_api_key env) = [] then None
            else Some (Qwen (nat (max 1 (min (oe_max_attempts env) 5)))))
         else if key \<in> {asc ''paddle'', asc ''paddleocr''} then Some Paddle
         else if key \<in> {asc ''rapid'', asc ''rapidocr'', asc ''onnx''} then Some Rapid
         else None)"

definition get_or :: "ustr \<Rightarrow> ustr option \<Rightarrow> ustr" where
  "get_or dflt x = (case x of None \<Rightarrow> dflt | Some v \<Rightarrow> v)"

definition default_primary :: "ocr_env \<Rightarrow> ustr" where
  "default_primary env = (if oe_windows env then asc ''rapid'' else asc ''paddle'')"

definition or_else :: "ustr \<Rightarrow> ustr \<Rightarrow> ustr" where
  "or_else x y = (if x = [] then y else x)"

definition get_cloud_ocr_adapter :: "(ustr \<Rightarrow> ustr) \<Rightarrow> ocr_env \<Rightarrow> adapter option" where
  "get_cloud_ocr_adapter lower env =
     (if \<not> is_true lower (os_egress_allowed (oe_settings env)) then Some Disabled
      else if egress_mode lower (oe_settings env) = Never then Some Disabled
      else build_named_adapter lower env (or_else (strip (get_or (asc ''qwen'') (oe_cloud_provider env))) (asc ''qwen'')))"

definition get_local_ocr_adapter :: "(ustr \<Rightarrow> ustr) \<Rightarrow> ocr_env \<Rightarrow> adapter option" where
  "get_local_ocr_adapter lower env =
     (let provider = lower (strip (get_or (asc ''disabled'') (oe_provider env)))
      in if provider \<in> {asc ''hybrid'', asc ''auto''} then
           let primary = strip (get_or (default_primary env) (oe_primary env));
               primary1 = (if primary \<in> QWEN_NAMES then default_primary env else primary)
           in build_named_adapter lower env primary1
         else if provider \<in> QWEN_NAMES then Some Disabled
         else Some (case build_named_adapter lower env provider of None \<Rightarrow> Disabled | Some a \<Rightarrow> a))"

definition get_ocr_adapter :: "(ustr \<Rightarrow> ustr) \<Rightarrow> ocr_env \<Rightarrow> adapter option" where
  "get_ocr_adapter lower env =
     (let provider = lower (strip (get_or (asc ''disabled'') (oe_provider env)))
      in if provider \<in> {asc ''hybrid'', asc ''auto''} then
           let primary_name = or_else (strip (get_or (default_primary env) (oe_primary env))) (default_primary env);
               name1 = or_else (strip (get_or (asc ''disabled'') (oe_fallback env))) (asc ''disabled'');
               fallback_name = (if name1 \<in> QWEN_NAMES then asc ''disabled'' else name1)
           in case (build_named_adapter lower env primary_name, build_named_adapter lower env fallback_name) of
                (Some primary, Some fallback) \<Rightarrow>
                  Some (if \<not> enabled primary \<and> enabled fallback then fallback
                        else if enabled primary then Hybrid primary (if enabled fallback then Some fallback else None)
                        else Disabled)
              | _ \<Rightarrow> None
         else Some (case build_named_adapter lower env provider of None \<Rightarrow> Disabled | Some a \<Rightarrow> a))"

end
