(* ===== verification/Pdf_Extraction.thy ===== *)
theory Pdf_Extraction
  imports Ocr
begin

text \<open>
  Pages from PDF files (\<open>src/app/extraction.py\<close>): text and blocks from the text layer, recognition of the pages that have
  little or none, strips of a page, and the escalation to the cloud behind the privacy gate. The PDF library is a
  parameter: a document is the list of what it answers for each page. As in \<open>Ocr\<close>, a call also answers what it sent.
\<close>

section \<open>Documents\<close>

text \<open>A raw block: its type, its lines of spans, its box if that has four numbers. \<open>pp_raw_blocks\<close> is missing if the
  library's answer cannot be read; \<open>pp_pixels\<close> is the size of the rendered page.\<close>

record raw_block =
  rb_type :: int
  rb_lines :: "ustr list list"
  rb_bbox :: "bbox option"

record pdf_page =
  pp_text :: ustr
  pp_raw_blocks :: "raw_block list option"
  pp_markdown :: ustr
  pp_rect :: bbox
  pp_pixels :: "rat \<times> rat"

record pdf_env =
  pe_python :: python_text
  pe_engines :: engines
  pe_ocr :: ocr_env
  pe_nfkc :: "ustr \<Rightarrow> ustr"
  pe_digit :: "nat \<Rightarrow> bool"
  pe_number :: "rat \<Rightarrow> json"
  pe_tile_enabled :: ustr
  pe_tile_strips :: "int option"
  pe_sparse_threshold :: "int option"

definition lower_of :: "pdf_env \<Rightarrow> ustr \<Rightarrow> ustr" where
  "lower_of pe = py_lower (pe_python pe)"

definition settings_of :: "pdf_env \<Rightarrow> ocr_settings" where
  "settings_of pe = oe_settings (pe_ocr pe)"

definition page_height :: "pdf_page \<Rightarrow> rat" where
  "page_height p = (case pp_rect p of (x0, y0, x1, y1) \<Rightarrow> y1 - y0)"

text \<open>Keys that the code leaves out have no value or an empty one here.\<close>

record egress_meta =
  em_egress :: string
  em_mode :: "egress option"
  em_reason :: string
  em_page_types :: "string list"
  em_masked_lines :: "nat option"
  em_residuals :: "string list option"

record page_data = page +
  pd_markdown :: ustr
  pd_sparse :: bool
  pd_ocr_error :: "string option"
  pd_egress :: "egress_meta option"

section \<open>Strips\<close>

definition tile_count :: "pdf_env \<Rightarrow> nat" where
  "tile_count pe = (case pe_tile_strips pe of None \<Rightarrow> 3 | Some n \<Rightarrow> nat (max 2 (min n 6)))"

definition sparse_char_threshold :: "pdf_env \<Rightarrow> nat" where
  "sparse_char_threshold pe = (case pe_sparse_threshold pe of None \<Rightarrow> 50 | Some n \<Rightarrow> nat (max 0 n))"

definition needs_page_tiling :: "pdf_env \<Rightarrow> ocr_result \<Rightarrow> rat \<Rightarrow> bool" where
  "needs_page_tiling pe r height \<longleftrightarrow>
     is_true (lower_of pe) (pe_tile_enabled pe)
     \<and> ((case or_confidence r of Some x \<Rightarrow> x < 1 / 2 | None \<Rightarrow> False)
        \<or> \<not> (or_lines r \<noteq> [] \<and> (case or_confidence r of Some x \<Rightarrow> x \<ge> 1 / 2 | None \<Rightarrow> False))
          \<and> height \<ge> 700 \<and> length (strip (or_text r)) < 500)"

text \<open>The top and the bottom of a strip, which overlap by a twenty-fifth of the page.\<close>

definition strip_range :: "bbox \<Rightarrow> nat \<Rightarrow> nat \<Rightarrow> rat \<times> rat" where
  "strip_range rect strips i =
     (case rect of (x0, y0, x1, y1) \<Rightarrow>
        let height = y1 - y0; overlap = height * (4 / 100); band = height / of_nat strips
        in (max y0 (y0 + of_nat i * band - (if i = 0 then 0 else overlap)),
            min y1 (y0 + of_nat (i + 1) * band + (if i < strips - 1 then overlap else 0))))"

fun read_strips :: "(image \<Rightarrow> ocr_result option \<times> sending list) \<Rightarrow> image list \<Rightarrow> (ustr list \<times> rat list \<times> ocr_line list) \<times> sending list" where
  "read_strips ocr [] = (([], [], []), [])"
| "read_strips ocr (img # imgs) =
     (let (r, sent) = ocr img; ((parts, confs, ls), later) = read_strips ocr imgs
      in case r of
           None \<Rightarrow> ((parts, confs, ls), sent @ later)
         | Some tile \<Rightarrow>
             ((if strip (or_text tile) \<noteq> [] then strip (or_text tile) # parts else parts,
               (case or_confidence tile of None \<Rightarrow> confs | Some x \<Rightarrow> x # confs),
               or_lines tile @ ls), sent @ later))"

definition tiled_provider :: "string \<Rightarrow> string" where
  "tiled_provider p = (if contains ''+tiles'' p then p else p @ ''+tiles'')"

definition ocr_page_image :: "pdf_env \<Rightarrow> adapter \<Rightarrow> nat \<Rightarrow> pdf_page \<Rightarrow> ocr_result option \<times> sending list" where
  "ocr_page_image pe a n p =
     (let ocr = run_adapter (pe_python pe) (pe_engines pe) a
      in case ocr (Rendered n None) of
           (None, sent) \<Rightarrow> (None, sent)
         | (Some full, sent) \<Rightarrow>
             if \<not> needs_page_tiling pe full (page_height p) then (Some full, sent)
             else let strips = tile_count pe;
                      ((parts, confs, ls), later) =
                        read_strips ocr (map (\<lambda>i. Rendered n (Some (strip_range (pp_rect p) strips i))) [0..<strips]);
                      stitched = join [10] parts
                  in (Some (if parts = [] \<or> length stitched \<le> length (or_text full) then full
                            else \<lparr>or_text = stitched,
                                  or_confidence = (case mean confs of None \<Rightarrow> or_confidence full | Some x \<Rightarrow> Some x),
                                  or_provider = tiled_provider (or_provider full), or_lines = or_lines full @ ls\<rparr>),
                      sent @ later))"

section \<open>Escalation\<close>

text \<open>A cloud adapter that cannot be built raises; the call has sent nothing then.\<close>

definition maybe_escalate_cloud :: "pdf_env \<Rightarrow> nat \<Rightarrow> pdf_page \<Rightarrow> ocr_result \<Rightarrow> (ocr_result \<times> egress_meta) result \<times> sending list" where
  "maybe_escalate_cloud pe n p loc =
     (let risk = classify_page_text (or_text loc);
          (escalate, reason) = should_escalate_to_cloud (lower_of pe) (settings_of pe) (or_text loc) (or_confidence loc) risk (page_height p);
          meta = \<lparr>em_egress = ''none'', em_mode = Some (egress_mode (lower_of pe) (settings_of pe)), em_reason = reason,
                  em_page_types = ri_page_types risk, em_masked_lines = None, em_residuals = None\<rparr>
      in if \<not> escalate
         then (Inr (loc, if prefix ''blocked:'' reason then meta\<lparr>em_egress := ''blocked_sensitive_page''\<rparr> else meta), [])
         else case get_cloud_ocr_adapter (lower_of pe) (pe_ocr pe) of
           None \<Rightarrow> (Inl ValueError, [])
         | Some cloud \<Rightarrow>
             if \<not> enabled cloud then (Inr (loc, meta\<lparr>em_egress := ''cloud_unavailable''\<rparr>), [])
             else let redacted = redact_png_bytes (pe_digit pe) (fst (pp_pixels p)) (snd (pp_pixels p)) (or_lines loc);
                      meta1 = meta\<lparr>em_masked_lines := Some (rd_masked_line_count redacted)\<rparr>
                  in if \<not> rd_clean redacted
                     then (Inr (loc, meta1\<lparr>em_egress := ''blocked_residual_pii'', em_residuals := Some (rd_residual_findings redacted)\<rparr>), [])
                     else case run_adapter (pe_python pe) (pe_engines pe) cloud (Painted n redacted) of
                       (None, sent) \<Rightarrow> (Inr (loc, meta1\<lparr>em_egress := ''cloud_failed''\<rparr>), sent)
                     | (Some r, sent) \<Rightarrow>
                         if length (strip (or_text r)) > length (strip (or_text loc))
                         then (Inr (\<lparr>or_text = merge_ocr_texts (or_text loc) (or_text r),
                                     or_confidence = (case or_confidence r of None \<Rightarrow> or_confidence loc | Some x \<Rightarrow> Some x),
                                     or_provider = or_provider loc @ ''+redacted:'' @ or_provider r, or_lines = or_lines loc\<rparr>,
                                    meta1\<lparr>em_egress := (if egress_mode (lower_of pe) (settings_of pe) = Redacted_Only
                                                        then ''redacted_cloud'' else ''vpc'')\<rparr>), sent)
                         else (Inr (loc, meta1\<lparr>em_egress := ''redacted_cloud_unused''\<rparr>), sent))"

section \<open>Pages\<close>

definition numbers :: "pdf_env \<Rightarrow> bbox option \<Rightarrow> json" where
  "numbers pe b = (case b of None \<Rightarrow> JNull | Some (x0, y0, x1, y1) \<Rightarrow> JList (map (pe_number pe) [x0, y0, x1, y1]))"

definition page_label :: "nat \<Rightarrow> ustr" where
  "page_label n = [31532, 32] @ asc (decimal n) @ [32, 39029]"

definition blocks_from_ocr_result :: "pdf_env \<Rightarrow> ocr_result \<Rightarrow> nat \<Rightarrow> bbox \<Rightarrow> block list" where
  "blocks_from_ocr_result pe r n rect =
     (if or_lines r = []
      then [\<lparr>blk_text = or_text r,
             blk_locator = Some \<lparr>loc_kind = ''page'', loc_label = page_label n,
               loc_fields = [(''page'', JInt (int n)), (''index'', JInt (int n)), (''bbox'', numbers pe (Some rect))]\<rparr>\<rparr>]
      else map (\<lambda>(i, l).
             let box = map_option (\<lambda>(x0, y0, x1, y1). (x0 / (3 / 2), y0 / (3 / 2), x1 / (3 / 2), y1 / (3 / 2))) (ol_bbox l)
             in \<lparr>blk_text = ol_text l,
                 blk_locator = Some \<lparr>loc_kind = ''ocr_line'', loc_label = page_label n @ [32, 183, 32, 79, 67, 82, 34892, 32] @ asc (decimal i),
                   loc_fields = [(''page'', JInt (int n)), (''line'', JInt (int i)), (''bbox'', numbers pe box)]\<rparr>\<rparr>)
             (enumerate 1 (or_lines r)))"

definition text_blocks :: "pdf_env \<Rightarrow> nat \<Rightarrow> pdf_page \<Rightarrow> block list" where
  "text_blocks pe n p =
     (case pp_raw_blocks p of
        None \<Rightarrow> []
      | Some raw \<Rightarrow>
          concat (map (\<lambda>(i, b).
            let txt = strip (pe_nfkc pe (concat (concat (rb_lines b))))
            in if rb_type b \<noteq> 0 \<or> txt = [] then []
               else [\<lparr>blk_text = txt,
                      blk_locator = Some \<lparr>loc_kind = ''page_region'', loc_label = page_label n @ [32, 183, 32, 21306, 22495, 32] @ asc (decimal i),
                        loc_fields = [(''page'', JInt (int n)), (''region'', JInt (int i)), (''bbox'', numbers pe (rb_bbox b))]\<rparr>\<rparr>])
            (enumerate 1 raw)))"

definition text_layer_page :: "pdf_env \<Rightarrow> nat \<Rightarrow> pdf_page \<Rightarrow> page_data" where
  "text_layer_page pe n p =
     (let txt = pe_nfkc pe (pp_text p); stripped = strip txt;
          sparse = (stripped \<noteq> [] \<and> length stripped < sparse_char_threshold pe)
      in \<lparr>pg_page = int n, pg_text = txt,
          pg_locator = Some \<lparr>loc_kind = ''page'', loc_label = page_label n, loc_fields = [(''index'', JInt (int n))]\<rparr>,
          pg_blocks = text_blocks pe n p, pg_has_text = (stripped \<noteq> []), pg_ocr_required = (stripped = []),
          pg_low_text_confidence = sparse, pg_char_count = length txt, pg_ocr_status = None, pg_ocr_provider = None,
          pg_ocr_confidence = None, pg_source_id = None, pg_source_filename = None,
          pd_markdown = (if pp_markdown p \<noteq> [] then pe_nfkc pe (pp_markdown p) else txt), pd_sparse = sparse,
          pd_ocr_error = None, pd_egress = None\<rparr>)"

definition no_escalation :: "pdf_env \<Rightarrow> egress_meta" where
  "no_escalation pe = \<lparr>em_egress = ''none'', em_mode = Some (egress_mode (lower_of pe) (settings_of pe)), em_reason = '''',
     em_page_types = [], em_masked_lines = None, em_residuals = None\<rparr>"

definition recognised_page :: "pdf_env \<Rightarrow> nat \<Rightarrow> pdf_page \<Rightarrow> ocr_result \<Rightarrow> egress_meta \<Rightarrow> page_data \<Rightarrow> page_data" where
  "recognised_page pe n p r meta d =
     d\<lparr>pg_text := or_text r, pd_markdown := or_text r, pg_has_text := True, pg_ocr_status := Some ''EXTRACTED'',
       pg_ocr_provider := Some (or_provider r), pg_ocr_confidence := map_option (pe_number pe) (or_confidence r),
       pg_char_count := length (or_text r), pg_blocks := blocks_from_ocr_result pe r n (pp_rect p),
       pg_low_text_confidence := (case or_confidence r of Some x \<Rightarrow> x < 1 / 2 \<or> pg_low_text_confidence d | None \<Rightarrow> pg_low_text_confidence d),
       pd_egress := Some meta\<rparr>"

definition extract_page :: "pdf_env \<Rightarrow> adapter \<Rightarrow> nat \<Rightarrow> pdf_page \<Rightarrow> page_data result \<times> sending list" where
  "extract_page pe a n p =
     (let d = text_layer_page pe n p
      in if enabled a \<and> (pg_ocr_required d \<or> pg_low_text_confidence d) then
           (case ocr_page_image pe a n p of
              (None, sent) \<Rightarrow>
                (Inr (d\<lparr>pg_ocr_status := Some ''FAILED'', pd_ocr_error := Some ''OCR_UNAVAILABLE'',
                        pg_low_text_confidence := True, pd_egress := Some ((no_escalation pe)\<lparr>em_mode := None\<rparr>)\<rparr>), sent)
            | (Some r, sent) \<Rightarrow>
                if egress_allowed_for_cloud (lower_of pe) (settings_of pe) then
                  (case maybe_escalate_cloud pe n p r of
                     (Inl e, later) \<Rightarrow> (Inl e, sent @ later)
                   | (Inr (r1, meta), later) \<Rightarrow> (Inr (recognised_page pe n p r1 meta d), sent @ later))
                else (Inr (recognised_page pe n p r (no_escalation pe) d), sent))
         else (Inr (if pg_ocr_required d then d\<lparr>pg_ocr_status := Some ''DISABLED''\<rparr> else d), []))"

fun extract_pages :: "pdf_env \<Rightarrow> adapter \<Rightarrow> nat \<Rightarrow> pdf_page list \<Rightarrow> page_data list result \<times> sending list" where
  "extract_pages pe a n [] = (Inr [], [])"
| "extract_pages pe a n (p # ps) =
     (case extract_page pe a n p of
        (Inl e, sent) \<Rightarrow> (Inl e, sent)
      | (Inr d, sent) \<Rightarrow>
          (case extract_pages pe a (n + 1) ps of
             (Inl e, later) \<Rightarrow> (Inl e, sent @ later)
           | (Inr ds, later) \<Rightarrow> (Inr (d # ds), sent @ later)))"

text \<open>The adapter of the first pass.\<close>

definition first_adapter :: "pdf_env \<Rightarrow> adapter option" where
  "first_adapter pe =
     (if egress_allowed_for_cloud (lower_of pe) (settings_of pe) then
        (case get_local_ocr_adapter (lower_of pe) (pe_ocr pe) of
           None \<Rightarrow> None
         | Some a \<Rightarrow> if enabled a then Some a else get_ocr_adapter (lower_of pe) (pe_ocr pe))
      else get_ocr_adapter (lower_of pe) (pe_ocr pe))"

text \<open>A document that the library cannot open raises \<open>ExtractionError\<close>, a runtime error.\<close>

definition extract_pdf :: "pdf_env \<Rightarrow> adapter option \<Rightarrow> pdf_page list option \<Rightarrow> page_data list result \<times> sending list" where
  "extract_pdf pe given document =
     (case (case given of Some a \<Rightarrow> Some a | None \<Rightarrow> first_adapter pe) of
        None \<Rightarrow> (Inl ValueError, [])
      | Some a \<Rightarrow>
          (case document of
             None \<Rightarrow> (Inl RuntimeError, [])
           | Some pages \<Rightarrow> extract_pages pe a 1 pages))"

section \<open>What leaves\<close>

fun no_cloud :: "adapter \<Rightarrow> bool" where
  "no_cloud (Qwen n) \<longleftrightarrow> False"
| "no_cloud (Hybrid p f) \<longleftrightarrow> no_cloud p \<and> (case f of None \<Rightarrow> True | Some g \<Rightarrow> no_cloud g)"
| "no_cloud a \<longleftrightarrow> True"

lemma qwen_sends: "qwen_attempts http img left k = (r, sent) \<Longrightarrow> Sent i \<in> set sent \<Longrightarrow> i = img"
  by (induction left arbitrary: k r sent) (auto split: http_answer.splits prod.splits if_splits)

lemma run_adapter_sends: "run_adapter py eg a img = (r, sent) \<Longrightarrow> Sent i \<in> set sent \<Longrightarrow> i = img"
proof (induction a arbitrary: r sent rule: adapter.induct)
  case (Qwen n)
  then show ?case by (auto split: prod.splits option.splits dest: qwen_sends)
next
  case (Hybrid p f)
  then show ?case by (cases f) (auto split: prod.splits option.splits if_splits)
qed auto

lemma run_adapter_local: "no_cloud a \<Longrightarrow> run_adapter py eg a img = (r, sent) \<Longrightarrow> sent = []"
proof (induction a arbitrary: r sent rule: adapter.induct)
  case (Hybrid p f)
  then show ?case by (cases f) (auto split: prod.splits option.splits if_splits)
qed auto

lemma read_strips_local: "(\<And>img. snd (ocr img) = []) \<Longrightarrow> snd (read_strips ocr imgs) = []"
  by (induction imgs) (auto simp: Let_def split: prod.splits option.splits dest: sndI)

lemma ocr_page_image_local: "no_cloud a \<Longrightarrow> snd (ocr_page_image pe a n p) = []"
proof -
  assume a: "no_cloud a"
  let ?ocr = "run_adapter (pe_python pe) (pe_engines pe) a"
  have ocr: "snd (?ocr img) = []" for img using run_adapter_local [OF a] by (metis prod.collapse)
  obtain r sent where "?ocr (Rendered n None) = (r, sent)" by fastforce
  with ocr read_strips_local [of ?ocr] show ?thesis
    by (auto simp: ocr_page_image_def Let_def case_prod_unfold split: option.split) (metis snd_conv)+
qed

text \<open>What an escalation may send of a page whose first pass gave \<open>loc\<close>.\<close>

definition permitted :: "pdf_env \<Rightarrow> pdf_page list \<Rightarrow> image \<Rightarrow> bool" where
  "permitted pe ps img \<longleftrightarrow>
     egress_allowed_for_cloud (lower_of pe) (settings_of pe)
     \<and> (\<exists>n (loc :: ocr_result). \<exists>p \<in> set ps. \<exists>rd.
          img = Painted n rd \<and> rd = redact_png_bytes (pe_digit pe) (fst (pp_pixels p)) (snd (pp_pixels p)) (or_lines loc)
          \<and> rd_clean rd \<and> (\<forall>(name, pat) \<in> set BLOCK_ESCALATION_PATTERNS. \<not> search pat (or_text loc)))"

lemma escalation_sends:
  assumes "Sent img \<in> set (snd (maybe_escalate_cloud pe n p loc))" and "p \<in> set ps"
  shows "permitted pe ps img"
proof -
  let ?rd = "redact_png_bytes (pe_digit pe) (fst (pp_pixels p)) (snd (pp_pixels p)) (or_lines loc)"
  obtain esc reason where e: "should_escalate_to_cloud (lower_of pe) (settings_of pe) (or_text loc) (or_confidence loc)
      (classify_page_text (or_text loc)) (page_height p) = (esc, reason)" by fastforce
  from assms(1) obtain cloud where "esc" "rd_clean ?rd"
    and "Sent img \<in> set (snd (run_adapter (pe_python pe) (pe_engines pe) cloud (Painted n ?rd)))"
    by (auto simp: maybe_escalate_cloud_def e Let_def split: if_splits option.splits prod.splits dest: sndI)
  moreover from this have "img = Painted n ?rd" using run_adapter_sends by (metis prod.collapse)
  moreover have "egress_allowed_for_cloud (lower_of pe) (settings_of pe)"
    "\<forall>(name, pat) \<in> set BLOCK_ESCALATION_PATTERNS. \<not> search pat (or_text loc)"
    using escalation_granted [of "lower_of pe" "settings_of pe" "or_text loc" "or_confidence loc" "page_height p"] e \<open>esc\<close>
    by (auto simp: should_escalate_to_cloud_def split: if_splits)
  ultimately show ?thesis using assms(2) unfolding permitted_def by blast
qed

lemma extract_page_sends:
  assumes "no_cloud a" and "Sent img \<in> set (snd (extract_page pe a n p))" and "p \<in> set ps"
  shows "permitted pe ps img"
proof -
  obtain r sent where o: "ocr_page_image pe a n p = (r, sent)" by fastforce
  with ocr_page_image_local [OF assms(1), of pe n p] have "sent = []" by simp
  with assms(2) o obtain loc where "Sent img \<in> set (snd (maybe_escalate_cloud pe n p loc))"
    by (auto simp: extract_page_def Let_def split: if_splits option.splits prod.splits sum.splits) (metis snd_conv)+
  then show ?thesis using escalation_sends assms(3) by blast
qed

lemma extract_pages_sends:
  assumes "no_cloud a" and "Sent img \<in> set (snd (extract_pages pe a n qs))" and "set qs \<subseteq> set ps"
  shows "permitted pe ps img"
  using assms(2,3)
proof (induction qs arbitrary: n)
  case (Cons p qs)
  obtain r sent where e: "extract_page pe a n p = (r, sent)" by fastforce
  obtain r2 later where l: "extract_pages pe a (n + 1) qs = (r2, later)" by fastforce
  have "Sent img \<in> set sent \<or> Sent img \<in> set later"
    using Cons.prems(1) e l by (auto split: sum.splits)
  then show ?case
    using extract_page_sends [OF assms(1), of img pe n p ps] Cons.IH [of "n + 1"] Cons.prems(2) e l by auto
qed simp

text \<open>The selection of the first adapter. What is used of \<open>str.lower\<close>: a text that went through \<open>strip\<close> and \<open>lower\<close> does not
  change when it does so again, and the three default names are lower-case.\<close>

definition lower_ok :: "(ustr \<Rightarrow> ustr) \<Rightarrow> bool" where
  "lower_ok lower \<longleftrightarrow> (\<forall>x. lower (strip (lower (strip x))) = lower (strip x))
     \<and> (\<forall>s \<in> {''paddle'', ''rapid'', ''disabled''}. lower (asc s) = asc s)"

definition names_cloud :: "(ustr \<Rightarrow> ustr) \<Rightarrow> ustr option \<Rightarrow> bool" where
  "names_cloud lower v \<longleftrightarrow> (\<exists>x. v = Some x \<and> lower (strip x) \<in> QWEN_NAMES)"

lemma lstrip_hd: "lstrip s = [] \<or> \<not> is_space (hd (lstrip s))"
  by (induction s) (auto simp: lstrip_def)

lemma lstrip_same: "s = [] \<or> \<not> is_space (hd s) \<Longrightarrow> lstrip s = s"
  by (cases s) (auto simp: lstrip_def)

lemma last_lstrip: "lstrip s \<noteq> [] \<Longrightarrow> last (lstrip s) = last s"
  by (induction s) (auto simp: lstrip_def split: if_splits)

lemma strip_strip [simp]: "strip (strip s) = strip s"
proof -
  let ?t = "rev (lstrip (rev (lstrip s)))"
  have "?t = [] \<or> \<not> is_space (hd ?t)"
  proof (cases "lstrip (rev (lstrip s)) = []")
    case False
    then have "lstrip s \<noteq> []" using lstrip_same [of "[]"] by auto
    moreover from this have "hd ?t = hd (lstrip s)" using last_lstrip [OF False] by (simp add: hd_rev last_rev)
    ultimately show ?thesis using lstrip_hd [of s] by simp
  qed simp
  then have "lstrip ?t = ?t" by (rule lstrip_same)
  moreover have "lstrip (lstrip x) = lstrip x" for x by (rule lstrip_same [OF lstrip_hd])
  ultimately show ?thesis by (simp add: strip_def)
qed

lemma strip_names [simp]: "strip (asc ''paddle'') = asc ''paddle''" "strip (asc ''rapid'') = asc ''rapid''"
  "strip (asc ''disabled'') = asc ''disabled''"
  by (simp_all add: strip_def lstrip_def asc_def is_space_def)

lemma default_names [simp]: "asc ''paddle'' \<notin> QWEN_NAMES" "asc ''rapid'' \<notin> QWEN_NAMES" "asc ''disabled'' \<notin> QWEN_NAMES"
  by (simp_all add: QWEN_NAMES_def asc_def)

lemma build_no_cloud: "build_named_adapter lower env name = Some a \<Longrightarrow> lower (strip name) \<notin> QWEN_NAMES \<Longrightarrow> no_cloud a"
  by (auto simp: build_named_adapter_def Let_def split: if_splits)

lemma first_adapter_no_cloud:
  assumes low: "lower_ok (lower_of pe)" and "\<not> names_cloud (lower_of pe) (oe_provider (pe_ocr pe))"
    and "\<not> names_cloud (lower_of pe) (oe_primary (pe_ocr pe))" and "\<not> names_cloud (lower_of pe) (oe_fallback (pe_ocr pe))"
    and a: "first_adapter pe = Some a"
  shows "no_cloud a"
proof -
  let ?low = "lower_of pe" and ?env = "pe_ocr pe"
  have dflt: "?low (strip (default_primary ?env)) \<notin> QWEN_NAMES" "?low (asc ''disabled'') \<notin> QWEN_NAMES"
    using low by (auto simp: default_primary_def lower_ok_def)
  have idem: "?low (strip (?low (strip x))) = ?low (strip x)" for x using low by (auto simp: lower_ok_def)
  have provider: "?low (strip (?low (strip (get_or (asc ''disabled'') (oe_provider ?env))))) \<notin> QWEN_NAMES"
    using assms(2) dflt by (auto simp: idem get_or_def names_cloud_def split: option.split)
  have primary: "?low (strip (get_or (default_primary ?env) (oe_primary ?env))) \<notin> QWEN_NAMES"
    using assms(3) dflt by (auto simp: get_or_def names_cloud_def split: option.split)
  have fallback: "?low (strip (get_or (asc ''disabled'') (oe_fallback ?env))) \<notin> QWEN_NAMES"
    using assms(4) dflt by (auto simp: get_or_def names_cloud_def split: option.split)
  note built = build_no_cloud [of ?low ?env "?low (strip (get_or (asc ''disabled'') (oe_provider ?env)))", OF _ provider]
    build_no_cloud [of ?low ?env "default_primary ?env", OF _ dflt(1)]
    build_no_cloud [of ?low ?env "strip (get_or (default_primary ?env) (oe_primary ?env))", unfolded strip_strip, OF _ primary]
    build_no_cloud [of ?low ?env "strip (get_or (asc ''disabled'') (oe_fallback ?env))", unfolded strip_strip, OF _ fallback]
    build_no_cloud [of ?low ?env "asc ''disabled''", unfolded strip_names, OF _ dflt(2)]
  have loc: "no_cloud x" if "get_local_ocr_adapter ?low ?env = Some x" for x
    using that by (auto simp: get_local_ocr_adapter_def Let_def dest: built split: if_splits option.splits)
  have "no_cloud x" if "get_ocr_adapter ?low ?env = Some x" for x
    using that by (auto simp: get_ocr_adapter_def Let_def or_else_def dest: built split: if_splits option.splits)
  with loc a show ?thesis by (auto simp: first_adapter_def split: if_splits option.splits)
qed

section \<open>Properties\<close>


text \<open>The switch does not guard the first pass: with \<open>BID_OCR_PROVIDER\<close> naming the cloud engine and a key, the first
  page without a text layer is sent as it is, whatever \<open>BIDPROOF_OCR_EGRESS_ALLOWED\<close> and the mode say, and with no
  redaction.\<close>

lemma cloud_provider_gets_the_original_page:
  assumes "oe_provider (pe_ocr pe) = Some v" and "lower_of pe (strip v) \<in> QWEN_NAMES"
    and "lower_of pe (strip (lower_of pe (strip v))) = lower_of pe (strip v)"
    and "strip (oe_api_key (pe_ocr pe)) \<noteq> []" and "strip (pe_nfkc pe (pp_text p)) = []"
  shows "Sent (Rendered 1 None) \<in> set (snd (extract_pdf pe None (Some (p # ps))))"
proof -
  let ?low = "lower_of pe" and ?env = "pe_ocr pe"
  have key: "oe_api_key ?env \<noteq> []" using assms(4) by (auto simp: strip_def lstrip_def)
  define n where "n = nat (max 1 (min (oe_max_attempts ?env) 5))"
  have n: "n = Suc (n - 1)" by (simp add: n_def)
  have names: "?low (strip v) \<notin> {asc ''hybrid'', asc ''auto''}" "?low (strip v) \<notin> {[], asc ''disabled'', asc ''off'', asc ''none''}"
    using assms(2) by (auto simp: QWEN_NAMES_def asc_def)
  have build: "build_named_adapter ?low ?env (?low (strip v)) = Some (Qwen n)"
    using assms(2-4) names key by (simp add: build_named_adapter_def Let_def n_def)
  have first: "first_adapter pe = Some (Qwen n)"
    using names assms(1,2) build
    by (simp add: first_adapter_def get_local_ocr_adapter_def get_ocr_adapter_def get_or_def Let_def enabled_def)
  obtain r sent where run: "run_adapter (pe_python pe) (pe_engines pe) (Qwen n) (Rendered 1 None) = (r, sent)" by fastforce
  have "Sent (Rendered 1 None) \<in> set sent"
    using run by (subst (asm) n) (auto split: prod.splits option.splits http_answer.splits if_splits)
  with run have "Sent (Rendered 1 None) \<in> set (snd (ocr_page_image pe (Qwen n) 1 p))"
    by (auto simp: ocr_page_image_def Let_def split: option.split prod.split simp del: run_adapter.simps)
  then have "Sent (Rendered 1 None) \<in> set (snd (extract_page pe (Qwen n) 1 p))"
    using assms(5) by (auto simp: extract_page_def Let_def text_layer_page_def enabled_def split: option.split prod.split sum.split)
  then show ?thesis by (auto simp: extract_pdf_def first split: prod.split sum.split)
qed

section \<open>Examples\<close>

definition demo_number :: ustr where
  "demo_number = asc ''13812345678''"

definition demo_python :: python_text where
  "demo_python = \<lparr>py_lower = (\<lambda>s. s), py_repr = (\<lambda>_. []), py_parse_float = (\<lambda>_. None), py_unescape = (\<lambda>s. s),
     py_word = (\<lambda>c. 97 \<le> c \<and> c \<le> 122)\<rparr>"

text \<open>The local engine reads one letter on the whole page and a number on the last strip.\<close>

definition demo_engines :: engines where
  "demo_engines = \<lparr>eg_paddle = (\<lambda>_. None),
     eg_rapid = (\<lambda>img. case img of
        Rendered _ None \<Rightarrow> Some (Items [Some (Four 0 0 10 10, [Str [97], Num (3 / 10)])])
      | Rendered _ (Some (y0, y1)) \<Rightarrow>
          if y0 > 500 then Some (Items [Some (Four 10 200 100 220, [Str demo_number, Num (9 / 10)])]) else None
      | Painted _ _ \<Rightarrow> None),
     eg_cloud = (\<lambda>_ _. Unreachable)\<rparr>"

definition demo_ocr_env :: "ustr \<Rightarrow> ocr_env" where
  "demo_ocr_env provider = \<lparr>oe_settings = \<lparr>os_egress_mode = asc ''t1'', os_egress_allowed = asc ''1'', os_escalate_min_conf = None\<rparr>,
     oe_provider = Some provider, oe_primary = None, oe_fallback = None, oe_cloud_provider = None, oe_api_key = asc ''k'',
     oe_max_attempts = 1, oe_windows = False\<rparr>"

definition demo_pdf_env :: "ustr \<Rightarrow> ustr \<Rightarrow> pdf_env" where
  "demo_pdf_env provider tiles = \<lparr>pe_python = demo_python, pe_engines = demo_engines, pe_ocr = demo_ocr_env provider,
     pe_nfkc = (\<lambda>s. s), pe_digit = (\<lambda>c. 48 \<le> c \<and> c \<le> 57), pe_number = (\<lambda>_. JNull), pe_tile_enabled = tiles,
     pe_tile_strips = None, pe_sparse_threshold = None\<rparr>"

definition demo_pdf_page :: pdf_page where
  "demo_pdf_page = \<lparr>pp_text = [], pp_raw_blocks = Some [], pp_markdown = [], pp_rect = (0, 0, 595, 842), pp_pixels = (892, 1263)\<rparr>"

lemmas demo_pdf_defs = demo_pdf_env_def demo_ocr_env_def demo_python_def demo_engines_def lower_of_def settings_of_def

lemma strip_asc [simp]: "strip (asc ''rapid'') = asc ''rapid''" "strip (asc ''1'') = asc ''1''" "strip (asc ''t1'') = asc ''t1''"
  "strip (asc ''qwen'') = asc ''qwen''" "strip (asc ''k'') = asc ''k''" "strip (asc ''0'') = asc ''0''"
  "strip demo_number = demo_number" "strip [97] = [97]" "strip [] = []"
  by (simp_all add: strip_def lstrip_def asc_def is_space_def demo_number_def)

lemma asc_eq_iff [simp]: "asc s = asc t \<longleftrightarrow> s = t" "asc s = [] \<longleftrightarrow> s = []"
  by (auto simp: asc_def inj_map_eq_map [OF inj_of_char])

lemma demo_names [simp]: "asc ''rapid'' \<notin> QWEN_NAMES" "asc ''qwen'' \<in> QWEN_NAMES"
  by (simp_all add: QWEN_NAMES_def)

lemma demo_egress [simp]: "egress_allowed_for_cloud (\<lambda>s. s) (oe_settings (demo_ocr_env provider))"
  "egress_mode (\<lambda>s. s) (oe_settings (demo_ocr_env provider)) = Redacted_Only"
  "is_true (\<lambda>s. s) (os_egress_allowed (oe_settings (demo_ocr_env provider)))"
  by (simp_all add: demo_ocr_env_def egress_allowed_for_cloud_def is_true_def egress_mode_def Let_def)

lemma demo_env_simps [simp]: "lower_of (demo_pdf_env provider tiles) = (\<lambda>s. s)"
  "settings_of (demo_pdf_env provider tiles) = oe_settings (demo_ocr_env provider)"
  "pe_ocr (demo_pdf_env provider tiles) = demo_ocr_env provider" "pe_python (demo_pdf_env provider tiles) = demo_python"
  "pe_engines (demo_pdf_env provider tiles) = demo_engines" "pe_tile_enabled (demo_pdf_env provider tiles) = tiles"
  by (simp_all add: demo_pdf_defs)

lemma demo_ocr_simps [simp]: "oe_provider (demo_ocr_env provider) = Some provider" "oe_primary (demo_ocr_env provider) = None"
  "oe_fallback (demo_ocr_env provider) = None" "oe_cloud_provider (demo_ocr_env provider) = None"
  "oe_api_key (demo_ocr_env provider) = asc ''k''" "oe_max_attempts (demo_ocr_env provider) = 1"
  by (simp_all add: demo_ocr_env_def)

lemma demo_build: "build_named_adapter (\<lambda>s. s) (demo_ocr_env provider) (asc ''rapid'') = Some Rapid"
  "build_named_adapter (\<lambda>s. s) (demo_ocr_env provider) (asc ''qwen'') = Some (Qwen 1)"
  by (simp_all add: build_named_adapter_def Let_def)

lemma demo_first: "first_adapter (demo_pdf_env (asc ''rapid'') tiles) = Some Rapid"
  by (simp add: first_adapter_def get_local_ocr_adapter_def get_or_def demo_build enabled_def Let_def)

definition demo_line :: "ustr \<Rightarrow> rat \<Rightarrow> bbox \<Rightarrow> ocr_line" where
  "demo_line txt conf b = \<lparr>ol_text = txt, ol_confidence = Some conf, ol_bbox = Some b\<rparr>"

definition demo_read :: "ustr \<Rightarrow> rat \<Rightarrow> bbox \<Rightarrow> ocr_result" where
  "demo_read txt conf b = \<lparr>or_text = txt, or_confidence = Some conf, or_provider = ''rapidocr'', or_lines = [demo_line txt conf b]\<rparr>"

lemma demo_run: "run_adapter demo_python demo_engines Rapid (Rendered n None) = (Some (demo_read [97] (3 / 10) (0, 0, 10, 10)), [])"
  "y0 > 500 \<Longrightarrow> run_adapter demo_python demo_engines Rapid (Rendered n (Some (y0, y1)))
     = (Some (demo_read demo_number (9 / 10) (10, 200, 100, 220)), [])"
  "\<not> y0 > 500 \<Longrightarrow> run_adapter demo_python demo_engines Rapid (Rendered n (Some (y0, y1))) = (None, [])"
proof -
  have "demo_number \<noteq> []" by (simp add: demo_number_def)
  then show "run_adapter demo_python demo_engines Rapid (Rendered n None) = (Some (demo_read [97] (3 / 10) (0, 0, 10, 10)), [])"
    "y0 > 500 \<Longrightarrow> run_adapter demo_python demo_engines Rapid (Rendered n (Some (y0, y1)))
     = (Some (demo_read demo_number (9 / 10) (10, 200, 100, 220)), [])"
    "\<not> y0 > 500 \<Longrightarrow> run_adapter demo_python demo_engines Rapid (Rendered n (Some (y0, y1))) = (None, [])"
    by (simp_all add: demo_engines_def rapid_extract_def rapid_item_def rapid_pair_def str_of_def float_of_def joined_def mean_def
        parse_lines_from_rapid_rows_def item_lines_def line_of_def quad_to_bbox_def demo_read_def demo_line_def Let_def)
qed

lemma demo_whole: "ocr_page_image (demo_pdf_env provider (asc ''0'')) Rapid n demo_pdf_page = (Some (demo_read [97] (3 / 10) (0, 0, 10, 10)), [])"
  by (simp add: ocr_page_image_def demo_run needs_page_tiling_def is_true_def Let_def del: run_adapter.simps)

lemma demo_tiled: "ocr_page_image (demo_pdf_env provider (asc ''1'')) Rapid n demo_pdf_page
    = (Some \<lparr>or_text = demo_number, or_confidence = Some (9 / 10), or_provider = ''rapidocr+tiles'',
         or_lines = [demo_line [97] (3 / 10) (0, 0, 10, 10), demo_line demo_number (9 / 10) (10, 200, 100, 220)]\<rparr>, [])"
proof -
  have tile: "needs_page_tiling (demo_pdf_env provider (asc ''1'')) (demo_read [97] (3 / 10) (0, 0, 10, 10)) (page_height demo_pdf_page)"
    by (simp add: needs_page_tiling_def is_true_def demo_read_def)
  have strips: "tile_count (demo_pdf_env provider (asc ''1'')) = 3" by (simp add: tile_count_def demo_pdf_env_def)
  have upt: "[0..<3] = [0, 1, 2]" by (simp add: upt_rec)
  have ranges: "map (\<lambda>i. Rendered n (Some (strip_range (pp_rect demo_pdf_page) 3 i))) [0..<3]
      = [Rendered n (Some (0, 842 / 3 + 842 / 25)), Rendered n (Some (842 / 3 - 842 / 25, 1684 / 3 + 842 / 25)),
         Rendered n (Some (1684 / 3 - 842 / 25, 842))]"
    unfolding upt by (simp add: strip_range_def demo_pdf_page_def Let_def)
  have read: "read_strips (run_adapter demo_python demo_engines Rapid)
      [Rendered n (Some (0, 842 / 3 + 842 / 25)), Rendered n (Some (842 / 3 - 842 / 25, 1684 / 3 + 842 / 25)),
         Rendered n (Some (1684 / 3 - 842 / 25, 842))]
      = (([demo_number], [9 / 10], [demo_line demo_number (9 / 10) (10, 200, 100, 220)]), [])"
    by (simp add: demo_run demo_read_def Let_def del: run_adapter.simps) (simp add: demo_number_def)
  show ?thesis
    using tile
    by (simp add: ocr_page_image_def demo_run strips ranges read Let_def mean_def demo_read_def tiled_provider_def del: run_adapter.simps)
      (simp add: demo_number_def asc_def)
qed

lemma search_seqD: "search (Seq p q) s \<Longrightarrow> search p s"
  by (fastforce simp: search_iff)

lemma ascii_lacks: "list_all (\<lambda>c. c < 128) s \<Longrightarrow> \<not> list_all (\<lambda>c. c < 128) w \<Longrightarrow> \<not> contains w s"
  by (auto simp: contains_iff_sublist sublist_def list_all_iff)

lemma ascii_lacks_seq: "list_all (\<lambda>c. c < 128) s \<Longrightarrow> \<not> list_all (\<lambda>c. c < 128) w \<Longrightarrow> \<not> search (Seq (Lit w) q) s"
  using search_seqD ascii_lacks by fastforce

lemma ascii_quiet:
  assumes "list_all (\<lambda>c. c < 128) txt"
  shows "classify_page_text txt = \<lparr>ri_page_types = [''body''], ri_block_escalation = False, ri_block_reasons = [], ri_escalate_hints = []\<rparr>"
  using assms
  by (simp add: classify_page_text_def found_in_def BLOCK_ESCALATION_PATTERNS_def ESCALATE_HINT_PATTERNS_def words_def Let_def
      ascii_lacks ascii_lacks_seq)

lemma demo_quiet:
  assumes "txt = [97] \<or> txt = demo_number"
  shows "classify_page_text txt = \<lparr>ri_page_types = [''body''], ri_block_escalation = False, ri_block_reasons = [], ri_escalate_hints = []\<rparr>"
  by (rule ascii_quiet) (use assms in \<open>auto simp: demo_number_def asc_def\<close>)

lemma demo_should_escalate:
  assumes "txt = [97] \<or> txt = demo_number"
  shows "fst (should_escalate_to_cloud (\<lambda>s. s) (oe_settings (demo_ocr_env provider)) txt conf (classify_page_text txt) h)"
proof -
  have "length (strip txt) < 40" using assms by (elim disjE) (simp_all, simp add: demo_number_def asc_def)
  then show ?thesis by (simp add: should_escalate_to_cloud_def demo_quiet [OF assms] Let_def)
qed

lemma demo_escalates:
  assumes "or_text loc = [97] \<or> or_text loc = demo_number"
    and "rd = redact_png_bytes (\<lambda>c. 48 \<le> c \<and> c \<le> 57) 892 1263 (or_lines loc)" and "rd_clean rd"
  shows "\<exists>v. maybe_escalate_cloud (demo_pdf_env provider tiles) n demo_pdf_page loc = (Inr v, [Sent (Painted n rd)])"
proof -
  obtain reason where e: "should_escalate_to_cloud (\<lambda>s. s) (oe_settings (demo_ocr_env provider)) (or_text loc) (or_confidence loc)
      (classify_page_text (or_text loc)) (page_height demo_pdf_page) = (True, reason)"
    using demo_should_escalate [OF assms(1)] by (metis prod.collapse)
  have digit: "pe_digit (demo_pdf_env provider tiles) = (\<lambda>c. 48 \<le> c \<and> c \<le> 57)" by (simp add: demo_pdf_env_def)
  have cloud: "get_cloud_ocr_adapter (\<lambda>s. s) (demo_ocr_env provider) = Some (Qwen 1)"
    by (simp add: get_cloud_ocr_adapter_def get_or_def or_else_def demo_build)
  have run: "run_adapter demo_python demo_engines (Qwen 1) img = (None, [Sent img])" for img
    by (simp add: demo_engines_def)
  have px: "pp_pixels demo_pdf_page = (892, 1263)" by (simp add: demo_pdf_page_def)
  show ?thesis
    using assms(3)
    by (simp add: maybe_escalate_cloud_def e cloud run enabled_def digit px assms(2) [symmetric] Let_def del: run_adapter.simps One_nat_def)
qed

lemma demo_sends:
  assumes "ocr_page_image (demo_pdf_env (asc ''rapid'') tiles) Rapid 1 demo_pdf_page = (Some loc, [])"
    and "or_text loc = [97] \<or> or_text loc = demo_number"
    and "rd_clean (redact_png_bytes (\<lambda>c. 48 \<le> c \<and> c \<le> 57) 892 1263 (or_lines loc))"
  shows "Sent (Painted 1 (redact_png_bytes (\<lambda>c. 48 \<le> c \<and> c \<le> 57) 892 1263 (or_lines loc)))
    \<in> set (snd (extract_pdf (demo_pdf_env (asc ''rapid'') tiles) None (Some [demo_pdf_page])))"
proof -
  from demo_escalates [OF assms(2) refl assms(3)] obtain v where
    m: "maybe_escalate_cloud (demo_pdf_env (asc ''rapid'') tiles) 1 demo_pdf_page loc
      = (Inr v, [Sent (Painted 1 (redact_png_bytes (\<lambda>c. 48 \<le> c \<and> c \<le> 57) 892 1263 (or_lines loc)))])" by blast
  have empty: "pg_ocr_required (text_layer_page (demo_pdf_env (asc ''rapid'') tiles) 1 demo_pdf_page)"
    by (simp add: text_layer_page_def Let_def demo_pdf_env_def demo_pdf_page_def)
  obtain r meta where v: "v = (r, meta)" by fastforce
  show ?thesis
    using empty by (simp add: extract_pdf_def demo_first extract_page_def enabled_def assms(1) m v Let_def del: One_nat_def)
qed


lemma cloud_provider_gets_the_original_page_example:
  "Sent (Rendered 1 None) \<in> set (snd (extract_pdf
     ((demo_pdf_env (asc ''qwen'') [])\<lparr>pe_ocr := (demo_ocr_env (asc ''qwen''))\<lparr>oe_settings := \<lparr>os_egress_mode = [], os_egress_allowed = asc ''0'',
        os_escalate_min_conf = None\<rparr>\<rparr>\<rparr>) None (Some [demo_pdf_page])))"
  by (rule cloud_provider_gets_the_original_page [where v = "asc ''qwen''"])
    (simp_all add: lower_of_def demo_pdf_env_def demo_python_def demo_pdf_page_def)

text \<open>The boxes of a strip are never moved to their place on the page. A number that only a strip shows is blacked
  out where its box would lie if the strip were the page, the redaction counts as clean, and the page leaves with the
  number in sight: here the point (50, 1001) of the page lies in the box of the number, whose strip begins at
  three halves of 1684 / 3 - 842 / 25, and in no painted rectangle.\<close>

lemma strip_number_leaves_in_sight:
  "\<exists>rd. Sent (Painted 1 rd) \<in> set (snd (extract_pdf (demo_pdf_env (asc ''rapid'') (asc ''1'')) None (Some [demo_pdf_page])))
     \<and> rd_clean rd \<and> \<not> list_ex (inside (50, 1001)) (rd_rects rd)
     \<and> fst (run_adapter demo_python demo_engines Rapid (Rendered 1 (Some (strip_range (pp_rect demo_pdf_page) 3 2))))
         = Some (demo_read demo_number (9 / 10) (10, 200, 100, 220))
     \<and> inside (50, 1001 - 3 / 2 * fst (strip_range (pp_rect demo_pdf_page) 3 2)) (10, 200, 100, 220)"
proof -
  let ?digit = "\<lambda>c. 48 \<le> c \<and> c \<le> (57 :: nat)"
  define ls where "ls = [demo_line [97] (3 / 10) (0, 0, 10, 10), demo_line demo_number (9 / 10) (10, 200, 100, 220)]"
  let ?rd = "redact_png_bytes ?digit 892 1263 ls"
  have quiet: "\<not> line_needs_mask ?digit [97]" "\<not> search (ID_TOKEN ?digit) [97]" "\<not> search (VISIBLE_TOKEN ?digit) [97]"
    by (simp_all add: line_needs_mask_def PII_LINE_PATTERNS_def MOBILE_def LANDLINE_def NATIONAL_ID_def ID_TOKEN_def VISIBLE_TOKEN_def
        no_case_def other_cases_def words_def ideograph_def asc_def Let_def)
  have digit: "\<forall>c. 48 \<le> c \<and> c \<le> 57 \<longrightarrow> \<not> is_space c" by (simp add: is_space_def)
  have "search (MOBILE ?digit) demo_number" by (simp add: MOBILE_def demo_number_def asc_def Let_def)
  with number_needs_mask [OF digit] have mask: "line_needs_mask ?digit demo_number" by blast
  have clean: "rd_clean ?rd"
    using quiet mask by (simp add: redact_png_bytes_def ls_def demo_line_def still_visible_def Let_def)
  have rects: "rd_rects ?rd = [(0, 0, 892, 1263 * (8 / 100)), (0, 1263 - 1263 * (8 / 100), 892, 1263), (8, 198, 102, 222)]"
    using quiet mask by (simp add: redact_png_bytes_def ls_def demo_line_def padded_def Let_def)
  have strip: "strip_range (pp_rect demo_pdf_page) 3 2 = (1684 / 3 - 842 / 25, 842)"
    by (simp add: strip_range_def demo_pdf_page_def Let_def)
  have "Sent (Painted 1 ?rd) \<in> set (snd (extract_pdf (demo_pdf_env (asc ''rapid'') (asc ''1'')) None (Some [demo_pdf_page])))"
    using demo_sends [OF demo_tiled] clean by (simp add: ls_def)
  moreover have "\<not> list_ex (inside (50, 1001)) (rd_rects ?rd)" unfolding rects by (simp add: inside_def)
  moreover have "inside (50, 1001 - 3 / 2 * fst (strip_range (pp_rect demo_pdf_page) 3 2)) (10, 200, 100, 220)"
    unfolding strip by (simp add: inside_def)
  ultimately show ?thesis
    using clean demo_run(2) [of "1684 / 3 - 842 / 25" 1 842] unfolding strip by (intro exI [of _ ?rd]) simp
qed

end
