(* ===== verification/Office.thy ===== *)
theory Office
  imports Pdf_Extraction
begin

text \<open>
  Pages from text and Office files and the choice by suffix (\<open>extract_text_file\<close> to \<open>extract_file\<close> of
  \<open>src/app/extraction.py\<close>). The ZIP and XML parsers are parameters: an archive is the list of its members with their
  parsed trees, in the shape ElementTree gives them (the text of an element comes before its children, each child is
  followed by its tail).
\<close>

section \<open>Trees and archives\<close>

datatype xml = Elem (el_tag: ustr) (el_attrib: "(ustr \<times> ustr) list") (el_text: ustr) (el_children: "(xml \<times> ustr) list")

text \<open>\<open>"".join(node.itertext())\<close> and \<open>node.iter()\<close>.\<close>

fun itertext :: "xml \<Rightarrow> ustr" where
  "itertext (Elem t a x cs) = x @ concat (map (\<lambda>(c, tail). itertext c @ tail) cs)"

fun nodes :: "xml \<Rightarrow> xml list" where
  "nodes (Elem t a x cs) = Elem t a x cs # concat (map (\<lambda>(c, _). nodes c) cs)"

definition children :: "xml \<Rightarrow> xml list" where
  "children e = map fst (el_children e)"

text \<open>\<open>tag.rsplit("}", 1)[-1]\<close>.\<close>

definition local_name :: "ustr \<Rightarrow> ustr" where
  "local_name t = rev (takeWhile (\<lambda>c. c \<noteq> 125) (rev t))"

definition has_name :: "string \<Rightarrow> xml \<Rightarrow> bool" where
  "has_name s e \<longleftrightarrow> local_name (el_tag e) = asc s"

definition attribute :: "string \<Rightarrow> xml \<Rightarrow> ustr option" where
  "attribute k e = map_of (el_attrib e) (asc k)"

text \<open>A member whose content is no XML has no tree. Of members with the same name the last one is read. A missing member, a
  damaged one and a parse error are caught, and become \<open>ExtractionError\<close>, a runtime error.\<close>

type_synonym archive = "(ustr \<times> xml option) list"

definition read_member :: "archive \<Rightarrow> ustr \<Rightarrow> xml result" where
  "read_member ar name = (case map_of (rev ar) name of Some (Some e) \<Rightarrow> Inr e | _ \<Rightarrow> Inl RuntimeError)"

text \<open>What Python's strings provide: normalisation, \<open>isdigit\<close>, the decimal digits with their values (the class \<open>\d\<close> and what
  \<open>int\<close> reads), and \<open>splitlines\<close>. \<open>int\<close> refuses numerals of more than 4300 digits.\<close>

record text_env =
  tx_nfkc :: "ustr \<Rightarrow> ustr"
  tx_isdigit :: "nat \<Rightarrow> bool"
  tx_decimal :: "nat \<Rightarrow> nat option"
  tx_splitlines :: "ustr \<Rightarrow> ustr list"

definition int_of :: "text_env \<Rightarrow> ustr \<Rightarrow> nat result" where
  "int_of tx s =
     (if length s \<le> 4300 \<and> list_all (\<lambda>c. tx_decimal tx c \<noteq> None) s
      then Inr (foldl (\<lambda>n c. n * 10 + the (tx_decimal tx c)) 0 s) else Inl ValueError)"

section \<open>Pages of text\<close>

definition page_of_text :: "(ustr \<Rightarrow> ustr) \<Rightarrow> ustr \<Rightarrow> nat \<Rightarrow> locator \<Rightarrow> page" where
  "page_of_text nfkc txt n loc =
     (let normalized = nfkc txt; k = length (strip normalized)
      in \<lparr>pg_page = int n, pg_text = normalized, pg_locator = Some loc, pg_blocks = [], pg_has_text = (k \<noteq> 0),
          pg_ocr_required = (k = 0), pg_low_text_confidence = (0 < k \<and> k < 20), pg_char_count = length normalized,
          pg_ocr_status = None, pg_ocr_provider = None, pg_ocr_confidence = None, pg_source_id = None,
          pg_source_filename = None\<rparr>)"

definition line_locator :: "ustr \<Rightarrow> nat \<Rightarrow> nat \<Rightarrow> locator" where
  "line_locator label i j =
     \<lparr>loc_kind = ''line_range'', loc_label = label, loc_fields = [(''start_line'', JInt (int i)), (''end_line'', JInt (int j))]\<rparr>"

definition extract_text_file :: "text_env \<Rightarrow> ustr \<Rightarrow> page list" where
  "extract_text_file tx raw =
     (let txt = tx_nfkc tx raw; lines = tx_splitlines tx txt; n = max (length lines) 1;
          blocks = map (\<lambda>(i, value). \<lparr>blk_text = value, blk_locator = Some (line_locator ([31532, 32] @ asc (decimal i) @ [32, 34892]) i i)\<rparr>)
                     (filter (\<lambda>(i, value). strip value \<noteq> []) (enumerate 1 lines))
      in [\<lparr>pg_page = 1, pg_text = txt, pg_locator = Some (line_locator ([31532, 32, 49, 45] @ asc (decimal n) @ [32, 34892]) 1 n), pg_blocks = blocks,
           pg_has_text = (strip txt \<noteq> []), pg_ocr_required = False, pg_low_text_confidence = False,
           pg_char_count = length txt, pg_ocr_status = None, pg_ocr_provider = None, pg_ocr_confidence = None,
           pg_source_id = None, pg_source_filename = None\<rparr>])"

section \<open>Word documents\<close>

text \<open>Paragraphs and tables of the body; each paragraph and each cell with text becomes a page of its own. \<open>i\<close> and \<open>t\<close> are
  the numbers of paragraphs and tables so far.\<close>

definition paragraph_text :: "xml \<Rightarrow> ustr" where
  "paragraph_text p = strip (concat (map itertext (filter (has_name ''t'') (nodes p))))"

definition cell_text :: "xml \<Rightarrow> ustr" where
  "cell_text c = join [32] (filter (\<lambda>s. s \<noteq> []) (map (\<lambda>e. strip (itertext e)) (filter (has_name ''t'') (nodes c))))"

definition paragraph_locator :: "nat \<Rightarrow> locator" where
  "paragraph_locator i = \<lparr>loc_kind = ''paragraph'', loc_label = [27573, 33853, 32] @ asc (decimal i), loc_fields = [(''index'', JInt (int i))]\<rparr>"

definition table_items :: "nat \<Rightarrow> xml \<Rightarrow> (ustr \<times> locator) list" where
  "table_items t tbl =
     concat (map (\<lambda>(r, row).
       concat (map (\<lambda>(c, cell).
         if cell_text cell = [] then []
         else [(cell_text cell,
                \<lparr>loc_kind = ''table_cell'',
                 loc_label = [34920, 26684, 32] @ asc (decimal t) @ [32, 183, 32, 31532, 32] @ asc (decimal r) @ [32, 34892, 32, 183, 32, 31532, 32] @ asc (decimal c) @ [32, 21015],
                 loc_fields = [(''table'', JInt (int t)), (''row'', JInt (int r)), (''column'', JInt (int c))]\<rparr>)])
         (enumerate 1 (filter (has_name ''tc'') (children row)))))
       (enumerate 1 (filter (has_name ''tr'') (children tbl))))"

fun docx_items :: "nat \<Rightarrow> nat \<Rightarrow> xml list \<Rightarrow> (ustr \<times> locator) list" where
  "docx_items i t [] = []"
| "docx_items i t (e # es) =
     (if has_name ''p'' e then
        (if paragraph_text e = [] then docx_items i t es
         else (paragraph_text e, paragraph_locator (i + 1)) # docx_items (i + 1) t es)
      else if has_name ''tbl'' e then table_items (t + 1) e @ docx_items i (t + 1) es
      else docx_items i t es)"

definition docx_sources :: "text_env \<Rightarrow> xml \<Rightarrow> page list" where
  "docx_sources tx doc =
     (let body = (case find (has_name ''body'') (nodes doc) of None \<Rightarrow> doc | Some b \<Rightarrow> b);
          sources = map (\<lambda>(n, (value, loc)). page_of_text (tx_nfkc tx) value n loc) (enumerate 1 (docx_items 0 0 (children body)))
      in if sources = [] then [page_of_text (tx_nfkc tx) [] 1 (paragraph_locator 1)] else sources)"

section \<open>Workbooks\<close>

text \<open>The letters of a column: bijective numerals to the base 26.\<close>

function column_label :: "nat \<Rightarrow> string" where
  "column_label 0 = []"
| "column_label (Suc n) = column_label (n div 26) @ [char_of (65 + n mod 26)]"
  by pat_completeness auto

termination
  by (relation "measure id") auto

definition is_digit_text :: "text_env \<Rightarrow> ustr \<Rightarrow> bool" where
  "is_digit_text tx s \<longleftrightarrow> s \<noteq> [] \<and> list_all (tx_isdigit tx) s"

definition raw_value :: "xml \<Rightarrow> ustr" where
  "raw_value cell =
     (case find (\<lambda>e. has_name ''v'' e \<or> has_name ''t'' e) (children cell) of
        Some e \<Rightarrow> itertext e
      | None \<Rightarrow> (case find (has_name ''t'') (nodes cell) of None \<Rightarrow> [] | Some e \<Rightarrow> itertext e))"

text \<open>An index into the shared strings; one that is out of range stays as it is.\<close>

definition cell_value :: "text_env \<Rightarrow> ustr list \<Rightarrow> xml \<Rightarrow> ustr result" where
  "cell_value tx shared cell =
     (let raw = raw_value cell
      in if attribute ''t'' cell = Some (asc ''s'') \<and> is_digit_text tx raw
         then bind_result (int_of tx raw) (\<lambda>k. Inr (strip (if k < length shared then shared ! k else raw)))
         else Inr (strip raw))"

definition coordinate :: "nat \<Rightarrow> xml \<Rightarrow> nat \<Rightarrow> xml \<Rightarrow> ustr" where
  "coordinate i row j cell =
     (let made = asc (column_label j) @ (case attribute ''r'' row of None \<Rightarrow> asc (decimal i) | Some r \<Rightarrow> r)
      in case attribute ''r'' cell of None \<Rightarrow> made | Some r \<Rightarrow> if r = [] then made else r)"

text \<open>The cells of a row with their coordinates.\<close>

definition row_cells :: "text_env \<Rightarrow> ustr list \<Rightarrow> nat \<Rightarrow> xml \<Rightarrow> (ustr \<times> ustr) list result" where
  "row_cells tx shared i row =
     map_result (\<lambda>(j, cell). bind_result (cell_value tx shared cell) (\<lambda>v. Inr (coordinate i row j cell, v)))
       (enumerate 1 (filter (has_name ''c'') (children row)))"

definition filled :: "(ustr \<times> ustr) list \<Rightarrow> (ustr \<times> ustr) list" where
  "filled cells = filter (\<lambda>(_, v). v \<noteq> []) cells"

definition row_text :: "(ustr \<times> ustr) list \<Rightarrow> ustr" where
  "row_text cells = join [32, 124, 32] (map (\<lambda>(c, v). c @ [58, 32] @ v) (filled cells))"

definition sheet_label :: "nat \<Rightarrow> ustr option \<Rightarrow> ustr" where
  "sheet_label n name =
     (case name of Some s \<Rightarrow> if s = [] then [24037, 20316, 34920, 32] @ asc (decimal n) else [24037, 20316, 34920, 8220] @ s @ [8221] | None \<Rightarrow> [24037, 20316, 34920, 32] @ asc (decimal n))"

definition name_field :: "ustr option \<Rightarrow> (string \<times> json) list" where
  "name_field name = (case name of Some s \<Rightarrow> if s = [] then [] else [(''sheet_name'', JStr s)] | None \<Rightarrow> [])"

definition cell_block :: "nat \<Rightarrow> ustr option \<Rightarrow> ustr \<times> ustr \<Rightarrow> block" where
  "cell_block n name cell =
     \<lparr>blk_text = snd cell,
      blk_locator = Some \<lparr>loc_kind = ''cell'', loc_label = sheet_label n name @ [32, 183, 32] @ fst cell,
        loc_fields = [(''sheet'', JInt (int n)), (''cell'', JStr (fst cell))] @ name_field name\<rparr>\<rparr>"

definition sheet_cells :: "text_env \<Rightarrow> ustr list \<Rightarrow> xml \<Rightarrow> (ustr \<times> ustr) list list result" where
  "sheet_cells tx shared doc = map_result (\<lambda>(i, row). row_cells tx shared i row) (enumerate 1 (filter (has_name ''row'') (nodes doc)))"

definition xlsx_sheet_data :: "text_env \<Rightarrow> xml \<Rightarrow> ustr list \<Rightarrow> nat \<Rightarrow> ustr option \<Rightarrow> (ustr \<times> block list) result" where
  "xlsx_sheet_data tx doc shared n name =
     bind_result (sheet_cells tx shared doc) (\<lambda>rows.
       Inr (join [10] (map row_text (filter (\<lambda>cells. filled cells \<noteq> []) rows)),
            map (cell_block n name) (filled (concat rows))))"

definition xlsx_sheet_names :: "archive \<Rightarrow> ustr list result" where
  "xlsx_sheet_names ar =
     (if asc ''xl/workbook.xml'' \<notin> fst ` set ar then Inr []
      else bind_result (read_member ar (asc ''xl/workbook.xml'')) (\<lambda>doc.
        Inr (map (\<lambda>e. case attribute ''name'' e of None \<Rightarrow> [] | Some s \<Rightarrow> strip s) (filter (has_name ''sheet'') (nodes doc)))))"

definition shared_strings :: "archive \<Rightarrow> ustr list result" where
  "shared_strings ar =
     (if asc ''xl/sharedStrings.xml'' \<notin> fst ` set ar then Inr []
      else bind_result (read_member ar (asc ''xl/sharedStrings.xml'')) (\<lambda>doc. Inr (map itertext (filter (has_name ''si'') (nodes doc)))))"

text \<open>The digits of a name of the form prefix, digits, \<open>.xml\<close>.\<close>

definition part_number :: "text_env \<Rightarrow> string \<Rightarrow> ustr \<Rightarrow> ustr option" where
  "part_number tx pre name =
     (let rest = drop (length pre) name; ds = take (length rest - 4) rest
      in if prefix (asc pre) name \<and> suffix (asc ''.xml'') rest \<and> ds \<noteq> [] \<and> list_all (\<lambda>c. tx_decimal tx c \<noteq> None) ds
         then Some ds else None)"

text \<open>The numbered parts of an archive, in the order of their numbers.\<close>

definition numbered_parts :: "text_env \<Rightarrow> string \<Rightarrow> archive \<Rightarrow> ustr list result" where
  "numbered_parts tx pre ar =
     bind_result (map_result (\<lambda>(name, ds). bind_result (int_of tx ds) (\<lambda>k. Inr (k, name)))
         (List.map_filter (\<lambda>(name, _). map_option (Pair name) (part_number tx pre name)) ar))
       (\<lambda>keyed. Inr (map snd (sort_key fst keyed)))"

definition sheet_page :: "text_env \<Rightarrow> archive \<Rightarrow> ustr list \<Rightarrow> ustr list \<Rightarrow> nat \<Rightarrow> ustr \<Rightarrow> page result" where
  "sheet_page tx ar shared names n part =
     (let name = nth_or names (n - 1)
      in bind_result (read_member ar part) (\<lambda>doc.
         bind_result (xlsx_sheet_data tx doc shared n name) (\<lambda>(txt, cells).
         Inr ((page_of_text (tx_nfkc tx) txt n
                 \<lparr>loc_kind = ''sheet'', loc_label = sheet_label n name, loc_fields = (''index'', JInt (int n)) # name_field name\<rparr>)
              \<lparr>pg_blocks := cells\<rparr>))))"

definition blank_part :: "text_env \<Rightarrow> string \<Rightarrow> ustr \<Rightarrow> page list" where
  "blank_part tx kind label =
     [page_of_text (tx_nfkc tx) [] 1 \<lparr>loc_kind = kind, loc_label = label, loc_fields = [(''index'', JInt 1)]\<rparr>]"

definition or_blank :: "page list \<Rightarrow> page list \<Rightarrow> page list" where
  "or_blank blank ps = (if ps = [] then blank else ps)"

definition extract_xlsx :: "text_env \<Rightarrow> archive \<Rightarrow> page list result" where
  "extract_xlsx tx ar =
     bind_result (shared_strings ar) (\<lambda>shared.
     bind_result (numbered_parts tx ''xl/worksheets/sheet'' ar) (\<lambda>sheets.
     bind_result (xlsx_sheet_names ar) (\<lambda>names.
     bind_result (map_result (\<lambda>(n, part). sheet_page tx ar shared names n part) (enumerate 1 sheets)) (\<lambda>ps.
     Inr (or_blank (blank_part tx ''sheet'' [24037, 20316, 34920, 32, 49]) ps)))))"

section \<open>Presentations\<close>

definition slide_values :: "xml \<Rightarrow> ustr list" where
  "slide_values doc =
     (let values = filter (\<lambda>s. s \<noteq> []) (map paragraph_text (filter (has_name ''p'') (nodes doc)))
      in if values = [] then filter (\<lambda>s. s \<noteq> []) (map (\<lambda>e. strip (itertext e)) (filter (has_name ''t'') (nodes doc))) else values)"

definition pptx_slide_data :: "xml \<Rightarrow> nat \<Rightarrow> ustr \<times> block list" where
  "pptx_slide_data doc n =
     (let values = slide_values doc
      in (join [10] values,
          map (\<lambda>(b, value). \<lparr>blk_text = value,
             blk_locator = Some \<lparr>loc_kind = ''slide_block'',
               loc_label = [24187, 28783, 29255, 32] @ asc (decimal n) @ [32, 183, 32, 25991, 26412, 22359, 32] @ asc (decimal b),
               loc_fields = [(''slide'', JInt (int n)), (''block'', JInt (int b))]\<rparr>\<rparr>) (enumerate 1 values)))"

definition slide_page :: "text_env \<Rightarrow> archive \<Rightarrow> nat \<Rightarrow> ustr \<Rightarrow> page result" where
  "slide_page tx ar n part =
     bind_result (read_member ar part) (\<lambda>doc.
       let (txt, blocks) = pptx_slide_data doc n
       in Inr ((page_of_text (tx_nfkc tx) txt n
                  \<lparr>loc_kind = ''slide'', loc_label = [24187, 28783, 29255, 32] @ asc (decimal n), loc_fields = [(''index'', JInt (int n))]\<rparr>)
               \<lparr>pg_blocks := blocks\<rparr>))"

definition extract_pptx :: "text_env \<Rightarrow> archive \<Rightarrow> page list result" where
  "extract_pptx tx ar =
     bind_result (numbered_parts tx ''ppt/slides/slide'' ar) (\<lambda>slides.
     bind_result (map_result (\<lambda>(n, part). slide_page tx ar n part) (enumerate 1 slides)) (\<lambda>ps.
     Inr (or_blank (blank_part tx ''slide'' [24187, 28783, 29255, 32, 49]) ps)))"

section \<open>Files\<close>

text \<open>The suffix is the lower-cased one. A file that is no archive has no list of members.\<close>

definition extract_ooxml :: "text_env \<Rightarrow> string \<Rightarrow> archive option \<Rightarrow> page list result" where
  "extract_ooxml tx sfx archive =
     (case archive of
        None \<Rightarrow> Inl RuntimeError
      | Some ar \<Rightarrow>
          if sfx = ''.docx'' then bind_result (read_member ar (asc ''word/document.xml'')) (\<lambda>doc. Inr (docx_sources tx doc))
          else if sfx = ''.xlsx'' then extract_xlsx tx ar
          else if sfx = ''.pptx'' then extract_pptx tx ar
          else Inl RuntimeError)"

record source_file =
  sf_suffix :: string
  sf_document :: "pdf_page list option"
  sf_text :: ustr
  sf_archive :: "archive option"

definition extract_file :: "pdf_env \<Rightarrow> text_env \<Rightarrow> source_file \<Rightarrow> page list result \<times> sending list" where
  "extract_file pe tx f =
     (if sf_suffix f = ''.pdf'' then
        (case extract_pdf pe None (sf_document f) of
           (r, sent) \<Rightarrow> (bind_result r (\<lambda>ps. Inr (map page.truncate ps)), sent))
      else if sf_suffix f \<in> {''.txt'', ''.md''} then (Inr (extract_text_file tx (sf_text f)), [])
      else if sf_suffix f \<in> {''.docx'', ''.xlsx'', ''.pptx''} then (extract_ooxml tx (sf_suffix f) (sf_archive f), [])
      else (Inl RuntimeError, []))"

section \<open>What the pages say of themselves\<close>

text \<open>A page whose summary fields agree with its text.\<close>

definition honest :: "'a page_scheme \<Rightarrow> bool" where
  "honest p \<longleftrightarrow> (pg_has_text p \<longleftrightarrow> strip (pg_text p) \<noteq> []) \<and> pg_char_count p = length (pg_text p)"

definition numbered :: "nat \<Rightarrow> page list \<Rightarrow> bool" where
  "numbered n ps \<longleftrightarrow> map pg_page ps = map int [n..<n + length ps]"

lemma numbered_Nil [simp]: "numbered n []"
  by (simp add: numbered_def)

lemma numbered_Cons [simp]: "numbered n (p # ps) \<longleftrightarrow> pg_page p = int n \<and> numbered (Suc n) ps"
  by (simp add: numbered_def upt_conv_Cons del: upt_Suc)

lemma page_of_text_honest [simp]: "honest (page_of_text nfkc txt n loc)" "honest (page_of_text nfkc txt n loc\<lparr>pg_blocks := bs\<rparr>)"
  by (simp_all add: honest_def page_of_text_def Let_def)

lemma page_of_text_number [simp]: "pg_page (page_of_text nfkc txt n loc) = int n"
  by (simp add: page_of_text_def Let_def)

lemma blank_part_facts [simp]: "numbered (Suc 0) (blank_part tx kind label)" "list_all honest (blank_part tx kind label)"
  by (simp_all add: blank_part_def)

lemma numbered_map_enumerate:
  "(\<And>i x. pg_page (f (i, x)) = int i) \<Longrightarrow> numbered n (map f (enumerate n xs))"
  by (induction xs arbitrary: n) simp_all

lemma map_result_enumerate:
  assumes "map_result f (enumerate n xs) = Inr ps" and "\<And>i x p. f (i, x) = Inr p \<Longrightarrow> pg_page p = int i \<and> honest p"
  shows "numbered n ps \<and> list_all honest ps"
  using assms(1)
proof (induction xs arbitrary: n ps)
  case (Cons x xs)
  then show ?case using assms(2) by (fastforce simp: bind_result_Inr)
qed simp

lemma text_file_facts: "numbered (Suc 0) (extract_text_file tx raw) \<and> list_all honest (extract_text_file tx raw)"
  by (simp add: extract_text_file_def Let_def honest_def)

lemma docx_facts: "numbered (Suc 0) (docx_sources tx doc) \<and> list_all honest (docx_sources tx doc)"
proof -
  let ?f = "\<lambda>(n, (value, loc)). page_of_text (tx_nfkc tx) value n loc"
  have "numbered (Suc 0) (map ?f (enumerate (Suc 0) xs)) \<and> list_all honest (map ?f (enumerate (Suc 0) xs))" for xs
    by (rule conjI, rule numbered_map_enumerate) (auto simp: list_all_iff)
  then show ?thesis by (simp add: docx_sources_def Let_def split: option.split)
qed

lemma sheet_page_facts: "sheet_page tx ar shared names n part = Inr p \<Longrightarrow> pg_page p = int n \<and> honest p"
  by (auto simp: sheet_page_def Let_def bind_result_Inr split: prod.splits)

lemma slide_page_facts: "slide_page tx ar n part = Inr p \<Longrightarrow> pg_page p = int n \<and> honest p"
  by (auto simp: slide_page_def Let_def bind_result_Inr case_prod_unfold)

lemma or_blank_facts:
  "numbered (Suc 0) ps \<and> list_all honest ps \<Longrightarrow>
     numbered (Suc 0) (or_blank (blank_part tx kind label) ps) \<and> list_all honest (or_blank (blank_part tx kind label) ps)"
  by (simp add: or_blank_def)

lemma page_list_facts:
  assumes "map_result (\<lambda>(n, part). f n part) (enumerate (Suc 0) xs) = Inr ps"
    and "\<And>n part p. f n part = Inr p \<Longrightarrow> pg_page p = int n \<and> honest p"
  shows "numbered (Suc 0) (or_blank (blank_part tx kind label) ps) \<and> list_all honest (or_blank (blank_part tx kind label) ps)"
  using map_result_enumerate [OF assms(1)] assms(2) by (intro or_blank_facts) auto

lemma ooxml_facts:
  assumes "extract_ooxml tx sfx archive = Inr ps"
  shows "numbered (Suc 0) ps \<and> list_all honest ps"
proof -
  have "numbered (Suc 0) ps \<and> list_all honest ps" if "extract_xlsx tx ar = Inr ps" for ar
    using that by (auto simp: extract_xlsx_def bind_result_Inr dest!: page_list_facts [OF _ sheet_page_facts])
  moreover have "numbered (Suc 0) ps \<and> list_all honest ps" if "extract_pptx tx ar = Inr ps" for ar
    using that by (auto simp: extract_pptx_def bind_result_Inr dest!: page_list_facts [OF _ slide_page_facts])
  ultimately show ?thesis
    using assms docx_facts by (auto simp: extract_ooxml_def bind_result_Inr split: option.splits if_splits)
qed

text \<open>Recognised text is never blank.\<close>

lemma run_adapter_text: "run_adapter py eg a img = (Some r, sent) \<Longrightarrow> strip (or_text r) \<noteq> []"
proof (induction a img arbitrary: r sent rule: run_adapter.induct)
  case (2 py eg n img)
  then show ?case by (auto simp: qwen_result_def Let_def sanitize_ocr_text_def split: prod.splits option.splits if_splits)
next
  case (3 py eg img)
  then show ?case by (auto simp: paddle_extract_def Let_def joined_def split: option.splits if_splits)
next
  case (4 py eg img)
  then show ?case by (auto simp: rapid_extract_def Let_def joined_def split: option.splits if_splits)
next
  case (5 py eg p f img)
  then show ?case
    by (auto simp: combine_def split: prod.splits option.splits if_splits)
qed auto

lemma lstrip_append: "lstrip s \<noteq> [] \<Longrightarrow> lstrip (s @ t) = lstrip s @ t"
  by (induction s) (auto simp: lstrip_def)

lemma strip_empty_iff: "strip s = [] \<longleftrightarrow> list_all is_space s"
proof -
  have "lstrip t = [] \<longleftrightarrow> list_all is_space t" for t by (auto simp: lstrip_def list_all_iff)
  moreover have "list_all is_space (lstrip s) \<longleftrightarrow> list_all is_space s" by (induction s) (auto simp: lstrip_def)
  ultimately show ?thesis by (simp add: strip_def)
qed

lemma join_blank: "list_all is_space (join sep xs) \<Longrightarrow> x \<in> set xs \<Longrightarrow> list_all is_space x"
  by (induction sep xs rule: join.induct) auto

lemma read_strips_parts:
  "read_strips ocr imgs = ((parts, confs, ls), sent) \<Longrightarrow> x \<in> set parts \<Longrightarrow> strip x \<noteq> []"
  by (induction imgs arbitrary: parts confs ls sent) (auto simp: Let_def split: prod.splits option.splits if_splits)

lemma ocr_page_image_text:
  assumes "ocr_page_image pe a n p = (Some r, sent)"
  shows "strip (or_text r) \<noteq> []"
proof -
  have stitched: "strip (join [10] parts) \<noteq> []"
    if "read_strips ocr imgs = ((parts, confs, ls), later)" "parts \<noteq> []" for ocr imgs parts confs ls later
    using read_strips_parts [OF that(1), of "hd parts"] join_blank [of "[10]" parts "hd parts"] that(2)
    by (auto simp: strip_empty_iff)
  show ?thesis
    using assms run_adapter_text stitched
    by (fastforce simp: ocr_page_image_def Let_def split: prod.splits option.splits if_splits)
qed

lemma escalation_text:
  assumes "maybe_escalate_cloud pe n p loc = (Inr (r, meta), sent)" and "strip (or_text loc) \<noteq> []"
  shows "strip (or_text r) \<noteq> []"
proof -
  have "strip (merge_ocr_texts (or_text loc) t) \<noteq> []" for t using assms(2) by (simp add: merge_ocr_texts_def Let_def)
  then show ?thesis
    using assms by (auto simp: maybe_escalate_cloud_def Let_def split: prod.splits option.splits if_splits)
qed

lemma text_layer_honest: "honest (text_layer_page pe n p) \<and> pg_page (text_layer_page pe n p) = int n"
  by (simp add: honest_def text_layer_page_def Let_def)

lemma recognised_honest:
  "strip (or_text r) \<noteq> [] \<Longrightarrow> honest (recognised_page pe n p r meta d) \<and> pg_page (recognised_page pe n p r meta d) = pg_page d"
  by (simp add: honest_def recognised_page_def)

lemma extract_page_facts:
  assumes "extract_page pe a n p = (Inr d, sent)"
  shows "honest d \<and> pg_page d = int n"
proof -
  have "honest (d\<lparr>pg_ocr_status := x, pd_ocr_error := y, pg_low_text_confidence := z, pd_egress := w\<rparr>) = honest d"
    "honest (d\<lparr>pg_ocr_status := x\<rparr>) = honest d" for d :: page_data and x y z w
    by (simp_all add: honest_def)
  with assms show ?thesis
    using text_layer_honest [of pe n p] recognised_honest ocr_page_image_text escalation_text
    by (auto simp: extract_page_def Let_def split: prod.splits option.splits sum.splits if_splits)
qed

lemma truncate_facts: "honest (page.truncate d) = honest d" "pg_page (page.truncate d) = pg_page d"
  by (simp_all add: honest_def page.truncate_def)

lemma extract_pages_facts:
  "extract_pages pe a n ps = (Inr ds, sent) \<Longrightarrow> numbered n (map page.truncate ds) \<and> list_all honest (map page.truncate ds)"
proof (induction ps arbitrary: n ds sent)
  case (Cons p ps)
  then show ?case
    by (auto split: prod.splits sum.splits dest!: extract_page_facts simp: truncate_facts)
qed simp

text \<open>C31: Whatever the format, the pages extracted from a file are numbered from one without gaps, a page counts as having
  text exactly when its text is not blank, and its character count is the length of its text. Citations and the checks
  of a scan rest on these fields.\<close>

theorem extracted_pages_are_consistent:
  assumes "extract_file pe tx f = (Inr ps, sent)"
  shows "map pg_page ps = map int [1..<Suc (length ps)]
    \<and> list_all (\<lambda>p. (pg_has_text p \<longleftrightarrow> strip (pg_text p) \<noteq> []) \<and> pg_char_count p = length (pg_text p)) ps"
proof -
  have "numbered (Suc 0) ps \<and> list_all honest ps"
    using assms text_file_facts ooxml_facts extract_pages_facts
    by (auto simp: extract_file_def extract_pdf_def bind_result_Inr split: if_splits prod.splits option.splits)
  then show ?thesis by (simp add: numbered_def list_all_iff honest_def)
qed

definition demo_text_env :: text_env where
  "demo_text_env = \<lparr>tx_nfkc = (\<lambda>s. s), tx_isdigit = (\<lambda>c. 48 \<le> c \<and> c \<le> 57),
     tx_decimal = (\<lambda>c. if 48 \<le> c \<and> c \<le> 57 then Some (c - 48) else None), tx_splitlines = (\<lambda>s. [s])\<rparr>"

definition leaf :: "string \<Rightarrow> (ustr \<times> ustr) list \<Rightarrow> ustr \<Rightarrow> xml \<times> ustr" where
  "leaf t ats x = (Elem (asc t) ats x [], [])"

definition tree :: "string \<Rightarrow> (ustr \<times> ustr) list \<Rightarrow> (xml \<times> ustr) list \<Rightarrow> xml \<times> ustr" where
  "tree t ats cs = (Elem (asc t) ats [] cs, [])"

definition demo_docx :: xml where
  "demo_docx = fst (tree ''document'' [] [tree ''{w}body'' [] [tree ''p'' [] [leaf ''t'' [] [97]], tree ''p'' [] [],
     tree ''tbl'' [] [tree ''tr'' [] [tree ''tc'' [] [], tree ''tc'' [] [leaf ''t'' [] [98, 99]]]]]])"

lemma local_name_asc: "CHR ''}'' \<notin> set s \<Longrightarrow> local_name (asc s) = asc s"
proof -
  assume absent: "CHR ''}'' \<notin> set s"
  have "(of_char x :: nat) \<noteq> 125" if "x \<in> set s" for x
  proof
    assume "(of_char x :: nat) = 125"
    then have "(of_char x :: nat) = of_char (CHR ''}'')" by simp
    then have "x = CHR ''}''" by (simp only: of_char_eq_iff)
    with that absent show False by simp
  qed
  then have "\<forall>c \<in> set (rev (asc s)). c \<noteq> 125" by (auto simp: asc_def)
  then have "takeWhile (\<lambda>c. c \<noteq> 125) (rev (asc s)) = rev (asc s)" by (simp only: takeWhile_eq_all_conv)
  then show ?thesis by (simp only: local_name_def rev_rev_ident)
qed

lemma demo_names_local [simp]:
  "local_name (asc ''document'') = asc ''document''" "local_name (asc ''{w}body'') = asc ''body''" "local_name (asc ''p'') = asc ''p''"
  "local_name (asc ''t'') = asc ''t''" "local_name (asc ''tbl'') = asc ''tbl''" "local_name (asc ''tr'') = asc ''tr''"
  "local_name (asc ''tc'') = asc ''tc''" "local_name (asc ''sheetData'') = asc ''sheetData''"
  "local_name (asc ''row'') = asc ''row''" "local_name (asc ''c'') = asc ''c''" "local_name (asc ''v'') = asc ''v''"
  by (simp_all add: local_name_asc) (simp add: local_name_def asc_def)

lemma demo_docx_pages: "map (\<lambda>p. (pg_page p, pg_text p)) (docx_sources demo_text_env demo_docx) = [(1, [97]), (2, [98, 99])]"
  by (simp add: docx_sources_def demo_docx_def tree_def leaf_def children_def has_name_def paragraph_text_def
      table_items_def cell_text_def page_of_text_def demo_text_env_def strip_def lstrip_def is_space_def)

definition demo_file :: source_file where
  "demo_file = \<lparr>sf_suffix = ''.docx'', sf_document = None, sf_text = [],
     sf_archive = Some [(asc ''word/document.xml'', Some demo_docx)]\<rparr>"

lemma demo_file_pages: "extract_file (demo_pdf_env [] []) demo_text_env demo_file = (Inr (docx_sources demo_text_env demo_docx), [])"
  by (simp add: extract_file_def extract_ooxml_def read_member_def demo_file_def)

theorem extracted_pages_are_consistent_witness:
  "\<exists>ps. fst (extract_file (demo_pdf_env [] []) demo_text_env demo_file) = Inr ps \<and> map (\<lambda>p. (pg_page p, pg_text p)) ps = [(1, [97]), (2, [98, 99])]
     \<and> map pg_page ps = map int [1..<Suc (length ps)]"
proof (intro exI conjI)
  show "fst (extract_file (demo_pdf_env [] []) demo_text_env demo_file) = Inr (docx_sources demo_text_env demo_docx)"
    by (simp only: demo_file_pages fst_conv)
  show "map pg_page (docx_sources demo_text_env demo_docx) = map int [1..<Suc (length (docx_sources demo_text_env demo_docx))]"
    by (rule extracted_pages_are_consistent [OF demo_file_pages, THEN conjunct1])
qed (rule demo_docx_pages)

section \<open>Addresses of cells\<close>

definition column_number :: "string \<Rightarrow> nat" where
  "column_number s = foldl (\<lambda>n c. n * 26 + (of_char c - 64)) 0 s"

lemma column_number_label: "column_number (column_label n) = n"
proof (induction n rule: column_label.induct)
  case (2 n)
  have "of_char (char_of (65 + n mod 26) :: char) = 65 + n mod 26" using mod_less_divisor [of 26 n] by simp
  with 2 show ?case by (simp add: column_number_def)
qed (simp add: column_number_def)

lemma column_label_inj: "column_label m = column_label n \<longleftrightarrow> m = n"
  using column_number_label [of m] column_number_label [of n] by metis

lemma column_label_letters: "c \<in> set (column_label n) \<Longrightarrow> 65 \<le> (of_char c :: nat) \<and> (of_char c :: nat) \<le> 90"
proof (induction n rule: column_label.induct)
  case (2 n)
  have "of_char (char_of (65 + n mod 26) :: char) = 65 + n mod 26" using mod_less_divisor [of 26 n] by simp
  with 2 show ?case by auto
qed simp

text \<open>Letters then digits: both parts can be read off.\<close>

lemma address_inj: "column_label j @ decimal i = column_label j' @ decimal i' \<longleftrightarrow> j = j' \<and> i = i'"
proof
  assume eq: "column_label j @ decimal i = column_label j' @ decimal i'"
  have letters: "takeWhile (\<lambda>c. 65 \<le> (of_char c :: nat)) (column_label j @ decimal i) = column_label j" for i j
  proof -
    have "decimal i \<noteq> [] \<and> \<not> 65 \<le> (of_char (hd (decimal i)) :: nat)"
      using decimal_digits [of i] by (cases "decimal i") (auto simp: is_ascii_digit_def)
    then have "takeWhile (\<lambda>c. 65 \<le> (of_char c :: nat)) (decimal i) = []" by (cases "decimal i") auto
    then show ?thesis using column_label_letters [of _ j] by (simp add: takeWhile_append2)
  qed
  from eq letters [of j i] letters [of j' i'] have "column_label j = column_label j'" by metis
  with eq have "decimal i = decimal i'" by simp
  then show "j = j' \<and> i = i'"
    using \<open>column_label j = column_label j'\<close> decimal_value [of i] decimal_value [of i'] column_label_inj by metis
qed simp

definition addressed :: "xml \<Rightarrow> bool" where
  "addressed e \<longleftrightarrow> attribute ''r'' e \<noteq> None"

lemma map_result_keys:
  "map_result (\<lambda>(j, x). bind_result (g x) (\<lambda>v. Inr (h j x, v))) jxs = Inr ys \<Longrightarrow> map fst ys = map (\<lambda>(j, x). h j x) jxs"
  by (induction jxs arbitrary: ys) (auto simp: bind_result_Inr)

lemma row_cells_addresses:
  assumes "row_cells tx shared i row = Inr cells" and "\<not> addressed row" and "filter addressed (children row) = []"
  shows "map fst cells = map (\<lambda>j. asc (column_label j @ decimal i)) [1..<Suc (length cells)]"
proof -
  define js where "js = filter (has_name ''c'') (children row)"
  have keys: "map fst cells = map (\<lambda>(j, cell). coordinate i row j cell) (enumerate 1 js)"
    using map_result_keys assms(1) unfolding row_cells_def js_def by blast
  then have len: "length cells = length js" by (metis length_enumerate length_map)
  have "coordinate i row j cell = asc (column_label j @ decimal i)" if "cell \<in> set js" for j cell
    using that assms(2,3) by (auto simp: js_def addressed_def coordinate_def filter_empty_conv asc_def)
  then have "map fst cells = map ((\<lambda>j. asc (column_label j @ decimal i)) \<circ> fst) (enumerate 1 js)"
    unfolding keys by (intro map_cong refl) (auto simp: enumerate_eq_zip dest: set_zip_rightD)
  also have "\<dots> = map (\<lambda>j. asc (column_label j @ decimal i)) [1..<Suc (length js)]"
    by (simp only: map_map [symmetric] map_fst_enumerate) simp
  finally show ?thesis by (simp add: len)
qed

lemma self_in_nodes: "e \<in> set (nodes e)"
  by (cases e) simp

lemma child_in_nodes: "e \<in> set (nodes d) \<Longrightarrow> c \<in> set (children e) \<Longrightarrow> c \<in> set (nodes d)"
proof (induction d rule: nodes.induct)
  case (1 t a x cs)
  then show ?case using self_in_nodes by (fastforce simp: children_def)
qed

text \<open>In a worksheet whose rows and cells carry no addresses of their own, the cell in column \<open>j\<close> of row \<open>i\<close> is cited by the
  letters of \<open>j\<close> followed by \<open>i\<close>, so no two cells share an address.\<close>

lemma made_addresses_are_distinct:
  assumes "sheet_cells tx shared doc = Inr rows" and "filter addressed (nodes doc) = []"
  shows "map (map fst) rows = map (\<lambda>(i, cells). map (\<lambda>j. asc (column_label j @ decimal i)) [1..<Suc (length cells)]) (enumerate 1 rows)
    \<and> distinct (map fst (concat rows))"
proof -
  define make where "make = (\<lambda>(i, cells). map (\<lambda>j. asc (column_label j @ decimal i)) [1..<Suc (length (cells :: (ustr \<times> ustr) list))])"
  have rows: "map (map fst) ys = map make (enumerate n ys)"
    if "map_result (\<lambda>(i, row). row_cells tx shared i row) (enumerate n xs) = Inr ys"
      and "\<forall>row \<in> set xs. \<not> addressed row \<and> filter addressed (children row) = []" for n xs ys
    using that
  proof (induction xs arbitrary: n ys)
    case (Cons row xs)
    then show ?case by (auto simp: bind_result_Inr make_def dest!: row_cells_addresses)
  qed simp
  have plain: "\<forall>row \<in> set (filter (has_name ''row'') (nodes doc)). \<not> addressed row \<and> filter addressed (children row) = []"
    using assms(2) child_in_nodes by (auto simp: filter_empty_conv)
  have eq: "map (map fst) rows = map make (enumerate 1 rows)"
    using rows [OF assms(1) [unfolded sheet_cells_def] plain] .
  have "distinct (concat (map make (enumerate n rows)))" for n
  proof (induction rows arbitrary: n)
    case (Cons cells rows)
    have "distinct (make (n, cells))" by (simp add: make_def distinct_map inj_on_def column_label_inj del: upt_Suc)
    moreover have "set (make (n, cells)) \<inter> set (concat (map make (enumerate (Suc n) rows))) = {}"
      by (auto simp: make_def address_inj enumerate_eq_zip dest!: set_zip_leftD)
    ultimately show ?case using Cons.IH by simp
  qed simp
  with eq have "distinct (map fst (concat rows))" by (simp add: map_concat)
  with eq show ?thesis by (simp add: make_def)
qed

definition demo_sheet :: xml where
  "demo_sheet = fst (tree ''sheetData'' [] [tree ''row'' [] [tree ''c'' [] [leaf ''v'' [] [55]], tree ''c'' [] [leaf ''v'' [] [56]]],
     tree ''row'' [] [tree ''c'' [] [leaf ''v'' [] [57]]]])"

lemma demo_sheet_cells:
  "sheet_cells demo_text_env [] demo_sheet = Inr [[(asc ''A1'', [55]), (asc ''B1'', [56])], [(asc ''A2'', [57])]]"
  by (simp add: sheet_cells_def demo_sheet_def tree_def leaf_def children_def has_name_def row_cells_def cell_value_def
      raw_value_def attribute_def coordinate_def demo_text_env_def strip_def lstrip_def is_space_def asc_def decimal.simps local_name_def)

lemma made_addresses_are_distinct_example:
  "distinct (map fst (concat [[(asc ''A1'', [55 :: nat]), (asc ''B1'', [56])], [(asc ''A2'', [57])]]))"
proof -
  have "filter addressed (nodes demo_sheet) = []"
    by (simp add: demo_sheet_def tree_def leaf_def addressed_def attribute_def)
  from made_addresses_are_distinct [OF demo_sheet_cells this, THEN conjunct2] show ?thesis by (simp only:)
qed

text \<open>An address that is made counts the cells before it, not their columns: a cell without an address after one in column B
  gets the same address.\<close>

lemma mixed_addresses_collide:
  "row_cells demo_text_env [] 1 (fst (tree ''row'' [] [tree ''c'' [(asc ''r'', asc ''B1'')] [leaf ''v'' [] [55]], tree ''c'' [] [leaf ''v'' [] [56]]]))
     = Inr [(asc ''B1'', [55]), (asc ''B1'', [56])]"
  by (simp add: tree_def leaf_def children_def has_name_def row_cells_def cell_value_def raw_value_def attribute_def
      coordinate_def demo_text_env_def strip_def lstrip_def is_space_def asc_def decimal.simps local_name_def)

end
