(* ===== verification/Edit_Distance.thy ===== *)
theory Edit_Distance
  imports Prelude Complex_Main "HOL-Library.Multiset"
begin

text \<open>
  The character error rates of the benchmarks: \<open>levenshtein\<close>, \<open>cer\<close> and \<open>wer\<close> of \<open>src/work/eval/ocr_benchmark.py\<close> and
  the line matching of \<open>src/work/eval/rapidocr_line_cer.py\<close>. The distance is specified by edit scripts and computed
  row by row as in the code. Quotients are exact; the rounding of floating-point division is left out. Unicode
  normalisation and lower-casing are the parameters \<open>nfkc\<close> and \<open>lower\<close>.
\<close>

section \<open>Rows\<close>

text \<open>One pass of the inner loop: the row of the next character of the first word.\<close>

definition next_row :: "'a list \<Rightarrow> nat list \<Rightarrow> nat \<Rightarrow> 'a \<Rightarrow> nat list" where
  "next_row b prev i ca =
     foldl (\<lambda>cur (j, cb). cur @ [min (min (cur ! (j - 1) + 1) (prev ! j + 1)) (prev ! (j - 1) + (if ca \<noteq> cb then 1 else 0))])
       [i] (enumerate 1 b)"

definition rows :: "'a list \<Rightarrow> 'a list \<Rightarrow> nat list" where
  "rows a b = foldl (\<lambda>prev (i, ca). next_row b prev i ca) [0..<length b + 1] (enumerate 1 a)"

definition levenshtein :: "'a list \<Rightarrow> 'a list \<Rightarrow> nat" where
  "levenshtein a b =
     (if a = b then 0 else if a = [] then length b else if b = [] then length a else last (rows a b))"

section \<open>Rates\<close>

definition norm_text :: "(ustr \<Rightarrow> ustr) \<Rightarrow> (ustr \<Rightarrow> ustr) \<Rightarrow> ustr \<Rightarrow> ustr" where
  "norm_text nfkc lower s = lower (remove_spaces (map (\<lambda>c. if c = 12288 then 32 else c) (nfkc s)))"

definition cer :: "(ustr \<Rightarrow> ustr) \<Rightarrow> (ustr \<Rightarrow> ustr) \<Rightarrow> ustr \<Rightarrow> ustr \<Rightarrow> rat" where
  "cer nfkc lower ref hyp =
     (let r = norm_text nfkc lower ref; h = norm_text nfkc lower hyp
      in if r = [] then (if h = [] then 0 else 1) else Fract (int (levenshtein r h)) (int (length r)))"

text \<open>The separators of \<open>toks\<close>: white space and Chinese and Latin punctuation.\<close>

definition is_separator :: "nat \<Rightarrow> bool" where
  "is_separator c \<longleftrightarrow> is_space c \<or> c \<in> {65292, 12290, 65307, 12289, 65306, 58, 44, 46, 33, 65281, 65311, 63}"

fun tokens :: "ustr \<Rightarrow> ustr \<Rightarrow> ustr list" where
  "tokens [] w = (if w = [] then [] else [rev w])"
| "tokens (c # s) w =
     (if is_separator c then (if w = [] then tokens s [] else rev w # tokens s []) else tokens s (c # w))"

text \<open>Here the row loop runs without the shortcuts.\<close>

definition wer :: "(ustr \<Rightarrow> ustr) \<Rightarrow> ustr \<Rightarrow> ustr \<Rightarrow> rat" where
  "wer nfkc ref hyp =
     (let r = tokens (nfkc ref) []; h = tokens (nfkc hyp) []
      in if r = [] then (if h = [] then 0 else 1) else Fract (int (last (rows r h))) (int (length r)))"

definition field_hit :: "(ustr \<Rightarrow> ustr) \<Rightarrow> (ustr \<Rightarrow> ustr) \<Rightarrow> ustr \<Rightarrow> ustr \<Rightarrow> bool" where
  "field_hit nfkc lower txt value = contains (norm_text nfkc lower value) (norm_text nfkc lower txt)"

section \<open>Lines\<close>

text \<open>The inner loop: the best unused line so far, starting from deletion of the reference line.\<close>

fun best_line :: "ustr \<Rightarrow> nat list \<Rightarrow> (nat \<times> ustr) list \<Rightarrow> nat option \<times> nat \<Rightarrow> nat option \<times> nat" where
  "best_line ref used [] best = best"
| "best_line ref used ((index, hyp) # rest) best =
     best_line ref used rest
       (if index \<in> set used then best
        else let distance = levenshtein ref hyp in if distance < snd best then (Some index, distance) else best)"

fun match_lines :: "(nat \<times> ustr) list \<Rightarrow> ustr list \<Rightarrow> nat list \<Rightarrow> nat \<Rightarrow> nat list \<times> nat" where
  "match_lines hyps [] used edits = (used, edits)"
| "match_lines hyps (ref # refs) used edits =
     (let (best, d) = best_line ref used hyps (None, length ref)
      in match_lines hyps refs (case best of None \<Rightarrow> used | Some j \<Rightarrow> j # used) (edits + d))"

definition unmatched :: "(nat \<times> ustr) list \<Rightarrow> nat list \<Rightarrow> nat" where
  "unmatched hyps used = sum_list (map (\<lambda>(index, hyp). if index \<in> set used then 0 else length hyp) hyps)"

definition greedy_edits :: "ustr list \<Rightarrow> ustr list \<Rightarrow> nat" where
  "greedy_edits refs hyps =
     (case match_lines (enumerate 0 hyps) refs [] 0 of (used, edits) \<Rightarrow> edits + unmatched (enumerate 0 hyps) used)"

text \<open>\<open>split_normalized_lines\<close> keeps the lines that are not blank; \<open>splitlines\<close> is \<open>str.splitlines\<close>.\<close>

definition split_normalized_lines :: "(ustr \<Rightarrow> ustr list) \<Rightarrow> (ustr \<Rightarrow> ustr) \<Rightarrow> ustr \<Rightarrow> ustr list" where
  "split_normalized_lines splitlines nrm txt = filter (\<lambda>l. l \<noteq> []) (map nrm (splitlines txt))"

definition hyp_lines_of :: "(ustr \<Rightarrow> ustr list) \<Rightarrow> (ustr \<Rightarrow> ustr) \<Rightarrow> ustr \<Rightarrow> ustr list option \<Rightarrow> ustr list" where
  "hyp_lines_of splitlines nrm hyp_text hyp_lines =
     (case hyp_lines of Some ls \<Rightarrow> filter (\<lambda>l. l \<noteq> []) (map nrm ls) | None \<Rightarrow> split_normalized_lines splitlines nrm hyp_text)"

definition line_edits ::
  "(ustr \<Rightarrow> ustr list) \<Rightarrow> (ustr \<Rightarrow> ustr) \<Rightarrow> ustr \<Rightarrow> ustr \<Rightarrow> ustr list option \<Rightarrow> nat \<times> nat" where
  "line_edits splitlines nrm ref_text hyp_text hyp_lines =
     (let refs = split_normalized_lines splitlines nrm ref_text; hyps = hyp_lines_of splitlines nrm hyp_text hyp_lines
      in if refs = [] then (if hyps = [] then (0, 0) else (1, 1)) else (greedy_edits refs hyps, sum_list (map length refs)))"

definition page_edits :: "(ustr \<Rightarrow> ustr) \<Rightarrow> ustr \<Rightarrow> ustr \<Rightarrow> nat \<times> nat" where
  "page_edits nrm ref_text hyp_text =
     (let r = nrm ref_text; h = nrm hyp_text
      in if r = [] then (if h = [] then (0, 0) else (1, 1)) else (levenshtein r h, length r))"

definition line_cer ::
  "(ustr \<Rightarrow> ustr list) \<Rightarrow> (ustr \<Rightarrow> ustr) \<Rightarrow> ustr \<Rightarrow> ustr \<Rightarrow> ustr list option \<Rightarrow> rat" where
  "line_cer splitlines nrm ref_text hyp_text hyp_lines =
     (let refs = split_normalized_lines splitlines nrm ref_text; hyps = hyp_lines_of splitlines nrm hyp_text hyp_lines
      in if refs = [] then (if hyps = [] then 0 else 1)
         else Fract (int (greedy_edits refs hyps)) (int (sum_list (map length refs))))"

section \<open>Edit scripts\<close>

text \<open>\<open>edits a b n\<close>: some script of \<open>n\<close> insertions, deletions and replacements turns \<open>a\<close> into \<open>b\<close>.\<close>

inductive edits :: "'a list \<Rightarrow> 'a list \<Rightarrow> nat \<Rightarrow> bool" where
  empty: "edits [] [] 0"
| delete: "edits a b n \<Longrightarrow> edits (a @ [x]) b (n + 1)"
| insert: "edits a b n \<Longrightarrow> edits a (b @ [y]) (n + 1)"
| replace: "edits a b n \<Longrightarrow> edits (a @ [x]) (b @ [y]) (n + (if x \<noteq> y then 1 else 0))"

text \<open>The value of a cell, by the recurrence.\<close>

fun cell :: "'a list \<Rightarrow> 'a list \<Rightarrow> nat \<Rightarrow> nat \<Rightarrow> nat" where
  "cell a b 0 j = j"
| "cell a b (Suc i) 0 = Suc i"
| "cell a b (Suc i) (Suc j) =
     min (min (cell a b (Suc i) j + 1) (cell a b i (Suc j) + 1)) (cell a b i j + (if a ! i \<noteq> b ! j then 1 else 0))"

lemma edits_min: "edits a b m \<Longrightarrow> edits a b n \<Longrightarrow> edits a b (min m n)"
  by (simp add: min_def)

lemma cell_edits: "i \<le> length a \<Longrightarrow> j \<le> length b \<Longrightarrow> edits (take i a) (take j b) (cell a b i j)"
proof (induction a b i j rule: cell.induct)
  case (1 a b j)
  have "edits [] (take j b) j" using 1
  proof (induction j)
    case (Suc j)
    then show ?case using edits.insert [of "[]" "take j b" j "b ! j"] by (simp add: take_Suc_conv_app_nth)
  qed (simp add: edits.empty)
  then show ?case by simp
next
  case (2 a b i)
  have "edits (take i a) [] i" if "i \<le> length a" for i using that
  proof (induction i)
    case (Suc i)
    then show ?case using edits.delete [of "take i a" "[]" i "a ! i"] by (simp add: take_Suc_conv_app_nth)
  qed (simp add: edits.empty)
  from this [of "Suc i"] 2 show ?case by simp
next
  case (3 a b i j)
  have "edits (take (Suc i) a) (take (Suc j) b) (cell a b (Suc i) j + 1)"
    using edits.insert [OF 3(1), of "b ! j"] 3(4,5) by (simp add: take_Suc_conv_app_nth)
  moreover have "edits (take (Suc i) a) (take (Suc j) b) (cell a b i (Suc j) + 1)"
    using edits.delete [OF 3(2), of "a ! i"] 3(4,5) by (simp add: take_Suc_conv_app_nth)
  moreover have "edits (take (Suc i) a) (take (Suc j) b) (cell a b i j + (if a ! i \<noteq> b ! j then 1 else 0))"
    using edits.replace [OF 3(3), of "a ! i" "b ! j"] 3(4,5) by (simp add: take_Suc_conv_app_nth)
  ultimately show ?case unfolding cell.simps by (intro edits_min)
qed

lemma cell_le_Suc: "cell a b (Suc i) j \<le> cell a b i j + 1" "cell a b i (Suc j) \<le> cell a b i j + 1"
proof -
  show "cell a b (Suc i) j \<le> cell a b i j + 1" by (cases j) (cases i; simp)+
  show "cell a b i (Suc j) \<le> cell a b i j + 1" by (cases i) simp_all
qed

lemma cell_0 [simp]: "cell a b i 0 = i"
  by (cases i) simp_all

lemma cell_append: "i \<le> length a \<Longrightarrow> j \<le> length b \<Longrightarrow> cell (a @ a') (b @ b') i j = cell a b i j"
  by (induction a b i j rule: cell.induct) (simp_all add: nth_append)

lemma edits_cell: "edits a b n \<Longrightarrow> cell a b (length a) (length b) \<le> n"
proof (induction rule: edits.induct)
  case (delete a b n x)
  then show ?case
    using cell_le_Suc(1) [of "a @ [x]" b "length a" "length b"] cell_append [of "length a" a "length b" b "[x]" "[]"] by simp
next
  case (insert a b n y)
  then show ?case
    using cell_le_Suc(2) [of a "b @ [y]" "length a" "length b"] cell_append [of "length a" a "length b" b "[]" "[y]"] by simp
next
  case (replace a b n x y)
  then show ?case
    using cell_append [of "length a" a "length b" b "[x]" "[y]"] by (auto simp: min_le_iff_disj)
qed simp

text \<open>The loops fill the rows of the recurrence.\<close>

lemma next_row_cells:
  assumes "prev = map (cell a b i) [0..<length b + 1]"
  shows "next_row b prev (Suc i) (a ! i) = map (cell a b (Suc i)) [0..<length b + 1]"
proof -
  let ?f = "\<lambda>cur (j, cb). cur @ [min (min (cur ! (j - 1) + 1) (prev ! j + 1)) (prev ! (j - 1) + (if a ! i \<noteq> cb then 1 else 0))]"
  have "foldl ?f [Suc i] (take k (enumerate 1 b)) = map (cell a b (Suc i)) [0..<k + 1]" if "k \<le> length b" for k
    using that
  proof (induction k)
    case (Suc k)
    have "take (Suc k) (enumerate 1 b) = take k (enumerate 1 b) @ [(Suc k, b ! k)]"
      using Suc.prems by (simp add: take_Suc_conv_app_nth nth_enumerate_eq)
    with Suc show ?case by (simp add: assms nth_append del: upt_Suc) (simp add: nth_map upt_Suc_append)
  qed simp
  from this [of "length b"] show ?thesis by (simp add: next_row_def)
qed

lemma rows_cells: "rows a b = map (cell a b (length a)) [0..<length b + 1]"
proof -
  have "foldl (\<lambda>prev (i, ca). next_row b prev i ca) [0..<length b + 1] (take k (enumerate 1 a)) = map (cell a b k) [0..<length b + 1]"
    if "k \<le> length a" for k using that
  proof (induction k)
    case 0
    show ?case by (simp add: map_idI del: upt_Suc)
  next
    case (Suc k)
    have "take (Suc k) (enumerate 1 a) = take k (enumerate 1 a) @ [(Suc k, a ! k)]"
      using Suc.prems by (simp add: take_Suc_conv_app_nth nth_enumerate_eq)
    with Suc next_row_cells [of _ a b k] show ?case by simp
  qed
  from this [of "length a"] show ?thesis by (simp add: rows_def)
qed

lemma last_rows: "last (rows a b) = cell a b (length a) (length b)"
  by (simp add: rows_cells)

lemma edits_refl: "edits a a 0"
proof (induction a rule: rev_induct)
  case (snoc x xs)
  then show ?case using edits.replace [of xs xs 0 x x] by simp
qed (rule edits.empty)

lemma cell_refl: "cell a a (length a) (length a) = 0"
  using edits_cell [OF edits_refl, of a] by simp

lemma levenshtein_cell: "levenshtein a b = cell a b (length a) (length b)"
  by (simp add: levenshtein_def last_rows cell_refl)


lemma edits_zero: "edits a b n \<Longrightarrow> n = 0 \<Longrightarrow> a = b"
  by (induction rule: edits.induct) (auto split: if_splits)

lemma levenshtein_0_iff [simp]: "levenshtein a b = 0 \<longleftrightarrow> a = b"
  using cell_edits [of "length a" a "length b" b] by (auto simp: levenshtein_cell cell_refl dest: edits_zero)

lemma levenshtein_same [simp]: "levenshtein a a = 0"
  by (simp add: levenshtein_def)

section \<open>Matching of lines\<close>

definition free_lines :: "nat list \<Rightarrow> (nat \<times> ustr) list \<Rightarrow> (nat \<times> ustr) list" where
  "free_lines used hyps = filter (\<lambda>(i, _). i \<notin> set used) hyps"

lemma best_line_choice:
  "snd (best_line ref used hyps best) \<le> snd best
    \<and> (\<forall>(i, h) \<in> set (free_lines used hyps). snd (best_line ref used hyps best) \<le> levenshtein ref h)
    \<and> (best_line ref used hyps best = best
        \<or> (\<exists>(i, h) \<in> set (free_lines used hyps). best_line ref used hyps best = (Some i, levenshtein ref h)))"
proof (induction ref used hyps best rule: best_line.induct)
  case (2 ref used i h rest best)
  let ?b = "if i \<in> set used then best else let d = levenshtein ref h in if d < snd best then (Some i, d) else best"
  from 2 show ?case
    by (cases "i \<in> set used"; cases "levenshtein ref h < snd best") (fastforce simp: free_lines_def Let_def)+
qed (simp add: free_lines_def)

lemma exact_line_taken:
  assumes "(i, ref) \<in> set (free_lines used hyps)" and "ref \<noteq> []"
  obtains j where "(j, ref) \<in> set (free_lines used hyps)" and "best_line ref used hyps (None, length ref) = (Some j, 0)"
proof -
  have zero: "snd (best_line ref used hyps (None, length ref)) = 0"
    using best_line_choice [of ref used hyps "(None, length ref)"] assms(1) by (auto dest!: bspec [where x = "(i, ref)"])
  then obtain j h where "(j, h) \<in> set (free_lines used hyps)" "best_line ref used hyps (None, length ref) = (Some j, levenshtein ref h)"
    using best_line_choice [of ref used hyps "(None, length ref)"] assms(2) by fastforce
  with zero that show thesis by auto
qed

lemma free_lines_take:
  assumes "distinct (map fst hyps)" and "(j, l) \<in> set (free_lines used hyps)"
  shows "mset (map snd (free_lines (j # used) hyps)) + {#l#} = mset (map snd (free_lines used hyps))"
  using assms
proof (induction hyps)
  case (Cons p hyps)
  obtain i h where p: "p = (i, h)" by (cases p)
  show ?case
  proof (cases "i = j")
    case True
    with Cons.prems p have "h = l" "j \<notin> set used" by (auto simp: free_lines_def rev_image_eqI split: if_splits)
    moreover from True Cons.prems(1) p have "free_lines (j # used) hyps = free_lines used hyps"
      by (auto simp: free_lines_def rev_image_eqI intro!: filter_cong)
    ultimately show ?thesis using True p by (simp add: free_lines_def)
  next
    case False
    with Cons p show ?thesis by (auto simp: free_lines_def)
  qed
qed (simp add: free_lines_def)

lemma unmatched_free: "unmatched hyps used = sum_list (map (\<lambda>(_, h). length h) (free_lines used hyps))"
  by (induction hyps) (auto simp: unmatched_def free_lines_def)

lemma match_lines_exact:
  assumes "distinct (map fst hyps)" and "mset (map snd (free_lines used hyps)) = mset refs" and "[] \<notin> set refs"
  shows "\<exists>used'. match_lines hyps refs used n = (used', n) \<and> free_lines used' hyps = []"
  using assms(2,3)
proof (induction refs arbitrary: used)
  case Nil
  then show ?case by simp
next
  case (Cons ref refs)
  from Cons.prems(1) have "ref \<in> snd ` set (free_lines used hyps)"
    by (metis list.set_intros(1) list.set_map set_mset_mset)
  then obtain i where "(i, ref) \<in> set (free_lines used hyps)" by auto
  then obtain j where j: "(j, ref) \<in> set (free_lines used hyps)" "best_line ref used hyps (None, length ref) = (Some j, 0)"
    using Cons.prems(2) by (auto elim: exact_line_taken)
  from free_lines_take [OF assms(1) j(1)] Cons.prems(1) have "mset (map snd (free_lines (j # used) hyps)) = mset refs" by simp
  from Cons.IH [OF this] Cons.prems(2) j(2) show ?case by simp
qed

section \<open>Properties\<close>

text \<open>The row-by-row computation of the edit distance gives the length of a shortest edit script: there is a
  script of insertions, deletions and replacements of that length and none is shorter. The loop of the word error
  rate, which has no shortcuts for equal or empty sequences, computes the same number.\<close>

lemma levenshtein_is_shortest_script:
  "edits a b (levenshtein a b) \<and> levenshtein a b = (LEAST n. edits a b n) \<and> last (rows a b) = levenshtein a b"
proof -
  have "edits a b (levenshtein a b)" using cell_edits [of "length a" a "length b" b] by (simp add: levenshtein_cell)
  moreover from this have "levenshtein a b = (LEAST n. edits a b n)"
    by (intro Least_equality [symmetric]) (auto simp: levenshtein_cell dest: edits_cell)
  ultimately show ?thesis by (simp add: last_rows levenshtein_cell)
qed

text \<open>Lines that moved cost nothing: when the recognised lines are the reference lines in any order, the
  line error count is zero, for every number of repeated lines.\<close>

lemma moved_lines_cost_nothing:
  assumes "mset hyps = mset refs" and "[] \<notin> set refs"
  shows "greedy_edits refs hyps = 0"
proof -
  have "mset (map snd (free_lines [] (enumerate 0 hyps))) = mset refs" using assms(1) by (simp add: free_lines_def)
  then obtain used where "match_lines (enumerate 0 hyps) refs [] 0 = (used, 0)" "free_lines used (enumerate 0 hyps) = []"
    using match_lines_exact [of "enumerate 0 hyps" "[]" refs 0] assms(2) by auto
  then show ?thesis by (simp add: greedy_edits_def unmatched_free)
qed

lemma moved_lines_cost_nothing_example: "greedy_edits [[97], [98, 99], [97]] [[98, 99], [97], [97]] = 0"
  using moved_lines_cost_nothing [of "[[98, 99], [97], [97]]" "[[97], [98, 99], [97]]"] by simp

text \<open>The line error count does depend on the order of the recognised lines when they are not exact: the greedy
  matching gives a reference line to the first of two equally near lines, and the next reference line pays for it.\<close>

lemma line_matching_depends_on_order:
  "greedy_edits [[97, 97], [97, 98]] [[97, 98], [97, 99]] = 2 \<and> greedy_edits [[97, 97], [97, 98]] [[97, 99], [97, 98]] = 1"
proof -
  have lev: "levenshtein [x, y] [x, z] = (if y = z then 0 else 1)" for x y z :: nat
    by (simp add: levenshtein_cell)
  show ?thesis by (simp add: greedy_edits_def lev unmatched_def)
qed

end
