(* ===== verification/Table_Similarity.thy ===== *)
theory Table_Similarity
  imports Edit_Distance
begin

text \<open>
  The table score of \<open>src/work/eval/teds_score.py\<close>: tables as ordered trees, the construction of a tree from the
  events of an HTML parser, the memoised forest distance and the score. The tokenisation of HTML is the standard
  library's; the model starts at its callbacks. Scores are exact quotients.
\<close>

section \<open>Trees\<close>

datatype tree_node = Node (label: string) (children: "tree_node list")

primrec tree_size :: "tree_node \<Rightarrow> nat" where
  "tree_size (Node l ts) = 1 + sum_list (map tree_size ts)"

definition STRUCTURE_TAGS :: "string set" where
  "STRUCTURE_TAGS = {''table'', ''thead'', ''tbody'', ''tfoot'', ''tr'', ''td'', ''th''}"

definition is_cell :: "string \<Rightarrow> bool" where
  "is_cell tag \<longleftrightarrow> tag = ''td'' \<or> tag = ''th''"

text \<open>
  The callbacks, with the tag already in lower case, and the state of the parser. \<open>ps_stack\<close> holds the open nodes
  with their children so far, innermost first; a node is attached to its parent when it is opened, so the tree
  is read off by closing what is still open. \<open>ps_root\<close> is the last finished top-level tree.
\<close>

datatype event = Start string | Data string | Close string

record parser =
  ps_root :: "tree_node option"
  ps_stack :: "(string \<times> tree_node list) list"
  ps_buf :: "string list option"

definition new_parser :: parser where
  "new_parser = \<lparr>ps_root = None, ps_stack = [], ps_buf = None\<rparr>"

definition handle_starttag :: "string \<Rightarrow> parser \<Rightarrow> parser" where
  "handle_starttag tag p =
     (if tag \<notin> STRUCTURE_TAGS then p
      else p\<lparr>ps_buf := (if is_cell tag then Some [] else ps_buf p), ps_stack := (tag, []) # ps_stack p\<rparr>)"

definition attach :: "tree_node \<Rightarrow> (string \<times> tree_node list) list \<Rightarrow> (string \<times> tree_node list) list" where
  "attach t stack = (case stack of (l, ts) # rest \<Rightarrow> (l, ts @ [t]) # rest | [] \<Rightarrow> [])"

definition handle_endtag :: "(string \<Rightarrow> string) \<Rightarrow> string \<Rightarrow> parser \<Rightarrow> parser" where
  "handle_endtag norm_cell tag p =
     (if tag \<notin> STRUCTURE_TAGS then p
      else case ps_stack p of
        [] \<Rightarrow> p
      | (l, ts) # rest \<Rightarrow>
          let text_end = is_cell tag \<and> ps_buf p \<noteq> None;
              l' = (if text_end then tag @ '':'' @ norm_cell (concat (the (ps_buf p))) else l);
              t = Node l' ts
          in p\<lparr>ps_buf := (if text_end then None else ps_buf p), ps_stack := attach t rest,
               ps_root := (if rest = [] then Some t else ps_root p)\<rparr>)"

definition handle_data :: "string \<Rightarrow> parser \<Rightarrow> parser" where
  "handle_data d p = p\<lparr>ps_buf := map_option (\<lambda>b. b @ [d]) (ps_buf p)\<rparr>"

definition handle :: "(string \<Rightarrow> string) \<Rightarrow> parser \<Rightarrow> event \<Rightarrow> parser" where
  "handle norm_cell p e =
     (case e of Start tag \<Rightarrow> handle_starttag tag p | Data d \<Rightarrow> handle_data d p | Close tag \<Rightarrow> handle_endtag norm_cell tag p)"

text \<open>The tree of an open stack: every node is the last child of the one below it.\<close>

fun close_stack :: "(string \<times> tree_node list) list \<Rightarrow> tree_node option" where
  "close_stack [] = None"
| "close_stack [(l, ts)] = Some (Node l ts)"
| "close_stack ((l, ts) # (l', ts') # rest) = close_stack ((l', ts' @ [Node l ts]) # rest)"

definition html_to_tree :: "(string \<Rightarrow> string) \<Rightarrow> event list \<Rightarrow> tree_node option" where
  "html_to_tree norm_cell es =
     (let p = foldl (handle norm_cell) new_parser es
      in if ps_stack p = [] then ps_root p else close_stack (ps_stack p))"

section \<open>Distance\<close>

text \<open>The key of the memo: nested tuples of labels.\<close>

datatype key = Key string "key list"

primrec node_key :: "tree_node \<Rightarrow> key" where
  "node_key (Node l ts) = Key l (map node_key ts)"

type_synonym memo = "key list \<times> key list \<rightharpoonup> nat"

abbreviation forest_size :: "tree_node list \<Rightarrow> nat" where
  "forest_size ts \<equiv> sum_list (map tree_size ts)"

lemma tree_size_pos [simp]: "0 < tree_size t"
  by (cases t) simp

lemma tree_size_nonzero [simp]: "tree_size t \<noteq> 0"
  by (cases t) simp

lemma tree_size_children: "tree_size t = Suc (forest_size (children t))"
  by (cases t) simp

function forest_dist_keyed :: "tree_node list \<Rightarrow> tree_node list \<Rightarrow> memo \<Rightarrow> nat \<times> memo" where
  "forest_dist_keyed as bs memo =
     (let cache_key = (map node_key as, map node_key bs)
      in case memo cache_key of
           Some cost \<Rightarrow> (cost, memo)
         | None \<Rightarrow>
             (case (as, bs) of
                ([], []) \<Rightarrow> (0, memo(cache_key \<mapsto> 0))
              | ([], _) \<Rightarrow> (forest_size bs, memo(cache_key \<mapsto> forest_size bs))
              | (_, []) \<Rightarrow> (forest_size as, memo(cache_key \<mapsto> forest_size as))
              | (a # as', b # bs') \<Rightarrow>
                  let (d1, m1) = forest_dist_keyed as' bs memo;
                      (d2, m2) = forest_dist_keyed as bs' m1;
                      (d3, m3) = forest_dist_keyed (children a) (children b) m2;
                      (d4, m4) = forest_dist_keyed as' bs' m3;
                      cost = min (min (tree_size a + d1) (tree_size b + d2)) ((if label a = label b then 0 else 1) + d3 + d4)
                  in (cost, m4(cache_key \<mapsto> cost))))"
  by pat_completeness auto

termination
  by (relation "measure (\<lambda>(as, bs, _). forest_size as + forest_size bs)") (auto simp: tree_size_children)

declare forest_dist_keyed.simps [simp del]

definition tree_edit_distance :: "tree_node option \<Rightarrow> tree_node option \<Rightarrow> nat" where
  "tree_edit_distance a b =
     (case (a, b) of
        (None, None) \<Rightarrow> 0
      | (None, Some t) \<Rightarrow> tree_size t
      | (Some t, None) \<Rightarrow> tree_size t
      | (Some s, Some t) \<Rightarrow> fst (forest_dist_keyed [s] [t] (\<lambda>_. None)))"

definition teds :: "(string \<Rightarrow> string) \<Rightarrow> event list \<Rightarrow> event list \<Rightarrow> rat" where
  "teds norm_cell pred_html gt_html =
     (case (html_to_tree norm_cell pred_html, html_to_tree norm_cell gt_html) of
        (None, None) \<Rightarrow> 1
      | (None, Some _) \<Rightarrow> 0
      | (Some _, None) \<Rightarrow> 0
      | (Some s, Some t) \<Rightarrow>
          let denom = max (tree_size s) (tree_size t)
          in if denom = 0 then 1
             else let score = 1 - Fract (int (tree_edit_distance (Some s) (Some t))) (int denom)
                  in if score < 0 then 0 else if score > 1 then 1 else score)"

section \<open>The distance without a memo\<close>

function forest_dist :: "tree_node list \<Rightarrow> tree_node list \<Rightarrow> nat" where
  "forest_dist [] bs = forest_size bs"
| "forest_dist (a # as) [] = forest_size (a # as)"
| "forest_dist (a # as) (b # bs) =
     min (min (tree_size a + forest_dist as (b # bs)) (tree_size b + forest_dist (a # as) bs))
       ((if label a = label b then 0 else 1) + forest_dist (children a) (children b) + forest_dist as bs)"
  by pat_completeness auto

termination
  by (relation "measure (\<lambda>(as, bs). forest_size as + forest_size bs)") (auto simp: tree_size_children)

lemma node_key_inj: "node_key s = node_key t \<Longrightarrow> s = t"
proof (induction s arbitrary: t)
  case (Node l ts)
  obtain l' ts' where t: "t = Node l' ts'" by (cases t)
  with Node.prems have "map node_key ts = map node_key ts'" "l = l'" by simp_all
  moreover have "map node_key us = map node_key us' \<Longrightarrow> set us \<subseteq> set ts \<Longrightarrow> us = us'" for us us'
    using Node.IH by (induction us arbitrary: us') (auto simp: Cons_eq_map_conv)
  ultimately show ?case using t by simp
qed

lemma keys_inj [simp]: "map node_key as = map node_key bs \<longleftrightarrow> as = bs"
  by (auto dest: map_injective intro: injI node_key_inj)

text \<open>The memo answers with the distance of the forests it was asked for.\<close>

definition sound :: "memo \<Rightarrow> bool" where
  "sound memo \<longleftrightarrow> (\<forall>as bs c. memo (map node_key as, map node_key bs) = Some c \<longrightarrow> c = forest_dist as bs)"

lemma sound_update: "sound memo \<Longrightarrow> sound (memo((map node_key as, map node_key bs) \<mapsto> forest_dist as bs))"
  by (auto simp: sound_def)

lemma forest_dist_keyed_sound:
  "sound memo \<Longrightarrow> fst (forest_dist_keyed as bs memo) = forest_dist as bs \<and> sound (snd (forest_dist_keyed as bs memo))"
proof (induction as bs memo rule: forest_dist_keyed.induct)
  case (1 as bs memo)
  let ?k = "(map node_key as, map node_key bs)"
  show ?case
  proof (cases "memo ?k")
    case (Some c)
    with 1(5) show ?thesis by (subst (1 2) forest_dist_keyed.simps) (simp add: sound_def)
  next
    case None
    note miss = this
    show ?thesis
    proof (cases as)
      case Nil
      with miss show ?thesis
        using sound_update [OF 1(5), of "[]" bs] by (subst (1 2) forest_dist_keyed.simps) (cases bs; simp)
    next
      case (Cons a as')
      note as = this
      show ?thesis
      proof (cases bs)
        case Nil
        with miss as show ?thesis
          using sound_update [OF 1(5), of "a # as'" "[]"] by (subst (1 2) forest_dist_keyed.simps) simp
      next
        case (Cons b bs')
        note ih = 1(1-4) [OF refl miss refl as Cons]
        obtain d1 m1 where r1: "forest_dist_keyed as' bs memo = (d1, m1)" by fastforce
        obtain d2 m2 where r2: "forest_dist_keyed as bs' m1 = (d2, m2)" by fastforce
        obtain d3 m3 where r3: "forest_dist_keyed (children a) (children b) m2 = (d3, m3)" by fastforce
        obtain d4 m4 where r4: "forest_dist_keyed as' bs' m3 = (d4, m4)" by fastforce
        have s1: "d1 = forest_dist as' bs" "sound m1" using ih(1) [OF 1(5)] r1 by simp_all
        have s2: "d2 = forest_dist as bs'" "sound m2" using ih(2) [OF refl r1 [symmetric] s1(2)] r2 by simp_all
        have s3: "d3 = forest_dist (children a) (children b)" "sound m3"
          using ih(3) [OF refl r1 [symmetric] refl r2 [symmetric] s2(2)] r3 by simp_all
        have s4: "d4 = forest_dist as' bs'" "sound m4"
          using ih(4) [OF refl r1 [symmetric] refl r2 [symmetric] refl r3 [symmetric] s3(2)] r4 by simp_all
        have "forest_dist_keyed as bs memo = (forest_dist as bs, m4(?k \<mapsto> forest_dist as bs))"
          using miss r1 r2 r3 r4 s1(1) s2(1) s3(1) s4(1) as Cons by (subst forest_dist_keyed.simps) (simp add: Let_def)
        with sound_update [OF s4(2), of as bs] show ?thesis by (metis fst_conv snd_conv)
      qed
    qed
  qed
qed

section \<open>The distance is a distance\<close>

lemma forest_dist_Nil [simp]: "forest_dist as [] = forest_size as"
  by (cases as) simp_all

lemma forest_dist_sym: "forest_dist as bs = forest_dist bs as"
  by (induction as bs rule: forest_dist.induct) (auto simp: min.commute)

lemma forest_dist_upper: "forest_dist as bs \<le> forest_size as + forest_size bs"
  by (induction as bs rule: forest_dist.induct) auto

lemma forest_dist_lower: "forest_size as \<le> forest_dist as bs + forest_size bs"
proof (induction as bs rule: forest_dist.induct)
  case (3 a as b bs)
  then show ?case using tree_size_children [of a] tree_size_children [of b] by (auto simp: min_def)
qed simp_all

lemma forest_dist_refl: "forest_dist as as = 0"
proof (induction "forest_size as" arbitrary: as rule: less_induct)
  case less
  show ?case
  proof (cases as)
    case (Cons a as')
    then have "forest_dist (children a) (children a) = 0" "forest_dist as' as' = 0"
      by (auto intro!: less simp: tree_size_children)
    with Cons show ?thesis by simp
  qed simp
qed

lemma forest_size_0 [simp]: "forest_size ts = 0 \<longleftrightarrow> ts = []"
  by (cases ts) simp_all

lemma forest_dist_0: "forest_dist as bs = 0 \<Longrightarrow> as = bs"
proof (induction as bs rule: forest_dist.induct)
  case (1 bs)
  then show ?case by (cases bs) simp_all
next
  case (2 a as)
  then show ?case by simp
next
  case (3 a as b bs)
  from 3(5) have "label a = label b" "forest_dist (children a) (children b) = 0" "forest_dist as bs = 0"
    by (auto simp: min_def split: if_splits)
  with 3(3,4) show ?case by (auto intro: tree_node.expand)
qed

lemma tree_edit_distance_eq: "tree_edit_distance (Some s) (Some t) = forest_dist [s] [t]"
  using forest_dist_keyed_sound [of "\<lambda>_. None" "[s]" "[t]"] by (simp add: tree_edit_distance_def sound_def)

section \<open>Well-nested tables\<close>

text \<open>The callbacks of a well-nested table, and the trees that have such a writing.\<close>

fun events_of :: "tree_node \<Rightarrow> event list" where
  "events_of (Node l ts) =
     (if is_cell (take 2 l) then [Start (take 2 l), Data (drop 3 l), Close (take 2 l)]
      else Start l # concat (map events_of ts) @ [Close l])"

fun table_tree :: "(string \<Rightarrow> string) \<Rightarrow> tree_node \<Rightarrow> bool" where
  "table_tree norm_cell (Node l ts) \<longleftrightarrow>
     (if is_cell (take 2 l) then ts = [] \<and> l = take 2 l @ '':'' @ drop 3 l \<and> norm_cell (drop 3 l) = drop 3 l
      else l \<in> STRUCTURE_TAGS \<and> list_all (table_tree norm_cell) ts)"

definition finished :: "tree_node \<Rightarrow> parser \<Rightarrow> parser" where
  "finished t p = p\<lparr>ps_stack := attach t (ps_stack p), ps_root := (if ps_stack p = [] then Some t else ps_root p)\<rparr>"

lemma finished_frame [simp]: "ps_buf (finished t p) = ps_buf p" "ps_stack (finished t p) = attach t (ps_stack p)"
  by (simp_all add: finished_def)

lemma events_parsed: "table_tree norm_cell t \<Longrightarrow> ps_buf p = None \<Longrightarrow> foldl (handle norm_cell) p (events_of t) = finished t p"
proof (induction t arbitrary: p)
  case (Node l ts)
  show ?case
  proof (cases "is_cell (take 2 l)")
    case True
    moreover from this have "take 2 l \<in> STRUCTURE_TAGS" by (auto simp: is_cell_def STRUCTURE_TAGS_def)
    ultimately show ?thesis using Node.prems
      by (simp add: handle_def handle_starttag_def handle_data_def handle_endtag_def finished_def Let_def)
  next
    case False
    with Node.prems have l: "l \<in> STRUCTURE_TAGS" "\<not> is_cell l" by (auto simp: is_cell_def)
    have all: "foldl (handle norm_cell) q (concat (map events_of us)) = q\<lparr>ps_stack := (l, vs @ us) # st\<rparr>"
      if "set us \<subseteq> set ts" "ps_buf q = None" "ps_stack q = (l, vs) # st" for us vs st q
      using that
    proof (induction us arbitrary: q vs)
      case (Cons u us)
      have "foldl (handle norm_cell) q (events_of u) = q\<lparr>ps_stack := (l, vs @ [u]) # st\<rparr>"
        using Node.IH [of u q] Node.prems(1) False Cons.prems by (auto simp: list_all_iff finished_def attach_def)
      with Cons show ?case by simp
    qed simp
    let ?q = "p\<lparr>ps_stack := (l, []) # ps_stack p\<rparr>"
    have "handle norm_cell p (Start l) = ?q" using l Node.prems(2) by (simp add: handle_def handle_starttag_def)
    moreover have "foldl (handle norm_cell) ?q (concat (map events_of ts)) = p\<lparr>ps_stack := (l, ts) # ps_stack p\<rparr>"
      using all [of ts ?q "[]" "ps_stack p"] Node.prems(2) by simp
    moreover have "handle norm_cell (p\<lparr>ps_stack := (l, ts) # ps_stack p\<rparr>) (Close l) = finished (Node l ts) p"
      using l by (simp add: handle_def handle_endtag_def finished_def Let_def)
    ultimately show ?thesis using False by simp
  qed
qed

section \<open>Properties\<close>

text \<open>The tree of a well-nested table is read back from its callbacks: every tree of table sections, rows and
  cells with normalised text is the tree that the parser builds from its own writing.\<close>

lemma table_parse_roundtrip:
  assumes "table_tree norm_cell t"
  shows "html_to_tree norm_cell (events_of t) = Some t"
  using events_parsed [OF assms, of new_parser] by (simp add: html_to_tree_def new_parser_def finished_def attach_def)

lemma table_parse_roundtrip_example:
  "html_to_tree id [Start ''table'', Start ''tr'', Start ''td'', Data ''7'', Close ''td'', Close ''tr'', Close ''table'']
     = Some (Node ''table'' [Node ''tr'' [Node ''td:7'' []]])"
  using table_parse_roundtrip [of id "Node ''table'' [Node ''tr'' [Node ''td:7'' []]]"]
  by (simp add: is_cell_def STRUCTURE_TAGS_def)


text \<open>C33: The memoised distance of two tables is the plain recursion, for every memo whose entries are right, and
  the memo stays right. It is a distance: symmetric, zero exactly for equal trees, at least the difference
  of the sizes and at most their sum.\<close>

theorem memoised_distance_exact:
  assumes "sound memo"
  shows "fst (forest_dist_keyed as bs memo) = forest_dist as bs \<and> sound (snd (forest_dist_keyed as bs memo))
    \<and> forest_dist as bs = forest_dist bs as \<and> (forest_dist as bs = 0 \<longleftrightarrow> as = bs)
    \<and> forest_size as \<le> forest_dist as bs + forest_size bs \<and> forest_dist as bs \<le> forest_size as + forest_size bs"
  using forest_dist_keyed_sound [OF assms, of as bs] forest_dist_sym [of as bs] forest_dist_0 [of as bs] forest_dist_refl [of as]
    forest_dist_lower [of as bs] forest_dist_upper [of as bs]
  by (cases "as = bs") auto

theorem memoised_distance_exact_witness:
  "fst (forest_dist_keyed [Node ''tr'' []] [Node ''tr'' [Node ''td:1'' []]] (\<lambda>_. None)) = 1"
  using memoised_distance_exact [of "\<lambda>_. None" "[Node ''tr'' []]" "[Node ''tr'' [Node ''td:1'' []]]"] by (simp add: sound_def)

text \<open>The score of two tables is between zero and one, it is one exactly when both have the same tree (or
  neither has any), and it does not depend on which of the two is the reference.\<close>

lemma teds_is_a_similarity:
  "0 \<le> teds norm_cell p g \<and> teds norm_cell p g \<le> 1
    \<and> (teds norm_cell p g = 1 \<longleftrightarrow> html_to_tree norm_cell p = html_to_tree norm_cell g) \<and> teds norm_cell p g = teds norm_cell g p"
proof (cases "html_to_tree norm_cell p"; cases "html_to_tree norm_cell g")
  fix s t assume st: "html_to_tree norm_cell p = Some s" "html_to_tree norm_cell g = Some t"
  define n where "n = max (tree_size s) (tree_size t)"
  have n: "0 < n" by (simp add: n_def less_max_iff_disj)
  have d0: "forest_dist [s] [t] = 0 \<longleftrightarrow> s = t" using forest_dist_0 [of "[s]" "[t]"] forest_dist_refl [of "[s]"] by auto
  have score: "teds norm_cell p g = (let x = 1 - Fract (int (forest_dist [s] [t])) (int n) in if x < 0 then 0 else if x > 1 then 1 else x)"
    using n st by (simp add: teds_def tree_edit_distance_eq n_def Let_def del: forest_dist.simps)
  have flip: "teds norm_cell g p = teds norm_cell p g"
    using st forest_dist_sym [of "[t]" "[s]"]
    by (simp add: teds_def tree_edit_distance_eq max.commute [of "tree_size t"] del: forest_dist.simps)
  define x where "x = Fract (int (forest_dist [s] [t])) (int n)"
  have x: "0 \<le> x" "x = 0 \<longleftrightarrow> s = t"
    using n d0 by (simp_all add: x_def zero_le_Fract_iff Fract_of_int_quotient del: forest_dist.simps)
  have "teds norm_cell p g = (if 1 - x < 0 then 0 else if 1 - x > 1 then 1 else 1 - x)" by (simp only: score x_def Let_def)
  with x st flip show ?thesis by auto
qed (simp_all add: teds_def)

text \<open>The distance is not the tree edit distance of the literature, which deletes single nodes and keeps their
  children: deleting or inserting a node here costs its whole subtree. One \<open>tbody\<close> around the rows of a table, a
  single insertion, costs three.\<close>

lemma wrapped_rows_cost_three:
  "tree_edit_distance (Some (Node ''table'' [Node ''tr'' [Node ''td:1'' []]]))
     (Some (Node ''table'' [Node ''tbody'' [Node ''tr'' [Node ''td:1'' []]]])) = 3"
  by (simp add: tree_edit_distance_eq)

end
