(* ===== verification/Gates.thy ===== *)
theory Gates
  imports Table_Similarity
begin

text \<open>
  The engineering gates over the benchmark metrics: the aggregation of \<open>src/work/eval/sandbox_gates.py\<close>, the
  snapshot that the product reads (\<open>src/app/quality_gates.py\<close>) and the harnesses that compute the three metrics
  (\<open>evaluate_line_cer\<close>, \<open>evaluate_teds\<close>, \<open>evaluate_key_field_f1\<close>). A metric is a rational number or NaN, which a JSON
  report may hold; thresholds are read as decimal fractions. Of a report the fields that decide the gate are kept;
  its markdown and time stamp are left out.
\<close>

section \<open>Aggregation\<close>

datatype metric = Num rat | NaN

fun above :: "metric \<Rightarrow> rat \<Rightarrow> bool" where
  "above (Num x) m \<longleftrightarrow> x > m"
| "above NaN m \<longleftrightarrow> False"

fun below :: "metric \<Rightarrow> rat \<Rightarrow> bool" where
  "below (Num x) m \<longleftrightarrow> x < m"
| "below NaN m \<longleftrightarrow> False"

definition LINE_CER_MAX :: rat where
  "LINE_CER_MAX = 2 / 100"

definition KEY_FIELD_F1_MIN :: rat where
  "KEY_FIELD_F1_MIN = 97 / 100"

definition TEDS_MIN :: rat where
  "TEDS_MIN = 9 / 10"

record gate_input =
  gi_line_cer :: "metric option"
  gi_key_field_f1 :: "metric option"
  gi_teds :: "metric option"
  gi_line_cer_status :: "string option"
  gi_key_field_f1_status :: "string option"
  gi_teds_status :: "string option"

record gate_report =
  gr_failures :: "string list"
  gr_unevaluated :: "string list"
  gr_engineering_gate :: string
  gr_product_pass :: bool
  gr_business_pass :: bool
  gr_forced_requirement_status :: string

definition not_evaluated :: "string option \<Rightarrow> bool" where
  "not_evaluated status \<longleftrightarrow> status \<in> {None, Some ''NOT_EVALUATED'', Some ''INSUFFICIENT''}"

definition aggregate_engineering_gates :: "gate_input \<Rightarrow> gate_report" where
  "aggregate_engineering_gates g =
     (let failures =
            (case gi_line_cer g of Some x \<Rightarrow> if above x LINE_CER_MAX then [''line_cer''] else [] | None \<Rightarrow> [])
            @ (case gi_key_field_f1 g of Some x \<Rightarrow> if below x KEY_FIELD_F1_MIN then [''key_field_f1''] else [] | None \<Rightarrow> [])
            @ (case gi_teds g of Some x \<Rightarrow> if below x TEDS_MIN then [''teds''] else [] | None \<Rightarrow> []);
          unevaluated =
            (if gi_line_cer g = None \<and> not_evaluated (gi_line_cer_status g) then [''line_cer''] else [])
            @ (if gi_key_field_f1 g = None \<and> not_evaluated (gi_key_field_f1_status g) then [''key_field_f1''] else [])
            @ (if gi_teds g = None \<and> not_evaluated (gi_teds_status g) then [''teds''] else []);
          gate = (if failures = [] \<and> unevaluated = [] then ''GATE_PASS'' else ''GATE_FAIL'')
      in \<lparr>gr_failures = failures, gr_unevaluated = unevaluated,
          gr_engineering_gate = (if unevaluated \<noteq> [] \<and> failures = [] then ''GATE_FAIL'' else gate),
          gr_product_pass = False, gr_business_pass = False, gr_forced_requirement_status = ''NEEDS_REVIEW''\<rparr>)"

section \<open>The product's snapshot\<close>

text \<open>A report file is absent or unreadable, or an object; \<open>to_float\<close> is \<open>float\<close> on a JSON value.\<close>

definition report_metric :: "('j \<Rightarrow> metric result) \<Rightarrow> (string \<times> 'j) list option \<Rightarrow> string \<Rightarrow> (metric option \<times> string) result" where
  "report_metric to_float report name =
     (case report of
        None \<Rightarrow> Inr (None, ''NOT_EVALUATED'')
      | Some members \<Rightarrow>
          (case map_of members name of
             None \<Rightarrow> Inr (None, ''NOT_EVALUATED'')
           | Some j \<Rightarrow> bind_result (to_float j) (\<lambda>x. Inr (Some x, ''EVALUATED''))))"

definition engineering_gate_snapshot ::
  "('j \<Rightarrow> metric result) \<Rightarrow> (string \<times> 'j) list option \<Rightarrow> (string \<times> 'j) list option \<Rightarrow> (string \<times> 'j) list option \<Rightarrow> gate_report result" where
  "engineering_gate_snapshot to_float line_report teds_report key_report =
     bind_result (report_metric to_float line_report ''line_cer'') (\<lambda>(line_cer, line_status).
     bind_result (report_metric to_float teds_report ''teds'') (\<lambda>(teds, teds_status).
     bind_result (report_metric to_float key_report ''key_field_f1'') (\<lambda>(key_f1, key_status).
       Inr (aggregate_engineering_gates \<lparr>gi_line_cer = line_cer, gi_key_field_f1 = key_f1, gi_teds = teds,
         gi_line_cer_status = Some line_status, gi_key_field_f1_status = Some key_status, gi_teds_status = Some teds_status\<rparr>))))"

definition allow_machine_pass ::
  "('j \<Rightarrow> metric result) \<Rightarrow> (string \<times> 'j) list option \<Rightarrow> (string \<times> 'j) list option \<Rightarrow> (string \<times> 'j) list option \<Rightarrow> bool result" where
  "allow_machine_pass to_float line_report teds_report key_report =
     bind_result (engineering_gate_snapshot to_float line_report teds_report key_report) (\<lambda>g.
       Inr (gr_engineering_gate g = ''GATE_PASS'' \<and> gr_unevaluated g = [] \<and> gr_failures g = []))"

section \<open>Key fields\<close>

text \<open>A dictionary from document and field name to a value, in insertion order.\<close>

type_synonym fields_dict = "((ustr \<times> ustr) \<times> ustr) list"

fun dict_set :: "'k \<Rightarrow> 'v \<Rightarrow> ('k \<times> 'v) list \<Rightarrow> ('k \<times> 'v) list" where
  "dict_set k v [] = [(k, v)]"
| "dict_set k v ((k', v') # d) = (if k' = k then (k, v) # d else (k', v') # dict_set k v d)"

text \<open>A record with its document id and the entries of its field list, each a name and, if it is a string, a value.\<close>

record field_record =
  fr_doc_id :: ustr
  fr_fields :: "(ustr \<times> ustr option) list"

definition add_field :: "ustr set \<Rightarrow> ustr \<Rightarrow> fields_dict \<Rightarrow> ustr \<times> ustr option \<Rightarrow> fields_dict" where
  "add_field allowed doc d item =
     (case item of (name, value) \<Rightarrow>
        let n = strip name
        in if n \<notin> allowed then d
           else case value of
             None \<Rightarrow> d
           | Some v \<Rightarrow> if strip v = [] then d else dict_set (doc, n) v d)"

definition extract_gt_fields :: "ustr set \<Rightarrow> field_record list \<Rightarrow> fields_dict" where
  "extract_gt_fields allowed records = foldl (\<lambda>d row. foldl (add_field allowed (strip (fr_doc_id row))) d (fr_fields row)) [] records"

text \<open>A recognised record has its fields under one of two keys; what is there need not be a list.\<close>

record hyp_record =
  hr_doc_id :: ustr
  hr_fields_hyp :: "(ustr \<times> ustr option) list option option"
  hr_fields :: "(ustr \<times> ustr option) list option"

definition hyp_fields_of :: "hyp_record \<Rightarrow> (ustr \<times> ustr option) list" where
  "hyp_fields_of row =
     (case (case hr_fields_hyp row of Some v \<Rightarrow> v | None \<Rightarrow> hr_fields row) of Some items \<Rightarrow> items | None \<Rightarrow> [])"

definition extract_hyp_fields :: "ustr set \<Rightarrow> hyp_record list \<Rightarrow> fields_dict" where
  "extract_hyp_fields allowed records = foldl (\<lambda>d row. foldl (add_field allowed (strip (hr_doc_id row))) d (hyp_fields_of row)) [] records"

datatype outcome = TruePositive | FalseNegative | FalsePositive

record f1_score =
  fs_tp :: nat
  fs_fp :: nat
  fs_fn :: nat
  fs_precision :: rat
  fs_recall :: rat
  fs_f1 :: rat
  fs_details :: "((ustr \<times> ustr) \<times> outcome) list"

definition hit :: "(ustr \<Rightarrow> ustr) \<Rightarrow> fields_dict \<Rightarrow> (ustr \<times> ustr) \<times> ustr \<Rightarrow> bool" where
  "hit nrm hyp kv = (case map_of hyp (fst kv) of None \<Rightarrow> False | Some v \<Rightarrow> nrm v = nrm (snd kv))"

definition score_key_field_f1 :: "(ustr \<Rightarrow> ustr) \<Rightarrow> fields_dict \<Rightarrow> fields_dict \<Rightarrow> f1_score" where
  "score_key_field_f1 nrm gt hyp =
     (let matched = map fst (filter (hit nrm hyp) gt);
          tp = length matched;
          fp_keys = filter (\<lambda>k. k \<notin> set matched) (map fst hyp);
          fp = length fp_keys;
          fn = length gt - tp;
          precision = (if tp + fp = 0 then 0 else rat_of_nat tp / rat_of_nat (tp + fp));
          recall = (if tp + fn = 0 then 0 else rat_of_nat tp / rat_of_nat (tp + fn))
      in \<lparr>fs_tp = tp, fs_fp = fp, fs_fn = fn, fs_precision = precision, fs_recall = recall,
          fs_f1 = (if precision + recall = 0 then 0 else 2 * precision * recall / (precision + recall)),
          fs_details = map (\<lambda>kv. (fst kv, if hit nrm hyp kv then TruePositive else FalseNegative)) (sort_key fst gt)
            @ map (\<lambda>k. (k, FalsePositive)) (sort fp_keys)\<rparr>)"

definition evaluate_key_field_f1 :: "(ustr \<Rightarrow> ustr) \<Rightarrow> ustr set \<Rightarrow> field_record list \<Rightarrow> hyp_record list \<Rightarrow> f1_score \<times> string \<times> gate_report" where
  "evaluate_key_field_f1 nrm allowed gt_records hyp_records =
     (let gt = extract_gt_fields allowed gt_records; hyp = extract_hyp_fields allowed hyp_records;
          scored = score_key_field_f1 nrm gt hyp; f1 = fs_f1 scored
      in (scored, if gt \<noteq> [] \<and> f1 \<ge> KEY_FIELD_F1_MIN then ''GATE_PASS'' else ''GATE_FAIL'',
          aggregate_engineering_gates \<lparr>gi_line_cer = None, gi_key_field_f1 = (if gt \<noteq> [] then Some (Num f1) else None), gi_teds = None,
            gi_line_cer_status = None, gi_key_field_f1_status = Some (if gt \<noteq> [] then ''EVALUATED'' else ''INSUFFICIENT''),
            gi_teds_status = None\<rparr>))"

section \<open>Tables and lines\<close>

text \<open>A reference page with its optional table, and the recognised tables by document and page (the last of equal
  keys counts). \<open>events\<close> tokenises HTML.\<close>

record table_page =
  tp_key :: "string \<times> int"
  tp_table_html :: "ustr option"

definition has_teds_gt :: "(ustr \<Rightarrow> ustr) \<Rightarrow> table_page \<Rightarrow> bool" where
  "has_teds_gt lower row = (case tp_table_html row of Some h \<Rightarrow> contains (asc ''<table'') (lower h) | None \<Rightarrow> False)"

definition table_text :: "ustr option \<Rightarrow> ustr" where
  "table_text h = (case h of Some x \<Rightarrow> x | None \<Rightarrow> [])"

definition evaluate_teds ::
  "(ustr \<Rightarrow> ustr) \<Rightarrow> (ustr \<Rightarrow> event list) \<Rightarrow> (string \<Rightarrow> string) \<Rightarrow> table_page list \<Rightarrow> table_page list \<Rightarrow> rat \<times> string \<times> gate_report" where
  "evaluate_teds lower events norm_cell gt_records hyp_records =
     (let hyp_by_key = map_of (map (\<lambda>h. (tp_key h, h)) (rev hyp_records));
          scores = map (\<lambda>gt. teds norm_cell
              (events (case hyp_by_key (tp_key gt) of Some h \<Rightarrow> table_text (tp_table_html h) | None \<Rightarrow> []))
              (events (table_text (tp_table_html gt)))) (filter (has_teds_gt lower) gt_records);
          mean = (if scores = [] then 0 else sum_list scores / rat_of_nat (length scores))
      in (mean, if scores \<noteq> [] \<and> mean \<ge> TEDS_MIN then ''GATE_PASS'' else ''GATE_FAIL'',
          aggregate_engineering_gates \<lparr>gi_line_cer = None, gi_key_field_f1 = None, gi_teds = (if scores \<noteq> [] then Some (Num mean) else None),
            gi_line_cer_status = None, gi_key_field_f1_status = None,
            gi_teds_status = Some (if scores \<noteq> [] then ''EVALUATED'' else ''INSUFFICIENT'')\<rparr>))"

text \<open>A page of text. Of a recognised page the text is the first non-empty one of its two text fields, and the
  lines are there when its line field is a list.\<close>

record text_page =
  xp_key :: "string \<times> int"
  xp_text :: ustr
  xp_lines :: "ustr list option"

definition evaluate_line_cer ::
  "(ustr \<Rightarrow> ustr list) \<Rightarrow> (ustr \<Rightarrow> ustr) \<Rightarrow> text_page list \<Rightarrow> text_page list \<Rightarrow> rat \<times> rat \<times> string" where
  "evaluate_line_cer splitlines nrm gt_records hyp_records =
     (let hyp_by_key = map_of (map (\<lambda>h. (xp_key h, h)) (rev hyp_records));
          txt = (\<lambda>gt. case hyp_by_key (xp_key gt) of Some h \<Rightarrow> xp_text h | None \<Rightarrow> []);
          lines = (\<lambda>gt. case hyp_by_key (xp_key gt) of Some h \<Rightarrow> xp_lines h | None \<Rightarrow> None);
          pages = map (\<lambda>gt. page_edits nrm (xp_text gt) (txt gt)) gt_records;
          lns = map (\<lambda>gt. line_edits splitlines nrm (xp_text gt) (txt gt) (lines gt)) gt_records;
          ratio = (\<lambda>ps. let d = sum_list (map snd ps) in if d = 0 then 1 else rat_of_nat (sum_list (map fst ps)) / rat_of_nat d);
          observed = ratio lns
      in (ratio pages, observed, if observed \<le> LINE_CER_MAX then ''GATE_PASS'' else ''GATE_FAIL''))"

section \<open>Facts\<close>

lemma aggregate_pass:
  "gr_engineering_gate (aggregate_engineering_gates g) = ''GATE_PASS''
     \<longleftrightarrow> gr_failures (aggregate_engineering_gates g) = [] \<and> gr_unevaluated (aggregate_engineering_gates g) = []"
  by (simp add: aggregate_engineering_gates_def Let_def)

lemma dict_set_keys: "set (map fst (dict_set k v d)) = insert k (set (map fst d))"
proof (induction d)
  case (Cons p d)
  then show ?case by (cases p) (simp add: insert_commute)
qed simp

lemma dict_set_distinct: "distinct (map fst d) \<Longrightarrow> distinct (map fst (dict_set k v d))"
proof (induction d)
  case (Cons p d)
  then show ?case using dict_set_keys [of k v d] by (cases p) auto
qed simp

lemma add_field_distinct: "distinct (map fst d) \<Longrightarrow> distinct (map fst (add_field allowed doc d item))"
  by (auto simp: add_field_def Let_def dict_set_distinct split: prod.splits option.splits)

lemma items_distinct: "distinct (map fst d) \<Longrightarrow> distinct (map fst (foldl (add_field allowed doc) d items))"
  by (induction items arbitrary: d) (simp_all add: add_field_distinct)

lemma records_distinct:
  "distinct (map fst d) \<Longrightarrow> distinct (map fst (foldl (\<lambda>d row. foldl (add_field allowed (doc row)) d (items row)) d rs))"
  by (induction rs arbitrary: d) (simp_all add: items_distinct)

lemma extracted_distinct:
  "distinct (map fst (extract_gt_fields allowed records))" "distinct (map fst (extract_hyp_fields allowed hyps))"
  by (simp_all add: extract_gt_fields_def extract_hyp_fields_def records_distinct)

lemma filter_all_length: "length (filter P xs) = length xs \<longleftrightarrow> list_all P xs"
proof (induction xs)
  case (Cons x xs)
  have "length (filter P xs) \<noteq> Suc (length xs)" by (metis Suc_n_not_le_n length_filter_le)
  with Cons show ?case by auto
qed simp

text \<open>The counts of a score, for dictionaries with distinct keys.\<close>

lemma hits_counted:
  fixes nrm :: "ustr \<Rightarrow> ustr"
  assumes "distinct (map fst gt)" and "distinct (map fst hyp)"
  defines "matched \<equiv> map fst (filter (hit nrm hyp) gt)"
  shows "length matched \<le> length gt" and "length (filter (\<lambda>k. k \<notin> set matched) (map fst hyp)) + length matched = length hyp"
proof -
  show "length matched \<le> length gt" by (simp add: matched_def)
  have "fst kv \<in> fst ` set hyp" if "hit nrm hyp kv" for kv
    using that by (auto simp: hit_def map_of_eq_None_iff split: option.splits) (metis map_of_eq_None_iff option.distinct(1))
  then have sub: "set matched \<subseteq> set (map fst hyp)" by (auto simp: matched_def)
  have dist: "distinct matched" using assms(1) by (simp add: matched_def distinct_map_filter)
  have "set (filter (\<lambda>k. k \<in> set matched) (map fst hyp)) = set matched" using sub by auto
  then have "length (filter (\<lambda>k. k \<in> set matched) (map fst hyp)) = length matched"
    using dist assms(2) by (metis distinct_card distinct_filter)
  then show "length (filter (\<lambda>k. k \<notin> set matched) (map fst hyp)) + length matched = length hyp"
    using sum_length_filter_compl [of "\<lambda>k. k \<in> set matched" "map fst hyp"] by simp
qed

lemma f1_formula:
  fixes t :: nat
  assumes "t \<le> g" and "t \<le> h"
  defines "p \<equiv> if h = 0 then 0 else rat_of_nat t / rat_of_nat h" and "r \<equiv> if g = 0 then 0 else rat_of_nat t / rat_of_nat g"
  shows "(if p + r = 0 then 0 else 2 * p * r / (p + r)) = (if t = 0 then 0 else 2 * rat_of_nat t / (rat_of_nat g + rat_of_nat h))"
proof (cases "t = 0")
  case True
  then show ?thesis by (simp add: p_def r_def)
next
  case False
  with assms(1,2) have gh: "g \<noteq> 0" "h \<noteq> 0" by auto
  have "p + r = rat_of_nat t * (rat_of_nat g + rat_of_nat h) / (rat_of_nat g * rat_of_nat h)"
    using gh by (simp add: p_def r_def field_simps)
  moreover have "2 * p * r = 2 * rat_of_nat t * rat_of_nat t / (rat_of_nat g * rat_of_nat h)"
    using gh by (simp add: p_def r_def)
  moreover have "rat_of_nat g + rat_of_nat h \<noteq> 0" using gh by (simp flip: of_nat_add)
  ultimately show ?thesis using False gh by simp
qed

lemma score_exact:
  assumes "distinct (map fst gt)" and "distinct (map fst hyp)"
  shows "fs_tp (score_key_field_f1 nrm gt hyp) + fs_fn (score_key_field_f1 nrm gt hyp) = length gt
    \<and> fs_tp (score_key_field_f1 nrm gt hyp) + fs_fp (score_key_field_f1 nrm gt hyp) = length hyp
    \<and> fs_f1 (score_key_field_f1 nrm gt hyp) = (if fs_tp (score_key_field_f1 nrm gt hyp) = 0 then 0
        else 2 * rat_of_nat (fs_tp (score_key_field_f1 nrm gt hyp)) / (rat_of_nat (length gt) + rat_of_nat (length hyp)))
    \<and> 0 \<le> fs_f1 (score_key_field_f1 nrm gt hyp) \<and> fs_f1 (score_key_field_f1 nrm gt hyp) \<le> 1
    \<and> (fs_f1 (score_key_field_f1 nrm gt hyp) = 1 \<longleftrightarrow> gt \<noteq> [] \<and> length hyp = length gt \<and> list_all (hit nrm hyp) gt)"
proof -
  define t where "t = length (map fst (filter (hit nrm hyp) gt))"
  define s where "s = score_key_field_f1 nrm gt hyp"
  note counted = hits_counted [OF assms, of nrm, folded t_def]
  then have th: "t \<le> length gt" "t \<le> length hyp" by simp_all
  have tp: "fs_tp s = t" by (simp add: s_def score_key_field_f1_def Let_def t_def)
  have fn: "fs_fn s = length gt - t" by (simp add: s_def score_key_field_f1_def Let_def t_def)
  have fp: "t + fs_fp s = length hyp" using counted(2) by (simp add: s_def score_key_field_f1_def Let_def)
  have f1: "fs_f1 s = (if t = 0 then 0 else 2 * rat_of_nat t / (rat_of_nat (length gt) + rat_of_nat (length hyp)))"
  proof -
    let ?p = "if length hyp = 0 then 0 else rat_of_nat t / rat_of_nat (length hyp)"
    let ?r = "if length gt = 0 then 0 else rat_of_nat t / rat_of_nat (length gt)"
    have "fs_f1 s = (if ?p + ?r = 0 then 0 else 2 * ?p * ?r / (?p + ?r))"
    proof -
      have "fs_f1 s = (let p = fs_precision s; r = fs_recall s in if p + r = 0 then 0 else 2 * p * r / (p + r))"
        by (simp add: s_def score_key_field_f1_def Let_def)
      moreover have "fs_precision s = (if fs_tp s + fs_fp s = 0 then 0 else rat_of_nat (fs_tp s) / rat_of_nat (fs_tp s + fs_fp s))"
        "fs_recall s = (if fs_tp s + fs_fn s = 0 then 0 else rat_of_nat (fs_tp s) / rat_of_nat (fs_tp s + fs_fn s))"
        by (simp_all add: s_def score_key_field_f1_def Let_def)
      moreover have "fs_tp s + fs_fp s = length hyp" "fs_tp s + fs_fn s = length gt" using tp fp fn th by simp_all
      ultimately show ?thesis by (simp only: tp Let_def)
    qed
    also have "\<dots> = (if t = 0 then 0 else 2 * rat_of_nat t / (rat_of_nat (length gt) + rat_of_nat (length hyp)))"
      by (rule f1_formula [OF th])
    finally show ?thesis .
  qed
  have le: "2 * rat_of_nat t \<le> rat_of_nat (length gt) + rat_of_nat (length hyp)"
    using th by simp
  have all: "t = length gt \<longleftrightarrow> list_all (hit nrm hyp) gt"
    by (simp add: t_def filter_all_length)
  have one: "fs_f1 s = 1 \<longleftrightarrow> gt \<noteq> [] \<and> length hyp = length gt \<and> list_all (hit nrm hyp) gt"
  proof (cases "t = 0")
    case True
    then show ?thesis using f1 all by auto
  next
    case False
    then have pos: "rat_of_nat (length gt) + rat_of_nat (length hyp) > 0" using th by (simp add: add_pos_pos)
    have "fs_f1 s = 1 \<longleftrightarrow> 2 * rat_of_nat t = rat_of_nat (length gt) + rat_of_nat (length hyp)" using False f1 pos by (auto simp: divide_eq_1_iff)
    also have "\<dots> \<longleftrightarrow> 2 * t = length gt + length hyp"
      using of_nat_eq_iff [of "2 * t" "length gt + length hyp", where 'a = rat] by (simp only: of_nat_add of_nat_mult of_nat_numeral)
    also have "\<dots> \<longleftrightarrow> t = length gt \<and> length hyp = length gt" using th by auto
    finally show ?thesis using all False by auto
  qed
  have "0 \<le> fs_f1 s \<and> fs_f1 s \<le> 1" using f1 le by (auto simp: divide_le_eq_1)
  with tp fn fp f1 one th show ?thesis unfolding s_def [symmetric] by simp
qed

section \<open>Properties\<close>


text \<open>Two gaps in the gate. A metric that is not a number fails no comparison, so reports that hold NaN allow a
  machine pass; and in the aggregation a missing metric with a status that is none of the three known ones counts
  neither as failed nor as unevaluated, so the gate passes.\<close>

lemma nan_and_unknown_status_pass:
  "allow_machine_pass (\<lambda>_. Inr NaN) (Some [(''line_cer'', j)]) (Some [(''teds'', j)]) (Some [(''key_field_f1'', j)]) = Inr True
   \<and> gr_engineering_gate (aggregate_engineering_gates \<lparr>gi_line_cer = None, gi_key_field_f1 = None, gi_teds = None,
       gi_line_cer_status = Some ''ERROR'', gi_key_field_f1_status = Some ''ERROR'', gi_teds_status = Some ''ERROR''\<rparr>) = ''GATE_PASS''"
  by (simp add: allow_machine_pass_def engineering_gate_snapshot_def report_metric_def aggregate_engineering_gates_def not_evaluated_def)

text \<open>The key-field score is the textbook one: with the dictionaries that extraction builds, true positives and
  false negatives add up to the reference fields, true and false positives to the recognised fields, and the score
  is twice the true positives over the sum of both sizes. It is between zero and one, and it is one exactly when
  there are reference fields and both dictionaries have the same keys with the same normalised values.\<close>

lemma key_field_f1_exact:
  "let gt = extract_gt_fields allowed gt_records; hyp = extract_hyp_fields allowed hyp_records;
       s = fst (evaluate_key_field_f1 nrm allowed gt_records hyp_records)
   in fs_tp s + fs_fn s = length gt \<and> fs_tp s + fs_fp s = length hyp
    \<and> fs_f1 s = (if fs_tp s = 0 then 0 else 2 * rat_of_nat (fs_tp s) / (rat_of_nat (length gt) + rat_of_nat (length hyp)))
    \<and> 0 \<le> fs_f1 s \<and> fs_f1 s \<le> 1
    \<and> (fs_f1 s = 1 \<longleftrightarrow> gt \<noteq> [] \<and> length hyp = length gt \<and> list_all (hit nrm hyp) gt)"
proof -
  define gt where "gt = extract_gt_fields allowed gt_records"
  define hyp where "hyp = extract_hyp_fields allowed hyp_records"
  have s: "fst (evaluate_key_field_f1 nrm allowed gt_records hyp_records) = score_key_field_f1 nrm gt hyp"
    by (simp add: evaluate_key_field_f1_def Let_def gt_def hyp_def)
  show ?thesis
    unfolding Let_def s gt_def [symmetric] hyp_def [symmetric]
    by (rule score_exact) (simp_all add: gt_def hyp_def extracted_distinct)
qed

end
