(* ===== verification/Federation.thy ===== *)
theory Federation
  imports Sign_In Complex_Main
begin

text \<open>
  External identities: OpenID Connect (\<open>src/app/oidc.py\<close>), the customer's directory (\<open>src/app/directory.py\<close>) and the
  public providers (\<open>src/app/services/social_auth_service.py\<close>). HTTP, the JWT library, the directory server, URL splitting
  and digests are parameters. Text from outside is a list of code points; \<open>encode\<close> is its stored form. The errors
  \<open>OIDCError\<close> and \<open>DirectoryError\<close> are runtime errors.
\<close>

section \<open>Endpoints and settings\<close>

record url_parts =
  up_scheme :: string
  up_hostname :: ustr
  up_username :: ustr
  up_password :: ustr
  up_path :: ustr
  up_query :: ustr
  up_fragment :: ustr

text \<open>Missing parts are empty. \<open>urlsplit\<close> has no value where it raises \<open>ValueError\<close>.\<close>

record oidc_env =
  ox_urlsplit :: "ustr \<Rightarrow> url_parts option"
  ox_get :: "ustr \<Rightarrow> nat list option"
  ox_post :: "ustr \<Rightarrow> (ustr \<times> ustr) list \<Rightarrow> nat list option"
  ox_loads :: "nat list \<Rightarrow> json option"
  ox_repr :: "json \<Rightarrow> ustr"
  ox_header :: "ustr \<Rightarrow> json option"
  ox_decode :: "ustr \<Rightarrow> json \<Rightarrow> ustr \<Rightarrow> ustr \<Rightarrow> ustr \<Rightarrow> json option"
  ox_sha256 :: "ustr \<Rightarrow> nat list"
  ox_now :: rat

record oidc_settings =
  od_issuer :: ustr
  od_client_id :: ustr
  od_client_secret :: ustr
  od_scopes :: ustr
  od_username_claim :: ustr
  od_default_role :: string

definition refuse :: "bool \<Rightarrow> unit result" where
  "refuse b = (if b then Inl RuntimeError else Inr ())"

definition get_key :: "string \<Rightarrow> json \<Rightarrow> json option" where
  "get_key k j = (case j of JObj kvs \<Rightarrow> map_of kvs k | _ \<Rightarrow> None)"

definition https_endpoint :: "oidc_env \<Rightarrow> json option \<Rightarrow> ustr result" where
  "https_endpoint ox value =
     (case value of
        Some (JStr s) \<Rightarrow>
          (case ox_urlsplit ox s of
             None \<Rightarrow> Inl ValueError
           | Some u \<Rightarrow>
               if up_scheme u \<noteq> ''https'' \<or> up_hostname u = [] \<or> up_username u \<noteq> [] \<or> up_password u \<noteq> [] \<or> up_fragment u \<noteq> []
               then Inl RuntimeError else Inr s)
      | _ \<Rightarrow> Inl RuntimeError)"

definition validate_settings :: "oidc_env \<Rightarrow> oidc_settings \<Rightarrow> unit result" where
  "validate_settings ox st =
     bind_result (https_endpoint ox (Some (JStr (od_issuer st)))) (\<lambda>s.
       refuse ((case ox_urlsplit ox s of None \<Rightarrow> True | Some u \<Rightarrow> up_query u \<noteq> []) \<or> od_client_id st = []
         \<or> od_default_role st \<notin> {''REVIEWER'', ''VIEWER''}))"

section \<open>Exchange\<close>

definition MAX_PROVIDER_RESPONSE_BYTES :: nat where
  "MAX_PROVIDER_RESPONSE_BYTES = 1024 * 1024"

text \<open>One byte more than the limit is read; an answer that long is refused.\<close>

definition fetch_json :: "oidc_env \<Rightarrow> nat list option \<Rightarrow> json result" where
  "fetch_json ox answer =
     (case answer of
        None \<Rightarrow> Inl RuntimeError
      | Some content \<Rightarrow>
          let raw = take (MAX_PROVIDER_RESPONSE_BYTES + 1) content
          in if length raw > MAX_PROVIDER_RESPONSE_BYTES then Inl RuntimeError
             else case ox_loads ox raw of Some (JObj kvs) \<Rightarrow> Inr (JObj kvs) | _ \<Rightarrow> Inl RuntimeError)"

definition read_json :: "oidc_env \<Rightarrow> ustr \<Rightarrow> json result" where
  "read_json ox url = bind_result (https_endpoint ox (Some (JStr url))) (\<lambda>u. fetch_json ox (ox_get ox u))"

definition post_form :: "oidc_env \<Rightarrow> ustr \<Rightarrow> (ustr \<times> ustr) list \<Rightarrow> json result" where
  "post_form ox url form = bind_result (https_endpoint ox (Some (JStr url))) (\<lambda>u. fetch_json ox (ox_post ox u form))"

definition rstrip_char :: "'a \<Rightarrow> 'a list \<Rightarrow> 'a list" where
  "rstrip_char c s = rev (dropWhile (\<lambda>x. x = c) (rev s))"

definition discovery_url :: "ustr \<Rightarrow> ustr" where
  "discovery_url issuer = rstrip_char 47 issuer @ asc ''/.well-known/openid-configuration''"

definition fetch_discovery :: "oidc_env \<Rightarrow> oidc_settings \<Rightarrow> json result" where
  "fetch_discovery ox st =
     bind_result (validate_settings ox st) (\<lambda>_.
     bind_result (read_json ox (discovery_url (od_issuer st))) (\<lambda>doc.
     bind_result (refuse (get_key ''issuer'' doc \<noteq> Some (JStr (od_issuer st)))) (\<lambda>_.
     bind_result (https_endpoint ox (get_key ''authorization_endpoint'' doc)) (\<lambda>_.
     bind_result (https_endpoint ox (get_key ''token_endpoint'' doc)) (\<lambda>_.
     bind_result (https_endpoint ox (get_key ''jwks_uri'' doc)) (\<lambda>_. Inr doc))))))"

definition code_challenge :: "oidc_env \<Rightarrow> ustr \<Rightarrow> string" where
  "code_challenge ox verifier = rstrip_char CHR ''='' (urlsafe_b64encode (ox_sha256 ox verifier))"

text \<open>The address to which the browser is sent: the endpoint and the parameters of the query.\<close>

definition authorization_url ::
  "oidc_env \<Rightarrow> oidc_settings \<Rightarrow> json \<Rightarrow> ustr \<Rightarrow> ustr \<Rightarrow> ustr \<Rightarrow> ustr \<Rightarrow> (ustr \<times> (string \<times> ustr) list) result" where
  "authorization_url ox st doc redirect_uri state nonce verifier =
     bind_result (https_endpoint ox (get_key ''authorization_endpoint'' doc)) (\<lambda>endpoint.
       Inr (endpoint, [(''response_type'', asc ''code''), (''client_id'', od_client_id st), (''redirect_uri'', redirect_uri),
         (''scope'', od_scopes st), (''state'', state), (''nonce'', nonce),
         (''code_challenge'', asc (code_challenge ox verifier)), (''code_challenge_method'', asc ''S256'')]))"

definition code_request ::
  "oidc_env \<Rightarrow> oidc_settings \<Rightarrow> json \<Rightarrow> ustr \<Rightarrow> ustr \<Rightarrow> ustr \<Rightarrow> (ustr \<times> (ustr \<times> ustr) list) result" where
  "code_request ox st doc code redirect_uri verifier =
     bind_result (https_endpoint ox (get_key ''token_endpoint'' doc)) (\<lambda>endpoint.
       Inr (endpoint, [(asc ''grant_type'', asc ''authorization_code''), (asc ''code'', code), (asc ''redirect_uri'', redirect_uri),
           (asc ''client_id'', od_client_id st), (asc ''code_verifier'', verifier)]
         @ (if od_client_secret st \<noteq> [] then [(asc ''client_secret'', od_client_secret st)] else [])))"

definition redeem_code :: "oidc_env \<Rightarrow> oidc_settings \<Rightarrow> json \<Rightarrow> ustr \<Rightarrow> ustr \<Rightarrow> ustr \<Rightarrow> json result" where
  "redeem_code ox st doc code redirect_uri verifier =
     bind_result (code_request ox st doc code redirect_uri verifier) (\<lambda>(endpoint, form). post_form ox endpoint form)"

section \<open>Identity tokens\<close>

definition CLOCK_SKEW_SECONDS :: rat where
  "CLOCK_SKEW_SECONDS = 120"

definition ALLOWED_SIGNING_ALGORITHMS :: "ustr list" where
  "ALLOWED_SIGNING_ALGORITHMS = [asc ''RS256'', asc ''ES256'']"

text \<open>\<open>isinstance(value, (int, float))\<close>; numbers with a fraction have no value in \<open>json\<close>.\<close>

definition number_of :: "json option \<Rightarrow> rat option" where
  "number_of j = (case j of Some (JInt n) \<Rightarrow> Some (of_int n) | Some (JBool b) \<Rightarrow> Some (if b then 1 else 0) | _ \<Rightarrow> None)"

definition str_of_json :: "oidc_env \<Rightarrow> json \<Rightarrow> ustr" where
  "str_of_json ox j = (case j of JStr s \<Rightarrow> s | _ \<Rightarrow> ox_repr ox j)"

definition audiences_of :: "json \<Rightarrow> json list" where
  "audiences_of claims = (case get_key ''aud'' claims of Some (JList xs) \<Rightarrow> xs | Some j \<Rightarrow> [j] | None \<Rightarrow> [JNull])"

definition validate_claims :: "oidc_env \<Rightarrow> oidc_settings \<Rightarrow> ustr \<Rightarrow> json \<Rightarrow> json result" where
  "validate_claims ox st nonce claims =
     bind_result (refuse (get_key ''iss'' claims \<noteq> Some (JStr (od_issuer st)))) (\<lambda>_.
     let audiences = audiences_of claims; azp = get_key ''azp'' claims
     in bind_result (refuse (od_client_id st \<notin> set (map (str_of_json ox) (filter (\<lambda>j. j \<noteq> JNull) audiences)))) (\<lambda>_.
        bind_result (refuse ((length audiences > 1 \<or> azp \<noteq> None) \<and> azp \<noteq> Some (JStr (od_client_id st)))) (\<lambda>_.
        bind_result (refuse (case number_of (get_key ''exp'' claims) of None \<Rightarrow> True | Some e \<Rightarrow> ox_now ox > e + CLOCK_SKEW_SECONDS)) (\<lambda>_.
        bind_result (refuse (case number_of (get_key ''iat'' claims) of None \<Rightarrow> False | Some i \<Rightarrow> i - CLOCK_SKEW_SECONDS > ox_now ox)) (\<lambda>_.
        bind_result (refuse (case get_key ''sub'' claims of Some (JStr s) \<Rightarrow> s = [] \<or> length s > 255 | _ \<Rightarrow> True)) (\<lambda>_.
        bind_result (case get_key ''nonce'' claims of Some (JStr s) \<Rightarrow> compare_digest s nonce | _ \<Rightarrow> Inr False) (\<lambda>same.
        bind_result (refuse (\<not> same)) (\<lambda>_. Inr claims))))))))"

text \<open>\<open>"verify" in key["key_ops"]\<close>; a value that is no container raises, which ends in the same error.\<close>

definition allows_verify :: "json \<Rightarrow> bool" where
  "allows_verify key =
     (case get_key ''key_ops'' key of
        None \<Rightarrow> True
      | Some (JList xs) \<Rightarrow> JStr (asc ''verify'') \<in> set xs
      | Some (JStr s) \<Rightarrow> contains (asc ''verify'') s
      | Some (JObj kvs) \<Rightarrow> ''verify'' \<in> fst ` set kvs
      | Some _ \<Rightarrow> False)"

definition is_object :: "json \<Rightarrow> bool" where
  "is_object j = (case j of JObj _ \<Rightarrow> True | _ \<Rightarrow> False)"

definition keys_of :: "json \<Rightarrow> json list result" where
  "keys_of jwks = (case get_key ''keys'' jwks of Some (JList xs) \<Rightarrow> if length xs > 100 then Inl RuntimeError else Inr xs | _ \<Rightarrow> Inl RuntimeError)"

text \<open>The algorithm and the key name that the header of a token claims.\<close>

definition header_of :: "oidc_env \<Rightarrow> ustr \<Rightarrow> (ustr \<times> ustr) result" where
  "header_of ox tok =
     (case ox_header ox tok of
        None \<Rightarrow> Inl RuntimeError
      | Some h \<Rightarrow>
          (case (get_key ''alg'' h, get_key ''kid'' h) of
             (Some (JStr alg), Some (JStr kid)) \<Rightarrow>
               if alg \<notin> set ALLOWED_SIGNING_ALGORITHMS \<or> kid = [] \<or> length kid > 200 then Inl RuntimeError else Inr (alg, kid)
           | _ \<Rightarrow> Inl RuntimeError))"

definition signing_key :: "json list \<Rightarrow> ustr \<Rightarrow> ustr \<Rightarrow> json result" where
  "signing_key keys alg kid =
     (case filter (\<lambda>k. is_object k \<and> get_key ''kid'' k = Some (JStr kid)) keys of
        [key] \<Rightarrow>
          if get_key ''use'' key \<notin> {None, Some (JStr (asc ''sig''))} \<or> get_key ''alg'' key \<notin> {None, Some (JStr alg)} \<or> \<not> allows_verify key
          then Inl RuntimeError else Inr key
      | _ \<Rightarrow> Inl RuntimeError)"

text \<open>Whatever is raised inside the \<open>try\<close> ends as \<open>OIDCError\<close>.\<close>

definition as_oidc_error :: "'a result \<Rightarrow> 'a result" where
  "as_oidc_error r = (case r of Inl _ \<Rightarrow> Inl RuntimeError | Inr x \<Rightarrow> Inr x)"

definition decode_token :: "oidc_env \<Rightarrow> oidc_settings \<Rightarrow> json \<Rightarrow> ustr \<Rightarrow> json result" where
  "decode_token ox st doc tok =
     bind_result (refuse (length tok > 64 * 1024)) (\<lambda>_.
     bind_result (header_of ox tok) (\<lambda>(alg, kid).
     bind_result (https_endpoint ox (get_key ''jwks_uri'' doc)) (\<lambda>uri.
     bind_result (read_json ox uri) (\<lambda>jwks.
     bind_result (keys_of jwks) (\<lambda>keys.
     bind_result (signing_key keys alg kid) (\<lambda>key.
       case ox_decode ox tok key alg (od_issuer st) (od_client_id st) of None \<Rightarrow> Inl RuntimeError | Some claims \<Rightarrow> Inr claims))))))"

definition verify_id_token :: "oidc_env \<Rightarrow> oidc_settings \<Rightarrow> json \<Rightarrow> ustr \<Rightarrow> ustr \<Rightarrow> json result" where
  "verify_id_token ox st doc nonce tok =
     bind_result (validate_settings ox st) (\<lambda>_.
     bind_result (refuse (get_key ''issuer'' doc \<noteq> Some (JStr (od_issuer st)))) (\<lambda>_.
     bind_result (as_oidc_error (decode_token ox st doc tok)) (\<lambda>claims. validate_claims ox st nonce claims)))"

text \<open>\<open>str(claims.get(key, "")).strip()\<close> of the first key that has text.\<close>

definition claim_text :: "oidc_env \<Rightarrow> json \<Rightarrow> ustr \<Rightarrow> (ustr \<Rightarrow> string) \<Rightarrow> ustr" where
  "claim_text ox claims key name = (case get_key (name key) claims of None \<Rightarrow> [] | Some j \<Rightarrow> strip (str_of_json ox j))"

definition username_from_claims :: "oidc_env \<Rightarrow> (ustr \<Rightarrow> string) \<Rightarrow> oidc_settings \<Rightarrow> json \<Rightarrow> ustr result" where
  "username_from_claims ox encode st claims =
     (case filter (\<lambda>v. v \<noteq> []) (map (\<lambda>key. claim_text ox claims key encode)
             [od_username_claim st, asc ''preferred_username'', asc ''email'', asc ''sub'']) of
        v # _ \<Rightarrow> Inr v | [] \<Rightarrow> Inl RuntimeError)"

section \<open>Sign-in with OpenID Connect\<close>

text \<open>\<open>str(payload.get("id_token") or "")\<close>.\<close>

definition id_token_of :: "oidc_env \<Rightarrow> json \<Rightarrow> ustr" where
  "id_token_of ox payload =
     (case get_key ''id_token'' payload of
        None \<Rightarrow> [] | Some j \<Rightarrow> if j \<in> {JNull, JBool False, JInt 0, JList [], JObj []} then [] else str_of_json ox j)"

definition oidc_claims :: "oidc_env \<Rightarrow> oidc_settings \<Rightarrow> ustr \<Rightarrow> ustr \<Rightarrow> ustr \<Rightarrow> ustr \<Rightarrow> json result" where
  "oidc_claims ox st code redirect_uri verifier nonce =
     bind_result (fetch_discovery ox st) (\<lambda>doc.
     bind_result (redeem_code ox st doc code redirect_uri verifier) (\<lambda>payload.
     verify_id_token ox st doc nonce (id_token_of ox payload)))"

definition subject_of :: "oidc_env \<Rightarrow> json \<Rightarrow> ustr" where
  "subject_of ox claims = (case get_key ''sub'' claims of None \<Rightarrow> [] | Some j \<Rightarrow> str_of_json ox j)"

text \<open>What \<open>complete_oidc\<close> of \<open>Auth_Service\<close> asks of the provider: the user name and the subject of a verified token.\<close>

definition oidc_provider :: "oidc_env \<Rightarrow> (ustr \<Rightarrow> string) \<Rightarrow> oidc_settings \<Rightarrow> string \<Rightarrow> login_flow \<Rightarrow> (string \<times> string) result" where
  "oidc_provider ox encode st code f =
     bind_result (oidc_claims ox st (asc code) (asc (lf_redirect_uri f)) (asc (lf_code_verifier f)) (asc (lf_nonce f))) (\<lambda>claims.
     bind_result (username_from_claims ox encode st claims) (\<lambda>username.
     Inr (encode username, encode (subject_of ox claims))))"

section \<open>Directory\<close>

record directory_settings =
  ds_server_uri :: ustr
  ds_user_dn_template :: ustr
  ds_base_dn :: ustr
  ds_role_attribute :: ustr
  ds_default_role :: string
  ds_use_tls :: bool

definition directory_enabled :: "directory_settings \<Rightarrow> bool" where
  "directory_enabled ds \<longleftrightarrow> ds_server_uri ds \<noteq> [] \<and> ds_user_dn_template ds \<noteq> []"

definition PLACEHOLDER :: ustr where
  "PLACEHOLDER = asc ''{username}''"

text \<open>\<open>str.count\<close> of the placeholder, which does not overlap itself.\<close>

fun count_placeholders :: "ustr \<Rightarrow> nat" where
  "count_placeholders [] = 0"
| "count_placeholders (c # s) = (if prefix PLACEHOLDER (c # s) then 1 else 0) + count_placeholders s"

definition validate_directory :: "(ustr \<Rightarrow> url_parts option) \<Rightarrow> directory_settings \<Rightarrow> unit result" where
  "validate_directory urlsplit ds =
     (case urlsplit (ds_server_uri ds) of
        None \<Rightarrow> Inl ValueError
      | Some u \<Rightarrow>
          bind_result (refuse (\<not> directory_enabled ds \<or> \<not> ds_use_tls ds \<or> up_scheme u \<noteq> ''ldaps'' \<or> up_hostname u = []
              \<or> up_username u \<noteq> [] \<or> up_password u \<noteq> [] \<or> up_query u \<noteq> [] \<or> up_fragment u \<noteq> []
              \<or> ds_default_role ds \<notin> {''REVIEWER'', ''VIEWER''})) (\<lambda>_.
            refuse (count_placeholders (ds_user_dn_template ds) \<noteq> 1)))"

definition replace_char :: "nat \<Rightarrow> ustr \<Rightarrow> ustr \<Rightarrow> ustr" where
  "replace_char c w s = concat (map (\<lambda>x. if x = c then w else [x]) s)"

definition ldap_filter_escape :: "ustr \<Rightarrow> ustr" where
  "ldap_filter_escape s =
     replace_char 0 [92, 48, 48] (replace_char 41 [92, 50, 57] (replace_char 40 [92, 50, 56]
       (replace_char 42 [92, 50, 97] (replace_char 92 [92, 53, 99] s))))"

text \<open>The characters that a user name must not contain.\<close>

definition DN_SPECIALS :: "nat list" where
  "DN_SPECIALS = [44, 61, 43, 60, 62, 35, 59, 92, 34, 42, 40, 41, 0]"

text \<open>\<open>str.format\<close> of a template with the field \<open>username\<close>: doubled braces stand for one, and every other use of a brace has no
  value here (Python raises, or formats a field that the settings do not mention).\<close>

function format_username :: "ustr \<Rightarrow> ustr \<Rightarrow> ustr option" where
  "format_username name [] = Some []"
| "format_username name (c # s) =
     (if prefix PLACEHOLDER (c # s) then map_option (append name) (format_username name (drop (length PLACEHOLDER - 1) s))
      else if c = 123 \<or> c = 125 then
        (case s of
           d # t \<Rightarrow> if d = c then map_option (Cons c) (format_username name t) else None
         | [] \<Rightarrow> None)
      else map_option (Cons c) (format_username name s))"
  by pat_completeness auto

termination
  by (relation "measure (\<lambda>(_, s). length s)") auto

definition bind_dn_for :: "directory_settings \<Rightarrow> ustr \<Rightarrow> ustr result" where
  "bind_dn_for ds username =
     (let cleaned = strip username
      in if cleaned = [] \<or> list_ex (\<lambda>c. c \<in> set cleaned) DN_SPECIALS then Inl RuntimeError
         else case format_username cleaned (ds_user_dn_template ds) of None \<Rightarrow> Inl ValueError | Some dn \<Rightarrow> Inr dn)"

text \<open>The server: a bind with a name and a password, and a search below a base for an attribute of the first entry.\<close>

record directory_server =
  dv_bind :: "ustr \<Rightarrow> ustr \<Rightarrow> bool"
  dv_search :: "ustr \<Rightarrow> ustr \<Rightarrow> ustr \<Rightarrow> ustr option"

text \<open>The attributes on success: the bound name, and the role attribute if it was asked for and found.\<close>

definition ldap3_connector :: "directory_server \<Rightarrow> directory_settings \<Rightarrow> ustr \<Rightarrow> ustr \<Rightarrow> (ustr \<times> ustr option) option" where
  "ldap3_connector dv ds dn password =
     (if \<not> dv_bind dv dn password then None
      else Some (dn, if ds_role_attribute ds \<noteq> [] \<and> ds_base_dn ds \<noteq> []
                     then dv_search dv (ds_base_dn ds) (asc ''(distinguishedName='' @ ldap_filter_escape dn @ asc '')'') (ds_role_attribute ds)
                     else None))"

definition authenticate ::
  "(ustr \<Rightarrow> url_parts option) \<Rightarrow> directory_server \<Rightarrow> directory_settings \<Rightarrow> ustr \<Rightarrow> ustr \<Rightarrow> (ustr \<times> ustr option) option result" where
  "authenticate urlsplit dv ds username password =
     bind_result (refuse (\<not> directory_enabled ds)) (\<lambda>_.
     bind_result (validate_directory urlsplit ds) (\<lambda>_.
       if password = [] then Inr None
       else bind_result (bind_dn_for ds username) (\<lambda>dn. Inr (ldap3_connector dv ds dn password))))"

definition ROLES :: "string list" where
  "ROLES = [''OWNER'', ''ADMIN'', ''REVIEWER'', ''VIEWER'']"

text \<open>\<open>upper\<close> is \<open>str.upper\<close>, as a stored role.\<close>

definition role_from_attributes :: "(ustr \<Rightarrow> string) \<Rightarrow> directory_settings \<Rightarrow> ustr option \<Rightarrow> string" where
  "role_from_attributes upper ds value =
     (let fallback = (if ds_default_role ds \<in> set ROLES then ds_default_role ds else ''REVIEWER'')
      in if ds_role_attribute ds \<noteq> [] then
           let claimed = upper (strip (case value of None \<Rightarrow> [] | Some v \<Rightarrow> v))
           in if claimed \<in> set ROLES then claimed else fallback
         else fallback)"

text \<open>What \<open>directory_login\<close> of \<open>Auth_Service\<close> asks of the directory.\<close>

definition directory_provider ::
  "(ustr \<Rightarrow> url_parts option) \<Rightarrow> directory_server \<Rightarrow> (ustr \<Rightarrow> string) \<Rightarrow> (ustr \<Rightarrow> string) \<Rightarrow> directory_settings
     \<Rightarrow> (string \<Rightarrow> ustr \<Rightarrow> (string \<times> string) option result) option" where
  "directory_provider urlsplit dv upper encode ds =
     (if \<not> directory_enabled ds then None
      else Some (\<lambda>username password.
        bind_result (authenticate urlsplit dv ds (asc username) password) (\<lambda>found.
          Inr (map_option (\<lambda>(dn, value). (role_from_attributes upper ds value, encode dn)) found))))"

section \<open>Public providers\<close>

record social_env =
  so_oidc :: oidc_env
  so_client :: "string \<Rightarrow> ustr"
  so_secret :: "string \<Rightarrow> ustr"
  so_profile :: "ustr \<Rightarrow> nat list option"
  so_encode :: "ustr \<Rightarrow> string"
  so_hash :: "ustr \<Rightarrow> string"
  so_ip_hash :: "string \<Rightarrow> string"

definition social_available :: "social_env \<Rightarrow> auth_env \<Rightarrow> string \<Rightarrow> bool" where
  "social_available so ae provider \<longleftrightarrow> provider \<in> {''google'', ''github''} \<and> ae_public_origin ae \<noteq> ''''
     \<and> so_client so provider \<noteq> [] \<and> so_secret so provider \<noteq> []"

definition google_settings :: "social_env \<Rightarrow> oidc_settings" where
  "google_settings so = \<lparr>od_issuer = asc ''https://accounts.google.com'', od_client_id = so_client so ''google'',
     od_client_secret = so_secret so ''google'', od_scopes = asc ''openid profile email'', od_username_claim = asc ''email'',
     od_default_role = ''REVIEWER''\<rparr>"

definition social_name :: "string \<Rightarrow> string" where
  "social_name provider = (if provider = ''google'' then ''SOCIAL_GOOGLE'' else ''SOCIAL_GITHUB'')"

definition purge_expired_flows :: "string \<Rightarrow> timestamp \<Rightarrow> db \<Rightarrow> db" where
  "purge_expired_flows provider now d =
     d\<lparr>login_flows := sql_delete (\<lambda>f. lf_provider f = provider \<and> lf_expires_at f \<le> now) (login_flows d)\<rparr>"

definition FLOW_SECONDS :: int where
  "FLOW_SECONDS = 600"

definition runtime_as :: "nat \<Rightarrow> 'a result \<Rightarrow> 'a result" where
  "runtime_as n r = (case r of Inl e \<Rightarrow> if e = RuntimeError then Inl (HTTPException n) else Inl e | Inr x \<Rightarrow> Inr x)"

definition start_url :: "social_env \<Rightarrow> string \<Rightarrow> ustr \<Rightarrow> ustr \<Rightarrow> ustr \<Rightarrow> ustr \<Rightarrow> (ustr \<times> (string \<times> ustr) list) result" where
  "start_url so provider callback state nonce verifier =
     (if provider = ''google'' then
        runtime_as 503 (bind_result (fetch_discovery (so_oidc so) (google_settings so)) (\<lambda>doc.
          authorization_url (so_oidc so) (google_settings so) doc callback state nonce verifier))
      else Inr (asc ''https://github.com/login/oauth/authorize'',
        [(''client_id'', so_client so provider), (''redirect_uri'', callback), (''state'', state), (''scope'', asc ''read:user''),
         (''code_challenge'', asc (code_challenge (so_oidc so) verifier)), (''code_challenge_method'', asc ''S256'')]))"

definition social_start ::
  "social_env \<Rightarrow> auth_env \<Rightarrow> string \<Rightarrow> string \<Rightarrow> string \<Rightarrow> string \<Rightarrow> (db, ustr \<times> (string \<times> ustr) list) handler" where
  "social_start so ae provider state nonce verifier =
     and_then (refuse_if (\<not> social_available so ae provider) 503) (\<lambda>_.
     and_then (perform (consume_limit ''oauth-start'' (so_ip_hash so (ae_host ae)) 30 3600 (ae_now ae))) (\<lambda>retry.
     and_then (refuse_if (retry \<noteq> 0) 429) (\<lambda>_.
     and_then (change (purge_expired_flows (social_name provider) (ae_now ae))) (\<lambda>_.
     let callback = ae_public_origin ae @ ''/api/auth/oauth/'' @ provider @ ''/callback''
     in and_then (attempt (\<lambda>_. start_url so provider (asc callback) (asc state) (asc nonce) (asc verifier))) (\<lambda>url.
        and_then (create_login_flow state (social_name provider) verifier callback nonce
             (ae_now ae + seconds FLOW_SECONDS) (ae_now ae)) (\<lambda>_.
        return_value url))))))"

definition github_subject :: "social_env \<Rightarrow> ustr \<Rightarrow> login_flow \<Rightarrow> ustr result" where
  "github_subject so code f =
     bind_result (post_form (so_oidc so) (asc ''https://github.com/login/oauth/access_token'')
         [(asc ''client_id'', so_client so ''github''), (asc ''client_secret'', so_secret so ''github''), (asc ''code'', code),
          (asc ''redirect_uri'', asc (lf_redirect_uri f)), (asc ''code_verifier'', asc (lf_code_verifier f))]) (\<lambda>tokens.
     bind_result (case get_key ''access_token'' tokens of
                    Some (JStr t) \<Rightarrow> if t = [] \<or> length t > 2000 then Inl RuntimeError else Inr t
                  | _ \<Rightarrow> Inl RuntimeError) (\<lambda>token.
     bind_result (fetch_json (so_oidc so) (so_profile so token)) (\<lambda>profile.
     case get_key ''id'' profile of
       Some (JInt n) \<Rightarrow> if n \<le> 0 then Inl RuntimeError else Inr (asc (str_int n))
     | _ \<Rightarrow> Inl RuntimeError)))"

text \<open>The immutable name of the account at the provider, and the issuer.\<close>

definition social_subject :: "social_env \<Rightarrow> string \<Rightarrow> string \<Rightarrow> login_flow \<Rightarrow> (ustr \<times> string) result" where
  "social_subject so provider code f =
     (if provider = ''google'' then
        bind_result (oidc_claims (so_oidc so) (google_settings so) (asc code) (asc (lf_redirect_uri f)) (asc (lf_code_verifier f))
            (asc (lf_nonce f))) (\<lambda>claims. Inr (subject_of (so_oidc so) claims, ''https://accounts.google.com''))
      else bind_result (github_subject so (asc code) f) (\<lambda>subject. Inr (subject, ''https://github.com'')))"

definition social_complete ::
  "social_env \<Rightarrow> auth_env \<Rightarrow> string \<Rightarrow> string \<Rightarrow> string \<Rightarrow> string \<Rightarrow> string \<Rightarrow> (db, login_result) handler" where
  "social_complete so ae provider browser_state code state err =
     and_then (refuse_if (\<not> social_available so ae provider) 503) (\<lambda>_.
     and_then (refuse_if (state = '''' \<or> browser_state = '''') 401) (\<lambda>_.
     and_then (attempt (\<lambda>_. compare_digest (asc state) (asc browser_state))) (\<lambda>same.
     and_then (refuse_if (\<not> same) 401) (\<lambda>_.
     and_then (perform (consume_login_flow state (social_name provider) (ae_now ae))) (\<lambda>flow.
     case flow of
       None \<Rightarrow> raise_error (HTTPException 401)
     | Some f \<Rightarrow>
         and_then (refuse_if (err \<noteq> '''') 400) (\<lambda>_.
         and_then (refuse_if (code = '''') 401) (\<lambda>_.
         case social_subject so provider code f of
           Inl _ \<Rightarrow> raise_error (HTTPException 401)
         | Inr (subject, issuer) \<Rightarrow>
             and_then (verified_user ae (social_name provider) issuer (so_encode so subject) (provider @ ''-'' @ so_hash so subject)) (\<lambda>u.
             complete_login ae u))))))))"

section \<open>Facts\<close>

lemma refuse_Inr [simp]: "refuse b = Inr u \<longleftrightarrow> \<not> b"
  by (simp add: refuse_def)

lemma as_oidc_error_Inr [simp]: "as_oidc_error r = Inr x \<longleftrightarrow> r = Inr x"
  by (auto simp: as_oidc_error_def split: sum.split)

lemma asc_inject: "asc s = asc t \<longleftrightarrow> s = t"
  by (auto simp: asc_def list_eq_iff_nth_eq)

text \<open>What an accepted token proves: the provider's only key of that name signed it, and it is meant for this client and this
  login attempt.\<close>

definition proves :: "oidc_env \<Rightarrow> oidc_settings \<Rightarrow> ustr \<Rightarrow> json \<Rightarrow> bool" where
  "proves ox st nonce claims \<longleftrightarrow>
     (\<exists>uri jwks keys key alg kid tok. read_json ox uri = Inr jwks \<and> keys_of jwks = Inr keys
        \<and> filter (\<lambda>k. is_object k \<and> get_key ''kid'' k = Some (JStr kid)) keys = [key] \<and> allows_verify key
        \<and> alg \<in> set ALLOWED_SIGNING_ALGORITHMS \<and> ox_decode ox tok key alg (od_issuer st) (od_client_id st) = Some claims)
     \<and> get_key ''iss'' claims = Some (JStr (od_issuer st))
     \<and> od_client_id st \<in> set (map (str_of_json ox) (filter (\<lambda>j. j \<noteq> JNull) (audiences_of claims)))
     \<and> get_key ''nonce'' claims = Some (JStr nonce)
     \<and> (\<exists>e. number_of (get_key ''exp'' claims) = Some e \<and> ox_now ox \<le> e + CLOCK_SKEW_SECONDS)
     \<and> (\<exists>s. get_key ''sub'' claims = Some (JStr s) \<and> s \<noteq> [])"

lemma compare_digest_True: "compare_digest a b = Inr True \<longleftrightarrow> list_all (\<lambda>c. c < 128) a \<and> list_all (\<lambda>c. c < 128) b \<and> a = b"
  by (auto simp: compare_digest_def)

lemma validate_claims_facts:
  assumes "validate_claims ox st nonce claims = Inr out"
  shows "out = claims \<and> get_key ''iss'' claims = Some (JStr (od_issuer st))
    \<and> od_client_id st \<in> set (map (str_of_json ox) (filter (\<lambda>j. j \<noteq> JNull) (audiences_of claims)))
    \<and> get_key ''nonce'' claims = Some (JStr nonce)
    \<and> (\<exists>e. number_of (get_key ''exp'' claims) = Some e \<and> ox_now ox \<le> e + CLOCK_SKEW_SECONDS)
    \<and> (\<exists>s. get_key ''sub'' claims = Some (JStr s) \<and> s \<noteq> [])"
  using assms
  by (auto simp: validate_claims_def Let_def bind_result_Inr compare_digest_True not_less split: option.splits json.splits)

lemma decode_token_facts:
  assumes "decode_token ox st doc tok = Inr claims"
  shows "\<exists>uri jwks keys key alg kid. read_json ox uri = Inr jwks \<and> keys_of jwks = Inr keys
    \<and> filter (\<lambda>k. is_object k \<and> get_key ''kid'' k = Some (JStr kid)) keys = [key] \<and> allows_verify key
    \<and> alg \<in> set ALLOWED_SIGNING_ALGORITHMS \<and> ox_decode ox tok key alg (od_issuer st) (od_client_id st) = Some claims"
proof -
  from assms obtain alg kid uri jwks keys key
    where h: "header_of ox tok = Inr (alg, kid)" and r: "read_json ox uri = Inr jwks" "keys_of jwks = Inr keys"
    and k: "signing_key keys alg kid = Inr key"
    and d: "ox_decode ox tok key alg (od_issuer st) (od_client_id st) = Some claims"
    by (auto simp: decode_token_def bind_result_Inr split: option.splits)
  from h have "alg \<in> set ALLOWED_SIGNING_ALGORITHMS"
    by (auto simp: header_of_def split: option.splits json.splits if_splits)
  moreover from k have "filter (\<lambda>k. is_object k \<and> get_key ''kid'' k = Some (JStr kid)) keys = [key] \<and> allows_verify key"
    by (auto simp: signing_key_def split: list.splits if_splits)
  ultimately show ?thesis using r d by blast
qed

lemma verify_id_token_proves:
  assumes "verify_id_token ox st doc nonce tok = Inr claims"
  shows "proves ox st nonce claims"
proof -
  from assms obtain cs where "decode_token ox st doc tok = Inr cs" "validate_claims ox st nonce cs = Inr claims"
    by (auto simp: verify_id_token_def bind_result_Inr)
  note v = validate_claims_facts [OF this(2)]
  have "\<exists>uri jwks keys key alg kid tok. read_json ox uri = Inr jwks \<and> keys_of jwks = Inr keys
      \<and> filter (\<lambda>k. is_object k \<and> get_key ''kid'' k = Some (JStr kid)) keys = [key] \<and> allows_verify key
      \<and> alg \<in> set ALLOWED_SIGNING_ALGORITHMS \<and> ox_decode ox tok key alg (od_issuer st) (od_client_id st) = Some claims"
    using decode_token_facts [OF \<open>decode_token ox st doc tok = Inr cs\<close>] v [THEN conjunct1] by blast
  then show ?thesis unfolding proves_def using v [THEN conjunct1] v [THEN conjunct2] by (simp only: simp_thms)
qed

lemma oidc_claims_proves: "oidc_claims ox st code r v nonce = Inr claims \<Longrightarrow> proves ox st nonce claims"
  by (auto simp: oidc_claims_def bind_result_Inr intro: verify_id_token_proves)

section \<open>Properties\<close>


text \<open>A public provider: the same for Google; the account is the one bound to the provider's own name of the user, or new.\<close>

lemma google_sign_in_needs_a_bound_signed_token:
  assumes "social_complete so ae ''google'' browser_state code state err d = (Inr r, d')"
  shows "browser_state = state \<and> err = '''' \<and>
    (\<exists>f claims. f \<in> set (login_flows d) \<and> open_flow state ''SOCIAL_GOOGLE'' (ae_now ae) f
      \<and> proves (so_oidc so) (google_settings so) (asc (lf_nonce f)) claims)"
proof -
  from assms obtain f subject issuer where same: "compare_digest (asc state) (asc browser_state) = Inr True" "err = ''''"
    and flow: "fst (consume_login_flow state ''SOCIAL_GOOGLE'' (ae_now ae) d) = Some f"
    and p: "social_subject so ''google'' code f = Inr (subject, issuer)"
    by (auto simp: social_complete_def social_name_def flow_simps split: option.splits sum.splits if_splits)
  from flow obtain g where g: "g \<in> set (login_flows d)" "open_flow state ''SOCIAL_GOOGLE'' (ae_now ae) g" "lf_nonce f = lf_nonce g"
    by (auto simp: consume_login_flow_def load_login_flow_def dest: sql_first_Some)
  from p obtain claims where "proves (so_oidc so) (google_settings so) (asc (lf_nonce f)) claims"
    by (auto simp: social_subject_def bind_result_Inr dest: oidc_claims_proves)
  moreover have "browser_state = state" using same(1) by (simp add: compare_digest_True asc_inject)
  ultimately show ?thesis using same(2) g by auto
qed

lemma format_plain:
  assumes "\<not> list_ex (\<lambda>c. c = 123 \<or> c = 125) pre"
  shows "format_username name (pre @ s) = map_option (append pre) (format_username name s)"
  using assms
proof (induction pre)
  case Nil
  then show ?case by (simp add: option.map_id0 [unfolded id_def])
next
  case (Cons c pre)
  then have "\<not> prefix PLACEHOLDER ((c # pre) @ s)" by (auto simp: PLACEHOLDER_def asc_def)
  with Cons show ?case by (simp add: option.map_comp comp_def)
qed

lemma format_template:
  assumes "\<not> list_ex (\<lambda>c. c = 123 \<or> c = 125) pre" and "\<not> list_ex (\<lambda>c. c = 123 \<or> c = 125) post"
  shows "format_username name (pre @ PLACEHOLDER @ post) = Some (pre @ name @ post)"
proof -
  have "format_username name post = Some post" using format_plain [OF assms(2), of name "[]"] by simp
  moreover have "format_username name (PLACEHOLDER @ post) = map_option (append name) (format_username name post)"
    by (simp add: PLACEHOLDER_def asc_def)
  ultimately show ?thesis using format_plain [OF assms(1), of name "PLACEHOLDER @ post"] by simp
qed

text \<open>A directory sign-in succeeds only if the directory accepted a bind with the given password, which is not empty, under
  the configured template with the trimmed user name in its place. The name holds none of the characters that separate or
  escape parts of a name, so the bound name has the structure of the template and different users bind different names.\<close>

lemma directory_binds_the_named_user:
  assumes "authenticate urlsplit dv ds username password = Inr (Some (dn, value))"
    and "ds_user_dn_template ds = pre @ PLACEHOLDER @ post"
    and "\<not> list_ex (\<lambda>c. c = 123 \<or> c = 125) (pre @ post)"
  shows "password \<noteq> [] \<and> dv_bind dv dn password \<and> dn = pre @ strip username @ post \<and> strip username \<noteq> []
    \<and> filter (\<lambda>c. c \<in> set DN_SPECIALS) dn = filter (\<lambda>c. c \<in> set DN_SPECIALS) (pre @ post)"
proof -
  from assms(1) have "password \<noteq> []" "bind_dn_for ds username = Inr dn" "ldap3_connector dv ds dn password = Some (dn, value)"
    by (auto simp: authenticate_def bind_result_Inr ldap3_connector_def split: if_splits)
  moreover from this(2) assms have "dn = pre @ strip username @ post" "strip username \<noteq> []"
    "\<not> list_ex (\<lambda>c. c \<in> set (strip username)) DN_SPECIALS"
    by (auto simp: bind_dn_for_def Let_def format_template split: if_splits)
  moreover from this(3) have "filter (\<lambda>c. c \<in> set DN_SPECIALS) (strip username) = []"
    by (auto simp: list_ex_iff filter_empty_conv)
  ultimately show ?thesis by (auto simp: ldap3_connector_def split: if_splits)
qed

section \<open>Examples\<close>

definition demo_claims :: json where
  "demo_claims = JObj [(''iss'', JStr [1]), (''aud'', JStr [2]), (''exp'', JInt 50), (''sub'', JStr [7]), (''nonce'', JStr (asc ''u''))]"

definition demo_oidc :: oidc_env where
  "demo_oidc = \<lparr>ox_urlsplit = (\<lambda>_. Some \<lparr>up_scheme = ''https'', up_hostname = [9], up_username = [], up_password = [], up_path = [],
       up_query = [], up_fragment = []\<rparr>),
     ox_get = (\<lambda>u. Some (if u = [5] then [1] else [0])), ox_post = (\<lambda>_ _. Some [2]),
     ox_loads = (\<lambda>b. if b = [0] then Some (JObj [(''issuer'', JStr [1]), (''authorization_endpoint'', JStr [3]),
                          (''token_endpoint'', JStr [4]), (''jwks_uri'', JStr [5])])
                     else if b = [1] then Some (JObj [(''keys'', JList [JObj [(''kid'', JStr [6])]])])
                     else Some (JObj [(''id_token'', JStr [8])])),
     ox_repr = (\<lambda>_. []), ox_header = (\<lambda>_. Some (JObj [(''alg'', JStr (asc ''RS256'')), (''kid'', JStr [6])])),
     ox_decode = (\<lambda>_ _ _ _ _. Some demo_claims), ox_sha256 = (\<lambda>_. []), ox_now = 10\<rparr>"

definition demo_oidc_settings :: oidc_settings where
  "demo_oidc_settings = \<lparr>od_issuer = [1], od_client_id = [2], od_client_secret = [], od_scopes = [], od_username_claim = [],
     od_default_role = ''VIEWER''\<rparr>"

lemma demo_settings_simps:
  "od_issuer demo_oidc_settings = [1]" "od_client_id demo_oidc_settings = [2]" "od_client_secret demo_oidc_settings = []"
  "od_username_claim demo_oidc_settings = []" "od_default_role demo_oidc_settings = ''VIEWER''" "refuse False = Inr ()"
  by (simp_all add: demo_oidc_settings_def refuse_def)

lemma demo_endpoint: "https_endpoint demo_oidc (Some (JStr s)) = Inr s"
  by (simp add: https_endpoint_def demo_oidc_def)

lemma demo_settings_valid: "validate_settings demo_oidc demo_oidc_settings = Inr ()"
  by (simp add: validate_settings_def demo_endpoint demo_settings_simps) (simp add: demo_oidc_def)

lemma demo_documents:
  "ox_loads demo_oidc [0] = Some (JObj [(''issuer'', JStr [1]), (''authorization_endpoint'', JStr [3]), (''token_endpoint'', JStr [4]), (''jwks_uri'', JStr [5])])"
  "ox_loads demo_oidc [Suc 0] = Some (JObj [(''keys'', JList [JObj [(''kid'', JStr [6])]])])"
  "ox_loads demo_oidc [2] = Some (JObj [(''id_token'', JStr [8])])"
  "ox_get demo_oidc u = Some (if u = [5] then [1] else [0])" "ox_post demo_oidc v w = Some [2]"
  by (simp_all add: demo_oidc_def)

lemma demo_fetch:
  "fetch_json demo_oidc (Some [x]) = (case ox_loads demo_oidc [x] of Some (JObj kvs) \<Rightarrow> Inr (JObj kvs) | _ \<Rightarrow> Inl RuntimeError)"
  by (simp add: fetch_json_def MAX_PROVIDER_RESPONSE_BYTES_def)

lemma demo_discovery_url: "discovery_url [Suc 0] \<noteq> [5]"
  by (simp add: discovery_url_def rstrip_char_def)

lemma demo_oidc_claims: "oidc_claims demo_oidc demo_oidc_settings c r v (asc ''u'') = Inr demo_claims"
proof -
  let ?doc = "JObj [(''issuer'', JStr [1]), (''authorization_endpoint'', JStr [3]), (''token_endpoint'', JStr [4]), (''jwks_uri'', JStr [5])]"
  have "fetch_discovery demo_oidc demo_oidc_settings = Inr ?doc"
    by (simp add: fetch_discovery_def demo_settings_valid read_json_def demo_endpoint demo_documents demo_fetch demo_discovery_url
        demo_settings_simps get_key_def)
  moreover have "redeem_code demo_oidc demo_oidc_settings ?doc c r v = Inr (JObj [(''id_token'', JStr [8])])"
    by (simp add: redeem_code_def code_request_def demo_settings_simps demo_endpoint get_key_def post_form_def demo_documents demo_fetch)
  moreover have "decode_token demo_oidc demo_oidc_settings ?doc [8] = Inr demo_claims"
    by (simp add: decode_token_def demo_settings_simps demo_endpoint get_key_def read_json_def demo_documents demo_fetch keys_of_def signing_key_def
        is_object_def allows_verify_def) (simp add: header_of_def demo_oidc_def get_key_def ALLOWED_SIGNING_ALGORITHMS_def allows_verify_def)
  moreover have "validate_claims demo_oidc demo_oidc_settings (asc ''u'') demo_claims = Inr demo_claims"
    by (auto simp: validate_claims_def demo_claims_def demo_settings_simps get_key_def audiences_of_def str_of_json_def
        number_of_def CLOCK_SKEW_SECONDS_def compare_digest_def asc_def demo_oidc_def refuse_def)
  ultimately show ?thesis
    by (simp add: oidc_claims_def verify_id_token_def demo_settings_valid id_token_of_def get_key_def str_of_json_def
        demo_settings_simps as_oidc_error_def)
qed

definition demo_oidc_env :: auth_env where
  "demo_oidc_env = demo_auth_env\<lparr>ae_oidc := Some (oidc_provider demo_oidc (map char_of) demo_oidc_settings), ae_oidc_issuer := ''i''\<rparr>"

definition demo_oidc_db :: db where
  "demo_oidc_db = demo_sign_db\<lparr>login_flows := [\<lparr>lf_state = ''t'', lf_provider = ''OIDC'', lf_code_verifier = '''', lf_redirect_uri = '''',
     lf_nonce = ''u'', lf_expires_at = 1000000000, lf_consumed_at = None, lf_created_at = 0\<rparr>]\<rparr>"

lemma map_char_of_asc: "map char_of (asc s) = s"
  by (simp add: asc_def comp_def)

lemma demo_oidc_provider:
  "lf_nonce f = ''u'' \<Longrightarrow> oidc_provider demo_oidc (map char_of) demo_oidc_settings code f = Inr ([char_of (7 :: nat)], [char_of (7 :: nat)])"
  by (simp add: oidc_provider_def demo_oidc_claims username_from_claims_def claim_text_def demo_settings_simps map_char_of_asc)
    (simp add: demo_claims_def get_key_def str_of_json_def subject_of_def strip_def lstrip_def is_space_def)

lemma bell [simp]: "CHR ''n'' \<noteq> char_of (7 :: nat)" "char_of (7 :: nat) \<noteq> CHR ''n''"
  by code_simp+

lemma demo_oidc_succeeds: "\<exists>r d'. complete_oidc demo_oidc_env ''t'' ''c'' ''t'' demo_oidc_db = (Inr r, d')"
  by (simp add: complete_oidc_def demo_oidc_env_def demo_oidc_db_def compare_digest_def asc_def consume_login_flow_def load_login_flow_def
      open_flow_def demo_oidc_provider provision_federated_user_def load_identity_binding_def load_user_by_username_def
      list_workspace_members_def order_by_def integrity_as_def create_bound_user_def atomically_def create_user_def
      ensure_workspace_row_def ensure_workspace_def insert_workspace_def user_clash_def bind_new_def record_auth_def
      complete_login_def has_confirmed_mfa_def load_user_mfa_def new_session_def issue_session_def create_auth_session_def
      demo_flow_simps decimal.simps)


definition demo_directory :: directory_settings where
  "demo_directory = \<lparr>ds_server_uri = [1], ds_user_dn_template = asc ''uid='' @ PLACEHOLDER @ asc '',dc=x'', ds_base_dn = [], ds_role_attribute = [],
     ds_default_role = ''VIEWER'', ds_use_tls = True\<rparr>"

definition demo_ldaps :: "ustr \<Rightarrow> url_parts option" where
  "demo_ldaps = (\<lambda>_. Some \<lparr>up_scheme = ''ldaps'', up_hostname = [9], up_username = [], up_password = [], up_path = [], up_query = [], up_fragment = []\<rparr>)"

definition demo_server :: directory_server where
  "demo_server = \<lparr>dv_bind = (\<lambda>_ _. True), dv_search = (\<lambda>_ _ _. None)\<rparr>"

lemma demo_authenticate:
  "authenticate demo_ldaps demo_server demo_directory [32, 97] [1] = Inr (Some (asc ''uid='' @ [97] @ asc '',dc=x'', None))"
  by (simp add: authenticate_def demo_directory_def demo_ldaps_def demo_server_def directory_enabled_def validate_directory_def
      refuse_def PLACEHOLDER_def asc_def bind_dn_for_def strip_def lstrip_def is_space_def DN_SPECIALS_def ldap3_connector_def)

lemma directory_binds_the_named_user_example:
  "filter (\<lambda>c. c \<in> set DN_SPECIALS) (asc ''uid='' @ [97] @ asc '',dc=x'') = filter (\<lambda>c. c \<in> set DN_SPECIALS) (asc ''uid='' @ asc '',dc=x'')"
proof -
  have "ds_user_dn_template demo_directory = asc ''uid='' @ PLACEHOLDER @ asc '',dc=x''" by (simp add: demo_directory_def)
  moreover have "\<not> list_ex (\<lambda>c. c = 123 \<or> c = 125) (asc ''uid='' @ asc '',dc=x'')" by (simp add: asc_def)
  ultimately show ?thesis using directory_binds_the_named_user [OF demo_authenticate] by blast
qed

text \<open>Escaping for a search filter leaves nothing that the filter syntax reads, and keeps different names apart.\<close>

lemma ldap_filter_escape_eq:
  "ldap_filter_escape s = concat (map (\<lambda>c. if c = 92 then [92, 53, 99] else if c = 42 then [92, 50, 97] else if c = 40 then [92, 50, 56]
     else if c = 41 then [92, 50, 57] else if c = 0 then [92, 48, 48] else [c]) s)"
  by (induction s) (simp_all add: ldap_filter_escape_def replace_char_def)

lemma ldap_filter_escape_safe: "c \<in> set (ldap_filter_escape s) \<Longrightarrow> c \<notin> {42, 40, 41, 0}"
proof -
  assume "c \<in> set (ldap_filter_escape s)"
  then obtain b where "c \<in> set (if b = 92 then [92, 53, 99] else if b = 42 then [92, 50, 97] else if b = 40 then [92, 50, 56]
     else if b = 41 then [92, 50, 57] else if b = 0 then [92, 48, 48] else [b])"
    unfolding ldap_filter_escape_eq set_concat set_map by blast
  then show ?thesis by (simp split: if_splits) (elim disjE; simp)+
qed

lemma ldap_filter_escape_inj: "ldap_filter_escape s = ldap_filter_escape t \<Longrightarrow> s = t"
proof (induction s arbitrary: t)
  case Nil
  then show ?case by (cases t) (auto simp: ldap_filter_escape_eq split: if_splits)
next
  case (Cons c s)
  then obtain d u where "t = d # u" by (cases t) (auto simp: ldap_filter_escape_eq split: if_splits)
  with Cons show ?case by (auto simp: ldap_filter_escape_eq split: if_splits)
qed

end
