(* ===== verification/Request_Gate.thy ===== *)
theory Request_Gate
  imports Federation
begin

text \<open>
  What every HTTP request passes before its route runs (\<open>src/app/http.py\<close>, \<open>src/app/request_context.py\<close>): the alias of
  the versioned paths, the request identifier, the CSRF check, the limits on writes and exports, the refusal of
  idempotency keys, and the headers of the answer. The route is a parameter. Paths and methods are strings; \<open>upper\<close>
  is \<open>str.upper\<close>. Logging and metrics are left out.
\<close>

section \<open>Requests and answers\<close>

record http_request = request +
  hq_method :: string
  hq_path :: string
  hq_csrf_header :: "ustr option"
  hq_csrf_cookie :: "ustr option"
  hq_request_id :: "ustr option"
  hq_idempotency_key :: bool

record response =
  rs_status :: nat
  rs_headers :: "(string \<times> ustr) list"
  rs_issues_csrf :: bool

record gate_env =
  ge_identity :: identity_env
  ge_production :: bool
  ge_test :: bool
  ge_enforce_csrf :: bool
  ge_enforce_write_limits :: bool
  ge_write_limit :: limit
  ge_export_limit :: limit
  ge_new_request_id :: ustr

definition upper_method :: "gate_env \<Rightarrow> http_request \<Rightarrow> string" where
  "upper_method ge rq = ie_upper (ge_identity ge) (hq_method rq)"

section \<open>Context\<close>

definition request_id_char :: "nat \<Rightarrow> bool" where
  "request_id_char c \<longleftrightarrow> ascii_letter c \<or> ascii_digit c \<or> c \<in> {46, 95, 45}"

text \<open>An inbound identifier is used if it has one to 64 plain characters.\<close>

definition request_id_of :: "gate_env \<Rightarrow> http_request \<Rightarrow> ustr" where
  "request_id_of ge rq =
     (let inbound = strip (case hq_request_id rq of None \<Rightarrow> [] | Some x \<Rightarrow> x)
      in if 1 \<le> length inbound \<and> length inbound \<le> 64 \<and> list_all request_id_char inbound then inbound else ge_new_request_id ge)"

section \<open>Guards\<close>

definition WRITE_METHODS :: "string list" where
  "WRITE_METHODS = [''POST'', ''PUT'', ''PATCH'', ''DELETE'']"

definition EXPORT_SUFFIXES :: "string list" where
  "EXPORT_SUFFIXES = [''.csv'', ''.pdf'', ''.zip'', ''.html'']"

definition EXEMPT_PREFIXES :: "string list" where
  "EXEMPT_PREFIXES = [''/static/'']"

definition csrf_enforced :: "gate_env \<Rightarrow> bool" where
  "csrf_enforced ge \<longleftrightarrow> ge_enforce_csrf ge \<or> \<not> ge_test ge"

definition write_limits_enforced :: "gate_env \<Rightarrow> bool" where
  "write_limits_enforced ge \<longleftrightarrow> ge_enforce_write_limits ge \<or> \<not> ge_test ge"

definition authenticated_by_cookie :: "http_request \<Rightarrow> bool" where
  "authenticated_by_cookie rq \<longleftrightarrow> (case re_session_cookie rq of None \<Rightarrow> False | Some c \<Rightarrow> c \<noteq> '''')"

definition check_csrf :: "gate_env \<Rightarrow> http_request \<Rightarrow> (db, unit) handler" where
  "check_csrf ge rq =
     (if csrf_enforced ge \<and> requires_check (upper_method ge rq) (authenticated_by_cookie rq)
      then attempt (\<lambda>_. csrf_verify (hq_csrf_header rq) (hq_csrf_cookie rq)) else return_value ())"

definition is_export :: "http_request \<Rightarrow> bool" where
  "is_export rq \<longleftrightarrow> prefix ''/api/'' (hq_path rq) \<and> list_ex (\<lambda>s. suffix s (hq_path rq)) EXPORT_SUFFIXES"

definition is_write :: "gate_env \<Rightarrow> http_request \<Rightarrow> bool" where
  "is_write ge rq \<longleftrightarrow> upper_method ge rq \<in> set WRITE_METHODS \<and> prefix ''/api/'' (hq_path rq)"

definition check_action_limits :: "gate_env \<Rightarrow> http_request \<Rightarrow> (db, unit) handler" where
  "check_action_limits ge rq =
     (let bucket = client_host (request.truncate rq); ie = ge_identity ge
      in if \<not> write_limits_enforced ge \<or> list_ex (\<lambda>p. prefix p (hq_path rq)) EXEMPT_PREFIXES then return_value ()
         else if is_export rq then enforce (ge_export_limit ge) bucket True (ie_new_id ie) (ie_now ie)
         else if is_write ge rq then enforce (ge_write_limit ge) bucket True (ie_new_id ie) (ie_now ie)
         else return_value ())"

definition reject_unsupported_idempotency :: "gate_env \<Rightarrow> http_request \<Rightarrow> (db, unit) handler" where
  "reject_unsupported_idempotency ge rq =
     (if hq_idempotency_key rq \<and> is_write ge rq
      then and_then (if prefix ''/api/auth/'' (hq_path rq) then return_value ()
                     else and_then (principal_of (ge_identity ge) (HttpRequest (request.truncate rq))) (\<lambda>_. return_value ())) (\<lambda>_.
           raise_error (HTTPException 501))
      else return_value ())"

definition guards :: "gate_env \<Rightarrow> http_request \<Rightarrow> (db, unit) handler" where
  "guards ge rq =
     and_then (check_csrf ge rq) (\<lambda>_.
     and_then (check_action_limits ge rq) (\<lambda>_.
     reject_unsupported_idempotency ge rq))"

section \<open>Answers\<close>

definition set_default :: "'a \<Rightarrow> 'b \<Rightarrow> ('a \<times> 'b) list \<Rightarrow> ('a \<times> 'b) list" where
  "set_default k v hs = (if k \<in> fst ` set hs then hs else hs @ [(k, v)])"

definition set_header :: "'a \<Rightarrow> 'b \<Rightarrow> ('a \<times> 'b) list \<Rightarrow> ('a \<times> 'b) list" where
  "set_header k v hs = filter (\<lambda>(h, _). h \<noteq> k) hs @ [(k, v)]"

definition quoted :: "string \<Rightarrow> string" where
  "quoted s = CHR 0x27 # s @ [CHR 0x27]"

definition SECURITY_HEADERS :: "(string \<times> string) list" where
  "SECURITY_HEADERS =
     [(''X-Content-Type-Options'', ''nosniff''), (''X-Frame-Options'', ''DENY''),
      (''Referrer-Policy'', ''strict-origin-when-cross-origin''),
      (''Permissions-Policy'', ''camera=(), microphone=(), geolocation=()''),
      (''Content-Security-Policy'', ''default-src '' @ quoted ''self'' @ ''; script-src '' @ quoted ''self'' @ ''; style-src '' @ quoted ''self'' @ '' '' @ quoted ''unsafe-inline'' @ ''; img-src '' @ quoted ''self'' @ '' data:; font-src '' @ quoted ''self''
        @ ''; connect-src '' @ quoted ''self'' @ ''; frame-ancestors '' @ quoted ''none'' @ ''; base-uri '' @ quoted ''self'' @ ''; form-action '' @ quoted ''self''
        @ ''; object-src '' @ quoted ''none'')]"

definition finalize_response :: "gate_env \<Rightarrow> http_request \<Rightarrow> response \<Rightarrow> response" where
  "finalize_response ge rq rs =
     (let h1 = fold (\<lambda>(k, v). set_default k (asc v)) SECURITY_HEADERS (rs_headers rs);
          h2 = set_header ''X-Request-ID'' (request_id_of ge rq) h1;
          h3 = (if ge_production ge then set_default ''Strict-Transport-Security'' (asc ''max-age=31536000'') h2 else h2);
          path = hq_path rq;
          h4 = (if path = ''/app'' \<or> prefix ''/api/auth/'' path \<or> prefix ''/api/v1/auth/'' path
                then set_header ''Referrer-Policy'' (asc ''no-referrer'') (set_header ''Cache-Control'' (asc ''no-store'') h3) else h3)
      in rs\<lparr>rs_headers := h4\<rparr>)"

definition error_response :: "nat \<Rightarrow> response" where
  "error_response n = \<lparr>rs_status = n, rs_headers = [], rs_issues_csrf = False\<rparr>"

text \<open>A refusal of the guards is answered at once; any other exception, of the guards or of the route, is an error 500. A safe
  request without a CSRF cookie gets one.\<close>

definition request_guards :: "gate_env \<Rightarrow> (http_request \<Rightarrow> (db, response) handler) \<Rightarrow> http_request \<Rightarrow> db \<Rightarrow> response \<times> db" where
  "request_guards ge route rq d =
     (let finish = (\<lambda>rs. finalize_response ge rq
            (if upper_method ge rq \<in> set SAFE_METHODS \<and> hq_csrf_cookie rq = None then rs\<lparr>rs_issues_csrf := True\<rparr> else rs))
      in case guards ge rq d of
           (Inl (HTTPException n), d1) \<Rightarrow> (finalize_response ge rq (error_response n), d1)
         | (Inl _, d1) \<Rightarrow> (finish (error_response 500), d1)
         | (Inr _, d1) \<Rightarrow>
             (case route rq d1 of
                (Inl _, d2) \<Rightarrow> (finish (error_response 500), d2)
              | (Inr rs, d2) \<Rightarrow> (finish rs, d2)))"

definition api_v1_alias :: "string \<Rightarrow> string" where
  "api_v1_alias path =
     (if path \<in> {''/api/v1/healthz'', ''/api/v1/healthz/''} then ''/healthz''
      else if prefix ''/api/v1/'' path then ''/api/'' @ drop (length ''/api/v1/'') path
      else if path = ''/api/v1'' then ''/api'' else path)"

text \<open>The alias is the outermost of the three.\<close>

definition serve :: "gate_env \<Rightarrow> (http_request \<Rightarrow> (db, response) handler) \<Rightarrow> http_request \<Rightarrow> db \<Rightarrow> response \<times> db" where
  "serve ge route rq = request_guards ge route (rq\<lparr>hq_path := api_v1_alias (hq_path rq)\<rparr>)"

section \<open>Properties\<close>

definition csrf_ok :: "gate_env \<Rightarrow> http_request \<Rightarrow> bool" where
  "csrf_ok ge rq \<longleftrightarrow> \<not> csrf_enforced ge \<or> upper_method ge rq \<in> set SAFE_METHODS \<or> \<not> authenticated_by_cookie rq
     \<or> (\<exists>t c. hq_csrf_header rq = Some t \<and> hq_csrf_cookie rq = Some c \<and> strip t = strip c \<and> strip t \<noteq> [])"

lemma csrf_verify_Inr: "csrf_verify h k = Inr () \<longleftrightarrow> (\<exists>t c. h = Some t \<and> k = Some c \<and> strip t = strip c \<and> strip t \<noteq> [] \<and> list_all (\<lambda>c. c < 128) (strip t))"
proof -
  have [simp]: "strip [] = []" by (simp add: strip_def lstrip_def)
  show ?thesis
    by (cases h; cases k) (auto simp: csrf_verify_def Let_def bind_result_Inr compare_digest_def split: if_splits)
qed

lemma check_csrf_ok: "check_csrf ge rq d = (Inr u, d') \<Longrightarrow> csrf_ok ge rq \<and> d' = d"
  by (auto simp: check_csrf_def csrf_ok_def requires_check_def attempt_def return_value_def csrf_verify_Inr split: if_splits)

lemma check_action_limits_ok:
  assumes "check_action_limits ge rq d = (Inr u, d')" and "write_limits_enforced ge" and "prefix ''/api/'' (hq_path rq)"
    and "upper_method ge rq \<in> set WRITE_METHODS" and "\<not> is_export rq"
  shows "fst (record_hit (ge_write_limit ge) (client_host (request.truncate rq)) (ie_new_id (ge_identity ge)) (ie_now (ge_identity ge)) d)
    < lm_max_hits (ge_write_limit ge)"
proof -
  have "\<not> prefix ''/static/'' (hq_path rq)" using assms(3) by (cases "hq_path rq") (auto elim!: prefixE)
  with assms show ?thesis
    by (auto simp: check_action_limits_def Let_def EXEMPT_PREFIXES_def is_write_def enforce_def not_le split: prod.splits if_splits)
qed

lemma reject_unsupported_ok: "reject_unsupported_idempotency ge rq d = (Inr u, d') \<Longrightarrow> \<not> (hq_idempotency_key rq \<and> is_write ge rq) \<and> d' = d"
  by (auto simp: reject_unsupported_idempotency_def and_then_Inr raise_error_def return_value_def split: if_splits)


definition demo_gate :: gate_env where
  "demo_gate = \<lparr>ge_identity = demo_identity_env, ge_production = False, ge_test = True, ge_enforce_csrf = True,
     ge_enforce_write_limits = False, ge_write_limit = \<lparr>lm_scope = ''write'', lm_max_hits = 240, lm_window_seconds = 60\<rparr>,
     ge_export_limit = \<lparr>lm_scope = ''export'', lm_max_hits = 30, lm_window_seconds = 300\<rparr>, ge_new_request_id = [97]\<rparr>"

definition demo_write :: http_request where
  "demo_write = \<lparr>re_session_cookie = Some ''s'', re_authorization = None, re_workspace_header = None, re_user_header = None,
     re_role_header = None, re_client_ip = None, hq_method = ''POST'', hq_path = ''/api/runs'', hq_csrf_header = Some [97],
     hq_csrf_cookie = Some [97], hq_request_id = None, hq_idempotency_key = False\<rparr>"

lemma demo_write_guards: "guards demo_gate demo_write d = (Inr (), d)"
proof -
  have "csrf_verify (Some [97]) (Some [97]) = Inr ()" by (auto simp: csrf_verify_Inr strip_def lstrip_def is_space_def)
  then have "check_csrf demo_gate demo_write d = (Inr (), d)"
    by (simp add: check_csrf_def attempt_def return_value_def demo_write_def)
  moreover have "\<not> write_limits_enforced demo_gate" by (simp add: write_limits_enforced_def demo_gate_def)
  then have "check_action_limits demo_gate demo_write d = (Inr (), d)" by (simp add: check_action_limits_def return_value_def)
  moreover have "reject_unsupported_idempotency demo_gate demo_write d = (Inr (), d)"
    by (simp add: reject_unsupported_idempotency_def demo_write_def return_value_def)
  ultimately show ?thesis by (simp add: guards_def and_then_def)
qed

lemma finalize_status: "rs_status (finalize_response ge rq rs) = rs_status rs"
  by (simp add: finalize_response_def Let_def)


text \<open>Every answer names its request, and carries the headers that forbid framing and sniffing unless the route set its own.\<close>

lemma header_names:
  "k \<in> fst ` set (set_default h v hs) \<longleftrightarrow> k = h \<or> k \<in> fst ` set hs"
  "k \<in> fst ` set (set_header h v hs) \<longleftrightarrow> k = h \<or> k \<in> fst ` set hs"
  by (force simp: set_default_def set_header_def image_iff)+

lemma header_values:
  "(k, x) \<in> set hs \<Longrightarrow> (k, x) \<in> set (set_default h v hs)"
  "(k, x) \<in> set (set_header h v hs) \<longleftrightarrow> (if k = h then x = v else (k, x) \<in> set hs)"
  by (auto simp: set_default_def set_header_def)

lemma finalize_headers:
  "(''X-Request-ID'', request_id_of ge rq) \<in> set (rs_headers (finalize_response ge rq rs))
     \<and> ''X-Frame-Options'' \<in> fst ` set (rs_headers (finalize_response ge rq rs))"
  by (simp add: finalize_response_def Let_def header_names header_values SECURITY_HEADERS_def)

lemma answers_name_their_request:
  "(''X-Request-ID'', request_id_of ge rq) \<in> set (rs_headers (fst (request_guards ge route rq d)))
     \<and> ''X-Frame-Options'' \<in> fst ` set (rs_headers (fst (request_guards ge route rq d)))"
proof -
  have "\<exists>rs d'. request_guards ge route rq d = (finalize_response ge rq rs, d')"
    by (auto simp: request_guards_def Let_def split: prod.split sum.split error.split)
  then show ?thesis using finalize_headers by (metis fst_conv)
qed

lemma request_id_is_plain:
  "list_all request_id_char (ge_new_request_id ge) \<Longrightarrow> list_all request_id_char (request_id_of ge rq)"
  by (simp add: request_id_of_def Let_def)

end
