(* ===== verification/Deployment.thy ===== *)
theory Deployment
  imports Request_Gate
begin

text \<open>
  What must hold before the service accepts traffic: \<open>validate_runtime_security\<close> of \<open>src/app/config.py\<close> and the licence check
  of \<open>src/app/license.py\<close>. Settings are given as they are read from the environment.
\<close>

record runtime_settings =
  rt_environment :: string
  rt_job_runner :: string
  rt_job_stale_seconds :: int
  rt_job_poll_seconds :: rat
  rt_public_origin :: ustr
  rt_allowed_hosts :: "ustr list"
  rt_trusted_headers_requested :: bool
  rt_trial_join_code :: ustr
  rt_bootstrap_token :: ustr
  rt_data_root :: ustr
  rt_oidc :: oidc_settings
  rt_directory :: directory_settings
  rt_federated_workspace :: ustr

definition allow_trusted_headers :: "runtime_settings \<Rightarrow> bool" where
  "allow_trusted_headers rt \<longleftrightarrow> rt_trusted_headers_requested rt \<and> rt_environment rt = ''test''"

definition oidc_enabled :: "oidc_settings \<Rightarrow> bool" where
  "oidc_enabled st \<longleftrightarrow> od_issuer st \<noteq> [] \<and> od_client_id st \<noteq> []"

text \<open>An origin: a scheme and a host, and nothing else.\<close>

definition check_origin :: "url_parts \<Rightarrow> runtime_settings \<Rightarrow> unit result" where
  "check_origin u rt =
     bind_result (refuse (up_scheme u \<noteq> ''https'' \<or> up_hostname u = [] \<or> up_username u \<noteq> [] \<or> up_password u \<noteq> []
        \<or> up_path u \<noteq> [] \<or> up_query u \<noteq> [] \<or> up_fragment u \<noteq> [])) (\<lambda>_.
     bind_result (refuse (rt_allowed_hosts rt = [] \<or> list_ex (\<lambda>h. 42 \<in> set h \<or> 47 \<in> set h) (rt_allowed_hosts rt))) (\<lambda>_.
     refuse (up_hostname u \<notin> set (rt_allowed_hosts rt))))"

definition check_federation :: "oidc_env \<Rightarrow> runtime_settings \<Rightarrow> unit result" where
  "check_federation ox rt =
     bind_result (if od_issuer (rt_oidc rt) \<noteq> [] \<or> od_client_id (rt_oidc rt) \<noteq> [] then validate_settings ox (rt_oidc rt) else Inr ()) (\<lambda>_.
     bind_result (if ds_server_uri (rt_directory rt) \<noteq> [] \<or> ds_user_dn_template (rt_directory rt) \<noteq> []
                  then validate_directory (ox_urlsplit ox) (rt_directory rt) else Inr ()) (\<lambda>_.
     refuse ((oidc_enabled (rt_oidc rt) \<or> directory_enabled (rt_directory rt)) \<and> rt_federated_workspace rt = [])))"

text \<open>The answer is the settings that the service runs with: in production a shared join code is dropped.\<close>

definition validate_runtime_security :: "oidc_env \<Rightarrow> runtime_settings \<Rightarrow> runtime_settings result" where
  "validate_runtime_security ox rt =
     bind_result (refuse (rt_environment rt \<notin> {''development'', ''test'', ''production''})) (\<lambda>_.
     bind_result (refuse (rt_job_runner rt \<notin> {''inline'', ''worker''})) (\<lambda>_.
     bind_result (refuse (rt_job_stale_seconds rt < 60 \<or> \<not> (1 / 10 \<le> rt_job_poll_seconds rt \<and> rt_job_poll_seconds rt \<le> 60))) (\<lambda>_.
     if rt_environment rt \<noteq> ''production'' then Inr rt
     else case ox_urlsplit ox (rt_public_origin rt) of
       None \<Rightarrow> Inl ValueError
     | Some u \<Rightarrow>
         bind_result (check_origin u rt) (\<lambda>_.
         bind_result (refuse (rt_trusted_headers_requested rt)) (\<lambda>_.
         let rt1 = rt\<lparr>rt_trial_join_code := []\<rparr>
         in bind_result (refuse (rt_bootstrap_token rt1 \<noteq> [] \<and> length (rt_bootstrap_token rt1) < 32)) (\<lambda>_.
            bind_result (refuse (rt_job_runner rt1 \<noteq> ''worker'')) (\<lambda>_.
            bind_result (refuse (strip (rt_data_root rt1) = [])) (\<lambda>_.
            bind_result (check_federation ox rt1) (\<lambda>_. Inr rt1)))))))))"

section \<open>Licence\<close>

definition LICENSE_PREFIX :: ustr where
  "LICENSE_PREFIX = asc ''bp-lic-''"

definition valid_key :: "ustr \<Rightarrow> bool" where
  "valid_key key \<longleftrightarrow> prefix LICENSE_PREFIX (strip key) \<and> length (strip key) \<ge> 16"

definition check_on_startup :: "bool \<Rightarrow> ustr \<Rightarrow> unit result" where
  "check_on_startup required key = (if \<not> required then Inr () else refuse (\<not> valid_key key))"

section \<open>Properties\<close>

text \<open>What the rest of the model takes from settings that were accepted for production.\<close>

definition runs_with :: "runtime_settings \<Rightarrow> auth_env \<Rightarrow> identity_env \<Rightarrow> gate_env \<Rightarrow> bool" where
  "runs_with rt ae ie ge \<longleftrightarrow> asc (ae_trial_join_code ae) = rt_trial_join_code rt \<and> ie_trusted_headers ie = allow_trusted_headers rt
     \<and> (ae_oidc ae \<noteq> None \<longrightarrow> oidc_enabled (rt_oidc rt)) \<and> asc (ae_federated_workspace ae) = rt_federated_workspace rt
     \<and> ge_identity ge = ie \<and> ge_production ge = (rt_environment rt = ''production'') \<and> ge_test ge = (rt_environment rt = ''test'')"

lemma federation_checked:
  assumes "check_federation ox rt = Inr u" and "oidc_enabled (rt_oidc rt)"
  shows "rt_federated_workspace rt \<noteq> [] \<and> od_default_role (rt_oidc rt) \<in> {''REVIEWER'', ''VIEWER''}"
proof -
  have "od_issuer (rt_oidc rt) \<noteq> []" using assms(2) by (simp add: oidc_enabled_def)
  with assms show ?thesis by (auto simp: check_federation_def bind_result_Inr validate_settings_def)
qed

lemma accepted_production:
  assumes "validate_runtime_security ox rt0 = Inr rt" and "rt_environment rt0 = ''production''"
  shows "rt_environment rt = ''production'' \<and> rt_trial_join_code rt = [] \<and> \<not> rt_trusted_headers_requested rt
    \<and> (rt_bootstrap_token rt = [] \<or> 32 \<le> length (rt_bootstrap_token rt)) \<and> rt_job_runner rt = ''worker''
    \<and> (oidc_enabled (rt_oidc rt) \<longrightarrow> rt_federated_workspace rt \<noteq> [] \<and> od_default_role (rt_oidc rt) \<in> {''REVIEWER'', ''VIEWER''})"
proof -
  from assms obtain u where rt: "rt = rt0\<lparr>rt_trial_join_code := []\<rparr>" and c: "\<not> rt_trusted_headers_requested rt0"
    "\<not> (rt_bootstrap_token rt \<noteq> [] \<and> length (rt_bootstrap_token rt) < 32)" "\<not> rt_job_runner rt \<noteq> ''worker''"
    "check_federation ox rt = Inr u"
    unfolding validate_runtime_security_def Let_def
    by (simp add: bind_result_Inr split: option.splits) metis
  have "rt_environment rt = rt_environment rt0" "rt_trusted_headers_requested rt = rt_trusted_headers_requested rt0"
    "rt_trial_join_code rt = []" using rt by simp_all
  with c assms(2) federation_checked [OF c(4)] show ?thesis by auto
qed

text \<open>With settings that the start-up check accepted for production, nobody joins by a shared code, identity headers
  alone identify nobody, a request that writes with a session cookie needs its CSRF token and counts against the limit,
  and external accounts have a workspace to go to.\<close>

lemma production_starts_closed:
  assumes "validate_runtime_security ox rt0 = Inr rt" and "rt_environment rt0 = ''production''" and "runs_with rt ae ie ge"
  shows "trial_join ae p d = (Inl (HTTPException 403), d)
    \<and> (bearer_token ie rq = None \<longrightarrow> principal_without_session ie rq d = (Inl (HTTPException 401), d))
    \<and> csrf_enforced ge \<and> write_limits_enforced ge \<and> (ae_oidc ae \<noteq> None \<longrightarrow> ae_federated_workspace ae \<noteq> '''')"
proof -
  note a = accepted_production [OF assms(1,2)]
  have "ae_trial_join_code ae = ''''" using a assms(3) by (auto simp: runs_with_def asc_def)
  then have "trial_join ae p d = (Inl (HTTPException 403), d)" by (simp add: trial_join_def Let_def flow_simps)
  moreover have "\<not> ie_trusted_headers ie" using a assms(3) by (simp add: runs_with_def allow_trusted_headers_def)
  ultimately show ?thesis
    using a assms(3) by (auto simp: principal_without_session_def csrf_enforced_def write_limits_enforced_def runs_with_def asc_def)
qed

definition demo_runtime :: runtime_settings where
  "demo_runtime = \<lparr>rt_environment = ''production'', rt_job_runner = ''worker'', rt_job_stale_seconds = 900, rt_job_poll_seconds = 1,
     rt_public_origin = [1], rt_allowed_hosts = [[9]], rt_trusted_headers_requested = False, rt_trial_join_code = [120],
     rt_bootstrap_token = [], rt_data_root = [97], rt_oidc = demo_oidc_settings, rt_directory = demo_directory\<lparr>ds_server_uri := [], ds_user_dn_template := []\<rparr>,
     rt_federated_workspace = asc ''w''\<rparr>"

lemma demo_checks:
  "ox_urlsplit demo_oidc [1] = Some u \<Longrightarrow> check_origin u demo_runtime = Inr ()" "ox_urlsplit demo_oidc [1] \<noteq> None"
  "check_federation demo_oidc (demo_runtime\<lparr>rt_trial_join_code := []\<rparr>) = Inr ()" "strip [97] \<noteq> []"
  by (auto simp: demo_oidc_def check_origin_def refuse_def demo_runtime_def)[2]
    (simp_all add: check_federation_def demo_runtime_def demo_settings_simps demo_settings_valid directory_enabled_def asc_def
      strip_def lstrip_def is_space_def refuse_def)

lemma demo_runtime_accepted: "validate_runtime_security demo_oidc demo_runtime = Inr (demo_runtime\<lparr>rt_trial_join_code := []\<rparr>)"
proof -
  obtain u where u: "ox_urlsplit demo_oidc [1] = Some u" using demo_checks(2) by blast
  have "rt_environment demo_runtime = ''production''" "rt_job_runner demo_runtime = ''worker''" "rt_job_stale_seconds demo_runtime = 900"
    "rt_job_poll_seconds demo_runtime = 1" "rt_public_origin demo_runtime = [1]" "\<not> rt_trusted_headers_requested demo_runtime"
    "rt_bootstrap_token demo_runtime = []" "rt_data_root demo_runtime = [97]"
    by (simp_all add: demo_runtime_def)
  then show ?thesis using u demo_checks(1) [OF u] demo_checks(3,4)
    by (simp add: validate_runtime_security_def demo_settings_simps(6) Let_def)
qed

lemma production_starts_closed_example:
  "trial_join demo_auth_env \<lparr>tj_username = ''n'', tj_password = [], tj_join_code = ''x''\<rparr> demo_sign_db = (Inl (HTTPException 403), demo_sign_db)"
proof -
  have "runs_with (demo_runtime\<lparr>rt_trial_join_code := []\<rparr>) demo_auth_env demo_identity_env
      (demo_gate\<lparr>ge_production := True, ge_test := False\<rparr>)"
    by (simp add: runs_with_def demo_runtime_def demo_auth_env_def demo_identity_env_def demo_gate_def allow_trusted_headers_def asc_def)
  moreover have "rt_environment demo_runtime = ''production''" by (simp add: demo_runtime_def)
  ultimately show ?thesis using production_starts_closed [OF demo_runtime_accepted] by blast
qed

end
