(* ===== verification/Downloads.thy ===== *)
theory Downloads
  imports Run_Service Uploads Complex_Main
begin

text \<open>
  Files of a stored run that are sent back: the path check of \<open>source_file\<close> in \<open>src/app/services/run_service.py\<close> and the
  page preview of \<open>src/app/services/document_service.py\<close>. The file system and the PDF library are parameters: resolving
  a path gives its segments after all links, and a document answers what the preview asks of it.
\<close>

section \<open>Source files\<close>

record file_system =
  fs_resolve :: "string \<Rightarrow> string list"
  fs_is_file :: "string list \<Rightarrow> bool"

text \<open>The path and the name of the first asset with the identifier.\<close>

definition candidate :: "run_doc \<Rightarrow> string \<Rightarrow> (string \<times> string) option" where
  "candidate run source_id =
     (if source_id = ''TENDER-001'' then Some (rn_tender_path run, rn_tender_filename run)
      else map_option (\<lambda>e. (ef_path e, as_filename (ef_asset e)))
             (find (\<lambda>e. as_asset_id (ef_asset e) = source_id \<or> as_source_id (ef_asset e) = source_id) (rn_evidence_files run)))"

definition run_root :: "file_system \<Rightarrow> run_doc \<Rightarrow> string list" where
  "run_root fs run = butlast (fs_resolve fs (rn_tender_path run))"

definition last_segment :: "string list \<Rightarrow> string" where
  "last_segment p = (if p = [] then '''' else last p)"

definition source_file :: "file_system \<Rightarrow> run_doc \<Rightarrow> string \<Rightarrow> (string list \<times> string) result" where
  "source_file fs run source_id =
     (if path_name source_id \<noteq> source_id then Inl (HTTPException 400)
      else case candidate run source_id of
        None \<Rightarrow> Inl (HTTPException 404)
      | Some (candidate_path, filename) \<Rightarrow>
          if candidate_path = '''' then Inl (HTTPException 404)
          else let p = fs_resolve fs candidate_path
               in if \<not> prefix (run_root fs run) p then Inl (HTTPException 404)
                  else if \<not> fs_is_file fs p then Inl (HTTPException 404)
                  else Inr (p, path_name (if filename \<noteq> '''' then filename else last_segment p)))"

section \<open>Page preview\<close>

definition MAX_PREVIEW_EDGE :: rat where
  "MAX_PREVIEW_EDGE = 2000"

definition PREVIEW_SCALE :: rat where
  "PREVIEW_SCALE = 3 / 2"

text \<open>Sizes that are not finite have no value.\<close>

record preview_document =
  pv_is_pdf :: bool
  pv_needs_pass :: bool
  pv_sizes :: "(rat option \<times> rat option) list"

text \<open>What is rendered: the index of the page and the scale. \<open>open_document\<close> has no value where the library raises.\<close>

definition page_scale :: "rat \<Rightarrow> rat \<Rightarrow> rat" where
  "page_scale width height = min PREVIEW_SCALE (MAX_PREVIEW_EDGE / max width height)"

definition preview_page :: "preview_document \<Rightarrow> int \<Rightarrow> (nat \<times> rat) result" where
  "preview_page doc n =
     (if \<not> pv_is_pdf doc then Inl (HTTPException 415)
      else if pv_needs_pass doc then Inl (HTTPException 422)
      else if n > int (length (pv_sizes doc)) then Inl (HTTPException 404)
      else (case pv_sizes doc ! nat (n - 1) of
              (Some width, Some height) \<Rightarrow>
                if width \<le> 0 \<or> height \<le> 0 then Inl (HTTPException 422) else Inr (nat (n - 1), page_scale width height)
            | _ \<Rightarrow> Inl (HTTPException 422)))"

definition source_page_png ::
  "file_system \<Rightarrow> (string \<Rightarrow> string) \<Rightarrow> (string list \<Rightarrow> preview_document option) \<Rightarrow> run_doc \<Rightarrow> string \<Rightarrow> int \<Rightarrow> (nat \<times> rat) result" where
  "source_page_png fs lower open_document run source_id n =
     bind_result (source_file fs run source_id) (\<lambda>(p, _).
       if lower (path_suffix (last_segment p)) \<noteq> ''.pdf'' then Inl (HTTPException 415)
       else if n < 1 then Inl (HTTPException 422)
       else case open_document p of None \<Rightarrow> Inl (HTTPException 422) | Some doc \<Rightarrow> preview_page doc n)"

section \<open>Properties\<close>

lemma source_file_inside:
  assumes "source_file fs run source_id = Inr (p, name)"
  shows "prefix (run_root fs run) p \<and> fs_is_file fs p \<and> CHR ''/'' \<notin> set name \<and> CHR ''/'' \<notin> set source_id"
proof -
  from assms have "path_name source_id = source_id" by (auto simp: source_file_def split: if_splits)
  then have "CHR ''/'' \<notin> set source_id" using path_name_clean by metis
  with assms show ?thesis by (auto simp: source_file_def Let_def path_name_clean split: if_splits option.splits)
qed

lemma page_scale_bounds:
  assumes "0 < w" and "0 < h"
  shows "0 < page_scale w h \<and> page_scale w h * w \<le> MAX_PREVIEW_EDGE \<and> page_scale w h * h \<le> MAX_PREVIEW_EDGE"
proof -
  let ?s = "page_scale w h"
  have m: "0 < max w h" using assms by simp
  have "?s \<le> MAX_PREVIEW_EDGE / max w h" by (simp add: page_scale_def)
  with m have top: "?s * max w h \<le> MAX_PREVIEW_EDGE" by (simp add: pos_le_divide_eq)
  have pos: "0 < ?s" using m by (simp add: page_scale_def PREVIEW_SCALE_def MAX_PREVIEW_EDGE_def)
  have "?s * w \<le> ?s * max w h" "?s * h \<le> ?s * max w h" using pos by simp_all
  with top pos show ?thesis by linarith
qed

lemma preview_page_facts:
  assumes "preview_page doc n = Inr (i, scale)" and "1 \<le> n"
  shows "\<exists>w h. int i = n - 1 \<and> i < length (pv_sizes doc) \<and> pv_sizes doc ! i = (Some w, Some h) \<and> 0 < w \<and> 0 < h \<and> scale = page_scale w h"
  using assms by (auto simp: preview_page_def not_le not_less split: if_splits prod.splits option.splits)

text \<open>Whatever paths a run has stored, a preview reads only a regular file that lies, after all links are resolved, below the
  directory of the run's tender; it is of an existing page and at most 2000 pixels wide and high.\<close>

lemma previews_are_inside_and_bounded:
  assumes "source_page_png fs lower open_document run source_id n = Inr (i, scale)"
  shows "\<exists>p name doc w h. source_file fs run source_id = Inr (p, name) \<and> prefix (run_root fs run) p \<and> fs_is_file fs p
    \<and> open_document p = Some doc \<and> int i = n - 1 \<and> i < length (pv_sizes doc) \<and> pv_sizes doc ! i = (Some w, Some h)
    \<and> 0 < scale \<and> scale * w \<le> MAX_PREVIEW_EDGE \<and> scale * h \<le> MAX_PREVIEW_EDGE"
proof -
  from assms obtain p name where src: "source_file fs run source_id = Inr (p, name)" by (auto simp: source_page_png_def bind_result_Inr)
  with assms obtain doc where doc: "open_document p = Some doc" "1 \<le> n" "preview_page doc n = Inr (i, scale)"
    by (auto simp: source_page_png_def split: if_splits option.splits)
  from preview_page_facts [OF doc(3,2)] source_file_inside [OF src] src doc(1) show ?thesis
    using page_scale_bounds by blast
qed

definition demo_fs :: file_system where
  "demo_fs = \<lparr>fs_resolve = (\<lambda>_. [''runs'', ''r1'', ''t.pdf'']), fs_is_file = (\<lambda>_. True)\<rparr>"

definition demo_doc :: preview_document where
  "demo_doc = \<lparr>pv_is_pdf = True, pv_needs_pass = False, pv_sizes = [(Some 4000, Some 1000)]\<rparr>"

lemma demo_source: "source_file demo_fs (demo_run\<lparr>rn_tender_path := ''t''\<rparr>) ''TENDER-001'' = Inr ([''runs'', ''r1'', ''t.pdf''], ''t.pdf'')"
  by (simp add: source_file_def candidate_def run_root_def demo_fs_def demo_run_def path_name_def path_parts_def last_segment_def)

lemma demo_preview:
  "source_page_png demo_fs (\<lambda>s. s) (\<lambda>_. Some demo_doc) (demo_run\<lparr>rn_tender_path := ''t''\<rparr>) ''TENDER-001'' 1 = Inr (0, 1 / 2)"
  by (simp add: source_page_png_def demo_source demo_doc_def preview_page_def page_scale_def path_name_def path_parts_def
      path_suffix_def PREVIEW_SCALE_def MAX_PREVIEW_EDGE_def last_segment_def Let_def)

lemma previews_are_inside_and_bounded_example:
  "prefix (run_root demo_fs (demo_run\<lparr>rn_tender_path := ''t''\<rparr>)) [''runs'', ''r1'', ''t.pdf'']"
  using previews_are_inside_and_bounded [OF demo_preview] by (auto simp: demo_source)

end
