(* ===== verification/Run_Routes.thy ===== *)
theory Run_Routes
  imports Downloads Authz
begin

text \<open>
  The routes on runs and remediation items (\<open>src/app/api/runs.py\<close>), without the two that start a scan. A route
  checks a permission of the caller, loads the run it names within the caller's workspace and projects, and calls a
  service. The caller is given: \<open>principal_of\<close> reads what the middleware stored. Schema validation has happened before.
\<close>

section \<open>Building blocks\<close>

text \<open>\<open>str.upper\<close>, \<open>str.casefold\<close>, the digest of a text, the file system and the PDF library.\<close>

record api_env =
  ap_en :: env
  ap_upper :: "string \<Rightarrow> string"
  ap_casefold :: "ustr \<Rightarrow> ustr"
  ap_text_sha :: "ustr \<Rightarrow> string"
  ap_lower :: "string \<Rightarrow> string"
  ap_files :: file_system
  ap_open :: "string list \<Rightarrow> preview_document option"

definition guarded :: "api_env \<Rightarrow> principal \<Rightarrow> permission \<Rightarrow> ('s, 'a) handler \<Rightarrow> ('s, 'a) handler" where
  "guarded ap pr p m = and_then (attempt (\<lambda>_. require_permission (ap_upper ap) pr p)) (\<lambda>_. m)"

definition scoped :: "api_env \<Rightarrow> principal \<Rightarrow> string \<Rightarrow> (run_doc \<Rightarrow> (db, 'a) handler) \<Rightarrow> (db, 'a) handler" where
  "scoped ap pr x k = and_then (attempt (require_scoped (en_client (ap_en ap)) x pr)) k"

section \<open>Reading\<close>

definition list_runs_route :: "api_env \<Rightarrow> principal \<Rightarrow> listing_query \<Rightarrow> (db, run_summary list) handler" where
  "list_runs_route ap pr q =
     guarded ap pr RUN_READ (attempt (listing (ap_casefold ap) (en_client (ap_en ap)) pr q))"

definition get_run :: "api_env \<Rightarrow> principal \<Rightarrow> string \<Rightarrow> (db, run_view) handler" where
  "get_run ap pr x = guarded ap pr RUN_READ (scoped ap pr x (\<lambda>run. return_value (public_run run)))"

definition download_run_file :: "api_env \<Rightarrow> principal \<Rightarrow> string \<Rightarrow> string \<Rightarrow> (db, string list \<times> string) handler" where
  "download_run_file ap pr x source_id =
     guarded ap pr EVIDENCE_DOWNLOAD (scoped ap pr x (\<lambda>run. attempt (\<lambda>_. source_file (ap_files ap) run source_id)))"

definition preview_source_page :: "api_env \<Rightarrow> principal \<Rightarrow> string \<Rightarrow> string \<Rightarrow> int \<Rightarrow> (db, nat \<times> rat) handler" where
  "preview_source_page ap pr x source_id n =
     guarded ap pr EVIDENCE_DOWNLOAD (scoped ap pr x (\<lambda>run.
       attempt (\<lambda>_. source_page_png (ap_files ap) (ap_lower ap) (ap_open ap) run source_id n)))"

definition diff_runs :: "api_env \<Rightarrow> principal \<Rightarrow> string \<Rightarrow> string \<Rightarrow> (db, run_diff) handler" where
  "diff_runs ap pr x y =
     guarded ap pr RUN_READ (scoped ap pr x (\<lambda>current. scoped ap pr y (\<lambda>other.
       return_value (diff (ap_casefold ap) current other))))"

definition get_run_audit :: "api_env \<Rightarrow> principal \<Rightarrow> string \<Rightarrow> (db, audit_event list) handler" where
  "get_run_audit ap pr x =
     guarded ap pr AUDIT_READ (scoped ap pr x (\<lambda>_. fetch (list_audit_events (pr_workspace_id pr) (Some x))))"

definition get_comments :: "api_env \<Rightarrow> principal \<Rightarrow> string \<Rightarrow> (db, comment_row list) handler" where
  "get_comments ap pr x =
     guarded ap pr RUN_READ (scoped ap pr x (\<lambda>_. fetch (list_comments (pr_workspace_id pr) x)))"

definition get_run_remediations :: "api_env \<Rightarrow> principal \<Rightarrow> string \<Rightarrow> (db, remediation_row list) handler" where
  "get_run_remediations ap pr x =
     guarded ap pr RUN_READ (scoped ap pr x (\<lambda>_. fetch (list_remediations (pr_workspace_id pr) x)))"

definition list_requirements ::
  "api_env \<Rightarrow> principal \<Rightarrow> string \<Rightarrow> string option \<Rightarrow> string option \<Rightarrow> string option \<Rightarrow> (db, requirement list) handler" where
  "list_requirements ap pr x category status severity =
     guarded ap pr RUN_READ (scoped ap pr x (\<lambda>run.
       return_value (requirements (ap_upper ap) run category status severity)))"

definition list_run_evidence :: "api_env \<Rightarrow> principal \<Rightarrow> string \<Rightarrow> (db, asset list) handler" where
  "list_run_evidence ap pr x =
     guarded ap pr RUN_READ (scoped ap pr x (\<lambda>run. return_value (rn_evidence_assets run)))"

section \<open>Writing\<close>

definition bulk_manage_runs :: "api_env \<Rightarrow> principal \<Rightarrow> string list \<Rightarrow> bulk_action \<Rightarrow> (db, nat) handler" where
  "bulk_manage_runs ap pr run_ids action =
     guarded ap pr (if action = DELETE_RUNS then RUN_DELETE else RUN_UPDATE) (bulk_manage (ap_en ap) pr run_ids action)"

definition update_run_metadata :: "api_env \<Rightarrow> principal \<Rightarrow> string \<Rightarrow> metadata_request \<Rightarrow> (db, run_view) handler" where
  "update_run_metadata ap pr x p =
     guarded ap pr RUN_UPDATE (scoped ap pr x (\<lambda>run. update_metadata (ap_en ap) pr run p))"

definition create_comment :: "api_env \<Rightarrow> principal \<Rightarrow> string \<Rightarrow> ustr \<Rightarrow> (db, comment_row) handler" where
  "create_comment ap pr x body =
     guarded ap pr RUN_UPDATE (scoped ap pr x (\<lambda>_.
       and_then (perform (add_comment (pr_workspace_id pr) x (pr_user_id pr) (strip body) (en_new_id (ap_en ap)) (en_now (ap_en ap)))) (\<lambda>c.
       and_then (change (audit (ap_en ap) 0 pr ''COMMENT_ADDED'' (Some x) (JObj [(''comment_id'', jstr (cm_comment_id c))]))) (\<lambda>_.
       return_value c))))"

definition create_run_remediation :: "api_env \<Rightarrow> principal \<Rightarrow> string \<Rightarrow> remediation_payload \<Rightarrow> (db, remediation_row) handler" where
  "create_run_remediation ap pr x p =
     guarded ap pr RUN_UPDATE (scoped ap pr x (\<lambda>run. service_create_remediation (ap_en ap) pr run p))"

definition create_accuracy_feedback :: "api_env \<Rightarrow> principal \<Rightarrow> string \<Rightarrow> feedback_payload \<Rightarrow> (db, feedback_row) handler" where
  "create_accuracy_feedback ap pr x p =
     guarded ap pr RUN_REVIEW (scoped ap pr x (\<lambda>run.
       service_add_accuracy_feedback (ap_upper ap) (ap_text_sha ap) (ap_en ap) pr run p))"

definition review_run :: "api_env \<Rightarrow> principal \<Rightarrow> string \<Rightarrow> review_request \<Rightarrow> (db, run_view) handler" where
  "review_run ap pr x p = guarded ap pr RUN_REVIEW (scoped ap pr x (\<lambda>run. review (ap_en ap) pr run p))"

definition save_decision :: "api_env \<Rightarrow> principal \<Rightarrow> string \<Rightarrow> decision_request \<Rightarrow> (db, run_view) handler" where
  "save_decision ap pr x p = guarded ap pr RUN_DECIDE (scoped ap pr x (\<lambda>run. record_decision (ap_en ap) pr run p))"

definition remove_run :: "api_env \<Rightarrow> principal \<Rightarrow> string \<Rightarrow> (db, string \<times> bool) handler" where
  "remove_run ap pr x = guarded ap pr RUN_DELETE (scoped ap pr x (\<lambda>run. perform (delete (ap_en ap) pr run)))"

section \<open>Remediation items\<close>

definition require_scoped_remediation :: "string \<Rightarrow> principal \<Rightarrow> db \<Rightarrow> remediation_row result" where
  "require_scoped_remediation x pr d =
     (case load_remediation x d of
        None \<Rightarrow> Inl (HTTPException 404)
      | Some m \<Rightarrow> if rm_workspace_id m \<noteq> pr_workspace_id pr then Inl (HTTPException 404) else Inr m)"

definition patch_remediation :: "api_env \<Rightarrow> principal \<Rightarrow> string \<Rightarrow> remediation_update \<Rightarrow> (db, remediation_row) handler" where
  "patch_remediation ap pr x p =
     guarded ap pr RUN_UPDATE (
       and_then (attempt (require_scoped_remediation x pr)) (\<lambda>item.
       and_then (perform (update_remediation x p (en_now (ap_en ap)))) (\<lambda>updated.
       case updated of
         None \<Rightarrow> raise_error TypeError
       | Some m \<Rightarrow>
           and_then (change (audit (ap_en ap) 0 pr ''REMEDIATION_UPDATED'' (Some (rm_run_id item))
                (JObj [(''remediation_id'', jstr x), (''status'', jstr (rm_status m))]))) (\<lambda>_.
           return_value m))))"

end
