(* ===== verification/Backup.thy ===== *)
theory Backup
  imports Workspace_Service Uploads
begin

text \<open>
  Backups (\<open>src/work/backup_restore.py\<close>): creation, verification, listing and restoration. SHA-256, ZIP, JSON, the online
  copy and the integrity check of SQLite, \<open>pg_dump\<close> and \<open>pg_restore\<close> are parameters. A backup directory is a
  list of files with their bytes, a tree of uploads a list of relative paths with theirs.
\<close>

section \<open>Data\<close>

type_synonym content = "nat list"

type_synonym file_tree = "(string list \<times> content) list"

record backup_env =
  be_sha256 :: "content \<Rightarrow> ustr"
  be_zip :: "(string \<times> content) list \<Rightarrow> content"
  be_unzip :: "content \<Rightarrow> (string \<times> content) list option"
  be_dumps :: "json \<Rightarrow> content"
  be_loads :: "content \<Rightarrow> json option"
  be_copy :: "content \<Rightarrow> content"
  be_integrity :: "content \<Rightarrow> bool result"
  be_pg_dump :: "content \<Rightarrow> content option"
  be_pg_restore :: "content \<Rightarrow> content option"
  be_resolve :: "string list \<Rightarrow> string \<Rightarrow> string list"
  be_now :: ustr

record backup_dir =
  bd_name :: string
  bd_files :: "(string \<times> content) list"

definition file_of :: "backup_dir \<Rightarrow> string \<Rightarrow> content option" where
  "file_of bd name = map_of (bd_files bd) name"

definition put_file :: "string \<Rightarrow> content \<Rightarrow> backup_dir \<Rightarrow> backup_dir" where
  "put_file name x bd = bd\<lparr>bd_files := (name, x) # filter (\<lambda>(n, _). n \<noteq> name) (bd_files bd)\<rparr>"

section \<open>Creation\<close>

text \<open>\<open>backup_engine\<close>: a database other than the configured one is an SQLite file.\<close>

definition backup_engine :: "bool \<Rightarrow> bool \<Rightarrow> string" where
  "backup_engine configured_db sqlite_url = (if \<not> configured_db then ''sqlite'' else if sqlite_url then ''sqlite'' else ''postgresql'')"

definition dir_name :: "string \<Rightarrow> nat \<Rightarrow> string" where
  "dir_name stamp k = (if k = 0 then stamp else stamp @ ''-'' @ zfill 2 (decimal k))"

text \<open>The loop tries the counters from \<open>k\<close> until a name is free; \<open>left\<close> bounds the tries.\<close>

primrec new_backup_dir :: "string \<Rightarrow> string list \<Rightarrow> nat \<Rightarrow> nat \<Rightarrow> string option" where
  "new_backup_dir stamp existing 0 k = None"
| "new_backup_dir stamp existing (Suc left) k =
     (if dir_name stamp k \<in> set existing then new_backup_dir stamp existing left (k + 1) else Some (dir_name stamp k))"

definition arc_name :: "string list \<Rightarrow> string" where
  "arc_name p = join ''/'' p"

definition archive_uploads :: "backup_env \<Rightarrow> file_tree \<Rightarrow> content \<times> nat" where
  "archive_uploads be uploads = (be_zip be (map (\<lambda>(p, x). (arc_name p, x)) (sort_key fst uploads)), length uploads)"

text \<open>The directory as it is left, and whether the call succeeded: a failing dump leaves a directory without manifest.\<close>

definition create_backup :: "backup_env \<Rightarrow> string \<Rightarrow> content \<Rightarrow> file_tree \<Rightarrow> string \<Rightarrow> unit result \<times> backup_dir" where
  "create_backup be engine database uploads name =
     (let bd = \<lparr>bd_name = name, bd_files = []\<rparr>;
          db_file = (if engine = ''postgresql'' then ''database.dump'' else ''bidproof.sqlite3'')
      in case (if engine = ''postgresql'' then be_pg_dump be database else Some (be_copy be database)) of
           None \<Rightarrow> (Inl RuntimeError, bd)
         | Some db_copy \<Rightarrow>
             let (zipped, count) = archive_uploads be uploads;
                 manifest = JObj [(''created_at'', JStr (be_now be)), (''engine'', jstr engine),
                   (''database_sha256'', JStr (be_sha256 be db_copy)), (''uploads_sha256'', JStr (be_sha256 be zipped)),
                   (''database_file'', jstr db_file), (''uploads_file'', jstr ''uploads.zip''),
                   (''upload_file_count'', JInt (int count)), (''database_size_bytes'', JInt (int (length db_copy)))]
             in (Inr (), put_file ''manifest.json'' (be_dumps be manifest) (put_file ''uploads.zip'' zipped (put_file db_file db_copy bd))))"

section \<open>Verification\<close>

definition entry :: "string \<Rightarrow> json \<Rightarrow> json option" where
  "entry k j = (case j of JObj kvs \<Rightarrow> map_of kvs k | _ \<Rightarrow> None)"

definition name_entry :: "string \<Rightarrow> json \<Rightarrow> string result" where
  "name_entry k j = (case entry k j of None \<Rightarrow> Inl KeyError | Some (JStr s) \<Rightarrow> Inr (map char_of s) | Some _ \<Rightarrow> Inl TypeError)"

text \<open>A digest that the manifest does not name, or names otherwise, is not the one computed.\<close>

definition has_digest :: "backup_env \<Rightarrow> string \<Rightarrow> json \<Rightarrow> content option \<Rightarrow> bool result" where
  "has_digest be k manifest x =
     (case x of
        None \<Rightarrow> Inr False
      | Some c \<Rightarrow> (case entry k manifest of None \<Rightarrow> Inl KeyError | Some j \<Rightarrow> Inr (j = JStr (be_sha256 be c))))"

definition engine_of :: "json \<Rightarrow> json" where
  "engine_of manifest = (case entry ''engine'' manifest of None \<Rightarrow> jstr ''sqlite'' | Some j \<Rightarrow> j)"

text \<open>The manifest is missing in the answer if its file is. The comparisons stop at the first that fails.\<close>

definition verify_backup :: "backup_env \<Rightarrow> backup_dir \<Rightarrow> (bool \<times> json option) result" where
  "verify_backup be bd =
     (case file_of bd ''manifest.json'' of
        None \<Rightarrow> Inr (False, None)
      | Some raw \<Rightarrow>
          (case be_loads be raw of
             None \<Rightarrow> Inl ValueError
           | Some manifest \<Rightarrow>
               bind_result (name_entry ''database_file'' manifest) (\<lambda>db_name.
               bind_result (name_entry ''uploads_file'' manifest) (\<lambda>uploads_name.
               let db_file = file_of bd db_name; uploads_file = file_of bd uploads_name
               in bind_result (if db_file = None \<or> uploads_file = None then Inr False
                    else bind_result (has_digest be ''database_sha256'' manifest db_file) (\<lambda>same.
                         if same then has_digest be ''uploads_sha256'' manifest uploads_file else Inr False)) (\<lambda>valid.
                  bind_result (if valid \<and> engine_of manifest = jstr ''sqlite'' then be_integrity be (the db_file) else Inr valid) (\<lambda>ok.
                  Inr (ok, Some manifest)))))))"

definition record_backup_verification :: "backup_env \<Rightarrow> backup_dir \<Rightarrow> json result \<times> backup_dir" where
  "record_backup_verification be bd =
     (case verify_backup be bd of
        Inl e \<Rightarrow> (Inl e, bd)
      | Inr (valid, manifest) \<Rightarrow>
          let j = JObj ([(''valid'', JBool valid)]
                 @ (case manifest of None \<Rightarrow> [(''error'', jstr ''manifest missing'')] | Some m \<Rightarrow> [(''manifest'', m)])
                 @ [(''backup_id'', jstr (bd_name bd)), (''verified_at'', JStr (be_now be))])
          in (Inr j, put_file ''verification.json'' (be_dumps be j) bd))"

text \<open>The truth of a JSON value.\<close>

definition json_true :: "json \<Rightarrow> bool" where
  "json_true j = (case j of JNull \<Rightarrow> False | JBool b \<Rightarrow> b | JInt n \<Rightarrow> n \<noteq> 0 | JStr s \<Rightarrow> s \<noteq> [] | JList xs \<Rightarrow> xs \<noteq> [] | JObj kvs \<Rightarrow> kvs \<noteq> [])"

definition text_entry :: "string \<Rightarrow> json \<Rightarrow> string option" where
  "text_entry k j = (case entry k j of Some (JStr s) \<Rightarrow> Some (map char_of s) | _ \<Rightarrow> None)"

text \<open>One record of the list; a directory without a manifest, or with a file that is no JSON, has none.\<close>

record backup_listing = backup_record +
  bl_backup_id :: string
  bl_engine :: json
  bl_database_sha256 :: "string option"
  bl_uploads_sha256 :: "string option"

definition backup_record_of :: "backup_env \<Rightarrow> backup_dir \<Rightarrow> backup_listing list" where
  "backup_record_of be bd =
     (case file_of bd ''manifest.json'' of
        None \<Rightarrow> []
      | Some raw \<Rightarrow>
          (case (be_loads be raw,
                 case file_of bd ''verification.json'' of None \<Rightarrow> Some (JObj []) | Some v \<Rightarrow> be_loads be v) of
             (Some manifest, Some verification) \<Rightarrow>
               [\<lparr>bk_created_at = text_entry ''created_at'' manifest, bk_verified_at = text_entry ''verified_at'' verification,
                 bk_valid = (case entry ''valid'' verification of None \<Rightarrow> False | Some j \<Rightarrow> json_true j),
                 bl_backup_id = bd_name bd, bl_engine = engine_of manifest,
                 bl_database_sha256 = text_entry ''database_sha256'' manifest, bl_uploads_sha256 = text_entry ''uploads_sha256'' manifest\<rparr>]
           | _ \<Rightarrow> []))"

definition list_backup_records :: "backup_env \<Rightarrow> backup_dir list \<Rightarrow> backup_listing list" where
  "list_backup_records be dirs = concat (map (backup_record_of be) (rev (sort_key bd_name dirs)))"

section \<open>Restoration\<close>

record restore_target =
  rs_database :: "content option"
  rs_uploads :: "string list \<rightharpoonup> content"

text \<open>The path below the target to which \<open>extractall\<close> writes a member: empty components and dots are dropped.\<close>

definition arc_parts :: "string \<Rightarrow> string list" where
  "arc_parts name = filter (\<lambda>p. p \<noteq> '''' \<and> p \<noteq> ''.'' \<and> p \<noteq> ''..'') (split_on CHR ''/'' name [])"

definition is_dir :: "string \<times> content \<Rightarrow> bool" where
  "is_dir m \<longleftrightarrow> (fst m \<noteq> '''' \<and> last (fst m) = CHR ''/'')"

definition safe_member :: "backup_env \<Rightarrow> string list \<Rightarrow> string \<times> content \<Rightarrow> bool" where
  "safe_member be target m \<longleftrightarrow> prefix (be_resolve be target '''') (be_resolve be target (fst m))"

definition extract_uploads :: "backup_env \<Rightarrow> string list \<Rightarrow> content \<Rightarrow> restore_target \<Rightarrow> nat result \<times> restore_target" where
  "extract_uploads be target archive t =
     (case be_unzip be archive of
        None \<Rightarrow> (Inl ValueError, t)
      | Some members \<Rightarrow>
          if \<not> list_all (safe_member be target) members then (Inl ValueError, t)
          else let kept = filter (\<lambda>m. \<not> is_dir m) members
               in (Inr (length kept),
                   t\<lparr>rs_uploads := fold (\<lambda>(n, x) f. f(arc_parts n \<mapsto> x)) kept (rs_uploads t)\<rparr>))"

definition restore_backup :: "backup_env \<Rightarrow> backup_dir \<Rightarrow> string list \<Rightarrow> restore_target \<Rightarrow> nat result \<times> restore_target" where
  "restore_backup be bd target t =
     (case verify_backup be bd of
        Inl e \<Rightarrow> (Inl e, t)
      | Inr (False, _) \<Rightarrow> (Inl ValueError, t)
      | Inr (True, None) \<Rightarrow> (Inl ValueError, t)
      | Inr (True, Some manifest) \<Rightarrow>
          (case (name_entry ''database_file'' manifest, name_entry ''uploads_file'' manifest) of
             (Inr db_name, Inr uploads_name) \<Rightarrow>
               let database = the (file_of bd db_name); archive = the (file_of bd uploads_name)
               in if engine_of manifest = jstr ''postgresql'' then
                    (case be_pg_restore be database of
                       None \<Rightarrow> (Inl RuntimeError, t)
                     | Some restored \<Rightarrow> extract_uploads be target archive (t\<lparr>rs_database := Some restored\<rparr>))
                  else
                    (case be_integrity be database of
                       Inl e \<Rightarrow> (Inl e, t)
                     | Inr ok \<Rightarrow>
                         if \<not> ok then (Inl ValueError, t)
                         else extract_uploads be target archive (t\<lparr>rs_database := Some database\<rparr>))
           | _ \<Rightarrow> (Inl KeyError, t)))"

section \<open>A backup restores what it saved\<close>

definition plain_part :: "string \<Rightarrow> bool" where
  "plain_part p \<longleftrightarrow> p \<noteq> '''' \<and> p \<noteq> ''.'' \<and> p \<noteq> ''..'' \<and> CHR ''/'' \<notin> set p"

definition plain_path :: "string list \<Rightarrow> bool" where
  "plain_path p \<longleftrightarrow> p \<noteq> [] \<and> list_all plain_part p"

lemma split_on_app: "c \<notin> set p \<Longrightarrow> split_on c (p @ s) acc = split_on c s (rev p @ acc)"
  by (induction p arbitrary: acc) auto

lemma split_on_join: "p \<noteq> [] \<Longrightarrow> list_all (\<lambda>x. c \<notin> set x) p \<Longrightarrow> split_on c (join [c] p) [] = p"
proof (induction "[c]" p rule: join.induct)
  case (2 x)
  then show ?case using split_on_app [of c x "[]" "[]"] by simp
next
  case (3 x y ys)
  then show ?case using split_on_app [of c x "c # join [c] (y # ys)" "[]"] by simp
qed simp

lemma arc_parts_of_plain: "plain_path p \<Longrightarrow> arc_parts (arc_name p) = p"
proof -
  assume p: "plain_path p"
  then have "split_on CHR ''/'' (arc_name p) [] = p"
    unfolding arc_name_def by (intro split_on_join) (auto simp: plain_path_def plain_part_def list_all_iff)
  then show "arc_parts (arc_name p) = p"
    using p by (simp add: arc_parts_def plain_path_def plain_part_def list_all_iff filter_id_conv)
qed

lemma last_join: "p \<noteq> [] \<Longrightarrow> last p \<noteq> [] \<Longrightarrow> join sep p \<noteq> [] \<and> last (join sep p) = last (last p)"
  by (induction sep p rule: join.induct) auto

lemma plain_is_file: "plain_path p \<Longrightarrow> \<not> is_dir (arc_name p, x)"
proof -
  assume p: "plain_path p"
  then have l: "plain_part (last p)" by (simp add: plain_path_def list_all_iff)
  then have "last (arc_name p) = last (last p)"
    using p last_join [of p "''/''"] by (simp add: arc_name_def plain_path_def plain_part_def)
  moreover have "last (last p) \<noteq> CHR ''/''"
    using l last_in_set [of "last p"] unfolding plain_part_def by metis
  ultimately show "\<not> is_dir (arc_name p, x)" by (simp add: is_dir_def)
qed

lemma extracted_members:
  "list_all (plain_path \<circ> fst) ups \<Longrightarrow> distinct (map fst ups)
   \<Longrightarrow> fold (\<lambda>(n, x) f. f(arc_parts n \<mapsto> x)) (map (\<lambda>(p, x). (arc_name p, x)) ups) f = f ++ map_of ups"
proof (induction ups arbitrary: f)
  case (Cons u ups)
  obtain p x where u: "u = (p, x)" by (cases u)
  have "p \<notin> fst ` set ups" using Cons.prems u by simp
  then have "(f(p \<mapsto> x)) ++ map_of ups = f ++ map_of ((p, x) # ups)"
    using map_add_upd_left [of p "map_of ups" f x] by (simp add: dom_map_of_conv_image_fst)
  moreover have "arc_parts (arc_name p) = p" using Cons.prems u arc_parts_of_plain by simp
  moreover have "fold (\<lambda>(n, x) f. f(arc_parts n \<mapsto> x)) (map (\<lambda>(p, x). (arc_name p, x)) ups) (f(p \<mapsto> x))
      = (f(p \<mapsto> x)) ++ map_of ups"
    using Cons.prems by (intro Cons.IH) simp_all
  ultimately show ?case using u by (simp only: list.map fold_simps split_conv)
qed simp

lemma sorted_uploads_same: "distinct (map fst ups) \<Longrightarrow> map_of (sort_key fst ups) = map_of ups"
  by (rule map_of_inject_set [THEN iffD2]) (simp_all add: distinct_map)

lemma archived_uploads_return:
  assumes zip: "\<And>xs. be_unzip be (be_zip be xs) = Some xs"
    and resolve: "\<And>p. list_all plain_part p \<Longrightarrow> be_resolve be target (arc_name p) = target @ p"
    and ups: "list_all (plain_path \<circ> fst) ups" "distinct (map fst ups)"
  shows "extract_uploads be target (fst (archive_uploads be ups)) t
         = (Inr (length ups), t\<lparr>rs_uploads := rs_uploads t ++ map_of ups\<rparr>)"
proof -
  define sorted_ups where "sorted_ups = sort_key fst ups"
  let ?members = "map (\<lambda>(p, x). (arc_name p, x)) sorted_ups"
  have plain: "list_all (plain_path \<circ> fst) sorted_ups" using ups(1) by (simp add: sorted_ups_def list_all_iff)
  have d: "distinct (map fst sorted_ups)" using ups(2) by (simp add: sorted_ups_def distinct_map)
  have "be_resolve be target [] = target" using resolve [of "[]"] by (simp add: arc_name_def)
  then have safe: "list_all (safe_member be target) ?members"
    using plain resolve by (fastforce simp: list_all_iff safe_member_def plain_path_def)
  have "filter (\<lambda>m. \<not> is_dir m) ?members = ?members"
    using plain by (intro filter_True) (auto simp: list_all_iff plain_is_file)
  then show ?thesis
    using safe zip extracted_members [OF plain d] sorted_uploads_same [OF ups(2)]
    by (simp add: extract_uploads_def archive_uploads_def Let_def sorted_ups_def [symmetric])
       (simp add: sorted_ups_def)
qed

text \<open>The manifest of an SQLite backup and what verification reads from it.\<close>

definition sqlite_manifest :: "backup_env \<Rightarrow> content \<Rightarrow> content \<Rightarrow> nat \<Rightarrow> json" where
  "sqlite_manifest be db_copy zipped count =
     JObj [(''created_at'', JStr (be_now be)), (''engine'', jstr ''sqlite''),
           (''database_sha256'', JStr (be_sha256 be db_copy)), (''uploads_sha256'', JStr (be_sha256 be zipped)),
           (''database_file'', jstr ''bidproof.sqlite3''), (''uploads_file'', jstr ''uploads.zip''),
           (''upload_file_count'', JInt (int count)), (''database_size_bytes'', JInt (int (length db_copy)))]"

lemma sqlite_manifest_entries:
  "entry ''engine'' (sqlite_manifest be c z n) = Some (jstr ''sqlite'')"
  "entry ''database_sha256'' (sqlite_manifest be c z n) = Some (JStr (be_sha256 be c))"
  "entry ''uploads_sha256'' (sqlite_manifest be c z n) = Some (JStr (be_sha256 be z))"
  "entry ''database_file'' (sqlite_manifest be c z n) = Some (jstr ''bidproof.sqlite3'')"
  "entry ''uploads_file'' (sqlite_manifest be c z n) = Some (jstr ''uploads.zip'')"
  by (simp_all add: sqlite_manifest_def entry_def)

lemma char_of_asc: "map char_of (asc s) = s"
  by (simp add: asc_def o_def map_idI)

lemma name_entry_jstr: "entry k j = Some (jstr s) \<Longrightarrow> name_entry k j = Inr s"
  by (simp add: name_entry_def jstr_def char_of_asc)

lemma sqlite_manifest_names:
  "name_entry ''database_file'' (sqlite_manifest be c z n) = Inr ''bidproof.sqlite3''"
  "name_entry ''uploads_file'' (sqlite_manifest be c z n) = Inr ''uploads.zip''"
  "engine_of (sqlite_manifest be c z n) = jstr ''sqlite''"
  by (simp_all add: name_entry_jstr engine_of_def sqlite_manifest_entries)

lemma engines_differ: "jstr ''sqlite'' \<noteq> jstr ''postgresql''"
  by (simp add: jstr_def asc_def)

lemma sqlite_backup_files:
  fixes be database ups name
  defines "bd \<equiv> snd (create_backup be ''sqlite'' database ups name)"
    and "z \<equiv> fst (archive_uploads be ups)" and "n \<equiv> snd (archive_uploads be ups)"
  shows "file_of bd ''manifest.json'' = Some (be_dumps be (sqlite_manifest be (be_copy be database) z n))"
    and "file_of bd ''bidproof.sqlite3'' = Some (be_copy be database)"
    and "file_of bd ''uploads.zip'' = Some z"
  by (simp_all add: assms create_backup_def file_of_def put_file_def sqlite_manifest_def Let_def split: prod.splits)

lemma sqlite_backup_verifies:
  assumes "\<And>c z n. be_loads be (be_dumps be (sqlite_manifest be c z n)) = Some (sqlite_manifest be c z n)"
    and "be_integrity be (be_copy be database) = Inr True"
  shows "verify_backup be (snd (create_backup be ''sqlite'' database ups name))
         = Inr (True, Some (sqlite_manifest be (be_copy be database) (fst (archive_uploads be ups)) (snd (archive_uploads be ups))))"
  using assms by (simp add: verify_backup_def sqlite_backup_files sqlite_manifest_names sqlite_manifest_entries has_digest_def Let_def)

text \<open>C25: An SQLite backup of uploads whose names are plain, restored anywhere, leaves the copied database and every
  upload with its bytes: uploads of the target with other names stay, those with the same name are replaced. The
  library is relied on for its round trips (ZIP, and JSON on manifests), for resolving plain names below the target, and for a copy
  that passes the integrity check.
\<close>

theorem backup_restores_what_it_saved:
  assumes zip: "\<And>xs. be_unzip be (be_zip be xs) = Some xs"
    and json: "\<And>c z n. be_loads be (be_dumps be (sqlite_manifest be c z n)) = Some (sqlite_manifest be c z n)"
    and integrity: "be_integrity be (be_copy be database) = Inr True"
    and resolve: "\<And>p. list_all plain_part p \<Longrightarrow> be_resolve be target (arc_name p) = target @ p"
    and ups: "list_all (plain_path \<circ> fst) ups" "distinct (map fst ups)"
  shows "restore_backup be (snd (create_backup be ''sqlite'' database ups name)) target t
         = (Inr (length ups), \<lparr>rs_database = Some (be_copy be database), rs_uploads = rs_uploads t ++ map_of ups\<rparr>)"
  using archived_uploads_return [where be = be, OF zip resolve ups] integrity
  by (simp add: restore_backup_def sqlite_backup_verifies json sqlite_backup_files sqlite_manifest_names engines_differ Let_def)

text \<open>An example of the library: an archive lists lengths before what they measure, a digest is the content itself.\<close>

definition demo_pack :: "(string \<times> content) list \<Rightarrow> content" where
  "demo_pack xs = concat (map (\<lambda>(n, x). length n # asc n @ length x # x) xs)"

fun demo_unpack :: "nat \<Rightarrow> content \<Rightarrow> (string \<times> content) list option" where
  "demo_unpack k [] = Some []"
| "demo_unpack (Suc k) (n # r) =
     (case drop n r of
        [] \<Rightarrow> None
      | m # t \<Rightarrow> map_option ((#) (map char_of (take n r), take m t)) (demo_unpack k (drop m t)))"
| "demo_unpack 0 (n # r) = None"

lemma demo_unpack_pack: "length xs \<le> k \<Longrightarrow> demo_unpack k (demo_pack xs) = Some xs"
proof (induction xs arbitrary: k)
  case (Cons x xs)
  obtain n c where x: "x = (n, c)" by (cases x)
  obtain k' where k: "k = Suc k'" using Cons.prems by (cases k) auto
  have "length n = length (asc n)" by (simp add: asc_def)
  then show ?case using Cons x k by (simp add: demo_pack_def char_of_asc)
qed (simp add: demo_pack_def)

lemma demo_pack_length: "length xs \<le> length (demo_pack xs)"
  by (induction xs) (auto simp: demo_pack_def)

definition demo_dumps :: "json \<Rightarrow> content" where
  "demo_dumps j =
     (case j of
        JObj kvs \<Rightarrow> demo_pack (map (\<lambda>(k, v). (k, case v of JStr s \<Rightarrow> 0 # s | JInt i \<Rightarrow> [1, nat i] | _ \<Rightarrow> [])) kvs)
      | _ \<Rightarrow> [])"

definition demo_loads :: "content \<Rightarrow> json option" where
  "demo_loads c = map_option (\<lambda>kvs. JObj (map (\<lambda>(k, v). (k, case v of n # s \<Rightarrow> if n = 0 then JStr s else JInt (int (hd s)) | [] \<Rightarrow> JNull)) kvs))
     (demo_unpack (length c) c)"

definition demo_library :: backup_env where
  "demo_library = \<lparr>be_sha256 = (\<lambda>c. c), be_zip = demo_pack, be_unzip = (\<lambda>c. demo_unpack (length c) c), be_dumps = demo_dumps,
     be_loads = demo_loads, be_copy = (\<lambda>c. c), be_integrity = (\<lambda>c. Inr (c \<noteq> [])), be_pg_dump = (\<lambda>_. None),
     be_pg_restore = (\<lambda>_. None), be_resolve = (\<lambda>target name. target @ arc_parts name), be_now = asc ''20260101T000000Z''\<rparr>"

lemma demo_manifest: "demo_loads (demo_dumps (sqlite_manifest be c z n)) = Some (sqlite_manifest be c z n)"
  by (simp add: demo_loads_def demo_dumps_def sqlite_manifest_def demo_unpack_pack demo_pack_length jstr_def
      order.trans [OF _ demo_pack_length])

lemma demo_resolve: "list_all plain_part p \<Longrightarrow> arc_parts (arc_name p) = p"
  by (cases "p = []") (simp_all add: arc_parts_of_plain plain_path_def, simp add: arc_parts_def arc_name_def)

definition demo_uploads :: file_tree where
  "demo_uploads = [([''run-1'', ''tender.pdf''], [37, 80]), ([''run-1'', ''evidence.pdf''], [37, 81])]"

theorem backup_restores_what_it_saved_witness:
  "restore_backup demo_library (snd (create_backup demo_library ''sqlite'' [1, 2] demo_uploads ''20260101T000000Z'')) [''restored'']
     \<lparr>rs_database = None, rs_uploads = Map.empty\<rparr>
   = (Inr 2, \<lparr>rs_database = Some [1, 2], rs_uploads = map_of demo_uploads\<rparr>)"
  using backup_restores_what_it_saved [of demo_library "[1, 2]" "[''restored'']" demo_uploads "''20260101T000000Z''"
      "\<lparr>rs_database = None, rs_uploads = Map.empty\<rparr>"]
  by (simp add: demo_library_def demo_unpack_pack demo_pack_length demo_manifest demo_resolve demo_uploads_def plain_path_def plain_part_def)

section \<open>Names of the directories\<close>

lemma new_backup_dir_free:
  "new_backup_dir stamp existing left k = Some name \<Longrightarrow> name \<notin> set existing \<and> (\<exists>j. name = dir_name stamp j)"
  by (induction left arbitrary: k) (auto split: if_splits)

lemma new_backup_dir_stuck:
  "new_backup_dir stamp existing left k = None \<Longrightarrow> dir_name stamp ` {k..<k + left} \<subseteq> set existing"
proof (induction left arbitrary: k)
  case (Suc left)
  then have "dir_name stamp k \<in> set existing" "new_backup_dir stamp existing left (k + 1) = None" by (auto split: if_splits)
  moreover have "{k..<k + Suc left} = insert k {k + 1..<k + 1 + left}" by auto
  ultimately show ?case using Suc.IH [of "k + 1"] by simp
qed simp

lemma dir_name_inj: "inj_on (dir_name stamp) UNIV"
  by (rule inj_onI) (auto simp: dir_name_def zfill_inj split: if_splits)

lemma new_backup_dir_found:
  assumes "length existing < left"
  shows "\<exists>name. new_backup_dir stamp existing left 0 = Some name \<and> name \<notin> set existing"
proof (cases "new_backup_dir stamp existing left 0")
  case None
  have "card (dir_name stamp ` {0..<left}) = left"
    using inj_on_subset [OF dir_name_inj subset_UNIV] by (simp add: card_image)
  moreover have "card (dir_name stamp ` {0..<left}) \<le> card (set existing)"
    using new_backup_dir_stuck [OF None] by (intro card_mono) simp_all
  ultimately show ?thesis using assms card_length [of existing] by simp
next
  case (Some name)
  then show ?thesis using new_backup_dir_free by blast
qed

section \<open>A refused archive has already replaced the database\<close>

text \<open>The members of the archive are checked after the database of the target was overwritten.\<close>

lemma refused_uploads_leave_the_new_database:
  assumes "verify_backup be bd = Inr (True, Some manifest)" and "engine_of manifest = jstr ''sqlite''"
    and "name_entry ''database_file'' manifest = Inr n" "name_entry ''uploads_file'' manifest = Inr u"
    and "file_of bd n = Some database" "file_of bd u = Some archive" and "be_integrity be database = Inr True"
    and "be_unzip be archive = Some members" and "\<not> list_all (safe_member be target) members"
  shows "restore_backup be bd target t = (Inl ValueError, t\<lparr>rs_database := Some database\<rparr>)"
  using assms by (simp add: restore_backup_def engines_differ extract_uploads_def Let_def)

text \<open>A backup that was changed after it was made is refused before anything is written.\<close>

lemma changed_backup_is_refused:
  assumes "verify_backup be bd = Inr (False, m)"
  shows "restore_backup be bd target t = (Inl ValueError, t)"
  using assms by (simp add: restore_backup_def)

lemma verified_digests:
  assumes "verify_backup be bd = Inr (True, Some manifest)"
  obtains n u database archive where "file_of bd n = Some database" "file_of bd u = Some archive"
    "entry ''database_sha256'' manifest = Some (JStr (be_sha256 be database))"
    "entry ''uploads_sha256'' manifest = Some (JStr (be_sha256 be archive))"
  using assms
  by (auto simp: verify_backup_def has_digest_def bind_result_def Let_def split: option.splits sum.splits if_splits)

end
