(* ===== verification/Workspace_Routes.thy ===== *)
theory Workspace_Routes
  imports Run_Routes Backup
begin

text \<open>
  The routes on jobs, projects, members and the workspace (\<open>src/app/api/jobs.py\<close>, \<open>projects.py\<close>, \<open>members.py\<close>,
  \<open>admin.py\<close>). Staging a job and the purge work on the database and the upload directories, the backup routes on the
  database and the backup directories, the others on the database. The member routes that write are calls of the
  authentication service.
\<close>

section \<open>Jobs\<close>

text \<open>\<open>_without_payload\<close>: the staged files and the lease stay inside.\<close>

definition without_payload :: "scan_job \<Rightarrow> scan_job" where
  "without_payload j = j\<lparr>sj_payload_json := None, sj_lease_token := None\<rparr>"

definition require_scoped_job :: "string \<Rightarrow> principal \<Rightarrow> db \<Rightarrow> scan_job result" where
  "require_scoped_job x pr d =
     (case load_scan_job x d of
        None \<Rightarrow> Inl (HTTPException 404)
      | Some j \<Rightarrow> if sj_workspace_id j \<noteq> pr_workspace_id pr then Inl (HTTPException 404) else Inr j)"

definition get_scan_jobs :: "api_env \<Rightarrow> principal \<Rightarrow> nat \<Rightarrow> (db, scan_job list) handler" where
  "get_scan_jobs ap pr limit =
     guarded ap pr JOB_READ (fetch (\<lambda>d. map without_payload (list_scan_jobs (pr_workspace_id pr) limit d)))"

definition get_scan_job :: "api_env \<Rightarrow> principal \<Rightarrow> string \<Rightarrow> (db, scan_job) handler" where
  "get_scan_job ap pr x =
     guarded ap pr JOB_READ (attempt (\<lambda>d. map_sum id without_payload (require_scoped_job x pr d)))"

text \<open>The events of a job over the polls of its stream: whether the client has left, and the database. What follows an
  event is the pause in milliseconds; a scope that fails ends the stream with an exception.\<close>

definition next_delay :: "rat \<Rightarrow> rat" where
  "next_delay delay = min 5 (delay * (7 / 5))"

fun job_events :: "principal \<Rightarrow> string \<Rightarrow> rat \<Rightarrow> (bool \<times> db) list \<Rightarrow> (scan_job \<times> rat) list \<times> error option" where
  "job_events pr x delay [] = ([], None)"
| "job_events pr x delay ((left, d) # polls) =
     (if left then ([], None)
      else case require_scoped_job x pr d of
        Inl e \<Rightarrow> ([], Some e)
      | Inr j \<Rightarrow>
          if sj_status j \<in> {COMPLETED, FAILED, CANCELLED, DEAD} then ([(without_payload j, 0)], None)
          else let (rest, e) = job_events pr x (next_delay delay) polls in ((without_payload j, delay) # rest, e))"

definition stream_scan_job :: "api_env \<Rightarrow> principal \<Rightarrow> string \<Rightarrow> (bool \<times> db) list \<Rightarrow> (db, (scan_job \<times> rat) list \<times> error option) handler" where
  "stream_scan_job ap pr x polls =
     guarded ap pr JOB_READ (and_then (attempt (require_scoped_job x pr)) (\<lambda>_. return_value (job_events pr x (3 / 4) polls)))"

text \<open>The answer of a request that (re)queues: the identifier. In inline mode the job runs after the answer.\<close>

definition enqueue_scan_job :: "api_env \<Rightarrow> scan_env \<Rightarrow> principal \<Rightarrow> scan_request \<Rightarrow> (store, string) handler" where
  "enqueue_scan_job ap se pr q = guarded ap pr JOB_MANAGE (stage_job se pr q)"

definition retry_scan_job :: "api_env \<Rightarrow> principal \<Rightarrow> string \<Rightarrow> (db, string) handler" where
  "retry_scan_job ap pr x =
     guarded ap pr JOB_MANAGE (
       and_then (attempt (require_scoped_job x pr)) (\<lambda>job.
       and_then (refuse_if (sj_status job \<notin> {FAILED, PENDING}) 409) (\<lambda>_.
       and_then (refuse_if (sj_attempts job \<ge> MAX_JOB_ATTEMPTS) 409) (\<lambda>_.
       and_then (perform (retry x (en_now (ap_en ap)))) (\<lambda>ok.
       and_then (refuse_if (\<not> ok) 409) (\<lambda>_.
       return_value x))))))"

definition cancel_job :: "api_env \<Rightarrow> principal \<Rightarrow> string \<Rightarrow> (db, job_status) handler" where
  "cancel_job ap pr x =
     guarded ap pr JOB_MANAGE (
       and_then (attempt (require_scoped_job x pr)) (\<lambda>job.
       and_then (refuse_if (sj_status job \<notin> {PENDING, RUNNING}) 409) (\<lambda>_.
       and_then (perform (cancel_scan_job x (en_now (ap_en ap)))) (\<lambda>cancelled.
       and_then (change (audit (ap_en ap) 0 pr ''SCAN_JOB_CANCELLED'' (sj_run_id job) (JObj [(''job_id'', jstr x)]))) (\<lambda>_.
       return_value (case cancelled of None \<Rightarrow> CANCELLED | Some j \<Rightarrow> sj_status j))))))"

section \<open>Scans in the request\<close>

definition create_run_route :: "api_env \<Rightarrow> scan_env \<Rightarrow> principal \<Rightarrow> scan_request \<Rightarrow> (store, run_view) handler" where
  "create_run_route ap se pr q =
     guarded ap pr RUN_CREATE (and_then (refuse_if (en_production (ap_en ap)) 409) (\<lambda>_. create_run se pr q))"

definition rescan_run_route :: "api_env \<Rightarrow> scan_env \<Rightarrow> principal \<Rightarrow> string \<Rightarrow> scan_request \<Rightarrow> (store, run_view) handler" where
  "rescan_run_route ap se pr x q =
     guarded ap pr RUN_CREATE (
       and_then (on_db (attempt (require_scoped (en_client (ap_en ap)) x pr))) (\<lambda>parent.
       and_then (refuse_if (en_production (ap_en ap)) 409) (\<lambda>_. rescan_run se pr parent q)))"

section \<open>Projects and members\<close>

definition get_projects :: "api_env \<Rightarrow> principal \<Rightarrow> bool \<Rightarrow> (db, project_row list) handler" where
  "get_projects ap pr include_archived =
     guarded ap pr WORKSPACE_READ (
       and_then (ensure_default_project (pr_workspace_id pr) (en_new_id (ap_en ap)) (en_now (ap_en ap))) (\<lambda>_.
       fetch (list_projects (pr_workspace_id pr) include_archived)))"

text \<open>\<open>made\<close> stands for the code made from a fresh identifier.\<close>

definition add_project :: "api_env \<Rightarrow> principal \<Rightarrow> ustr \<Rightarrow> string option \<Rightarrow> string \<Rightarrow> (db, project_row) handler" where
  "add_project ap pr name code made =
     guarded ap pr PROJECT_MANAGE (
       let c = ascii_upper (case code of None \<Rightarrow> made | Some y \<Rightarrow> if y = '''' then made else y)
       in and_then (integrity_as 409 (create_project (pr_workspace_id pr) (strip name) c (en_new_id (ap_en ap)) (en_now (ap_en ap)))) (\<lambda>project.
          and_then (change (audit (ap_en ap) 0 pr ''PROJECT_CREATED'' None
               (JObj [(''project_id'', jstr (pj_project_id project)), (''code'', jstr (pj_code project))]))) (\<lambda>_.
          return_value project)))"

definition require_scoped_project :: "string \<Rightarrow> principal \<Rightarrow> db \<Rightarrow> project_row result" where
  "require_scoped_project x pr d =
     (case load_project x d of
        None \<Rightarrow> Inl (HTTPException 404)
      | Some p \<Rightarrow> if pj_workspace_id p \<noteq> pr_workspace_id pr then Inl (HTTPException 404) else Inr p)"

definition patch_project :: "api_env \<Rightarrow> principal \<Rightarrow> string \<Rightarrow> ustr option \<Rightarrow> bool option \<Rightarrow> (db, project_row) handler" where
  "patch_project ap pr x name archived =
     guarded ap pr PROJECT_MANAGE (
       and_then (attempt (require_scoped_project x pr)) (\<lambda>_.
       and_then (perform (update_project x (case name of None \<Rightarrow> None | Some n \<Rightarrow> if n = [] then None else Some (strip n)) archived (en_now (ap_en ap)))) (\<lambda>updated.
       case updated of
         None \<Rightarrow> raise_error TypeError
       | Some p \<Rightarrow>
           and_then (change (audit (ap_en ap) 0 pr ''PROJECT_UPDATED'' None
                (JObj [(''project_id'', jstr x), (''archived'', JBool (pj_archived_at p \<noteq> None))]))) (\<lambda>_.
           return_value p))))"

definition get_members ::
  "api_env \<Rightarrow> principal \<Rightarrow> (db, (string \<times> string \<times> string \<times> string \<times> bool \<times> timestamp) list) handler" where
  "get_members ap pr = guarded ap pr MEMBER_READ (fetch (list_workspace_members (pr_workspace_id pr)))"

section \<open>Workspace\<close>

definition workspace_settings :: "api_env \<Rightarrow> principal \<Rightarrow> (db, workspace_row option) handler" where
  "workspace_settings ap pr = guarded ap pr WORKSPACE_READ (fetch (get_workspace_settings (pr_workspace_id pr)))"

definition save_workspace_settings :: "api_env \<Rightarrow> principal \<Rightarrow> int \<Rightarrow> (db, workspace_row option) handler" where
  "save_workspace_settings ap pr days =
     guarded ap pr WORKSPACE_MANAGE (
       and_then (perform (update_workspace_settings (pr_workspace_id pr) days)) (\<lambda>settings.
       and_then (change (audit (ap_en ap) 0 pr ''WORKSPACE_SETTINGS_UPDATED'' None (JObj [(''retention_days'', JInt days)]))) (\<lambda>_.
       return_value settings)))"

definition get_workspace_usage :: "api_env \<Rightarrow> principal \<Rightarrow> (db, usage) handler" where
  "get_workspace_usage ap pr = guarded ap pr WORKSPACE_READ (fetch (workspace_usage (pr_workspace_id pr)))"

definition get_workspace_privacy :: "api_env \<Rightarrow> principal \<Rightarrow> (db, string \<times> int \<times> bool) handler" where
  "get_workspace_privacy ap pr = guarded ap pr WORKSPACE_READ (fetch (privacy (pr_workspace_id pr)))"

definition get_notifications ::
  "api_env \<Rightarrow> principal \<Rightarrow> (string \<Rightarrow> int option) \<Rightarrow> int \<Rightarrow> (db, nat \<times> notification list) handler" where
  "get_notifications ap pr day_of today =
     guarded ap pr WORKSPACE_READ (fetch (notifications day_of today (pr_workspace_id pr)))"

definition get_accuracy_metrics :: "api_env \<Rightarrow> principal \<Rightarrow> bool \<Rightarrow> (db, overall_metric \<times> metric list) handler" where
  "get_accuracy_metrics ap pr include_test =
     guarded ap pr METRICS_READ (attempt (accuracy (pr_workspace_id pr) include_test))"

definition retention_preview :: "api_env \<Rightarrow> principal \<Rightarrow> (db, timestamp \<times> nat \<times> string list) handler" where
  "retention_preview ap pr =
     guarded ap pr WORKSPACE_READ (fetch (\<lambda>d.
       let (cutoff, ids) = retention_candidates (en_now (ap_en ap)) (pr_workspace_id pr) d in (cutoff, length ids, ids)))"

definition purge_retention_route :: "api_env \<Rightarrow> (timestamp \<Rightarrow> ustr) \<Rightarrow> principal \<Rightarrow> (store, purge_view) handler" where
  "purge_retention_route ap isoformat pr = guarded ap pr RETENTION_MANAGE (purge_retention isoformat (ap_en ap) pr)"

definition list_evidence ::
  "api_env \<Rightarrow> principal \<Rightarrow> string option \<Rightarrow> ustr option \<Rightarrow> string option \<Rightarrow> (db, nat \<times> (string \<times> asset) list) handler" where
  "list_evidence ap pr category query valid_before =
     guarded ap pr RUN_READ (attempt (evidence_index (ap_upper ap) (ap_casefold ap) (en_client (ap_en ap))
       (pr_workspace_id pr) category query valid_before))"

definition audit_chain :: "api_env \<Rightarrow> principal \<Rightarrow> (db, chain_report) handler" where
  "audit_chain ap pr = guarded ap pr AUDIT_READ (fetch (verify_audit_chain (en_sha (ap_en ap)) (pr_workspace_id pr)))"

section \<open>Backups\<close>

text \<open>The database and the directories below \<open>BACKUP_ROOT\<close> by the name that leads to them.\<close>

record backup_store =
  bs_db :: db
  bs_dirs :: "string \<Rightarrow> backup_dir option"

definition record_backup_event :: "api_env \<Rightarrow> principal \<Rightarrow> string \<Rightarrow> string \<Rightarrow> json \<Rightarrow> backup_store \<Rightarrow> backup_store" where
  "record_backup_event ap pr event_type backup_id valid s =
     s\<lparr>bs_db := audit (ap_en ap) 0 pr event_type None (JObj [(''backup_id'', jstr backup_id), (''valid'', valid)]) (bs_db s)\<rparr>"

definition valid_entry :: "json \<Rightarrow> json" where
  "valid_entry j = (case entry ''valid'' j of None \<Rightarrow> JNull | Some v \<Rightarrow> v)"

definition verify_in_store :: "backup_env \<Rightarrow> string \<Rightarrow> backup_dir \<Rightarrow> (backup_store, json) handler" where
  "verify_in_store be backup_id bd s =
     (let (r, bd1) = record_backup_verification be bd in (r, s\<lparr>bs_dirs := (bs_dirs s)(backup_id := Some bd1)\<rparr>))"

definition get_backups :: "api_env \<Rightarrow> backup_env \<Rightarrow> principal \<Rightarrow> backup_dir list \<Rightarrow> ('s, backup_listing list) handler" where
  "get_backups ap be pr dirs = guarded ap pr BACKUP_MANAGE (return_value (list_backup_records be dirs))"

definition create_project_backup ::
  "api_env \<Rightarrow> backup_env \<Rightarrow> principal \<Rightarrow> string \<Rightarrow> content \<Rightarrow> file_tree \<Rightarrow> string \<Rightarrow> (backup_store, json) handler" where
  "create_project_backup ap be pr engine database uploads name =
     guarded ap pr BACKUP_MANAGE (
       and_then (\<lambda>s. let (r, bd) = create_backup be engine database uploads name
                     in (map_sum id (\<lambda>_. bd) r, s\<lparr>bs_dirs := (bs_dirs s)(name := Some bd)\<rparr>)) (\<lambda>bd.
       and_then (verify_in_store be name bd) (\<lambda>verification.
       and_then (change (record_backup_event ap pr ''BACKUP_CREATED'' name (valid_entry verification))) (\<lambda>_.
       return_value verification))))"

definition verify_project_backup :: "api_env \<Rightarrow> backup_env \<Rightarrow> principal \<Rightarrow> string \<Rightarrow> (backup_store, json) handler" where
  "verify_project_backup ap be pr backup_id =
     guarded ap pr BACKUP_MANAGE (
       and_then (refuse_if (path_name backup_id \<noteq> backup_id) 400) (\<lambda>_.
       and_then (fetch (\<lambda>s. bs_dirs s backup_id)) (\<lambda>found.
       case found of
         None \<Rightarrow> raise_error (HTTPException 404)
       | Some bd \<Rightarrow>
           and_then (verify_in_store be backup_id bd) (\<lambda>verification.
           and_then (change (record_backup_event ap pr ''BACKUP_VERIFIED'' backup_id (valid_entry verification))) (\<lambda>_.
           return_value verification)))))"

text \<open>The name of the parent directory passes the check, so the verification can be written outside \<open>BACKUP_ROOT\<close>.\<close>

lemma parent_name_is_accepted: "path_name ''..'' = ''..''"
  by (simp add: path_name_def path_parts_def)

end
