(* ===== verification/Tenants.thy ===== *)
theory Tenants
  imports Workspace_Routes
begin

text \<open>
  What callers of one workspace do leaves every other workspace alone. \<open>own w\<close> is what the database holds of workspace
  \<open>w\<close>, \<open>tenant_wf\<close> what its keys and links keep: identifiers are unique, and what belongs to a run is in the run's
  workspace.
\<close>

section \<open>What a workspace owns\<close>

definition homely :: "db \<Rightarrow> string \<Rightarrow> string \<Rightarrow> bool" where
  "homely d x w \<longleftrightarrow>
     (\<forall>c\<in>set (comments d). cm_run_id c = x \<longrightarrow> cm_workspace_id c = w)
     \<and> (\<forall>m\<in>set (remediations d). rm_run_id m = x \<longrightarrow> rm_workspace_id m = w)
     \<and> (\<forall>f\<in>set (accuracy_feedback d). fb_run_id f = x \<longrightarrow> fb_workspace_id f = w)
     \<and> (\<forall>j\<in>set (scan_jobs d). sj_run_id j = Some x \<longrightarrow> sj_workspace_id j = w)"

definition tenant_wf :: "db \<Rightarrow> bool" where
  "tenant_wf d \<longleftrightarrow> distinct (map rr_run_id (runs d)) \<and> distinct (map sj_job_id (scan_jobs d))
     \<and> distinct (map rm_remediation_id (remediations d)) \<and> distinct (map pj_project_id (projects d))
     \<and> (\<forall>r\<in>set (runs d). homely d (rr_run_id r) (rr_workspace_id r))"

definition own :: "string \<Rightarrow> db \<Rightarrow> db" where
  "own w d = empty_db\<lparr>workspaces := filter (\<lambda>r. ws_workspace_id r = w) (workspaces d),
     projects := filter (\<lambda>r. pj_workspace_id r = w) (projects d),
     runs := filter (\<lambda>r. rr_workspace_id r = w) (runs d),
     scan_jobs := filter (\<lambda>r. sj_workspace_id r = w) (scan_jobs d),
     comments := filter (\<lambda>r. cm_workspace_id r = w) (comments d),
     remediations := filter (\<lambda>r. rm_workspace_id r = w) (remediations d),
     accuracy_feedback := filter (\<lambda>r. fb_workspace_id r = w) (accuracy_feedback d),
     audit_events := filter (\<lambda>r. ae_workspace_id r = w) (audit_events d)\<rparr>"

text \<open>What a step of a caller of another workspace keeps.\<close>

definition stays :: "string \<Rightarrow> db \<Rightarrow> db \<Rightarrow> bool" where
  "stays w before d \<longleftrightarrow> tenant_wf d \<and> own w d = own w before"

lemma filter_sql_update:
  "(\<And>r. r \<in> set t \<Longrightarrow> P r \<Longrightarrow> \<not> Q r \<and> \<not> Q (f r)) \<Longrightarrow> filter Q (sql_update P f t) = filter Q t"
  by (induction t) (auto simp: sql_update_def)

lemma filter_sql_delete: "(\<And>r. r \<in> set t \<Longrightarrow> P r \<Longrightarrow> \<not> Q r) \<Longrightarrow> filter Q (sql_delete P t) = filter Q t"
  by (induction t) (auto simp: sql_delete_def)

lemma filter_sql_insert: "\<not> Q r \<Longrightarrow> filter Q (sql_insert r t) = filter Q t"
  by (simp add: sql_insert_def)

lemma filter_sql_upsert:
  "(\<And>r. r \<in> set t \<Longrightarrow> P r \<Longrightarrow> \<not> Q r \<and> \<not> Q (f r)) \<Longrightarrow> \<not> Q n \<Longrightarrow> filter Q (sql_upsert P f n t) = filter Q t"
  by (simp add: sql_upsert_def filter_sql_update filter_sql_insert)

lemma in_sql_upsert:
  assumes "x \<in> set (sql_upsert P f n t)" and "\<And>r. k (f r) = k r"
  shows "k x \<in> k ` set t \<or> x = n"
  using assms by (fastforce simp: sql_upsert_def in_sql_update split: if_splits)

section \<open>Steps\<close>

lemma stays_audit:
  assumes "stays w before d" and "pr_workspace_id pr \<noteq> w"
  shows "stays w before (audit en k pr event run payload d)"
  using assms by (simp add: stays_def own_def tenant_wf_def homely_def audit_def record_audit_event_def Let_def filter_sql_insert)

lemma stays_workspace_row:
  assumes "stays w before d" and "x \<noteq> w"
  shows "stays w before (ensure_workspace_row now x d)"
  using assms by (simp add: stays_def own_def tenant_wf_def homely_def ensure_workspace_row_def insert_workspace_def
      new_workspace_def filter_sql_insert)

text \<open>A run that a caller may see: its row is in the caller's workspace.\<close>

definition seen :: "principal \<Rightarrow> run_doc \<Rightarrow> db \<Rightarrow> bool" where
  "seen pr run d \<longleftrightarrow> rn_workspace_id run = pr_workspace_id pr
     \<and> (\<exists>r\<in>set (runs d). rr_run_id r = rn_run_id run \<and> rr_workspace_id r = pr_workspace_id pr)"

lemma loaded_row:
  assumes "load_run client x d = Inr (Some run)"
  shows "\<exists>r\<in>set (runs d). rr_run_id r = x \<and> rn_run_id run = x \<and> rn_workspace_id run = rr_workspace_id r"
  using assms
  by (auto simp: load_run_def bind_result_Inr run_from_storage_def run_of_row_def dest!: sql_first_Some split: option.splits)

lemma scoped_seen: "require_scoped client x pr d = Inr run \<Longrightarrow> seen pr run d \<and> rn_run_id run = x"
  using loaded_row [of client x d]
  by (fastforce simp: require_scoped_def require_def bind_result_Inr seen_def split: if_splits option.splits)

lemma stays_run_update:
  assumes "stays w before d" and P: "\<And>r. P r \<Longrightarrow> rr_run_id r = rr_run_id row" and v: "rr_workspace_id row \<noteq> w"
    and home: "\<exists>r\<in>set (runs d). rr_run_id r = rr_run_id row \<and> rr_workspace_id r = rr_workspace_id row"
  shows "stays w before (d\<lparr>runs := sql_update P (\<lambda>_. row) (runs d)\<rparr>)"
proof -
  from home obtain r0 where r0: "r0 \<in> set (runs d)" "rr_run_id r0 = rr_run_id row" "rr_workspace_id r0 = rr_workspace_id row" by blast
  have wf: "tenant_wf d" using assms(1) by (simp add: stays_def)
  then have "r = r0" if "r \<in> set (runs d)" "P r" for r
    using that r0 P distinct_key_eq [of rr_run_id "runs d"] by (metis tenant_wf_def)
  then have "filter (\<lambda>r. rr_workspace_id r = w) (sql_update P (\<lambda>_. row) (runs d)) = filter (\<lambda>r. rr_workspace_id r = w) (runs d)"
    using r0 v by (intro filter_sql_update) auto
  moreover have "homely d (rr_run_id row) (rr_workspace_id row)" using wf r0 by (metis tenant_wf_def)
  then have "\<forall>r\<in>set (sql_update P (\<lambda>_. row) (runs d)). homely d (rr_run_id r) (rr_workspace_id r)"
    using wf by (auto simp: in_sql_update tenant_wf_def)
  moreover have "map rr_run_id (sql_update P (\<lambda>_. row) (runs d)) = map rr_run_id (runs d)"
    using P by (intro map_sql_update) auto
  ultimately show ?thesis using assms(1) by (simp add: stays_def own_def tenant_wf_def homely_def)
qed

lemma stays_save:
  assumes "stays w before d" and "seen pr run d" and "pr_workspace_id pr \<noteq> w"
  shows "stays w before (snd (save_run client now run expected d))"
proof (cases "run_to_storage client run")
  case (Inr row)
  define d1 where "d1 = ensure_workspace_row now (rn_workspace_id run) d"
  have row: "rr_run_id row = rn_run_id run" "rr_workspace_id row = rn_workspace_id run"
    using Inr by (auto simp: run_to_storage_def split: option.splits prod.splits)
  have d1: "stays w before d1" using assms stays_workspace_row by (simp add: d1_def seen_def)
  have runs: "runs d1 = runs d" by (simp add: d1_def)
  have home: "\<exists>r\<in>set (runs d1). rr_run_id r = rr_run_id row \<and> rr_workspace_id r = rr_workspace_id row"
    using assms(2) row runs by (simp add: seen_def)
  have v: "rr_workspace_id row \<noteq> w" using assms(2,3) row by (simp add: seen_def)
  show ?thesis
  proof (cases expected)
    case None
    have "list_ex (\<lambda>r. rr_run_id r = rr_run_id row) (runs d1)" using home by (auto simp: list_ex_iff)
    then show ?thesis
      using None Inr stays_run_update [OF d1 _ v home, of "\<lambda>r. rr_run_id r = rr_run_id row"]
      by (simp add: save_run_def sql_upsert_def Let_def d1_def [symmetric])
  next
    case (Some n)
    show ?thesis
      using Some Inr assms(1) stays_run_update [OF d1, of "\<lambda>r. rr_run_id r = rr_run_id row \<and> rr_revision r = n" "row\<lparr>rr_revision := n + 1\<rparr>"] v home
      by (simp add: save_run_def Let_def d1_def [symmetric])
  qed
qed (use assms(1) in \<open>simp add: save_run_def\<close>)

lemma stays_delete_run:
  assumes "stays w before d" and "r0 \<in> set (runs d)" "rr_run_id r0 = x" "rr_workspace_id r0 \<noteq> w"
  shows "stays w before (snd (delete_run x d))"
proof -
  have wf: "tenant_wf d" using assms(1) by (simp add: stays_def)
  then have home: "homely d x (rr_workspace_id r0)" using assms by (metis tenant_wf_def)
  have "r = r0" if "r \<in> set (runs d)" "rr_run_id r = x" for r
    using that assms wf distinct_key_eq [of rr_run_id "runs d"] by (metis tenant_wf_def)
  then have "filter (\<lambda>r. rr_workspace_id r = w) (sql_delete (\<lambda>r. rr_run_id r = x) (runs d)) = filter (\<lambda>r. rr_workspace_id r = w) (runs d)"
    using assms(4) by (intro filter_sql_delete) auto
  moreover have
    "filter (\<lambda>r. sj_workspace_id r = w) (sql_delete (\<lambda>j. sj_run_id j = Some x) (scan_jobs d)) = filter (\<lambda>r. sj_workspace_id r = w) (scan_jobs d)"
    "filter (\<lambda>r. cm_workspace_id r = w) (sql_delete (\<lambda>c. cm_run_id c = x) (comments d)) = filter (\<lambda>r. cm_workspace_id r = w) (comments d)"
    "filter (\<lambda>r. rm_workspace_id r = w) (sql_delete (\<lambda>m. rm_run_id m = x) (remediations d)) = filter (\<lambda>r. rm_workspace_id r = w) (remediations d)"
    "filter (\<lambda>r. fb_workspace_id r = w) (sql_delete (\<lambda>f. fb_run_id f = x) (accuracy_feedback d)) = filter (\<lambda>r. fb_workspace_id r = w) (accuracy_feedback d)"
    using home assms(4) by (auto simp: homely_def intro!: filter_sql_delete)
  ultimately have "own w (snd (delete_run x d)) = own w d"
    by (simp add: own_def delete_run_def)
  moreover have "tenant_wf (snd (delete_run x d))"
    using wf by (auto simp: tenant_wf_def homely_def delete_run_def sql_delete_def distinct_map_filter)
  ultimately show ?thesis using assms(1) by (simp add: stays_def)
qed

text \<open>An insert of a row of the caller's workspace, and the link of what is inserted below a run.\<close>

lemma home_of_seen:
  assumes "tenant_wf d" and "seen pr run d" and "r \<in> set (runs d)" and "rr_run_id r = rn_run_id run"
  shows "rr_workspace_id r = pr_workspace_id pr"
  using assms distinct_key_eq [of rr_run_id "runs d"] by (metis seen_def tenant_wf_def)

text \<open>Replacing one table.\<close>

lemma stays_tables:
  assumes "stays w before d"
  shows "\<And>t. filter (\<lambda>c. cm_workspace_id c = w) t = filter (\<lambda>c. cm_workspace_id c = w) (comments d)
      \<Longrightarrow> (\<And>c r. c \<in> set t \<Longrightarrow> r \<in> set (runs d) \<Longrightarrow> cm_run_id c = rr_run_id r \<Longrightarrow> cm_workspace_id c = rr_workspace_id r)
      \<Longrightarrow> stays w before (d\<lparr>comments := t\<rparr>)"
    and "\<And>t. filter (\<lambda>c. rm_workspace_id c = w) t = filter (\<lambda>c. rm_workspace_id c = w) (remediations d)
      \<Longrightarrow> distinct (map rm_remediation_id t)
      \<Longrightarrow> (\<And>c r. c \<in> set t \<Longrightarrow> r \<in> set (runs d) \<Longrightarrow> rm_run_id c = rr_run_id r \<Longrightarrow> rm_workspace_id c = rr_workspace_id r)
      \<Longrightarrow> stays w before (d\<lparr>remediations := t\<rparr>)"
    and "\<And>t. filter (\<lambda>c. fb_workspace_id c = w) t = filter (\<lambda>c. fb_workspace_id c = w) (accuracy_feedback d)
      \<Longrightarrow> (\<And>c r. c \<in> set t \<Longrightarrow> r \<in> set (runs d) \<Longrightarrow> fb_run_id c = rr_run_id r \<Longrightarrow> fb_workspace_id c = rr_workspace_id r)
      \<Longrightarrow> stays w before (d\<lparr>accuracy_feedback := t\<rparr>)"
    and "\<And>t. filter (\<lambda>c. sj_workspace_id c = w) t = filter (\<lambda>c. sj_workspace_id c = w) (scan_jobs d)
      \<Longrightarrow> map sj_job_id t = map sj_job_id (scan_jobs d)
      \<Longrightarrow> (\<And>c r. c \<in> set t \<Longrightarrow> r \<in> set (runs d) \<Longrightarrow> sj_run_id c = Some (rr_run_id r) \<Longrightarrow> sj_workspace_id c = rr_workspace_id r)
      \<Longrightarrow> stays w before (d\<lparr>scan_jobs := t\<rparr>)"
    and "\<And>t. filter (\<lambda>c. pj_workspace_id c = w) t = filter (\<lambda>c. pj_workspace_id c = w) (projects d)
      \<Longrightarrow> distinct (map pj_project_id t) \<Longrightarrow> stays w before (d\<lparr>projects := t\<rparr>)"
    and "\<And>t. filter (\<lambda>c. ws_workspace_id c = w) t = filter (\<lambda>c. ws_workspace_id c = w) (workspaces d)
      \<Longrightarrow> stays w before (d\<lparr>workspaces := t\<rparr>)"
  using assms by (simp_all add: stays_def own_def tenant_wf_def homely_def)

lemma stays_links:
  assumes "stays w before d" and "r \<in> set (runs d)"
  shows "\<And>c. c \<in> set (comments d) \<Longrightarrow> cm_run_id c = rr_run_id r \<Longrightarrow> cm_workspace_id c = rr_workspace_id r"
    and "\<And>c. c \<in> set (remediations d) \<Longrightarrow> rm_run_id c = rr_run_id r \<Longrightarrow> rm_workspace_id c = rr_workspace_id r"
    and "\<And>c. c \<in> set (accuracy_feedback d) \<Longrightarrow> fb_run_id c = rr_run_id r \<Longrightarrow> fb_workspace_id c = rr_workspace_id r"
    and "\<And>c. c \<in> set (scan_jobs d) \<Longrightarrow> sj_run_id c = Some (rr_run_id r) \<Longrightarrow> sj_workspace_id c = rr_workspace_id r"
  using assms by (simp_all add: stays_def tenant_wf_def homely_def)

lemma stays_home: "stays w before d \<Longrightarrow> seen pr run d \<Longrightarrow> r \<in> set (runs d) \<Longrightarrow> rr_run_id r = rn_run_id run
    \<Longrightarrow> rr_workspace_id r = pr_workspace_id pr"
  unfolding stays_def by (blast intro: home_of_seen)

lemma stays_comment:
  assumes "stays w before d" and "seen pr run d" and "pr_workspace_id pr \<noteq> w"
  shows "stays w before (snd (add_comment (pr_workspace_id pr) (rn_run_id run) user body new_id now d))"
  unfolding add_comment_def Let_def snd_conv
  using assms stays_home [OF assms(1,2)] stays_links(1) [OF assms(1)]
  by (intro stays_tables(1)) (auto simp: filter_sql_insert)

lemma stays_remediation:
  assumes "stays w before d" and "seen pr run d" and "pr_workspace_id pr \<noteq> w" and "new_id \<notin> rm_remediation_id ` set (remediations d)"
  shows "stays w before (snd (create_remediation (pr_workspace_id pr) (rn_run_id run) p new_id now d))"
proof -
  have "distinct (map rm_remediation_id (remediations d))" using assms(1) by (simp add: stays_def tenant_wf_def)
  then show ?thesis
    unfolding create_remediation_def Let_def snd_conv
    using assms stays_home [OF assms(1,2)] stays_links(2) [OF assms(1)]
    by (intro stays_tables(2)) (auto simp: filter_sql_insert sql_insert_def)
qed

lemma stays_feedback:
  assumes "stays w before d" and "seen pr run d" and "pr_workspace_id pr \<noteq> w"
  shows "stays w before (snd (add_accuracy_feedback upper sha (pr_workspace_id pr) (rn_run_id run) user p new_id now d))"
  unfolding add_accuracy_feedback_def Let_def snd_conv
proof (rule stays_tables(3) [OF assms(1)], goal_cases)
  case 1
  show ?case using assms(3) by (intro filter_sql_upsert) (auto simp: same_feedback_def)
next
  case (2 c r)
  from in_sql_upsert [OF 2(1), where k = "\<lambda>f. (fb_run_id f, fb_workspace_id f)"]
  have "(fb_run_id c, fb_workspace_id c) \<in> (\<lambda>f. (fb_run_id f, fb_workspace_id f)) ` set (accuracy_feedback d)
      \<or> fb_run_id c = rn_run_id run \<and> fb_workspace_id c = pr_workspace_id pr"
    by auto
  then show ?case using stays_links(3) [OF assms(1) 2(2)] stays_home [OF assms(1,2) 2(2)] 2(3) by (auto simp: image_iff)
qed

lemma stays_row_update:
  assumes "distinct (map k t)" and "m \<in> set t" and "\<not> Q m" and "\<not> Q (f m)" and "\<And>r. P r \<Longrightarrow> k r = k m"
  shows "filter Q (sql_update P f t) = filter Q t"
  using assms distinct_key_eq [OF assms(1) _ assms(2)] by (intro filter_sql_update) metis

lemma stays_patch:
  assumes "stays w before d" and "load_remediation x d = Some m" and "rm_workspace_id m \<noteq> w"
  shows "stays w before (snd (update_remediation x p now d))"
proof -
  have m: "m \<in> set (remediations d)" "rm_remediation_id m = x" using assms(2) by (auto simp: load_remediation_def dest!: sql_first_Some)
  have keys: "distinct (map rm_remediation_id (remediations d))" using assms(1) by (simp add: stays_def tenant_wf_def)
  show ?thesis
    unfolding update_remediation_def assms(2) option.case Let_def snd_conv
  proof (rule stays_tables(2) [OF assms(1)], goal_cases)
    case 1
    show ?case using keys m assms(3) by (intro stays_row_update [where k = rm_remediation_id]) auto
  next
    case 2
    show ?case using keys by (simp add: map_sql_update)
  next
    case (3 c r)
    then show ?case using stays_links(2) [OF assms(1) 3(2)] by (auto simp: in_sql_update split: if_splits)
  qed
qed

lemma stays_job_update:
  assumes "stays w before d" and "load_scan_job x d = Some j" and "sj_workspace_id j \<noteq> w"
    and P: "\<And>r. P r \<Longrightarrow> sj_job_id r = x"
    and f: "\<And>r. sj_job_id (f r) = sj_job_id r" "\<And>r. sj_workspace_id (f r) = sj_workspace_id r" "\<And>r. sj_run_id (f r) = sj_run_id r"
  shows "stays w before (d\<lparr>scan_jobs := sql_update P f (scan_jobs d)\<rparr>)"
proof (rule stays_tables(4) [OF assms(1)], goal_cases)
  have keys: "distinct (map sj_job_id (scan_jobs d))" using assms(1) by (simp add: stays_def tenant_wf_def)
  case 1
  show ?case
    using keys assms(2,3) P f
    by (intro stays_row_update [where k = sj_job_id and m = j]) (auto simp: load_scan_job_def dest!: sql_first_Some)
next
  case 2
  show ?case using f by (simp add: map_sql_update)
next
  case (3 c r)
  then show ?case using stays_links(4) [OF assms(1) 3(2)] f by (auto simp: in_sql_update split: if_splits)
qed

lemma stays_project_update:
  assumes "stays w before d" and "load_project x d = Some p" and "pj_workspace_id p \<noteq> w"
  shows "stays w before (snd (update_project x name archived now d))"
proof -
  have p: "p \<in> set (projects d)" "pj_project_id p = x" using assms(2) by (auto simp: load_project_def dest!: sql_first_Some)
  have keys: "distinct (map pj_project_id (projects d))" using assms(1) by (simp add: stays_def tenant_wf_def)
  show ?thesis
    unfolding update_project_def assms(2) option.case Let_def snd_conv
    using keys p assms(3)
    by (intro stays_tables(5) [OF assms(1)]) (auto simp: map_sql_update intro!: stays_row_update [where k = pj_project_id])
qed

lemma stays_create_project:
  assumes "stays w before d" and "v \<noteq> w"
  shows "stays w before (snd (create_project v name code new_id now d))"
proof -
  have d1: "stays w before (ensure_workspace_row now v d)" using assms by (rule stays_workspace_row)
  then have "distinct (map pj_project_id (projects d))" by (simp add: stays_def tenant_wf_def)
  then show ?thesis
    using assms d1
    by (auto simp: create_project_def sql_insert_unique_def list_ex_iff project_clash_def Let_def image_iff intro!: stays_tables(5) [OF d1])
qed

lemma stays_default_project:
  "stays w before d \<Longrightarrow> v \<noteq> w \<Longrightarrow> stays w before (snd (ensure_default_project v new_id now d))"
  by (simp add: ensure_default_project_def stays_create_project split: option.split)

lemma stays_settings:
  "stays w before d \<Longrightarrow> v \<noteq> w \<Longrightarrow> stays w before (snd (update_workspace_settings v days d))"
  by (auto simp: update_workspace_settings_def Let_def intro!: stays_tables(6) filter_sql_update)

section \<open>Services\<close>

lemma seen_same: "seen pr run d \<Longrightarrow> rn_run_id run' = rn_run_id run \<Longrightarrow> rn_workspace_id run' = rn_workspace_id run \<Longrightarrow> seen pr run' d"
  by (simp add: seen_def)

lemma stays_save_and_record:
  assumes "stays w before d" and "seen pr run d" and "pr_workspace_id pr \<noteq> w"
  shows "stays w before (snd (save_and_record en pr run expected event payload d))"
  using stays_save [OF assms, of "en_client en" "en_now en" expected] assms(3)
  by (auto simp: save_and_record_def stays_audit split: prod.splits sum.splits)

lemma stays_services:
  assumes "stays w before d" and "seen pr run d" and "pr_workspace_id pr \<noteq> w"
  shows "stays w before (snd (review en pr run p d))"
    and "stays w before (snd (record_decision en pr run q d))"
    and "stays w before (snd (update_metadata en pr run m d))"
    and "stays w before (snd (delete en pr run d))"
    and "stays w before (snd (service_add_accuracy_feedback upper sha en pr run fp d))"
    and "en_new_id en \<notin> rm_remediation_id ` set (remediations d) \<Longrightarrow> stays w before (snd (service_create_remediation en pr run rp d))"
proof -
  show "stays w before (snd (review en pr run p d))"
    using assms seen_same [OF assms(2)]
    by (auto simp: review_def Let_def reviewed_run_def stays_save_and_record split: option.split)
  show "stays w before (snd (record_decision en pr run q d))"
    using assms seen_same [OF assms(2)]
    by (auto simp: record_decision_def Let_def decided_run_def stays_save_and_record split: option.split)
  show "stays w before (snd (update_metadata en pr run m d))"
    using assms seen_same [OF assms(2)] by (auto simp: update_metadata_def Let_def stays_save_and_record)
  have "stays w before (snd (delete_run (rn_run_id run) d))"
    using assms stays_delete_run [OF assms(1)] by (metis seen_def)
  then show "stays w before (snd (delete en pr run d))"
    using assms(3) by (auto simp: delete_def stays_audit split: prod.splits)
  show "stays w before (snd (service_add_accuracy_feedback upper sha en pr run fp d))"
    using assms stays_feedback [OF assms, of upper sha "pr_user_id pr" fp "en_new_id en" "en_now en"]
    by (auto simp: service_add_accuracy_feedback_def stays_audit split: prod.splits)
  show "stays w before (snd (service_create_remediation en pr run rp d))"
    if "en_new_id en \<notin> rm_remediation_id ` set (remediations d)"
    using assms stays_remediation [OF assms that, of rp "en_now en"]
    by (auto simp: service_create_remediation_def stays_audit split: prod.splits)
qed

lemma stays_bulk_write:
  assumes "stays w before d" and "seen pr run d" and "pr_workspace_id pr \<noteq> w"
  shows "stays w before (snd (bulk_write en action run d))"
proof (cases "action = DELETE_RUNS")
  case True
  then show ?thesis using assms stays_delete_run [OF assms(1)] by (simp add: bulk_write_def) (metis seen_def)
next
  case False
  let ?run = "run\<lparr>rn_archived_at := (if action = ARCHIVE then Some (en_now en) else None), rn_updated_at := en_now en\<rparr>"
  have "seen pr ?run d" by (rule seen_same [OF assms(2)]) simp_all
  from stays_save [OF assms(1) this assms(3), of "en_client en" "en_now en" None] False show ?thesis
    by (auto simp: bulk_write_def split: prod.splits sum.splits)
qed

lemma stays_bulk_loop:
  "stays w before d \<Longrightarrow> pr_workspace_id pr \<noteq> w \<Longrightarrow> stays w before (snd (bulk_loop en pr action xs k d))"
proof (induction xs arbitrary: k d)
  case (Cons x xs)
  show ?case
  proof (cases "load_run (en_client en) x d")
    case (Inr found)
    show ?thesis
    proof (cases "\<exists>run. found = Some run \<and> rn_workspace_id run = pr_workspace_id pr")
      case True
      then obtain run where run: "found = Some run" "rn_workspace_id run = pr_workspace_id pr" by blast
      have "seen pr run d" using loaded_row [of "en_client en" x d run] Inr run by (auto simp: seen_def)
      from stays_bulk_write [OF Cons.prems(1) this Cons.prems(2), of en action]
      show ?thesis using Inr run Cons.prems(2)
        by (auto split: prod.splits sum.splits intro!: Cons.IH stays_audit)
    next
      case False
      then show ?thesis using Inr Cons by (auto split: option.splits)
    qed
  qed (use Cons.prems in simp)
qed simp

section \<open>Requests\<close>

text \<open>A request to one of the routes that work on the database alone.\<close>

datatype call =
    List_Runs listing_query | Get_Run string | Get_File string string | Get_Page string string int | Diff_Runs string string
  | Run_Audit string | Get_Comments string | Get_Remediations string | Get_Requirements string "string option" "string option" "string option"
  | Get_Assets string | Bulk "string list" bulk_action | Set_Metadata string metadata_request | Post_Comment string ustr
  | Post_Remediation string remediation_payload | Post_Feedback string feedback_payload | Post_Review string review_request
  | Post_Decision string decision_request | Delete_Run string | Patch_Remediation string remediation_update
  | Get_Jobs nat | Get_Job string | Retry_Job string | Cancel_Job string
  | Get_Projects bool | Post_Project ustr "string option" string | Patch_Project string "ustr option" "bool option" | Get_Members
  | Get_Settings | Save_Settings int | Get_Usage | Get_Privacy | Get_Notifications "string \<Rightarrow> int option" int
  | Get_Accuracy bool | Preview_Retention | List_Evidence "string option" "ustr option" "string option" | Check_Chain

definition forget :: "('s, 'a) handler \<Rightarrow> ('s, unit) handler" where
  "forget m = and_then m (\<lambda>_. return_value ())"

fun serve :: "api_env \<Rightarrow> principal \<Rightarrow> call \<Rightarrow> (db, unit) handler" where
  "serve ap pr (List_Runs q) = forget (list_runs_route ap pr q)"
| "serve ap pr (Get_Run x) = forget (get_run ap pr x)"
| "serve ap pr (Get_File x y) = forget (download_run_file ap pr x y)"
| "serve ap pr (Get_Page x y n) = forget (preview_source_page ap pr x y n)"
| "serve ap pr (Diff_Runs x y) = forget (diff_runs ap pr x y)"
| "serve ap pr (Run_Audit x) = forget (get_run_audit ap pr x)"
| "serve ap pr (Get_Comments x) = forget (get_comments ap pr x)"
| "serve ap pr (Get_Remediations x) = forget (get_run_remediations ap pr x)"
| "serve ap pr (Get_Requirements x c st sev) = forget (list_requirements ap pr x c st sev)"
| "serve ap pr (Get_Assets x) = forget (list_run_evidence ap pr x)"
| "serve ap pr (Bulk xs a) = forget (bulk_manage_runs ap pr xs a)"
| "serve ap pr (Set_Metadata x p) = forget (update_run_metadata ap pr x p)"
| "serve ap pr (Post_Comment x body) = forget (create_comment ap pr x body)"
| "serve ap pr (Post_Remediation x p) = forget (create_run_remediation ap pr x p)"
| "serve ap pr (Post_Feedback x p) = forget (create_accuracy_feedback ap pr x p)"
| "serve ap pr (Post_Review x p) = forget (review_run ap pr x p)"
| "serve ap pr (Post_Decision x p) = forget (save_decision ap pr x p)"
| "serve ap pr (Delete_Run x) = forget (remove_run ap pr x)"
| "serve ap pr (Patch_Remediation x p) = forget (patch_remediation ap pr x p)"
| "serve ap pr (Get_Jobs n) = forget (get_scan_jobs ap pr n)"
| "serve ap pr (Get_Job x) = forget (get_scan_job ap pr x)"
| "serve ap pr (Retry_Job x) = forget (retry_scan_job ap pr x)"
| "serve ap pr (Cancel_Job x) = forget (cancel_job ap pr x)"
| "serve ap pr (Get_Projects b) = forget (get_projects ap pr b)"
| "serve ap pr (Post_Project n c m) = forget (add_project ap pr n c m)"
| "serve ap pr (Patch_Project x n a) = forget (patch_project ap pr x n a)"
| "serve ap pr Get_Members = forget (get_members ap pr)"
| "serve ap pr Get_Settings = forget (workspace_settings ap pr)"
| "serve ap pr (Save_Settings days) = forget (save_workspace_settings ap pr days)"
| "serve ap pr Get_Usage = forget (get_workspace_usage ap pr)"
| "serve ap pr Get_Privacy = forget (get_workspace_privacy ap pr)"
| "serve ap pr (Get_Notifications f today) = forget (get_notifications ap pr f today)"
| "serve ap pr (Get_Accuracy b) = forget (get_accuracy_metrics ap pr b)"
| "serve ap pr Preview_Retention = forget (retention_preview ap pr)"
| "serve ap pr (List_Evidence c q v) = forget (list_evidence ap pr c q v)"
| "serve ap pr Check_Chain = forget (audit_chain ap pr)"

text \<open>The table of permissions, and the run that a request names.\<close>

fun permission_of :: "call \<Rightarrow> permission" where
  "permission_of (Get_File x y) = EVIDENCE_DOWNLOAD"
| "permission_of (Get_Page x y n) = EVIDENCE_DOWNLOAD"
| "permission_of (Run_Audit x) = AUDIT_READ"
| "permission_of Check_Chain = AUDIT_READ"
| "permission_of (Bulk xs a) = (if a = DELETE_RUNS then RUN_DELETE else RUN_UPDATE)"
| "permission_of (Set_Metadata x p) = RUN_UPDATE"
| "permission_of (Post_Comment x body) = RUN_UPDATE"
| "permission_of (Post_Remediation x rp) = RUN_UPDATE"
| "permission_of (Patch_Remediation x ru) = RUN_UPDATE"
| "permission_of (Post_Feedback x fp) = RUN_REVIEW"
| "permission_of (Post_Review x rv) = RUN_REVIEW"
| "permission_of (Post_Decision x dr) = RUN_DECIDE"
| "permission_of (Delete_Run x) = RUN_DELETE"
| "permission_of (Get_Jobs n) = JOB_READ"
| "permission_of (Get_Job x) = JOB_READ"
| "permission_of (Retry_Job x) = JOB_MANAGE"
| "permission_of (Cancel_Job x) = JOB_MANAGE"
| "permission_of (Post_Project n c m) = PROJECT_MANAGE"
| "permission_of (Patch_Project x nm ar) = PROJECT_MANAGE"
| "permission_of Get_Members = MEMBER_READ"
| "permission_of (Save_Settings days) = WORKSPACE_MANAGE"
| "permission_of (Get_Projects b) = WORKSPACE_READ"
| "permission_of Get_Settings = WORKSPACE_READ"
| "permission_of Get_Usage = WORKSPACE_READ"
| "permission_of Get_Privacy = WORKSPACE_READ"
| "permission_of (Get_Notifications f today) = WORKSPACE_READ"
| "permission_of Preview_Retention = WORKSPACE_READ"
| "permission_of (Get_Accuracy b) = METRICS_READ"
| "permission_of (List_Runs q) = RUN_READ"
| "permission_of (Get_Run x) = RUN_READ"
| "permission_of (Diff_Runs x y) = RUN_READ"
| "permission_of (Get_Comments x) = RUN_READ"
| "permission_of (Get_Remediations x) = RUN_READ"
| "permission_of (Get_Requirements x ca st se) = RUN_READ"
| "permission_of (Get_Assets x) = RUN_READ"
| "permission_of (List_Evidence ca q v) = RUN_READ"

fun named_runs :: "call \<Rightarrow> string list" where
  "named_runs (Get_Run x) = [x]"
| "named_runs (Get_File x y) = [x]"
| "named_runs (Get_Page x y n) = [x]"
| "named_runs (Diff_Runs x y) = [x, y]"
| "named_runs (Run_Audit x) = [x]"
| "named_runs (Get_Comments x) = [x]"
| "named_runs (Get_Remediations x) = [x]"
| "named_runs (Get_Requirements x ca st se) = [x]"
| "named_runs (Get_Assets x) = [x]"
| "named_runs (Set_Metadata x p) = [x]"
| "named_runs (Post_Comment x body) = [x]"
| "named_runs (Post_Remediation x rp) = [x]"
| "named_runs (Post_Feedback x fp) = [x]"
| "named_runs (Post_Review x rv) = [x]"
| "named_runs (Post_Decision x dr) = [x]"
| "named_runs (Delete_Run x) = [x]"
| "named_runs _ = []"

section \<open>Permissions\<close>

lemma guarded_run: "guarded ap pr p m d = (if has_permission (ap_upper ap) pr p then m d else (Inl (HTTPException 403), d))"
  by (simp add: guarded_def require_permission_def and_then_attempt)

lemma scoped_run: "scoped ap pr x k d = (case require_scoped (en_client (ap_en ap)) x pr d of Inl e \<Rightarrow> (Inl e, d) | Inr run \<Rightarrow> k run d)"
  by (simp add: scoped_def and_then_attempt)

lemma forget_run: "forget m d = (map_sum id (\<lambda>_. ()) (fst (m d)), snd (m d))"
  by (auto simp: forget_def and_then_def return_value_def split: prod.splits sum.splits)

lemmas route_defs = list_runs_route_def get_run_def download_run_file_def preview_source_page_def diff_runs_def get_run_audit_def
  get_comments_def get_run_remediations_def list_requirements_def list_run_evidence_def bulk_manage_runs_def update_run_metadata_def
  create_comment_def create_run_remediation_def create_accuracy_feedback_def review_run_def save_decision_def remove_run_def
  patch_remediation_def get_scan_jobs_def get_scan_job_def retry_scan_job_def cancel_job_def get_projects_def add_project_def
  patch_project_def get_members_def workspace_settings_def save_workspace_settings_def get_workspace_usage_def get_workspace_privacy_def
  get_notifications_def get_accuracy_metrics_def retention_preview_def list_evidence_def audit_chain_def

lemma refused: "\<not> has_permission (ap_upper ap) pr (permission_of c) \<Longrightarrow> serve ap pr c d = (Inl (HTTPException 403), d)"
  by (cases c) (simp_all add: route_defs guarded_run forget_run)

lemma out_of_scope:
  assumes "has_permission (ap_upper ap) pr (permission_of c)" and "x \<in> set (named_runs c)"
    and "require_scoped (en_client (ap_en ap)) x pr d = Inl e"
  shows "\<exists>e. serve ap pr c d = (Inl e, d)"
  using assms by (cases c) (auto simp: route_defs guarded_run scoped_run forget_run split: sum.splits)

section \<open>Isolation\<close>

lemma stays_guarded: "stays w before d \<Longrightarrow> stays w before (snd (m d)) \<Longrightarrow> stays w before (snd (guarded ap pr p m d))"
  by (simp add: guarded_run)

lemma stays_scoped:
  assumes "stays w before d" and "\<And>run. seen pr run d \<Longrightarrow> rn_run_id run = x \<Longrightarrow> stays w before (snd (k run d))"
  shows "stays w before (snd (scoped ap pr x k d))"
  using assms by (auto simp: scoped_run dest: scoped_seen split: sum.splits)

lemma stays_read:
  "stays w before d \<Longrightarrow> stays w before (snd (return_value y d))" "stays w before d \<Longrightarrow> stays w before (snd (fetch f d))"
  "stays w before d \<Longrightarrow> stays w before (snd (attempt g d))"
  by (simp_all add: return_value_def fetch_def attempt_def)

lemma stays_and_then:
  "stays w before (snd (m d)) \<Longrightarrow> (\<And>x d1. stays w before d1 \<Longrightarrow> stays w before (snd (k x d1))) \<Longrightarrow> stays w before (snd (and_then m k d))"
  by (auto simp: and_then_def split: prod.splits sum.splits)

lemma snd_integrity_as: "snd (integrity_as n m d) = snd (m d)"
  by (auto simp: integrity_as_def split: prod.splits sum.splits error.splits)

lemmas stays_rules = stays_guarded stays_scoped stays_read

lemma stays_run_calls:
  assumes "stays w before d" and "pr_workspace_id pr \<noteq> w" and "en_new_id (ap_en ap) \<notin> rm_remediation_id ` set (remediations d)"
  shows "stays w before (snd (bulk_manage_runs ap pr xs action d))"
    and "stays w before (snd (update_run_metadata ap pr x md d))"
    and "stays w before (snd (create_comment ap pr x body d))"
    and "stays w before (snd (create_run_remediation ap pr x rp d))"
    and "stays w before (snd (create_accuracy_feedback ap pr x fp d))"
    and "stays w before (snd (review_run ap pr x rv d))"
    and "stays w before (snd (save_decision ap pr x dr d))"
    and "stays w before (snd (remove_run ap pr x d))"
proof -
  show "stays w before (snd (bulk_manage_runs ap pr xs action d))"
    using assms by (auto simp: bulk_manage_runs_def bulk_manage_def intro!: stays_guarded stays_bulk_loop)
  show "stays w before (snd (update_run_metadata ap pr x md d))"
    using assms by (auto simp: update_run_metadata_def intro!: stays_rules stays_services)
  show "stays w before (snd (create_comment ap pr x body d))"
    using assms by (auto simp: create_comment_def flow_simps intro!: stays_rules stays_audit stays_comment)
  show "stays w before (snd (create_run_remediation ap pr x rp d))"
    using assms by (auto simp: create_run_remediation_def intro!: stays_rules stays_services)
  show "stays w before (snd (create_accuracy_feedback ap pr x fp d))"
    using assms by (auto simp: create_accuracy_feedback_def intro!: stays_rules stays_services)
  show "stays w before (snd (review_run ap pr x rv d))"
    using assms by (auto simp: review_run_def intro!: stays_rules stays_services)
  show "stays w before (snd (save_decision ap pr x dr d))"
    using assms by (auto simp: save_decision_def intro!: stays_rules stays_services)
  show "stays w before (snd (remove_run ap pr x d))"
    using assms by (auto simp: remove_run_def perform_def intro!: stays_rules stays_services)
qed

lemma stays_job_calls:
  assumes "stays w before d" and "pr_workspace_id pr \<noteq> w"
  shows "stays w before (snd (retry_scan_job ap pr x d))" and "stays w before (snd (cancel_job ap pr x d))"
proof -
  have "stays w before (snd (retry x now d))" "stays w before (snd (cancel_scan_job x now d))"
    if "require_scoped_job x pr d = Inr j" for j now
  proof -
    from that assms(2) have j: "load_scan_job x d = Some j" "sj_workspace_id j \<noteq> w"
      by (auto simp: require_scoped_job_def split: option.splits if_splits)
    show "stays w before (snd (retry x now d))"
      unfolding retry_def Let_def snd_conv by (rule stays_job_update [OF assms(1) j]) simp_all
    show "stays w before (snd (cancel_scan_job x now d))"
      unfolding cancel_scan_job_def Let_def snd_conv by (rule stays_job_update [OF assms(1) j]) simp_all
  qed
  then show "stays w before (snd (retry_scan_job ap pr x d))" "stays w before (snd (cancel_job ap pr x d))"
    using assms
    by (auto simp: retry_scan_job_def cancel_job_def flow_simps intro!: stays_guarded stays_audit split: sum.splits)
qed

lemma stays_workspace_calls:
  assumes "stays w before d" and "pr_workspace_id pr \<noteq> w"
  shows "stays w before (snd (patch_remediation ap pr x ru d))"
    and "stays w before (snd (get_projects ap pr b d))"
    and "stays w before (snd (add_project ap pr name code made d))"
    and "stays w before (snd (patch_project ap pr x nm ar d))"
    and "stays w before (snd (save_workspace_settings ap pr days d))"
proof -
  show "stays w before (snd (patch_remediation ap pr x ru d))"
    using assms
    by (auto simp: patch_remediation_def require_scoped_remediation_def flow_simps split: sum.splits option.splits if_splits
        intro!: stays_guarded stays_audit stays_patch)
  show "stays w before (snd (get_projects ap pr b d))"
    unfolding get_projects_def using assms by (intro stays_guarded stays_and_then stays_default_project stays_read) simp_all
  show "stays w before (snd (add_project ap pr name code made d))"
    unfolding add_project_def Let_def using assms
    by (intro stays_guarded stays_and_then stays_read)
       (simp_all add: snd_integrity_as change_def stays_create_project stays_audit)
  show "stays w before (snd (patch_project ap pr x nm ar d))"
    using assms
    by (auto simp: patch_project_def require_scoped_project_def flow_simps split: sum.splits option.splits if_splits
        intro!: stays_guarded stays_audit stays_project_update)
  show "stays w before (snd (save_workspace_settings ap pr days d))"
    using assms by (auto simp: save_workspace_settings_def flow_simps intro!: stays_guarded stays_audit stays_settings)
qed

lemma stays_serve:
  assumes "stays w before d" and "pr_workspace_id pr \<noteq> w" and "en_new_id (ap_en ap) \<notin> rm_remediation_id ` set (remediations d)"
  shows "stays w before (snd (serve ap pr c d))"
  using stays_run_calls [OF assms] stays_job_calls [OF assms(1,2)] stays_workspace_calls [OF assms(1,2)] assms(1)
  by (cases c) (auto simp: forget_run route_defs guarded_run intro!: stays_rules)

text \<open>Requests of callers of other workspaces, one after the other; an identifier that a request draws is new.\<close>

inductive foreign_requests :: "string \<Rightarrow> db \<Rightarrow> db \<Rightarrow> bool" for w d where
  start: "foreign_requests w d d"
| request: "foreign_requests w d d1 \<Longrightarrow> pr_workspace_id pr \<noteq> w
    \<Longrightarrow> en_new_id (ap_en ap) \<notin> rm_remediation_id ` set (remediations d1) \<Longrightarrow> foreign_requests w d (snd (serve ap pr c d1))"



section \<open>An example\<close>

definition demo_api :: api_env where
  "demo_api = \<lparr>ap_en = demo_env, ap_upper = (\<lambda>s. s), ap_casefold = (\<lambda>s. s), ap_text_sha = (\<lambda>_. ''''), ap_lower = (\<lambda>s. s),
     ap_files = demo_fs, ap_open = (\<lambda>_. None)\<rparr>"

definition demo_intruder :: principal where
  "demo_intruder = \<lparr>pr_workspace_id = ''v'', pr_user_id = ''m'', pr_role = ''OWNER'', pr_permissions = None\<rparr>"

lemma demo_scanned_wf: "tenant_wf demo_scanned" and demo_scanned_remediations: "remediations demo_scanned = []"
proof -
  obtain row where row: "run_to_storage None demo_scan = Inr row" using run_to_storage_Some [of demo_scan None] by auto
  show "remediations demo_scanned = []"
    using row by (simp add: demo_scanned_def save_run_def Let_def ensure_workspace_row_def insert_workspace_def empty_db_def)
  show "tenant_wf demo_scanned"
    using row by (simp add: demo_scanned_def save_run_def Let_def sql_upsert_def sql_insert_def ensure_workspace_row_def
        insert_workspace_def empty_db_def tenant_wf_def homely_def)
qed


lemma demo_get: "serve demo_api demo_pr (Get_Run ''r1'') demo_scanned = (Inr (), demo_scanned)"
  using demo_scanned_facts(2)
  by (simp add: get_run_def forget_run guarded_run scoped_run demo_api_def demo_env_def demo_pr_def has_permission_def permissions_for_def
      OWNER_PERMISSIONS_def all_permissions_def require_scoped_def require_def demo_scan_def recount_def Let_def demo_run_def
      user_can_access_project_def return_value_def requirement_counts_def split: option.split)


text \<open>The bulk actions check the workspace of a run and not its project.\<close>

lemma bulk_skips_projects:
  assumes "load_run (en_client (ap_en ap)) x d = Inr (Some run)" and "rn_workspace_id run = pr_workspace_id pr"
    and "has_permission (ap_upper ap) pr RUN_UPDATE" and "\<not> user_can_access_project pr (rn_project_id run) d"
  shows "serve ap pr (Set_Metadata x p) d = (Inl (HTTPException 404), d)"
    and "\<exists>r\<in>set (runs (snd (serve ap pr (Bulk [x] ARCHIVE) d))). rr_run_id r = x \<and> rr_archived_at r = Some (en_now (ap_en ap))"
proof -
  have x: "rn_run_id run = x" "rn_state run \<noteq> None"
    using loaded_row [OF assms(1)] assms(1)
    by (auto simp: load_run_def bind_result_Inr run_from_storage_def run_of_row_def split: option.splits)
  obtain r where r: "r \<in> set (runs d)" "rr_run_id r = x" using loaded_row [OF assms(1)] by blast
  let ?run = "run\<lparr>rn_archived_at := Some (en_now (ap_en ap)), rn_updated_at := en_now (ap_en ap)\<rparr>"
  obtain row where "run_to_storage (en_client (ap_en ap)) ?run = Inr row"
    using x run_to_storage_Some [of ?run "en_client (ap_en ap)"] by auto
  moreover from this have "rr_run_id row = x" "rr_archived_at row = Some (en_now (ap_en ap))"
    using x(1) by (auto simp: run_to_storage_def split: option.splits prod.splits)
  ultimately have row: "run_to_storage (en_client (ap_en ap)) ?run = Inr row" "rr_run_id row = x" "rr_archived_at row = Some (en_now (ap_en ap))" .
  then have "row \<in> set (sql_upsert (\<lambda>r. rr_run_id r = x) (\<lambda>_. row) row (runs d))"
    using r by (auto simp: sql_upsert_def in_sql_update)
  then show "\<exists>r\<in>set (runs (snd (serve ap pr (Bulk [x] ARCHIVE) d))). rr_run_id r = x \<and> rr_archived_at r = Some (en_now (ap_en ap))"
    using assms row
    by (auto simp: bulk_manage_runs_def bulk_manage_def dedup_def forget_run guarded_run bulk_write_def save_run_def audit_def record_audit_event_def Let_def
        intro!: bexI [of _ row])
  show "serve ap pr (Set_Metadata x p) d = (Inl (HTTPException 404), d)"
    using assms by (simp add: update_run_metadata_def forget_run guarded_run scoped_run require_scoped_def require_def)
qed

end
