(* ===== verification/Account_Routes.thy ===== *)
theory Account_Routes
  imports Tenants Auth_Service Sign_In
begin

text \<open>
  The routes on accounts (\<open>src/app/api/auth.py\<close> after sign-in, \<open>members.py\<close>) and the probes of \<open>api/health.py\<close> that look at
  the database, and what callers of one workspace can do with them to the accounts of another: members, sessions, second
  factors, API tokens and reset links stay as they are. Only pending invitations do not.
\<close>

section \<open>Routes\<close>

definition create_invitation_route :: "api_env \<Rightarrow> auth_env \<Rightarrow> principal \<Rightarrow> string \<Rightarrow> string \<Rightarrow> (db, action_token) handler" where
  "create_invitation_route ap ae pr name role = guarded ap pr MEMBER_MANAGE (create_invitation ae pr name role)"

definition create_member_route :: "api_env \<Rightarrow> auth_env \<Rightarrow> principal \<Rightarrow> string \<Rightarrow> ustr \<Rightarrow> string \<Rightarrow> (db, user_row) handler" where
  "create_member_route ap ae pr name password role = guarded ap pr MEMBER_MANAGE (create_member ae pr name password role)"

definition update_member_route :: "api_env \<Rightarrow> auth_env \<Rightarrow> principal \<Rightarrow> string \<Rightarrow> string option \<Rightarrow> bool option \<Rightarrow> (db, user_row) handler" where
  "update_member_route ap ae pr x role active = guarded ap pr MEMBER_MANAGE (update_member ae pr x role active)"

definition issue_member_password_reset :: "api_env \<Rightarrow> auth_env \<Rightarrow> principal \<Rightarrow> string \<Rightarrow> (db, action_token) handler" where
  "issue_member_password_reset ap ae pr x = guarded ap pr MEMBER_MANAGE (issue_password_reset ae pr x)"

definition list_tokens :: "api_env \<Rightarrow> principal \<Rightarrow> (db, api_token list) handler" where
  "list_tokens ap pr = guarded ap pr TOKEN_MANAGE (fetch (list_api_tokens (pr_workspace_id pr)))"

definition create_token_route :: "api_env \<Rightarrow> auth_env \<Rightarrow> principal \<Rightarrow> token_request \<Rightarrow> (db, api_token) handler" where
  "create_token_route ap ae pr p = guarded ap pr TOKEN_MANAGE (create_token ae pr p)"

definition revoke_token_route :: "api_env \<Rightarrow> auth_env \<Rightarrow> principal \<Rightarrow> string \<Rightarrow> (db, api_token) handler" where
  "revoke_token_route ap ae pr x = guarded ap pr TOKEN_MANAGE (revoke_token ae pr x)"

definition list_sessions :: "auth_env \<Rightarrow> principal \<Rightarrow> string option \<Rightarrow> (db, (string \<times> timestamp \<times> timestamp \<times> bool) list) handler" where
  "list_sessions ae pr cookie = fetch (list_auth_sessions (pr_user_id pr) (ae_now ae) (cookie_digest ae cookie))"

text \<open>The page that a browser is sent to after an exchange with the identity provider.\<close>

definition oidc_callback :: "auth_env \<Rightarrow> string \<Rightarrow> string \<Rightarrow> string \<Rightarrow> (db, string) handler" where
  "oidc_callback ae browser_state code st =
     and_then (complete_oidc ae browser_state code st) (\<lambda>result.
     return_value (case result of LoggedIn _ \<Rightarrow> ''/app'' | MfaRequired token _ \<Rightarrow> ''/app?mfa_token='' @ token))"

text \<open>Liveness is public, details are not; the metrics are there when they are switched on.\<close>

definition healthz :: "api_env \<Rightarrow> principal option \<Rightarrow> (db, 'h) handler \<Rightarrow> bool \<Rightarrow> (db, 'h option) handler" where
  "healthz ap caller view detail =
     (if \<not> detail then return_value None
      else case caller of
        None \<Rightarrow> raise_error (HTTPException 401)
      | Some pr \<Rightarrow> guarded ap pr HEALTH_DETAIL_READ (and_then view (\<lambda>h. return_value (Some h))))"

definition metrics :: "api_env \<Rightarrow> principal option \<Rightarrow> bool \<Rightarrow> 'h \<Rightarrow> (db, 'h) handler" where
  "metrics ap caller enabled prometheus_text =
     (if \<not> enabled then raise_error (HTTPException 404)
      else case caller of
        None \<Rightarrow> raise_error (HTTPException 401)
      | Some pr \<Rightarrow> guarded ap pr METRICS_READ (return_value prometheus_text))"

section \<open>The accounts of a workspace\<close>

definition user_ids :: "string \<Rightarrow> db \<Rightarrow> string set" where
  "user_ids w d = us_user_id ` set (filter (\<lambda>u. us_workspace_id u = w) (users d))"

text \<open>An invitation without the mark that it was used.\<close>

definition without_use :: "action_token \<Rightarrow> action_token" where
  "without_use k = (if tk_purpose k = ''INVITE'' then k\<lparr>tk_used_at := None\<rparr> else k)"

definition accounts_of :: "string \<Rightarrow> db \<Rightarrow> db" where
  "accounts_of w d = empty_db\<lparr>workspaces := filter (\<lambda>r. ws_workspace_id r = w) (workspaces d),
     users := filter (\<lambda>u. us_workspace_id u = w) (users d),
     workspace_members := filter (\<lambda>m. wm_workspace_id m = w) (workspace_members d),
     auth_sessions := filter (\<lambda>s. se_user_id s \<in> user_ids w d) (auth_sessions d),
     user_mfa := filter (\<lambda>m. mf_user_id m \<in> user_ids w d) (user_mfa d),
     api_tokens := filter (\<lambda>t. at_workspace_id t = w) (api_tokens d),
     auth_action_tokens := map without_use (filter (\<lambda>k. tk_workspace_id k = w) (auth_action_tokens d)),
     audit_events := filter (\<lambda>r. ae_workspace_id r = w) (audit_events d)\<rparr>"

definition accounts_wf :: "db \<Rightarrow> bool" where
  "accounts_wf d \<longleftrightarrow> distinct (map us_user_id (users d)) \<and> distinct (map se_token_hash (auth_sessions d))
     \<and> distinct (map at_token_id (api_tokens d))
     \<and> (\<forall>k\<in>set (auth_action_tokens d). tk_purpose k = ''RESET''
          \<longrightarrow> (\<exists>u\<in>set (users d). tk_user_id k = Some (us_user_id u) \<and> tk_workspace_id k = us_workspace_id u))"

text \<open>The caller is one of the users of the workspace that the request is made for.\<close>

definition at_home :: "principal \<Rightarrow> db \<Rightarrow> bool" where
  "at_home pr d \<longleftrightarrow> (\<exists>u\<in>set (users d). us_user_id u = pr_user_id pr \<and> us_workspace_id u = pr_workspace_id pr)"

text \<open>What a step of a caller of another workspace keeps.\<close>

definition spares :: "principal \<Rightarrow> string \<Rightarrow> db \<Rightarrow> db \<Rightarrow> bool" where
  "spares pr w before d \<longleftrightarrow> accounts_wf d \<and> at_home pr d \<and> accounts_of w d = accounts_of w before"

section \<open>Steps\<close>

lemma user_elsewhere:
  assumes "accounts_wf d" and "u \<in> set (users d)" and "us_workspace_id u \<noteq> w"
  shows "us_user_id u \<notin> user_ids w d"
  using assms distinct_key_eq [of us_user_id "users d"] by (fastforce simp: accounts_wf_def user_ids_def)

lemma caller_elsewhere: "spares pr w before d \<Longrightarrow> pr_workspace_id pr \<noteq> w \<Longrightarrow> pr_user_id pr \<notin> user_ids w d"
  using user_elsewhere by (fastforce simp: spares_def at_home_def)

lemma spares_other_tables:
  "spares pr w before d \<Longrightarrow> spares pr w before (d\<lparr>rate_limit_hits := h\<rparr>)"
  by (simp add: spares_def accounts_wf_def at_home_def accounts_of_def user_ids_def)

lemma spares_record_auth:
  "spares pr w before d \<Longrightarrow> v \<noteq> w \<Longrightarrow> spares pr w before (snd (record_auth ae v x event payload outcome d))"
  by (simp add: spares_def accounts_wf_def at_home_def accounts_of_def user_ids_def record_auth_def change_def
      record_audit_event_def Let_def filter_sql_insert)

lemma spares_user_update:
  assumes "spares pr w before d" and "x \<notin> user_ids w d" and "\<And>u. us_user_id (f u) = us_user_id u" "\<And>u. us_workspace_id (f u) = us_workspace_id u"
  shows "spares pr w before (d\<lparr>users := sql_update (\<lambda>u. us_user_id u = x) f (users d)\<rparr>)"
proof -
  have "filter (\<lambda>u. us_workspace_id u = w) (sql_update (\<lambda>u. us_user_id u = x) f (users d)) = filter (\<lambda>u. us_workspace_id u = w) (users d)"
    using assms(2,4) by (intro filter_sql_update) (auto simp: user_ids_def)
  moreover have "map us_user_id (sql_update (\<lambda>u. us_user_id u = x) f (users d)) = map us_user_id (users d)"
    using assms(3) by (simp add: map_sql_update)
  moreover have "\<exists>u'\<in>set (sql_update (\<lambda>u. us_user_id u = x) f (users d)). us_user_id u' = us_user_id u \<and> us_workspace_id u' = us_workspace_id u"
    if "u \<in> set (users d)" for u
    using that assms(3,4) by (intro bexI [of _ "if us_user_id u = x then f u else u"]) (auto simp: in_sql_update)
  ultimately show ?thesis
    using assms(1) unfolding spares_def accounts_wf_def at_home_def accounts_of_def user_ids_def
    by simp (metis (no_types, lifting))
qed

lemma spares_sessions:
  assumes "spares pr w before d" and "\<And>s. s \<in> set (auth_sessions d) \<Longrightarrow> Q s \<Longrightarrow> se_user_id s \<notin> user_ids w d"
  shows "spares pr w before (d\<lparr>auth_sessions := sql_delete Q (auth_sessions d)\<rparr>)"
proof -
  have "filter (\<lambda>s. se_user_id s \<in> user_ids w d) (sql_delete Q (auth_sessions d)) = filter (\<lambda>s. se_user_id s \<in> user_ids w d) (auth_sessions d)"
    using assms(2) by (rule filter_sql_delete)
  moreover have "distinct (map se_token_hash (sql_delete Q (auth_sessions d)))"
    using assms(1) by (simp add: spares_def accounts_wf_def sql_delete_def distinct_map_filter)
  ultimately show ?thesis
    using assms(1) by (simp add: spares_def accounts_wf_def at_home_def accounts_of_def user_ids_def)
qed

lemma spares_mfa:
  assumes "spares pr w before d" and "\<And>ms. filter (\<lambda>m. mf_user_id m \<in> user_ids w d) (g ms) = filter (\<lambda>m. mf_user_id m \<in> user_ids w d) ms"
  shows "spares pr w before (d\<lparr>user_mfa := g (user_mfa d)\<rparr>)"
  using assms by (simp add: spares_def accounts_wf_def at_home_def accounts_of_def user_ids_def)

lemma spares_new_session:
  assumes "spares pr w before d" and "x \<notin> user_ids w d"
  shows "spares pr w before (snd (new_session ae x d))"
proof -
  define s where "s = \<lparr>se_token_hash = ae_token_hash ae (asc (ae_secret ae 0)), se_user_id = x,
    se_expires_at = ae_now ae + SESSION_HOURS * 3600 * 1000000, se_created_at = ae_now ae\<rparr>"
  have run: "new_session ae x d = (case sql_insert_unique (\<lambda>a b. se_token_hash a = se_token_hash b) s (auth_sessions d) of
      Inl e \<Rightarrow> (Inl e, d)
    | Inr t \<Rightarrow> (Inr (), d\<lparr>auth_sessions := sql_delete (\<lambda>r. se_token_hash r \<in> set (map se_token_hash (drop MAX_SESSIONS_PER_USER
        (order_by_desc se_created_at (sql_select (\<lambda>r. se_user_id r = x) t))))) t\<rparr>))"
    by (simp only: new_session_def issue_session_def create_auth_session_def s_def Let_def)
  show ?thesis
  proof (cases "sql_insert_unique (\<lambda>a b. se_token_hash a = se_token_hash b) s (auth_sessions d)")
    case (Inl e)
    then show ?thesis using assms(1) by (simp add: run)
  next
    case (Inr t)
    define d1 where "d1 = d\<lparr>auth_sessions := t\<rparr>"
    define dropped where "dropped = set (map se_token_hash (drop MAX_SESSIONS_PER_USER (order_by_desc se_created_at (sql_select (\<lambda>r. se_user_id r = x) t))))"
    have t: "t = auth_sessions d @ [s]" "se_token_hash s \<notin> se_token_hash ` set (auth_sessions d)"
      using Inr by (auto simp: sql_insert_unique_def list_ex_iff split: if_splits)
    have d1: "spares pr w before d1"
      using assms t by (simp add: spares_def accounts_wf_def at_home_def accounts_of_def user_ids_def d1_def s_def)
    have "se_user_id r = x" if "r \<in> set t" "se_token_hash r \<in> dropped" for r
    proof -
      obtain r' where "r' \<in> set t" "se_user_id r' = x" "se_token_hash r' = se_token_hash r"
        using \<open>se_token_hash r \<in> dropped\<close> by (auto simp: dropped_def order_by_desc_def dest!: in_set_dropD)
      moreover have "distinct (map se_token_hash t)" using d1 by (simp add: spares_def accounts_wf_def d1_def)
      ultimately show ?thesis using that(1) distinct_key_eq [of se_token_hash t] by metis
    qed
    then have "spares pr w before (d1\<lparr>auth_sessions := sql_delete (\<lambda>r. se_token_hash r \<in> dropped) (auth_sessions d1)\<rparr>)"
      using assms(2) by (intro spares_sessions [OF d1]) (auto simp: d1_def user_ids_def)
    then show ?thesis
      using Inr by (simp add: run d1_def dropped_def)
  qed
qed

lemma spares_token_insert:
  assumes "spares pr w before d" and "at_workspace_id t \<noteq> w" and "at_token_id t \<notin> at_token_id ` set (api_tokens d)"
  shows "spares pr w before (d\<lparr>api_tokens := sql_insert t (api_tokens d)\<rparr>)"
  using assms by (simp add: spares_def accounts_wf_def at_home_def accounts_of_def user_ids_def filter_sql_insert) (simp add: sql_insert_def)

lemma spares_token_update:
  assumes "spares pr w before d" and "t \<in> set (api_tokens d)" and "at_workspace_id t \<noteq> w"
    and "\<And>r. at_token_id (f r) = at_token_id r" "\<And>r. at_workspace_id (f r) = at_workspace_id r"
  shows "spares pr w before (d\<lparr>api_tokens := sql_update (\<lambda>r. at_token_id r = at_token_id t) f (api_tokens d)\<rparr>)"
proof -
  have keys: "distinct (map at_token_id (api_tokens d))" using assms(1) by (simp add: spares_def accounts_wf_def)
  have "filter (\<lambda>t. at_workspace_id t = w) (sql_update (\<lambda>r. at_token_id r = at_token_id t) f (api_tokens d))
      = filter (\<lambda>t. at_workspace_id t = w) (api_tokens d)"
    using assms(2,3,5) distinct_key_eq [OF keys] by (intro filter_sql_update) metis
  then show ?thesis
    using assms(1,4) by (simp add: spares_def accounts_wf_def at_home_def accounts_of_def user_ids_def map_sql_update)
qed

lemma map_filter_update:
  assumes "\<And>k. k \<in> set t \<Longrightarrow> P k \<Longrightarrow> Q (f k) = Q k" and "\<And>k. k \<in> set t \<Longrightarrow> P k \<Longrightarrow> Q k \<Longrightarrow> g (f k) = g k"
  shows "map g (filter Q (sql_update P f t)) = map g (filter Q t)"
  using assms by (induction t) auto

text \<open>A new link retires those for the same user; for the same name it retires invitations of every workspace.\<close>

lemma spares_links:
  assumes "spares pr w before d" and "v \<noteq> w"
    and "purpose = ''RESET'' \<Longrightarrow> \<exists>u\<in>set (users d). x = Some (us_user_id u) \<and> us_workspace_id u = v"
  shows "spares pr w before (snd (create_auth_action_token digest v purpose expires by name x role now d))"
proof -
  define retired where "retired t = (let t1 = (if purpose = ''INVITE'' \<and> given name then retire_links (\<lambda>k. tk_purpose k = ''INVITE'' \<and> tk_username k = name) now t else t)
    in if purpose = ''RESET'' \<and> given x then retire_links (\<lambda>k. tk_purpose k = ''RESET'' \<and> tk_user_id k = x) now t1 else t1)" for t
  define k where "k = \<lparr>tk_token_hash = digest, tk_workspace_id = v, tk_purpose = purpose, tk_username = name, tk_user_id = x,
    tk_role = role, tk_expires_at = expires, tk_used_at = None, tk_created_by = by, tk_created_at = now\<rparr>"
  have wf: "accounts_wf d" using assms(1) by (simp add: spares_def)
  have reset: "tk_workspace_id r = v" if r: "r \<in> set (auth_action_tokens d)" "tk_purpose r = ''RESET''" "tk_user_id r = x" "purpose = ''RESET''" for r
  proof -
    obtain u u' where "u \<in> set (users d)" "x = Some (us_user_id u)" "us_workspace_id u = v"
      "u' \<in> set (users d)" "tk_user_id r = Some (us_user_id u')" "tk_workspace_id r = us_workspace_id u'"
      using assms(3) r wf unfolding accounts_wf_def by blast
    then show ?thesis using r(3) wf distinct_key_eq [of us_user_id "users d"] by (simp add: accounts_wf_def) metis
  qed
  have kept: "map without_use (filter (\<lambda>k. tk_workspace_id k = w) (retired (auth_action_tokens d)))
      = map without_use (filter (\<lambda>k. tk_workspace_id k = w) (auth_action_tokens d))"
    using assms(2) reset
    by (auto simp: retired_def retire_links_def Let_def without_use_def intro!: map_filter_update)
  have same: "\<exists>k'\<in>set (auth_action_tokens d). tk_purpose k' = tk_purpose k \<and> tk_user_id k' = tk_user_id k \<and> tk_workspace_id k' = tk_workspace_id k"
    if "k \<in> set (retired (auth_action_tokens d))" for k
    using that by (force simp: retired_def retire_links_def Let_def in_sql_update split: if_splits)
  have linked: "\<exists>u\<in>set (users d). tk_user_id r = Some (us_user_id u) \<and> tk_workspace_id r = us_workspace_id u"
    if r: "r \<in> set (retired (auth_action_tokens d) @ [k])" "tk_purpose r = ''RESET''" for r
  proof (cases "r = k")
    case True
    then show ?thesis using assms(3) r(2) by (auto simp: k_def)
  next
    case False
    then obtain k' where "k' \<in> set (auth_action_tokens d)" "tk_purpose k' = ''RESET''" "tk_user_id k' = tk_user_id r" "tk_workspace_id k' = tk_workspace_id r"
      using same [of r] r by auto
    then show ?thesis using wf unfolding accounts_wf_def by metis
  qed
  have "accounts_wf (d\<lparr>auth_action_tokens := retired (auth_action_tokens d) @ [k]\<rparr>)"
    using wf linked unfolding accounts_wf_def by simp
  moreover have "accounts_of w (d\<lparr>auth_action_tokens := retired (auth_action_tokens d) @ [k]\<rparr>) = accounts_of w d"
    using kept assms(2) by (simp add: accounts_of_def user_ids_def k_def)
  ultimately have written: "spares pr w before (d\<lparr>auth_action_tokens := retired (auth_action_tokens d) @ [k]\<rparr>)"
    using assms(1) by (simp add: spares_def at_home_def)
  have "create_auth_action_token digest v purpose expires by name x role now d
      = (case sql_insert_unique (\<lambda>a b. tk_token_hash a = tk_token_hash b) k (retired (auth_action_tokens d)) of
           Inl e \<Rightarrow> (Inl e, d) | Inr t \<Rightarrow> (Inr k, d\<lparr>auth_action_tokens := t\<rparr>))"
    by (simp only: create_auth_action_token_def retired_def k_def Let_def)
  then show ?thesis using assms(1) written by (simp add: sql_insert_unique_def)
qed

lemma spares_workspace:
  assumes "spares pr w before d" and "v \<noteq> w"
  shows "spares pr w before (ensure_workspace_row now v d)"
    and "spares pr w before (ensure_workspace v x role label now d)"
proof -
  have row: "spares pr w before (insert_workspace r d)" if "ws_workspace_id r = v" for r
    using assms that by (simp add: insert_workspace_def spares_def accounts_wf_def at_home_def accounts_of_def user_ids_def filter_sql_insert)
  then show "spares pr w before (ensure_workspace_row now v d)"
    using assms by (simp add: ensure_workspace_row_def new_workspace_def)
  have "spares pr w before (d1\<lparr>workspace_members := sql_upsert (\<lambda>m. wm_workspace_id m = v \<and> wm_user_id m = x) f m (workspace_members d1)\<rparr>)"
    if that: "spares pr w before d1" "wm_workspace_id m = v" "\<And>m. wm_workspace_id (f m) = wm_workspace_id m" for d1 m f
  proof -
    have "filter (\<lambda>m. wm_workspace_id m = w) (sql_upsert (\<lambda>m. wm_workspace_id m = v \<and> wm_user_id m = x) f m (workspace_members d1))
        = filter (\<lambda>m. wm_workspace_id m = w) (workspace_members d1)"
      using that assms(2) by (intro filter_sql_upsert) auto
    then show ?thesis using that(1) by (simp add: spares_def accounts_wf_def at_home_def accounts_of_def user_ids_def)
  qed
  then show "spares pr w before (ensure_workspace v x role label now d)"
    using row by (simp add: ensure_workspace_def Let_def new_workspace_def)
qed

lemma spares_create_user:
  assumes "spares pr w before d" and "v \<noteq> w"
  shows "spares pr w before (snd (create_user v name pw role new_id now d))"
proof -
  define u where "u = \<lparr>us_user_id = new_id, us_workspace_id = v, us_username = name, us_password_hash = pw, us_role = role,
    us_active = True, us_created_at = now\<rparr>"
  define d1 where "d1 = ensure_workspace_row now v d"
  have d1: "spares pr w before d1" using spares_workspace(1) [OF assms] by (simp add: d1_def)
  have "spares pr w before (d1\<lparr>users := users d1 @ [u]\<rparr>)" if "\<not> list_ex (user_clash u) (users d1)"
  proof -
    have "us_user_id u \<notin> us_user_id ` set (users d1)" using that by (auto simp: list_ex_iff user_clash_def)
    then show ?thesis
      using d1 assms(2) by (simp add: spares_def accounts_wf_def at_home_def accounts_of_def user_ids_def u_def)
  qed
  then show ?thesis
    using assms(1) by (simp add: create_user_def u_def [symmetric] d1_def [symmetric] sql_insert_unique_def Let_def)
qed

section \<open>Services\<close>

lemma spares_limits:
  "spares pr w before d \<Longrightarrow> spares pr w before (snd (enforce l b c i t d))"
  "spares pr w before d \<Longrightarrow> spares pr w before (snd (register_failure l b i t d))"
  "spares pr w before d \<Longrightarrow> spares pr w before (snd (change (clear_limit l b) d))"
proof -
  have "spares pr w before (snd (record_hit l b i t d))" if "spares pr w before d" for d
    using that by (simp add: record_hit_def Let_def spares_other_tables)
  then show "spares pr w before d \<Longrightarrow> spares pr w before (snd (enforce l b c i t d))"
    "spares pr w before d \<Longrightarrow> spares pr w before (snd (register_failure l b i t d))"
    by (auto simp: enforce_def register_failure_def split: prod.splits) (metis snd_conv)+
  show "spares pr w before d \<Longrightarrow> spares pr w before (snd (change (clear_limit l b) d))"
    by (simp add: change_def clear_limit_def spares_other_tables)
qed

lemma spares_and_then:
  "spares pr w before (snd (m d)) \<Longrightarrow> (\<And>x d1. m d = (Inr x, d1) \<Longrightarrow> spares pr w before d1 \<Longrightarrow> spares pr w before (snd (k x d1)))
    \<Longrightarrow> spares pr w before (snd (and_then m k d))"
  by (auto simp: and_then_def split: prod.splits sum.splits)

lemma spares_read:
  "spares pr w before d \<Longrightarrow> spares pr w before (snd (return_value y d))" "spares pr w before d \<Longrightarrow> spares pr w before (snd (fetch f d))"
  "spares pr w before d \<Longrightarrow> spares pr w before (snd (attempt g d))" "spares pr w before d \<Longrightarrow> spares pr w before (snd (refuse_if b n d))"
  "spares pr w before d \<Longrightarrow> spares pr w before (snd (raise_error e d))"
  by (simp_all add: return_value_def fetch_def attempt_def refuse_if_def raise_error_def)

lemma spares_branch:
  "spares pr w before (snd (m d)) \<Longrightarrow> spares pr w before (snd (n d)) \<Longrightarrow> spares pr w before (snd ((if b then m else n) d))"
  "(opt = None \<Longrightarrow> spares pr w before (snd (m d))) \<Longrightarrow> (\<And>x. opt = Some x \<Longrightarrow> spares pr w before (snd (k x d)))
    \<Longrightarrow> spares pr w before (snd ((case opt of None \<Rightarrow> m | Some x \<Rightarrow> k x) d))"
  by (simp_all split: option.split)

lemmas spares_flow = spares_and_then spares_read spares_branch

lemma spares_mfa_rows:
  assumes "spares pr w before d" and "x \<notin> user_ids w d"
  shows "spares pr w before (snd (consume_mfa_snapshot x m c codes confirm now d))"
    and "spares pr w before (delete_user_mfa x d)"
    and "spares pr w before (snd (upsert_user_mfa x secret codes now d))"
proof -
  show "spares pr w before (snd (consume_mfa_snapshot x m c codes confirm now d))"
    unfolding consume_mfa_snapshot_def snd_conv using assms
    by (intro spares_mfa [where g = "sql_update (same_snapshot x m) _"] filter_sql_update) (auto simp: same_snapshot_def)
  show "spares pr w before (delete_user_mfa x d)"
    unfolding delete_user_mfa_def using assms by (intro spares_mfa [where g = "sql_delete _"] filter_sql_delete) auto
  show "spares pr w before (snd (upsert_user_mfa x secret codes now d))"
    unfolding upsert_user_mfa_def Let_def snd_conv using assms
    by (intro spares_mfa [where g = "sql_upsert _ _ _"] filter_sql_upsert) auto
qed

lemma user_ids_stay: "spares pr w before d \<Longrightarrow> user_ids w d = user_ids w before"
proof -
  assume "spares pr w before d"
  then have "users (accounts_of w d) = users (accounts_of w before)" by (simp add: spares_def)
  then show ?thesis by (simp add: accounts_of_def user_ids_def)
qed

lemma spares_accept_mfa:
  assumes "spares pr w before d" and "x \<notin> user_ids w before"
  shows "spares pr w before (snd (accept_mfa_code ae x code bucket d))"
proof -
  have row: "spares pr w before (snd (perform (consume_mfa_snapshot x m c codes confirm now) d))" if "spares pr w before d" for m c codes confirm now d
    using spares_mfa_rows(1) [OF that] user_ids_stay [OF that] assms(2) by (simp add: perform_def)
  show ?thesis
    unfolding accept_mfa_code_def Let_def
    by (rule spares_flow spares_limits row assms(1) | assumption)+
qed

text \<open>The user that a request acts on, by what was read before.\<close>

lemma caller_not_in: "spares pr w before d \<Longrightarrow> pr_workspace_id pr \<noteq> w \<Longrightarrow> pr_user_id pr \<notin> user_ids w before"
  using caller_elsewhere user_ids_stay by metis

lemma spares_perform:
  "spares pr w before d \<Longrightarrow> x \<notin> user_ids w before \<Longrightarrow> spares pr w before (snd (perform (consume_mfa_snapshot x m c codes confirm now) d))"
  "spares pr w before d \<Longrightarrow> x \<notin> user_ids w before \<Longrightarrow> spares pr w before (snd (change (delete_user_mfa x) d))"
  "spares pr w before d \<Longrightarrow> x \<notin> user_ids w before \<Longrightarrow> spares pr w before (snd (perform (upsert_user_mfa x secret codes now) d))"
  by (simp_all add: perform_def change_def spares_mfa_rows user_ids_stay)

lemma refuse_passed: "refuse_if b n d = (Inr x, d') \<longleftrightarrow> \<not> b \<and> d' = d"
  by (auto simp: refuse_if_def return_value_def raise_error_def)

lemma spares_password:
  assumes "spares pr w before d" and "x \<notin> user_ids w before"
  shows "spares pr w before (snd (perform (update_user_password x pw True) d))"
proof -
  let ?d1 = "d\<lparr>users := sql_update (\<lambda>u. us_user_id u = x) (\<lambda>u. u\<lparr>us_password_hash := pw\<rparr>) (users d)\<rparr>"
  have d1: "spares pr w before ?d1"
    using assms user_ids_stay by (intro spares_user_update) auto
  have "spares pr w before (?d1\<lparr>auth_sessions := sql_delete (\<lambda>s. se_user_id s = x) (auth_sessions ?d1)\<rparr>)"
    using assms(2) user_ids_stay [OF d1] by (intro spares_sessions [OF d1]) auto
  then show ?thesis by (simp add: perform_def update_user_password_def Let_def)
qed

lemma spares_session:
  "spares pr w before d \<Longrightarrow> x \<notin> user_ids w before \<Longrightarrow> spares pr w before (snd (new_session ae x d))"
  using spares_new_session user_ids_stay by metis

lemma fetched_user: "fetch (load_user_by_id x) d = (Inr (Some u), d') \<Longrightarrow> us_user_id u = x \<and> u \<in> set (users d) \<and> d' = d"
  by (auto simp: fetch_def load_user_by_id_def dest!: sql_first_Some)

lemma spares_own_calls:
  assumes "spares pr w before d" and "pr_workspace_id pr \<noteq> w"
  shows "spares pr w before (snd (change_password ae pr old new d))"
    and "spares pr w before (snd (enroll_mfa ae pr codes d))"
    and "spares pr w before (snd (confirm_mfa ae pr code d))"
    and "spares pr w before (snd (disable_mfa ae pr code d))"
    and "spares pr w before (snd (revoke_session ae pr cookie x d))"
    and "spares pr w before (snd (revoke_other_sessions ae pr cookie d))"
proof -
  note caller = caller_not_in [OF assms]
  have gone: "spares pr w before (d1\<lparr>auth_sessions := sql_delete (\<lambda>s. se_user_id s = pr_user_id pr \<and> P s) (auth_sessions d1)\<rparr>)"
    if "spares pr w before d1" for d1 P
    using that caller user_ids_stay [OF that] by (intro spares_sessions) auto
  have sessions: "spares pr w before (snd (perform (delete_auth_session_for_user (pr_user_id pr) x) d1))"
    "spares pr w before (snd (perform (delete_other_auth_sessions (pr_user_id pr) keep) d1))" if "spares pr w before d1" for d1 x keep
    using gone [OF that] by (simp_all add: perform_def delete_auth_session_for_user_def delete_other_auth_sessions_def Let_def)
  show "spares pr w before (snd (change_password ae pr old new d))"
    unfolding change_password_def
    by (intro spares_flow spares_record_auth spares_password spares_session) (use assms caller in \<open>auto dest: fetched_user\<close>)
  show "spares pr w before (snd (enroll_mfa ae pr codes d))"
    unfolding enroll_mfa_def
    by (intro spares_flow spares_record_auth spares_perform) (use assms caller in \<open>auto dest: fetched_user\<close>)
  show "spares pr w before (snd (confirm_mfa ae pr code d))"
    unfolding confirm_mfa_def Let_def
    by (intro spares_flow spares_record_auth spares_perform spares_limits) (use assms caller in auto)
  show "spares pr w before (snd (disable_mfa ae pr code d))"
    unfolding disable_mfa_def
    by (intro spares_flow spares_record_auth spares_perform spares_accept_mfa) (use assms caller in auto)
  show "spares pr w before (snd (revoke_session ae pr cookie x d))"
    unfolding revoke_session_def by (intro spares_flow spares_record_auth sessions) (use assms in auto)
  show "spares pr w before (snd (revoke_other_sessions ae pr cookie d))"
    unfolding revoke_other_sessions_def by (intro spares_flow spares_record_auth sessions) (use assms in auto)
qed

lemma spares_update_member:
  assumes "spares pr w before d" and "pr_workspace_id pr \<noteq> w"
  shows "spares pr w before (snd (update_workspace_member (pr_workspace_id pr) x role active d))"
proof (cases "sql_first (\<lambda>u. us_workspace_id u = pr_workspace_id pr \<and> us_user_id u = x) (users d)")
  case None
  then show ?thesis using assms(1) by (simp add: update_workspace_member_def)
next
  case (Some t)
  define f where "f v = v\<lparr>us_role := (case role of Some r \<Rightarrow> if r = '''' then us_role t else r | None \<Rightarrow> us_role t),
    us_active := (case active of Some b \<Rightarrow> b | None \<Rightarrow> us_active t)\<rparr>" for v :: user_row
  define g where "g m = m\<lparr>wm_role := (case role of Some r \<Rightarrow> if r = '''' then us_role t else r | None \<Rightarrow> us_role t)\<rparr>" for m :: member_row
  define d1 where "d1 = d\<lparr>users := sql_update (\<lambda>v. us_user_id v = x) f (users d),
    workspace_members := sql_update (\<lambda>m. wm_workspace_id m = pr_workspace_id pr \<and> wm_user_id m = x) g (workspace_members d)\<rparr>"
  have x: "x \<notin> user_ids w before"
    using user_elsewhere [of d t w] Some assms user_ids_stay [OF assms(1)]
    by (auto simp: spares_def dest!: sql_first_Some)
  have users: "spares pr w before (d\<lparr>users := sql_update (\<lambda>v. us_user_id v = x) f (users d)\<rparr>)" (is "spares _ _ _ ?du")
    using x user_ids_stay [OF assms(1)] by (intro spares_user_update assms(1)) (auto simp: f_def)
  have "filter (\<lambda>m. wm_workspace_id m = w) (sql_update (\<lambda>m. wm_workspace_id m = pr_workspace_id pr \<and> wm_user_id m = x) g (workspace_members d))
      = filter (\<lambda>m. wm_workspace_id m = w) (workspace_members d)"
    using assms(2) by (intro filter_sql_update) (auto simp: g_def)
  then have d1: "spares pr w before d1"
    using users by (simp add: spares_def accounts_wf_def at_home_def accounts_of_def user_ids_def d1_def)
  moreover have "spares pr w before (d1\<lparr>auth_sessions := sql_delete (\<lambda>s. se_user_id s = x) (auth_sessions d1)\<rparr>)"
    using x user_ids_stay [OF d1] by (intro spares_sessions [OF d1]) auto
  moreover have "snd (update_workspace_member (pr_workspace_id pr) x role active d)
      = (if (case active of Some b \<Rightarrow> b | None \<Rightarrow> us_active t) then d1 else d1\<lparr>auth_sessions := sql_delete (\<lambda>s. se_user_id s = x) (auth_sessions d1)\<rparr>)"
    unfolding update_workspace_member_def Some option.case Let_def d1_def f_def g_def by simp
  ultimately show ?thesis by simp
qed

lemma spares_member_calls:
  assumes "spares pr w before d" and "pr_workspace_id pr \<noteq> w"
  shows "spares pr w before (snd (create_invitation ae pr name role d))"
    and "spares pr w before (snd (issue_password_reset ae pr x d))"
    and "spares pr w before (snd (create_member ae pr name pw role d))"
    and "spares pr w before (snd (update_member ae pr x new_role active d))"
proof -
  show "spares pr w before (snd (create_invitation ae pr name role d))"
    unfolding create_invitation_def Let_def
    by (intro spares_flow spares_record_auth spares_links) (use assms in auto)
  show "spares pr w before (snd (issue_password_reset ae pr x d))"
    unfolding issue_password_reset_def Let_def
    by (intro spares_flow spares_record_auth spares_links)
      (use assms in \<open>auto dest!: fetched_user simp: refuse_passed\<close>)
  have made: "spares pr w before (snd (integrity_as 409 (create_user (pr_workspace_id pr) n h role i t) d1))"
    "spares pr w before (snd (change (ensure_workspace (pr_workspace_id pr) y role None t) d1))" if "spares pr w before d1" for d1 n h i t y
    using that assms(2) by (simp_all add: snd_integrity_as change_def spares_create_user spares_workspace)
  show "spares pr w before (snd (create_member ae pr name pw role d))"
    unfolding create_member_def
    by (intro spares_flow spares_record_auth made) (use assms in auto)
  have updated: "spares pr w before (snd (perform (update_workspace_member (pr_workspace_id pr) x new_role active) d1))" if "spares pr w before d1" for d1
    using spares_update_member [OF that assms(2)] by (simp add: perform_def)
  show "spares pr w before (snd (update_member ae pr x new_role active d))"
    unfolding update_member_def
    by (intro spares_flow spares_record_auth updated) (use assms in auto)
qed

lemma spares_token_calls:
  assumes "spares pr w before d" and "pr_workspace_id pr \<noteq> w"
  shows "ae_fresh ae 0 \<notin> at_token_id ` set (api_tokens d) \<Longrightarrow> spares pr w before (snd (create_token ae pr p d))"
    and "spares pr w before (snd (revoke_token ae pr x d))"
proof -
  have made: "spares pr w before (snd (perform (create_api_token h b (pr_workspace_id pr) u n r y q e (ae_fresh ae 0) t) d1))"
    if "spares pr w before d1" "ae_fresh ae 0 \<notin> at_token_id ` set (api_tokens d1)" for d1 h b u n r y q e t
    using that assms(2) by (auto simp: perform_def create_api_token_def Let_def intro!: spares_token_insert)
  show "spares pr w before (snd (create_token ae pr p d))" if "ae_fresh ae 0 \<notin> at_token_id ` set (api_tokens d)"
    unfolding create_token_def Let_def
    by (intro spares_flow spares_record_auth made) (use that assms in \<open>auto simp: refuse_passed\<close>)
  have "spares pr w before (snd (perform (revoke_api_token (pr_workspace_id pr) x t) d1))" if "spares pr w before d1" for d1 t
    using that assms(2) spares_token_update [OF that]
    by (auto simp: perform_def revoke_api_token_def dest!: sql_first_Some split: option.split)
  then show "spares pr w before (snd (revoke_token ae pr x d))"
    unfolding revoke_token_def
    by (intro spares_flow spares_record_auth) (use assms in auto)
qed

section \<open>Requests\<close>

datatype account_call =
    Post_Invitation string string | Post_Member string ustr string | Patch_Member string "string option" "bool option"
  | Post_Reset string | List_Tokens | Post_Token token_request | Delete_Token string | List_Members
  | Change_Password ustr ustr | Enroll_Factor "ustr list" | Confirm_Factor ustr | Disable_Factor ustr
  | List_Sessions "string option" | Delete_Session "string option" string | Delete_Other_Sessions "string option"

fun serve_account :: "api_env \<Rightarrow> auth_env \<Rightarrow> principal \<Rightarrow> account_call \<Rightarrow> (db, unit) handler" where
  "serve_account ap ae pr (Post_Invitation name role) = forget (create_invitation_route ap ae pr name role)"
| "serve_account ap ae pr (Post_Member name password role) = forget (create_member_route ap ae pr name password role)"
| "serve_account ap ae pr (Patch_Member x role active) = forget (update_member_route ap ae pr x role active)"
| "serve_account ap ae pr (Post_Reset x) = forget (issue_member_password_reset ap ae pr x)"
| "serve_account ap ae pr List_Tokens = forget (list_tokens ap pr)"
| "serve_account ap ae pr (Post_Token p) = forget (create_token_route ap ae pr p)"
| "serve_account ap ae pr (Delete_Token x) = forget (revoke_token_route ap ae pr x)"
| "serve_account ap ae pr List_Members = forget (get_members ap pr)"
| "serve_account ap ae pr (Change_Password old new) = forget (change_password ae pr old new)"
| "serve_account ap ae pr (Enroll_Factor codes) = forget (enroll_mfa ae pr codes)"
| "serve_account ap ae pr (Confirm_Factor code) = forget (confirm_mfa ae pr code)"
| "serve_account ap ae pr (Disable_Factor code) = forget (disable_mfa ae pr code)"
| "serve_account ap ae pr (List_Sessions cookie) = forget (list_sessions ae pr cookie)"
| "serve_account ap ae pr (Delete_Session cookie x) = forget (revoke_session ae pr cookie x)"
| "serve_account ap ae pr (Delete_Other_Sessions cookie) = forget (revoke_other_sessions ae pr cookie)"

lemmas account_route_defs = create_invitation_route_def create_member_route_def update_member_route_def
  issue_member_password_reset_def list_tokens_def create_token_route_def revoke_token_route_def get_members_def list_sessions_def

lemma spares_serve_account:
  assumes "spares pr w before d" and "pr_workspace_id pr \<noteq> w" and "ae_fresh ae 0 \<notin> at_token_id ` set (api_tokens d)"
  shows "spares pr w before (snd (serve_account ap ae pr c d))"
  using spares_own_calls [OF assms(1,2)] spares_member_calls [OF assms(1,2)] spares_token_calls [OF assms(1,2)] assms
  by (cases c) (auto simp: forget_run account_route_defs guarded_run intro!: spares_read)

text \<open>Requests of users of other workspaces, one after the other; the identifier of a new token is new.\<close>

inductive foreign_account_requests :: "string \<Rightarrow> db \<Rightarrow> db \<Rightarrow> bool" for w d where
  start: "foreign_account_requests w d d"
| request: "foreign_account_requests w d d1 \<Longrightarrow> at_home pr d1 \<Longrightarrow> pr_workspace_id pr \<noteq> w
    \<Longrightarrow> ae_fresh ae 0 \<notin> at_token_id ` set (api_tokens d1) \<Longrightarrow> foreign_account_requests w d (snd (serve_account ap ae pr c d1))"

text \<open>C6: Accounts of another workspace are out of reach: whatever requests users of other workspaces send to the routes on
  members, invitations, reset links, API tokens, passwords, second factors and sessions, in any number and order, successful or
  not, the users of a workspace, their roles, passwords and sessions, their second factors, its tokens and its audit trail stay as
  they were, and so do its links, but for the marks on its pending invitations.\<close>

theorem accounts_are_out_of_reach:
  assumes "foreign_account_requests w d d'" and "accounts_wf d"
  shows "accounts_of w d' = accounts_of w d \<and> accounts_wf d'"
  using assms(1)
proof induction
  case start
  then show ?case using assms(2) by simp
next
  case (request d1 pr ae ap c)
  then have "spares pr w d d1" by (simp add: spares_def)
  then show ?case using spares_serve_account request.hyps by (simp add: spares_def)
qed

text \<open>The exception: an invitation of one workspace ends the pending invitation of another for the same user name, although
  names are unique within a workspace only.\<close>

lemma invitations_cross_workspaces:
  assumes "k \<in> set (auth_action_tokens d)" and "tk_purpose k = ''INVITE''" and "tk_username k = Some (ae_strip ae name)" and "tk_used_at k = None"
    and "pr_workspace_id pr \<noteq> tk_workspace_id k" and "ae_strip ae name \<noteq> ''''"
    and "create_invitation ae pr name role d = (Inr link, d')" and "distinct (map tk_token_hash (auth_action_tokens d))"
  shows "k \<notin> set (auth_action_tokens d') \<and> k\<lparr>tk_used_at := Some (ae_now ae)\<rparr> \<in> set (auth_action_tokens d')"
proof -
  obtain d1 where made: "create_auth_action_token (ae_token_hash ae (asc (ae_secret ae 0))) (pr_workspace_id pr) ''INVITE''
      (ae_now ae + seconds (72 * 3600)) (pr_user_id pr) (Some (ae_strip ae name)) None (Some role) (ae_now ae) d = (Inr link, d1)"
    and links: "auth_action_tokens d' = auth_action_tokens d1"
    using assms(7)
    by (auto simp: create_invitation_def Let_def flow_simps and_then_Inr change_def return_value_def record_auth_def record_audit_event_def
      split: if_splits sum.splits)
  have tokens: "auth_action_tokens d1 = retire_links (\<lambda>k. tk_purpose k = ''INVITE'' \<and> tk_username k = Some (ae_strip ae name)) (ae_now ae) (auth_action_tokens d) @ [link]"
    and new: "tk_workspace_id link = pr_workspace_id pr"
    using made assms(6) by (auto simp: create_auth_action_token_def given_def Let_def sql_insert_unique_def split: if_splits)
  have "k\<lparr>tk_used_at := Some (ae_now ae)\<rparr> \<in> set (auth_action_tokens d')"
    unfolding links tokens retire_links_def using assms(1-4) by (auto simp: in_sql_update intro!: bexI [of _ k])
  moreover have "k \<notin> set (auth_action_tokens d')"
    unfolding links tokens retire_links_def using assms(2-5) new by (auto simp: in_sql_update split: if_splits)
  ultimately show ?thesis by simp
qed

definition demo_accounts :: db where
  "demo_accounts = empty_db\<lparr>users :=
       [\<lparr>us_user_id = ''u1'', us_workspace_id = ''north'', us_username = ''ann'', us_password_hash = ''h'', us_role = ''OWNER'', us_active = True, us_created_at = 1\<rparr>,
        \<lparr>us_user_id = ''m'', us_workspace_id = ''v'', us_username = ''bob'', us_password_hash = ''h'', us_role = ''OWNER'', us_active = True, us_created_at = 2\<rparr>],
     auth_sessions := [\<lparr>se_token_hash = ''s1'', se_user_id = ''u1'', se_expires_at = 9, se_created_at = 3\<rparr>,
        \<lparr>se_token_hash = ''s2'', se_user_id = ''m'', se_expires_at = 9, se_created_at = 4\<rparr>]\<rparr>"

lemma accounts_are_out_of_reach_witness:
  "\<forall>ap ae. accounts_of ''north'' (snd (serve_account ap ae demo_intruder (Delete_Session None ''s2'') demo_accounts))
     = accounts_of ''north'' demo_accounts
     \<and> map se_token_hash (auth_sessions (snd (serve_account ap ae demo_intruder (Delete_Session None ''s2'') demo_accounts))) = [''s1'']"
proof (intro allI conjI)
  fix ap :: api_env and ae :: auth_env
  have "at_home demo_intruder demo_accounts" "pr_workspace_id demo_intruder \<noteq> ''north''"
    by (simp_all add: at_home_def demo_accounts_def demo_intruder_def)
  moreover have "ae_fresh ae 0 \<notin> at_token_id ` set (api_tokens demo_accounts)" by (simp add: demo_accounts_def empty_db_def)
  ultimately have "foreign_account_requests ''north'' demo_accounts (snd (serve_account ap ae demo_intruder (Delete_Session None ''s2'') demo_accounts))"
    using foreign_account_requests.request [OF foreign_account_requests.start] by blast
  moreover have "accounts_wf demo_accounts" by (simp add: accounts_wf_def demo_accounts_def empty_db_def)
  ultimately show "accounts_of ''north'' (snd (serve_account ap ae demo_intruder (Delete_Session None ''s2'') demo_accounts))
      = accounts_of ''north'' demo_accounts"
    using accounts_are_out_of_reach by blast
  show "map se_token_hash (auth_sessions (snd (serve_account ap ae demo_intruder (Delete_Session None ''s2'') demo_accounts))) = [''s1'']"
    by (simp add: forget_run revoke_session_def cookie_digest_def flow_simps delete_auth_session_for_user_def demo_accounts_def demo_intruder_def
      record_auth_def change_def record_audit_event_def Let_def sql_delete_def sql_count_def)
qed

end
