(* ===== verification/Csv.thy ===== *)
theory Csv
  imports Prelude
begin

text \<open>
  What the program uses of Python's \<open>csv\<close> module, in the excel dialect: the writer quotes a cell that has a separator, a
  quote or a line end; the reader is its state machine. Rows of dictionaries are read and written over a header.
\<close>

section \<open>Writing\<close>

definition quoted_cell :: "ustr \<Rightarrow> bool" where
  "quoted_cell f \<longleftrightarrow> list_ex (\<lambda>c. c \<in> {44, 34, 13, 10}) f"

definition csv_cell :: "ustr \<Rightarrow> ustr" where
  "csv_cell f = (if quoted_cell f then [34] @ concat (map (\<lambda>c. if c = 34 then [34, 34] else [c]) f) @ [34] else f)"

definition csv_row :: "ustr list \<Rightarrow> ustr" where
  "csv_row fs = (if fs = [[]] then [34, 34] else join [44] (map csv_cell fs)) @ [13, 10]"

definition csv_text :: "ustr list list \<Rightarrow> ustr" where
  "csv_text rows = concat (map csv_row rows)"

section \<open>Reading\<close>

text \<open>The cell and the row read so far are kept backwards. An empty line is a row without cells; a carriage return ends a
  line and takes the line feed after it along.\<close>

datatype csv_mode = Record_Start | After_Return | Cell_Start | Plain_Cell | Quoted_Cell | Quote_Seen

fun read_csv :: "csv_mode \<Rightarrow> ustr \<Rightarrow> ustr list \<Rightarrow> ustr \<Rightarrow> ustr list list" where
  "read_csv m cell row [] = (if m = Record_Start \<or> m = After_Return then [] else [rev (rev cell # row)])"
| "read_csv m cell row (c # s) =
     (if m = Quoted_Cell then
        (if c = 34 then read_csv Quote_Seen cell row s else read_csv Quoted_Cell (c # cell) row s)
      else if m = After_Return \<and> c = 10 then read_csv Record_Start [] [] s
      else if c = 13 \<or> c = 10 then
        (if m = Record_Start \<or> m = After_Return then [] else rev (rev cell # row))
          # read_csv (if c = 13 then After_Return else Record_Start) [] [] s
      else if c = 44 then read_csv Cell_Start [] (rev cell # row) s
      else if c = 34 \<and> m \<in> {Record_Start, After_Return, Cell_Start} then read_csv Quoted_Cell cell row s
      else if c = 34 \<and> m = Quote_Seen then read_csv Quoted_Cell (34 # cell) row s
      else read_csv Plain_Cell (c # cell) row s)"

definition csv_rows :: "ustr \<Rightarrow> ustr list list" where
  "csv_rows s = read_csv Record_Start [] [] s"

section \<open>What is written reads back\<close>

lemma read_quoted:
  "read_csv Quoted_Cell cell row (concat (map (\<lambda>c. if c = 34 then [34, 34] else [c]) f) @ 34 # s) = read_csv Quote_Seen (rev f @ cell) row s"
  by (induction f arbitrary: cell) auto

lemma read_plain:
  "\<not> quoted_cell f \<Longrightarrow> m \<noteq> Quoted_Cell \<Longrightarrow> f \<noteq> [] \<Longrightarrow> read_csv m cell row (f @ s) = read_csv Plain_Cell (rev f @ cell) row s"
proof (induction f arbitrary: m cell)
  case (Cons c f)
  have "read_csv m cell row (c # f @ s) = read_csv Plain_Cell (c # cell) row (f @ s)"
    using Cons.prems by (cases m) (auto simp: quoted_cell_def)
  moreover have "\<not> quoted_cell f" using Cons.prems by (simp add: quoted_cell_def)
  ultimately show ?case using Cons.IH [of Plain_Cell "c # cell"] by (cases "f = []") simp_all
qed simp

text \<open>A cell before a separator, and the last cell of a row; an empty line is only written for a row without cells.\<close>

lemma read_cell:
  assumes "m \<in> {Record_Start, After_Return, Cell_Start}"
  shows "read_csv m [] row (csv_cell f @ 44 # t) = read_csv Cell_Start [] (f # row) t"
    and "m = Cell_Start \<or> f \<noteq> [] \<Longrightarrow> read_csv m [] row (csv_cell f @ 13 # t) = rev (f # row) # read_csv After_Return [] [] t"
proof -
  show "read_csv m [] row (csv_cell f @ 44 # t) = read_csv Cell_Start [] (f # row) t"
  proof (cases "quoted_cell f")
    case True
    then show ?thesis using assms read_quoted [of "[]" row f "44 # t"] by (auto simp: csv_cell_def)
  next
    case False
    then show ?thesis using assms read_plain [of f m "[]" row "44 # t"] by (cases "f = []") (auto simp: csv_cell_def)
  qed
  show "read_csv m [] row (csv_cell f @ 13 # t) = rev (f # row) # read_csv After_Return [] [] t" if "m = Cell_Start \<or> f \<noteq> []"
  proof (cases "quoted_cell f")
    case True
    then show ?thesis using assms read_quoted [of "[]" row f "13 # t"] by (auto simp: csv_cell_def)
  next
    case False
    then show ?thesis using assms that read_plain [of f m "[]" row "13 # t"] by (cases "f = []") (auto simp: csv_cell_def)
  qed
qed

lemma read_cells:
  "fs \<noteq> [] \<Longrightarrow> m \<in> {Record_Start, After_Return, Cell_Start} \<Longrightarrow> m = Cell_Start \<or> fs \<noteq> [[]]
   \<Longrightarrow> read_csv m [] row (join [44] (map csv_cell fs) @ 13 # t) = rev (rev fs @ row) # read_csv After_Return [] [] t"
proof (induction fs arbitrary: m row)
  case (Cons f fs)
  show ?case
  proof (cases fs)
    case Nil
    then show ?thesis using read_cell(2) [of m f row t] Cons.prems by simp
  next
    case (Cons g gs)
    then show ?thesis
      using read_cell(1) [of m row f "join [44] (map csv_cell fs) @ 13 # t"] Cons.IH [of Cell_Start "f # row"] Cons.prems(2) by simp
  qed
qed simp

lemma read_row:
  assumes "m = Record_Start \<or> m = After_Return" and "fs \<noteq> []"
  shows "read_csv m [] [] (csv_row fs @ t) = fs # read_csv Record_Start [] [] t"
proof (cases "fs = [[]]")
  case True
  then show ?thesis using assms by (auto simp: csv_row_def)
next
  case False
  then show ?thesis using assms read_cells [of fs m "[]" "10 # t"] by (auto simp: csv_row_def)
qed

theorem csv_rows_of_text: "[] \<notin> set rows \<Longrightarrow> csv_rows (csv_text rows) = rows"
  unfolding csv_rows_def
proof (induction rows)
  case (Cons fs rows)
  then have "fs \<noteq> []" by auto
  with Cons read_row [of Record_Start fs "csv_text rows"] show ?case by (simp add: csv_text_def)
qed (simp add: csv_text_def)

end
