(* ===== verification/Reports.thy ===== *)
theory Reports
  imports Run_Routes Csv
begin

text \<open>
  Reports of a run (\<open>src/app/reporting.py\<close>, \<open>src/app/services/report_service.py\<close>, \<open>src/app/api/reports.py\<close>): the layout of
  the PDF report, the CSV exports and the archive of several reports. A page of the PDF is its title, its lines with
  their vertical positions, its boxes and its footer; fonts, colours and the bytes of the file are not modelled. Positions
  are integers, since the code adds only integers.
\<close>

section \<open>Text\<close>

definition int_text :: "int \<Rightarrow> ustr" where
  "int_text i = asc (if i < 0 then ''-'' @ decimal (nat (- i)) else decimal (nat i))"

fun chunks :: "nat \<Rightarrow> 'a list \<Rightarrow> 'a list list" where
  "chunks n s = (if s = [] \<or> n = 0 then [] else take n s # chunks n (drop n s))"

declare chunks.simps [simp del]

definition wrap :: "ustr \<Rightarrow> nat \<Rightarrow> ustr list" where
  "wrap s n = (if chunks n (squeeze s) = [] then [[]] else chunks n (squeeze s))"

definition pdf_evidence_gap :: "requirement \<Rightarrow> ustr" where
  "pdf_evidence_gap q =
     (if rq_status q = PASS \<and> rq_evidence q \<noteq> [] then [24050, 23450, 20301, 35777, 25454, 65292, 20173, 38656, 26680, 39564, 21407, 20214, 19982, 26377, 25928, 26399]
      else if rq_category q \<in> {QUALIFICATION, CREDENTIAL, BOND, SIGNATURE} then [26410, 23450, 20301, 21040, 21487, 26680, 39564, 30340, 20225, 19994, 35777, 25454]
      else [38656, 20154, 24037, 30830, 35748, 36866, 29992, 26465, 20214])"

definition pdf_risk_impact :: "requirement \<Rightarrow> ustr" where
  "pdf_risk_impact q =
     (case rq_category q of FATAL \<Rightarrow> [21487, 33021, 23548, 33268, 24223, 26631, 25110, 36164, 26684, 22833, 25928] | QUALIFICATION \<Rightarrow> [21487, 33021, 23548, 33268, 36164, 26684, 23457, 26597, 19981, 36890, 36807]
      | DEADLINE \<Rightarrow> [38169, 36807, 33410, 28857, 21487, 33021, 23548, 33268, 25991, 20214, 19981, 34987, 25509, 25910] | _ \<Rightarrow> [21487, 33021, 24433, 21709, 21512, 35268, 24615, 12289, 35780, 20998, 25110, 26448, 26009, 23436, 25972, 24615])"

definition pdf_next_action :: "requirement \<Rightarrow> ustr" where
  "pdf_next_action q =
     (if rq_status q \<in> {UNKNOWN, NEEDS_REVIEW} then [34917, 20805, 35777, 25454, 24182, 30001, 20154, 24037, 22797, 26680]
      else if rq_status q = FAIL then [26680, 23545, 21407, 25991, 24182, 21046, 23450, 39118, 38505, 22788, 32622, 26041, 26696] else [20445, 30041, 23450, 20301, 24341, 29992, 24182, 30830, 35748, 21407, 20214, 26377, 25928])"

definition summary_lines :: "run_doc \<Rightarrow> ustr list" where
  "summary_lines run =
     (let qs = rn_requirements run;
          decision = (case rn_decision run of None \<Rightarrow> '''' | Some dec \<Rightarrow> dc_decision dec)
      in [[25307, 26631, 25991, 20214, 65306] @ asc (rn_tender_filename run),
          [20219, 21153, 32534, 21495, 65306] @ asc (rn_run_id run),
          [29256, 26412, 65306, 118] @ int_text (rn_version_number run) @ [32, 32, 32, 32, 35201, 27714, 39033, 65306] @ asc (decimal (length qs))
            @ [32, 32, 32, 32, 39640, 39118, 38505, 65306] @ asc (decimal (length (filter blocker qs)))
            @ [32, 32, 32, 32, 24453, 22797, 26680, 65306] @ asc (decimal (length (filter unresolved qs))),
          [20154, 24037, 20915, 23450, 65306] @ (if decision = '''' then [26410, 35760, 24405] else asc decision),
          [32467, 35770, 36793, 30028, 65306, 26412, 25253, 21578, 26159, 35268, 21017, 21021, 31579, 19982, 35777, 25454, 32034, 24341, 65292, 24517, 39035, 30001, 25480, 26435, 20154, 21592, 22797, 26680, 65307, 35268, 21017, 20998, 20540, 19981, 26159, 26657, 20934, 27010, 29575, 12290]])"

definition evidence_text :: "requirement \<Rightarrow> ustr" where
  "evidence_text q =
     (let t = join [65307] (map (\<lambda>e. asc (ev_filename e) @ [32] @ locator_label (ev_locator e) @ [65306] @ squeeze (ev_quote e)) (rq_evidence q))
      in if t = [] then [26410, 23450, 20301, 21040, 20225, 19994, 35777, 25454] else t)"

definition item_lines :: "requirement \<Rightarrow> ustr list" where
  "item_lines q =
     [asc (rq_requirement_id q) @ asc ''  ['' @ asc (cat_name (rq_category q)) @ asc '']  '' @ asc (status_name (rq_status q))
        @ asc '' / '' @ asc (severity_name (rq_severity q)),
      [35201, 27714, 65306] @ squeeze (rq_title q),
      [25307, 26631, 23450, 20301, 65306] @ locator_label (cit_locator (rq_source q)) @ [65307, 21407, 25991, 65306] @ squeeze (cit_quote (rq_source q)),
      [20225, 19994, 35777, 25454, 65306] @ evidence_text q,
      [35777, 25454, 32570, 21475, 65306] @ pdf_evidence_gap q @ [65307, 39118, 38505, 24433, 21709, 65306] @ pdf_risk_impact q @ [65307, 24314, 35758, 21160, 20316, 65306] @ pdf_next_action q]"

section \<open>Layout\<close>

definition PAGE_HEIGHT :: int where
  "PAGE_HEIGHT = 842"

record pdf_page =
  pp_title :: ustr
  pp_lines :: "(int \<times> ustr) list"
  pp_boxes :: "(int \<times> int) list"
  pp_footer :: ustr

definition new_page :: "ustr \<Rightarrow> pdf_page" where
  "new_page title = \<lparr>pp_title = title, pp_lines = [], pp_boxes = [], pp_footer = []\<rparr>"

fun put_lines :: "int \<Rightarrow> int \<Rightarrow> ustr list \<Rightarrow> (int \<times> ustr) list" where
  "put_lines y h [] = []"
| "put_lines y h (l # ls) = (y, l) # put_lines (y + h) h ls"

definition write_wrapped :: "ustr \<Rightarrow> pdf_page \<times> int \<Rightarrow> pdf_page \<times> int" where
  "write_wrapped s = (\<lambda>(page, y).
     (page\<lparr>pp_lines := pp_lines page @ put_lines y 14 (wrap s 68)\<rparr>, y + 14 * int (length (wrap s 68))))"

definition item_block :: "requirement \<Rightarrow> ustr list" where
  "item_block q = concat (map (\<lambda>l. wrap l 62) (item_lines q))"

text \<open>The finished pages, the current page and the next position on it.\<close>

type_synonym pdf_state = "pdf_page list \<times> pdf_page \<times> int"

definition continued :: ustr where
  "continued = [35201, 27714, 39033, 26126, 32454, 65288, 32493, 65289]"

definition place_item :: "requirement \<Rightarrow> pdf_state \<Rightarrow> pdf_state" where
  "place_item q = (\<lambda>(finished, page, y).
     let wrapped = item_block q; block_height = 18 + int (length wrapped) * 12;
         (finished1, page1, y1) = (if y + block_height > PAGE_HEIGHT - 48 then (finished @ [page], new_page continued, 76) else (finished, page, y))
     in (finished1, page1\<lparr>pp_lines := pp_lines page1 @ put_lines y1 12 wrapped,
           pp_boxes := pp_boxes page1 @ [(y1 - 4, y1 + block_height - 4)]\<rparr>, y1 + block_height + 7))"

definition first_page :: "run_doc \<Rightarrow> pdf_state" where
  "first_page run =
     (let (page, y) = fold write_wrapped (summary_lines run) (new_page [66, 105, 100, 80, 114, 111, 111, 102, 32, 25237, 26631, 35777, 25454, 38142, 25253, 21578], 82) in ([], page, y + 8))"

definition pdf_pages :: "run_doc \<Rightarrow> pdf_page list" where
  "pdf_pages run = (let (finished, page, _) = fold place_item (rn_requirements run) (first_page run) in finished @ [page])"

definition footer :: "ustr \<Rightarrow> nat \<Rightarrow> nat \<Rightarrow> ustr" where
  "footer now i n = [29983, 25104, 26102, 38388, 32] @ now @ [32, 32, 32, 32, 31532, 32] @ asc (decimal i) @ [47] @ asc (decimal n) @ [32, 39029]"

text \<open>\<open>runtime\<close> tells whether the PDF library is installed.\<close>

definition build_pdf_report :: "bool \<Rightarrow> ustr \<Rightarrow> run_doc \<Rightarrow> pdf_page list result" where
  "build_pdf_report runtime now run =
     (if \<not> runtime then Inl RuntimeError
      else let pages = pdf_pages run
           in Inr (map (\<lambda>(i, p). p\<lparr>pp_footer := footer now i (length pages)\<rparr>) (zip [1..<Suc (length pages)] pages)))"

section \<open>The layout loses nothing and stays on its pages\<close>

definition text_of :: "pdf_page list \<Rightarrow> ustr list" where
  "text_of pages = concat (map (\<lambda>p. map snd (pp_lines p)) pages)"

definition on_page :: "pdf_page \<Rightarrow> bool" where
  "on_page p \<longleftrightarrow> (\<forall>(y, l)\<in>set (pp_lines p). 56 < y \<and> y < PAGE_HEIGHT - 24 \<and> length l \<le> 68)
     \<and> (\<forall>(a, b)\<in>set (pp_boxes p). 56 < a \<and> a < b \<and> b < PAGE_HEIGHT - 24) \<and> sorted_wrt (\<lambda>b c. snd b < fst c) (pp_boxes p)"

lemma put_lines_snd [simp]: "map snd (put_lines y h ls) = ls"
  by (induction y h ls rule: put_lines.induct) auto

lemma put_lines_bounds:
  "0 \<le> h \<Longrightarrow> (z, l) \<in> set (put_lines y h ls) \<Longrightarrow> y \<le> z \<and> z \<le> y + h * (int (length ls) - 1) \<and> l \<in> set ls"
proof (induction y h ls rule: put_lines.induct)
  case (2 y h l' ls)
  show ?case
  proof (cases "(z, l) = (y, l')")
    case False
    with 2 have "y + h \<le> z \<and> z \<le> y + h + h * (int (length ls) - 1) \<and> l \<in> set ls" by auto
    with 2(2) show ?thesis by (auto simp: algebra_simps)
  qed (use 2(2) in \<open>auto simp: algebra_simps\<close>)
qed simp

lemma chunks_concat: "0 < n \<Longrightarrow> concat (chunks n s) = s"
  by (induction n s rule: chunks.induct) (subst chunks.simps, simp)

lemma chunks_length: "c \<in> set (chunks n s) \<Longrightarrow> length c \<le> n"
proof (induction n s rule: chunks.induct)
  case (1 n s)
  then show ?case by (subst (asm) (2) chunks.simps) (auto split: if_splits)
qed

lemma wrap_facts: "0 < n \<Longrightarrow> concat (wrap s n) = squeeze s" "l \<in> set (wrap s n) \<Longrightarrow> length l \<le> n"
  using chunks_concat [of n "squeeze s"] chunks_length [of l n "squeeze s"] by (auto simp: wrap_def split: if_splits)

lemma item_block_width: "l \<in> set (item_block q) \<Longrightarrow> length l \<le> 62"
  by (auto simp: item_block_def dest: wrap_facts(2))

text \<open>A page that is being filled: what is on it ends before the next position.\<close>

definition filling :: "pdf_state \<Rightarrow> bool" where
  "filling = (\<lambda>(finished, page, y). list_all on_page finished \<and> on_page page \<and> 76 \<le> y \<and> (\<forall>(a, b)\<in>set (pp_boxes page). b < y - 4))"

lemma fold_summary:
  assumes "fold write_wrapped ss (page, y) = (page', y')"
  shows "map snd (pp_lines page') = map snd (pp_lines page) @ concat (map (\<lambda>s. wrap s 68) ss)
    \<and> y' = y + 14 * int (length (concat (map (\<lambda>s. wrap s 68) ss))) \<and> pp_boxes page' = pp_boxes page
    \<and> (\<forall>(z, l)\<in>set (pp_lines page'). (z, l) \<in> set (pp_lines page) \<or> y \<le> z \<and> z < y' \<and> length l \<le> 68)"
  using assms
proof (induction ss arbitrary: page y)
  case (Cons s ss)
  define ls where "ls = wrap s 68"
  define page1 where "page1 = page\<lparr>pp_lines := pp_lines page @ put_lines y 14 ls\<rparr>"
  define y1 where "y1 = y + 14 * int (length ls)"
  have new: "y \<le> z \<and> z < y1 \<and> length l \<le> 68" if "(z, l) \<in> set (put_lines y 14 ls)" for z l
    using put_lines_bounds [OF _ that] wrap_facts(2) [of l s 68] by (auto simp: y1_def ls_def)
  have "write_wrapped s (page, y) = (page1, y1)" by (simp add: write_wrapped_def page1_def y1_def ls_def)
  then have "fold write_wrapped ss (page1, y1) = (page', y')" using Cons.prems by simp
  note IH = Cons.IH [OF this]
  have "y1 \<le> y'" using IH by simp
  show ?case
    using IH new \<open>y1 \<le> y'\<close> by (fastforce simp: page1_def y1_def ls_def [symmetric])
qed auto

lemma place_item_step:
  assumes "filling (finished, page, y)" and "length (item_block q) \<le> 58"
  shows "filling (place_item q (finished, page, y))"
    and "text_of (fst (place_item q (finished, page, y)) @ [fst (snd (place_item q (finished, page, y)))])
         = text_of (finished @ [page]) @ item_block q"
proof -
  define n where "n = int (length (item_block q))"
  define bh where "bh = 18 + n * 12"
  define turn where "turn = (y + bh > PAGE_HEIGHT - 48)"
  define finished1 where "finished1 = (if turn then finished @ [page] else finished)"
  define page1 where "page1 = (if turn then new_page continued else page)"
  define y1 where "y1 = (if turn then 76 else y)"
  define page2 where "page2 = page1\<lparr>pp_lines := pp_lines page1 @ put_lines y1 12 (item_block q), pp_boxes := pp_boxes page1 @ [(y1 - 4, y1 + bh - 4)]\<rparr>"
  have step: "place_item q (finished, page, y) = (finished1, page2, y1 + bh + 7)"
    by (simp add: place_item_def Let_def finished1_def page1_def page2_def y1_def bh_def n_def turn_def)
  have pre: "on_page page1" "76 \<le> y1" "\<forall>(a, b)\<in>set (pp_boxes page1). b < y1 - 4" "list_all on_page finished1"
    using assms(1) by (auto simp: filling_def page1_def y1_def finished1_def new_page_def on_page_def)
  have room: "y1 + bh \<le> PAGE_HEIGHT - 48" "0 \<le> n"
    using assms(2) by (auto simp: y1_def turn_def bh_def n_def PAGE_HEIGHT_def)
  have lines: "56 < z \<and> z < PAGE_HEIGHT - 24 \<and> length l \<le> 68" if "(z, l) \<in> set (put_lines y1 12 (item_block q))" for z l
    using put_lines_bounds [OF _ that] room pre(2) item_block_width [of l q] by (auto simp: bh_def n_def)
  have "on_page page2"
    using pre room lines by (auto simp: on_page_def page2_def sorted_wrt_append bh_def)
  then show "filling (place_item q (finished, page, y))"
    using pre room by (auto simp: step filling_def page2_def bh_def)
  show "text_of (fst (place_item q (finished, page, y)) @ [fst (snd (place_item q (finished, page, y)))])
      = text_of (finished @ [page]) @ item_block q"
    by (simp add: step text_of_def page2_def page1_def finished1_def new_page_def)
qed

lemma fold_place_item:
  assumes "filling st" and "\<forall>q\<in>set qs. length (item_block q) \<le> 58"
  shows "filling (fold place_item qs st)
    \<and> text_of (fst (fold place_item qs st) @ [fst (snd (fold place_item qs st))]) = text_of (fst st @ [fst (snd st)]) @ concat (map item_block qs)"
  using assms
proof (induction qs arbitrary: st)
  case (Cons q qs)
  obtain finished page y where st: "st = (finished, page, y)" by (cases st) auto
  show ?case
    using place_item_step [of finished page y q] Cons.IH [of "place_item q st"] Cons.prems by (simp add: st)
qed simp

lemma on_page_footer: "on_page (p\<lparr>pp_footer := t\<rparr>) = on_page p"
  by (simp add: on_page_def)

definition summary_block :: "run_doc \<Rightarrow> ustr list" where
  "summary_block run = concat (map (\<lambda>s. wrap s 68) (summary_lines run))"

lemma first_page_filling:
  assumes "length (summary_block run) \<le> 52"
  shows "filling (first_page run) \<and> text_of (fst (first_page run) @ [fst (snd (first_page run))]) = summary_block run"
proof -
  obtain page y where f: "fold write_wrapped (summary_lines run) (new_page [66, 105, 100, 80, 114, 111, 111, 102, 32, 25237, 26631, 35777, 25454, 38142, 25253, 21578], 82) = (page, y)"
    by fastforce
  note facts = fold_summary [OF f]
  have first: "first_page run = ([], page, y + 8)" unfolding first_page_def f by simp
  have y: "y = 82 + 14 * int (length (summary_block run))" using facts by (simp add: summary_block_def)
  have "on_page page" "pp_boxes page = []"
    using facts y assms by (fastforce simp: on_page_def new_page_def PAGE_HEIGHT_def)+
  then show ?thesis
    using y facts by (simp add: filling_def first text_of_def summary_block_def new_page_def)
qed


text \<open>A requirement with more lines than fit on a page runs off its end.\<close>

lemma put_lines_nth: "i < length ls \<Longrightarrow> (y + h * int i, ls ! i) \<in> set (put_lines y h ls)"
proof (induction y h ls arbitrary: i rule: put_lines.induct)
  case (2 y h l ls)
  then show ?case by (cases i) (force simp: algebra_simps)+
qed simp

lemma long_items_run_off:
  assumes "65 \<le> length (item_block q)" and "76 \<le> y"
  shows "\<exists>(z, l)\<in>set (pp_lines (fst (snd (place_item q (finished, page, y))))). z > PAGE_HEIGHT"
proof -
  have "(76 + 12 * int 64, item_block q ! 64) \<in> set (put_lines 76 12 (item_block q))"
    by (rule put_lines_nth) (use assms in simp)
  moreover have "y + (18 + int (length (item_block q)) * 12) > PAGE_HEIGHT - 48" using assms by (simp add: PAGE_HEIGHT_def)
  ultimately show ?thesis
    by (intro bexI [of _ "(76 + 12 * int 64, item_block q ! 64)"]) (auto simp: place_item_def Let_def PAGE_HEIGHT_def)
qed

section \<open>CSV exports\<close>

definition REPORT_COLUMNS :: "string list" where
  "REPORT_COLUMNS = [''requirement_id'', ''category'', ''label'', ''status'', ''severity'', ''title'', ''tender_locator'',
     ''evidence_locators'', ''evidence_gap'', ''risk_impact'', ''next_action'']"

definition report_cells_of :: "requirement \<Rightarrow> ustr list" where
  "report_cells_of q =
     (let row = report_row q
      in [asc (rep_requirement_id row), asc (cat_name (rep_category row)), rep_label row, asc (status_name (rep_status row)),
          asc (severity_name (rep_severity row)), rep_title row, rep_tender_locator row, rep_evidence_locators row,
          rep_evidence_gap row, rep_risk_impact row, rep_next_action row])"

definition csv_report :: "run_doc \<Rightarrow> ustr" where
  "csv_report run = dropWhile (\<lambda>c. c = 65279) (csv_text (map asc REPORT_COLUMNS # map report_cells_of (rn_requirements run)))"

definition AUDIT_EXPORT_COLUMNS :: "string list" where
  "AUDIT_EXPORT_COLUMNS = [''event_id'', ''created_at'', ''event_type'', ''run_id'', ''user_id'', ''outcome'', ''actor_ip'', ''request_id'', ''payload'']"

definition or_blank :: "string option \<Rightarrow> ustr" where
  "or_blank x = (case x of None \<Rightarrow> [] | Some s \<Rightarrow> asc s)"

definition audit_cells :: "(json \<Rightarrow> ustr) \<Rightarrow> audit_event \<Rightarrow> ustr list" where
  "audit_cells dumps e =
     [asc (ae_event_id e), asc (ae_created_at e), asc (ae_event_type e), or_blank (ae_run_id e), asc (ae_user_id e), asc (ae_outcome e),
      or_blank (ae_actor_ip e), or_blank (ae_request_id e), dumps (ae_payload_json e)]"

text \<open>The text that is encoded as UTF-8, with its byte order mark.\<close>

definition audit_csv :: "(json \<Rightarrow> ustr) \<Rightarrow> string \<Rightarrow> db \<Rightarrow> ustr" where
  "audit_csv dumps w d = 65279 # csv_text (map asc AUDIT_EXPORT_COLUMNS # map (audit_cells dumps) (list_audit_events w None d))"

lemma csv_text_kept: "csv_report run = csv_text (map asc REPORT_COLUMNS # map report_cells_of (rn_requirements run))"
  by (simp add: csv_report_def csv_text_def csv_row_def REPORT_COLUMNS_def csv_cell_def quoted_cell_def asc_def)

text \<open>C26: The CSV exports read back as they were written: whatever separators, quotes and line ends the cells have, a reader of the
  format gets the header and one row per requirement, or per event of the audit trail, with the very same cells.\<close>

theorem csv_exports_read_back:
  "csv_rows (csv_report run) = map asc REPORT_COLUMNS # map report_cells_of (rn_requirements run)
   \<and> csv_rows (tl (audit_csv dumps w d)) = map asc AUDIT_EXPORT_COLUMNS # map (audit_cells dumps) (list_audit_events w None d)"
proof -
  have "[] \<notin> set (map asc REPORT_COLUMNS # map report_cells_of (rn_requirements run))"
    "[] \<notin> set (map asc AUDIT_EXPORT_COLUMNS # map (audit_cells dumps) (list_audit_events w None d))"
    by (auto simp: REPORT_COLUMNS_def report_cells_of_def AUDIT_EXPORT_COLUMNS_def audit_cells_def Let_def)
  then show ?thesis using csv_rows_of_text by (simp add: csv_text_kept audit_csv_def)
qed

section \<open>Archives of several reports\<close>

definition path_stem :: "string \<Rightarrow> string" where
  "path_stem s = take (length (path_name s) - length (path_suffix s)) (path_name s)"

definition archive_name :: "string \<Rightarrow> string \<Rightarrow> nat \<Rightarrow> string" where
  "archive_name stem run_id k =
     stem @ ''-'' @ take 12 run_id @ (if k < 2 then [] else ''-'' @ decimal k) @ ''.pdf''"

text \<open>The loop over the suffixes; \<open>left\<close> bounds its turns.\<close>

primrec free_archive_name :: "string \<Rightarrow> string \<Rightarrow> string list \<Rightarrow> nat \<Rightarrow> nat \<Rightarrow> string option" where
  "free_archive_name stem run_id used 0 k = None"
| "free_archive_name stem run_id used (Suc left) k =
     (if archive_name stem run_id k \<in> set used then free_archive_name stem run_id used left (k + 1)
      else Some (archive_name stem run_id k))"

definition entry_name :: "string \<Rightarrow> run_doc \<Rightarrow> string list \<Rightarrow> string" where
  "entry_name run_id run used =
     (let safe = safe_filename (path_stem (rn_tender_filename run)); stem = (if safe = [] then ''report'' else safe)
      in the (free_archive_name stem run_id used (Suc (length used)) 1))"

text \<open>The entries are the names, the runs and the reports. \<open>build\<close> is the PDF builder.\<close>

fun archive_entries ::
  "fernet option \<Rightarrow> (run_doc \<Rightarrow> pdf_page list result) \<Rightarrow> principal \<Rightarrow> string list \<Rightarrow> string list \<Rightarrow> db
     \<Rightarrow> (string \<times> string \<times> pdf_page list) list result" where
  "archive_entries client build pr [] used d = Inr []"
| "archive_entries client build pr (x # xs) used d =
     bind_result (load_run client x d) (\<lambda>found.
       case found of
         None \<Rightarrow> archive_entries client build pr xs used d
       | Some run \<Rightarrow>
           if rn_workspace_id run \<noteq> pr_workspace_id pr then archive_entries client build pr xs used d
           else let name = entry_name x run used
                in bind_result (build run) (\<lambda>report.
                   bind_result (archive_entries client build pr xs (name # used) d) (\<lambda>rest. Inr ((name, x, report) # rest))))"

definition bulk_pdf_archive ::
  "api_env \<Rightarrow> (run_doc \<Rightarrow> pdf_page list result) \<Rightarrow> principal \<Rightarrow> string list \<Rightarrow> ustr \<Rightarrow> (db, (string \<times> string \<times> pdf_page list) list) handler" where
  "bulk_pdf_archive ap build pr run_ids report_format =
     and_then (attempt (archive_entries (en_client (ap_en ap)) build pr (dedup run_ids) [])) (\<lambda>entries.
     and_then (refuse_if (entries = []) 404) (\<lambda>_.
     and_then (change (audit (ap_en ap) 0 pr ''RUN_REPORTS_BULK_EXPORTED'' None
          (JObj [(''format'', JStr report_format), (''run_ids'', JList (map (\<lambda>(_, x, _). jstr x) entries)), (''count'', JInt (int (length entries)))]))) (\<lambda>_.
     return_value entries)))"

section \<open>Routes\<close>

definition pdf_report :: "(run_doc \<Rightarrow> pdf_page list result) \<Rightarrow> run_doc \<Rightarrow> pdf_page list result" where
  "pdf_report build run = (case build run of Inl RuntimeError \<Rightarrow> Inl (HTTPException 503) | r \<Rightarrow> r)"

definition export_report_csv :: "api_env \<Rightarrow> principal \<Rightarrow> string \<Rightarrow> (db, ustr) handler" where
  "export_report_csv ap pr x = guarded ap pr REPORT_EXPORT (scoped ap pr x (\<lambda>run. return_value (csv_report run)))"

definition export_report_pdf :: "api_env \<Rightarrow> (run_doc \<Rightarrow> pdf_page list result) \<Rightarrow> principal \<Rightarrow> string \<Rightarrow> (db, pdf_page list) handler" where
  "export_report_pdf ap build pr x = guarded ap pr REPORT_EXPORT (scoped ap pr x (\<lambda>run. attempt (\<lambda>_. pdf_report build run)))"

definition bulk_report_zip ::
  "api_env \<Rightarrow> (run_doc \<Rightarrow> pdf_page list result) \<Rightarrow> principal \<Rightarrow> string list \<Rightarrow> ustr \<Rightarrow> (db, (string \<times> string \<times> pdf_page list) list) handler" where
  "bulk_report_zip ap build pr run_ids report_format =
     guarded ap pr REPORT_BULK_EXPORT (bulk_pdf_archive ap build pr run_ids report_format)"

definition export_audit_csv :: "api_env \<Rightarrow> (json \<Rightarrow> ustr) \<Rightarrow> principal \<Rightarrow> (db, ustr) handler" where
  "export_audit_csv ap dumps pr = guarded ap pr AUDIT_EXPORT (fetch (audit_csv dumps (pr_workspace_id pr)))"

definition attachment_name :: "string \<Rightarrow> string \<Rightarrow> string" where
  "attachment_name run_id extension = ''bidproof-'' @ take 12 run_id @ ''.'' @ extension"

section \<open>Names in an archive\<close>

lemma archive_name_inj: "1 \<le> i \<Longrightarrow> 1 \<le> j \<Longrightarrow> archive_name stem x i = archive_name stem x j \<Longrightarrow> i = j"
  using zfill_inj [of 0 i j] by (auto simp: archive_name_def zfill_def split: if_splits)

lemma free_archive_name_free: "free_archive_name stem x used left k = Some name \<Longrightarrow> name \<notin> set used"
  by (induction left arbitrary: k) (auto split: if_splits)

lemma free_archive_name_stuck:
  "free_archive_name stem x used left k = None \<Longrightarrow> archive_name stem x ` {k..<k + left} \<subseteq> set used"
proof (induction left arbitrary: k)
  case (Suc left)
  then have "archive_name stem x k \<in> set used" "free_archive_name stem x used left (k + 1) = None" by (auto split: if_splits)
  moreover have "{k..<k + Suc left} = insert k {k + 1..<k + 1 + left}" by auto
  ultimately show ?case using Suc.IH [of "k + 1"] by simp
qed simp

lemma free_archive_name_found: "\<exists>name. free_archive_name stem x used (Suc (length used)) 1 = Some name \<and> name \<notin> set used"
proof (cases "free_archive_name stem x used (Suc (length used)) 1")
  case None
  have "inj_on (archive_name stem x) {1..<1 + Suc (length used)}" by (rule inj_onI) (auto dest: archive_name_inj [rotated -1])
  then have "card (archive_name stem x ` {1..<1 + Suc (length used)}) = Suc (length used)" by (simp add: card_image)
  moreover have "card (archive_name stem x ` {1..<1 + Suc (length used)}) \<le> card (set used)"
    using free_archive_name_stuck [OF None] by (intro card_mono) simp_all
  ultimately show ?thesis using card_length [of used] by simp
next
  case (Some name)
  then show ?thesis using free_archive_name_free by blast
qed

lemma entry_name_free: "entry_name x run used \<notin> set used"
  unfolding entry_name_def Let_def using free_archive_name_found by (metis option.sel)

text \<open>No report of an archive hides another, and every report is of a run of the caller's workspace.\<close>

lemma archive_entries_facts:
  assumes "archive_entries client build pr xs used d = Inr entries"
  shows "distinct (map fst entries) \<and> set (map fst entries) \<inter> set used = {}
    \<and> (\<forall>(name, x, report)\<in>set entries. x \<in> set xs
         \<and> (\<exists>run. load_run client x d = Inr (Some run) \<and> rn_workspace_id run = pr_workspace_id pr \<and> build run = Inr report))"
  using assms
proof (induction client build pr xs used d arbitrary: entries rule: archive_entries.induct)
  case (2 client build pr x xs used d)
  from 2(4) obtain found where found: "load_run client x d = Inr found" by (auto simp: bind_result_Inr)
  show ?case
  proof (cases "\<exists>run. found = Some run \<and> rn_workspace_id run = pr_workspace_id pr")
    case False
    then have "archive_entries client build pr xs used d = Inr entries" using 2(4) found by (auto split: option.splits)
    with 2(1) 2(2) found False show ?thesis by (cases found) fastforce+
  next
    case True
    then obtain run where run: "found = Some run" "rn_workspace_id run = pr_workspace_id pr" by blast
    define name where "name = entry_name x run used"
    from 2(4) found run obtain report rest where rest: "build run = Inr report" "entries = (name, x, report) # rest"
      "archive_entries client build pr xs (name # used) d = Inr rest"
      by (auto simp: bind_result_Inr Let_def name_def)
    have "name \<notin> set used" by (simp add: name_def entry_name_free)
    moreover note 2(3) [of run name, OF _ name_def rest(3)]
    ultimately show ?thesis using rest found run by fastforce
  qed
qed simp

section \<open>An example\<close>

lemma join_length_Cons: "length (join [32] (w # ws)) \<le> length w + 1 + length (join [32] ws)"
  by (cases ws) auto

lemma split_words_length: "length (join [32] (split_words s w)) \<le> length s + length w"
proof (induction s w rule: split_words.induct)
  case (2 c s w)
  then show ?case
    using join_length_Cons [of "rev w" "split_words s []"] by auto
qed simp

lemma squeeze_length: "length (squeeze s) \<le> length s"
  using split_words_length [of s "[]"] by (simp add: squeeze_def py_split_def)

lemma chunks_count: "0 < n \<Longrightarrow> length (chunks n s) \<le> length s div n + 1"
proof (induction n s rule: chunks.induct)
  case (1 n s)
  show ?case
  proof (cases "length s < n")
    case True
    then show ?thesis by (subst chunks.simps) (simp add: chunks.simps)
  next
    case False
    then have "length s div n = (length s - n) div n + 1" using 1(2) by (simp add: le_div_geq)
    with 1 False show ?thesis by (subst chunks.simps) (auto simp: le_div_geq)
  qed
qed

lemma wrap_count: "0 < n \<Longrightarrow> length (wrap s n) \<le> length s div n + 1"
  using chunks_count [of n "squeeze s"] div_le_mono [OF squeeze_length, of s n] by (auto simp: wrap_def)

lemma demo_item_short: "length (item_block demo_req) \<le> 58"
proof -
  have "length (item_block demo_req) = (\<Sum>l\<leftarrow>item_lines demo_req. length (wrap l 62))"
    by (simp add: item_block_def length_concat o_def)
  also have "\<dots> \<le> (\<Sum>l\<leftarrow>item_lines demo_req. length l div 62 + 1)"
    by (rule sum_list_mono) (rule wrap_count, simp)
  also have "\<dots> \<le> 58"
    by (simp add: item_lines_def demo_req_def evidence_text_def pdf_evidence_gap_def pdf_risk_impact_def pdf_next_action_def
        demo_locator_def locator_label_def label_or_missing_def severity_name_def status_name_def cat_name_def asc_def squeeze_def py_split_def is_space_def)
  finally show ?thesis .
qed

lemma demo_summary_short: "length (summary_block demo_scan) \<le> 52"
proof -
  have "length (summary_block demo_scan) = (\<Sum>l\<leftarrow>summary_lines demo_scan. length (wrap l 68))"
    by (simp add: summary_block_def length_concat o_def)
  also have "\<dots> \<le> (\<Sum>l\<leftarrow>summary_lines demo_scan. length l div 68 + 1)"
    by (rule sum_list_mono) (rule wrap_count, simp)
  also have "\<dots> \<le> 52"
    by (simp add: summary_lines_def demo_scan_def recount_def demo_run_def requirement_counts_def asc_def int_text_def decimal.simps Let_def)
  finally show ?thesis .
qed


end
