(* ===== verification/Ledgers.thy ===== *)
theory Ledgers
  imports Csv Models
begin

text \<open>
  The two CSV ledgers of the pilot (\<open>src/work/pilot_ledger.py\<close>, \<open>icp_ledger.py\<close>, \<open>ledger_dates.py\<close>) and the check that they are
  ready (\<open>pilot_readiness.py\<close>). A ledger file is its text, or absent. \<open>datetime.fromisoformat\<close>, \<open>date.fromisoformat\<close> and
  \<open>str.lower\<close> are parameters.
\<close>

section \<open>Dates\<close>

record date_parsers =
  dp_datetime :: "ustr \<Rightarrow> bool"
  dp_date :: "ustr \<Rightarrow> bool"
  dp_lower :: "ustr \<Rightarrow> ustr"

definition zulu :: "ustr \<Rightarrow> ustr" where
  "zulu s = concat (map (\<lambda>c. if c = 90 then asc ''+00:00'' else [c]) s)"

definition validate_optional_iso_datetime :: "date_parsers \<Rightarrow> ustr \<Rightarrow> unit result" where
  "validate_optional_iso_datetime dp s = (if strip s = [] \<or> dp_datetime dp (zulu (strip s)) then Inr () else Inl ValueError)"

definition require_iso_datetime :: "date_parsers \<Rightarrow> ustr \<Rightarrow> unit result" where
  "require_iso_datetime dp s = (if strip s = [] then Inl ValueError else validate_optional_iso_datetime dp s)"

definition validate_optional_date :: "date_parsers \<Rightarrow> ustr \<Rightarrow> unit result" where
  "validate_optional_date dp s = (if strip s = [] \<or> dp_date dp (strip s) then Inr () else Inl ValueError)"

section \<open>Rows\<close>

text \<open>
  \<open>csv.DictReader\<close>: the first row is the header, later rows without cells are skipped. A row as read keeps its
  cells in the order of the header; missing cells are \<open>None\<close>, and surplus cells are kept under a key of their own. Of equal names in a header the last one counts.
\<close>

record dict_row =
  dr_cells :: "(ustr \<times> ustr option) list"
  dr_surplus :: "ustr list"

definition dict_row_of :: "ustr list \<Rightarrow> ustr list \<Rightarrow> dict_row" where
  "dict_row_of header cells =
     \<lparr>dr_cells = zip header (map Some cells @ replicate (length header - length cells) None),
      dr_surplus = drop (length header) cells\<rparr>"

definition dict_reader :: "ustr \<Rightarrow> ustr list option \<times> dict_row list" where
  "dict_reader text =
     (case csv_rows text of
        [] \<Rightarrow> (None, [])
      | header # rows \<Rightarrow> (Some header, map (dict_row_of header) (filter (\<lambda>r. r \<noteq> []) rows)))"

text \<open>\<open>row.get(key, "").strip()\<close>: a missing cell is \<open>None\<close>, which has no \<open>strip\<close>.\<close>

definition cell_of :: "string \<Rightarrow> dict_row \<Rightarrow> ustr result" where
  "cell_of key row =
     (case map_of (rev (dr_cells row)) (asc key) of None \<Rightarrow> Inr [] | Some None \<Rightarrow> Inl AttributeError | Some (Some c) \<Rightarrow> Inr (strip c))"

text \<open>\<open>csv.DictWriter\<close> on the rows that were read: it refuses surplus cells and writes nothing for \<open>None\<close>. What it wrote before
  it refused stays in the file.\<close>

definition written_row :: "ustr list \<Rightarrow> dict_row \<Rightarrow> ustr" where
  "written_row header row = csv_row (map (\<lambda>k. case map_of (rev (dr_cells row)) k of Some (Some c) \<Rightarrow> c | _ \<Rightarrow> []) header)"

fun write_rows :: "ustr list \<Rightarrow> dict_row list \<Rightarrow> unit result \<times> ustr" where
  "write_rows header [] = (Inr (), [])"
| "write_rows header (row # rows) =
     (if dr_surplus row \<noteq> [] then (Inl ValueError, [])
      else let (r, text) = write_rows header rows in (r, written_row header row @ text))"

text \<open>A new row: the values of its keys.\<close>

type_synonym new_row = "string \<Rightarrow> ustr option"

definition value_of :: "new_row \<Rightarrow> string \<Rightarrow> ustr" where
  "value_of row key = (case row key of None \<Rightarrow> [] | Some v \<Rightarrow> v)"

definition as_dict_row :: "string list \<Rightarrow> new_row \<Rightarrow> dict_row" where
  "as_dict_row fs row = \<lparr>dr_cells = map (\<lambda>k. (asc k, Some (value_of row k))) fs, dr_surplus = []\<rparr>"

text \<open>The existing rows, if the header is the contract's; then the file is opened for writing and everything is written anew.\<close>

definition read_existing :: "string list \<Rightarrow> ustr option \<Rightarrow> dict_row list result" where
  "read_existing fs f =
     (case f of
        None \<Rightarrow> Inr []
      | Some text \<Rightarrow>
          if text = [] then Inr []
          else let (header, rows) = dict_reader text in if header \<noteq> Some (map asc fs) then Inl ValueError else Inr rows)"

definition rewrite_ledger :: "string list \<Rightarrow> dict_row list \<Rightarrow> new_row \<Rightarrow> unit result \<times> ustr" where
  "rewrite_ledger fs existing row =
     (let head = csv_row (map asc fs)
      in case write_rows (map asc fs) existing of
           (Inl e, text) \<Rightarrow> (Inl e, head @ text)
         | (Inr _, text) \<Rightarrow> (Inr (), head @ text @ csv_row (map (value_of row) fs)))"

section \<open>Pilot ledger\<close>

definition PILOT_FIELDS :: "string list" where
  "PILOT_FIELDS = [''task_id'', ''received_at'', ''tender_filename'', ''enterprise_name'', ''input_scope'', ''output_run_id'',
     ''requirement_count'', ''unresolved_count'', ''human_confirmation'', ''failure_reason'', ''elapsed_minutes'', ''payment_signal'',
     ''payment_note'', ''evidence_boundary'']"

record pilot_summary =
  ps_rows :: nat
  ps_confirmed_tasks :: nat
  ps_payment_signals :: nat

definition count_true :: "bool list \<Rightarrow> nat" where
  "count_true bs = length (filter id bs)"

definition validate_pilot :: "date_parsers \<Rightarrow> dict_row list \<Rightarrow> pilot_summary result" where
  "validate_pilot dp rows =
     bind_result (map_result (\<lambda>r. map_sum id (\<lambda>c. dp_lower dp c = asc ''confirmed'') (cell_of ''human_confirmation'' r)) rows) (\<lambda>confirmed.
     bind_result (map_result (\<lambda>r. map_sum id (\<lambda>c. c \<noteq> []) (cell_of ''payment_signal'' r)) rows) (\<lambda>signals.
     Inr \<lparr>ps_rows = length rows, ps_confirmed_tasks = count_true confirmed, ps_payment_signals = count_true signals\<rparr>))"

text \<open>The new row enters the summary with the keys it has.\<close>

definition given_row :: "string list \<Rightarrow> new_row \<Rightarrow> dict_row" where
  "given_row fs row = \<lparr>dr_cells = map (\<lambda>k. (asc k, row k)) (filter (\<lambda>k. row k \<noteq> None) fs), dr_surplus = []\<rparr>"

definition append_pilot :: "date_parsers \<Rightarrow> ustr option \<Rightarrow> new_row \<Rightarrow> pilot_summary result \<times> ustr option" where
  "append_pilot dp f row =
     (if strip (value_of row ''task_id'') = [] then (Inl ValueError, f)
      else case require_iso_datetime dp (value_of row ''received_at'') of
        Inl e \<Rightarrow> (Inl e, f)
      | Inr _ \<Rightarrow>
          (case read_existing PILOT_FIELDS f of
             Inl e \<Rightarrow> (Inl e, f)
           | Inr existing \<Rightarrow>
               (case rewrite_ledger PILOT_FIELDS existing row of
                  (Inl e, text) \<Rightarrow> (Inl e, Some text)
                | (Inr _, text) \<Rightarrow> (validate_pilot dp (existing @ [given_row PILOT_FIELDS row]), Some text))))"

definition summarize_pilot :: "date_parsers \<Rightarrow> ustr option \<Rightarrow> pilot_summary result" where
  "summarize_pilot dp f =
     (case f of
        None \<Rightarrow> Inr \<lparr>ps_rows = 0, ps_confirmed_tasks = 0, ps_payment_signals = 0\<rparr>
      | Some text \<Rightarrow>
          if text = [] then Inr \<lparr>ps_rows = 0, ps_confirmed_tasks = 0, ps_payment_signals = 0\<rparr>
          else validate_pilot dp (snd (dict_reader text)))"

definition business_status :: "nat \<Rightarrow> pilot_summary \<Rightarrow> string" where
  "business_status target s =
     (if ps_confirmed_tasks s \<ge> target \<and> ps_payment_signals s \<ge> 2 then ''TARGET_MET''
      else if ps_rows s = 0 then ''NOT_STARTED'' else ''IN_PROGRESS'')"

section \<open>Outreach ledger\<close>

definition ICP_FIELDS :: "string list" where
  "ICP_FIELDS = [''contact_id'', ''contacted_at'', ''company_name'', ''icp_segment'', ''channel'', ''contact_role'', ''response_status'',
     ''next_step'', ''next_step_due'', ''linked_pilot_task_id'', ''notes'']"

record icp_summary =
  is_rows :: nat
  is_touched_contacts :: nat
  is_linked_pilot_tasks :: nat

definition validate_icp :: "date_parsers \<Rightarrow> dict_row list \<Rightarrow> icp_summary result" where
  "validate_icp dp rows =
     bind_result (map_result (\<lambda>r. map_sum id (\<lambda>c. dp_lower dp c \<notin> {[], asc ''pending''}) (cell_of ''response_status'' r)) rows) (\<lambda>touched.
     bind_result (map_result (\<lambda>r. map_sum id (\<lambda>c. c \<noteq> []) (cell_of ''linked_pilot_task_id'' r)) rows) (\<lambda>linked.
     Inr \<lparr>is_rows = length rows, is_touched_contacts = count_true touched, is_linked_pilot_tasks = count_true linked\<rparr>))"

definition append_icp :: "date_parsers \<Rightarrow> ustr option \<Rightarrow> new_row \<Rightarrow> icp_summary result \<times> ustr option" where
  "append_icp dp f row =
     (if strip (value_of row ''contact_id'') = [] then (Inl ValueError, f)
      else case bind_result (require_iso_datetime dp (value_of row ''contacted_at'')) (\<lambda>_. validate_optional_date dp (value_of row ''next_step_due'')) of
        Inl e \<Rightarrow> (Inl e, f)
      | Inr _ \<Rightarrow>
          (case read_existing ICP_FIELDS f of
             Inl e \<Rightarrow> (Inl e, f)
           | Inr existing \<Rightarrow>
               (case rewrite_ledger ICP_FIELDS existing row of
                  (Inl e, text) \<Rightarrow> (Inl e, Some text)
                | (Inr _, text) \<Rightarrow> (validate_icp dp (existing @ [given_row ICP_FIELDS row]), Some text))))"

definition summarize_icp :: "date_parsers \<Rightarrow> ustr option \<Rightarrow> icp_summary result" where
  "summarize_icp dp f =
     (case f of
        None \<Rightarrow> Inr \<lparr>is_rows = 0, is_touched_contacts = 0, is_linked_pilot_tasks = 0\<rparr>
      | Some text \<Rightarrow>
          if text = [] then Inr \<lparr>is_rows = 0, is_touched_contacts = 0, is_linked_pilot_tasks = 0\<rparr>
          else validate_icp dp (snd (dict_reader text)))"

section \<open>Readiness\<close>

text \<open>The files that the check reads. A template is absent, no JSON, or a JSON value.\<close>

record pilot_files =
  pf_pilot_template :: "json option option"
  pf_icp_template :: "json option option"
  pf_pilot_ledger :: "ustr option"
  pf_icp_ledger :: "ustr option"
  pf_checklist :: bool

definition template_ok :: "string list \<Rightarrow> json option option \<Rightarrow> bool" where
  "template_ok ks t = (case t of Some (Some (JObj kvs)) \<Rightarrow> list_all (\<lambda>k. k \<in> fst ` set kvs) ks | _ \<Rightarrow> False)"

definition header_ok :: "string list \<Rightarrow> ustr option \<Rightarrow> bool" where
  "header_ok fs f = (case f of None \<Rightarrow> False | Some text \<Rightarrow> fst (dict_reader text) = Some (map asc fs))"

record readiness =
  rd_ready :: bool
  rd_product_pass :: bool
  rd_pilot :: pilot_summary
  rd_icp :: icp_summary
  rd_checks :: "(string \<times> bool) list"

definition check_readiness :: "date_parsers \<Rightarrow> pilot_files \<Rightarrow> readiness result" where
  "check_readiness dp pf =
     (let checks = [(''pilot_template'', template_ok PILOT_FIELDS (pf_pilot_template pf)),
            (''icp_template'', template_ok ICP_FIELDS (pf_icp_template pf)),
            (''pilot_ledger'', header_ok PILOT_FIELDS (pf_pilot_ledger pf)),
            (''icp_ledger'', header_ok ICP_FIELDS (pf_icp_ledger pf)),
            (''intake_checklist'', pf_checklist pf)]
      in bind_result (summarize_pilot dp (pf_pilot_ledger pf)) (\<lambda>pilot.
         bind_result (summarize_icp dp (pf_icp_ledger pf)) (\<lambda>icp.
         Inr \<lparr>rd_ready = list_all snd checks, rd_product_pass = False, rd_pilot = pilot, rd_icp = icp, rd_checks = checks\<rparr>)))"

section \<open>What is appended is read\<close>

definition complete_row :: "string list \<Rightarrow> dict_row \<Rightarrow> bool" where
  "complete_row fs r \<longleftrightarrow> map fst (dr_cells r) = map asc fs \<and> list_all (\<lambda>c. snd c \<noteq> None) (dr_cells r) \<and> dr_surplus r = []"

definition cells_text :: "dict_row \<Rightarrow> ustr list" where
  "cells_text r = map (\<lambda>c. the (snd c)) (dr_cells r)"

lemma dict_row_of_cells:
  assumes "complete_row fs r"
  shows "dict_row_of (map asc fs) (cells_text r) = r"
proof -
  have "length (cells_text r) = length fs" using assms by (metis cells_text_def complete_row_def length_map)
  moreover have "zip (map asc fs) (map Some (cells_text r)) = dr_cells r"
  proof -
    have "map Some (cells_text r) = map snd (dr_cells r)"
      using assms by (auto simp: cells_text_def complete_row_def list_all_iff)
    then show ?thesis using assms by (metis complete_row_def zip_map_fst_snd)
  qed
  ultimately show ?thesis using assms by (simp add: dict_row_of_def complete_row_def)
qed

lemma written_row_complete:
  assumes "complete_row fs r" and "distinct (map asc fs)"
  shows "written_row (map asc fs) r = csv_row (cells_text r)"
proof -
  let ?cell = "\<lambda>k. case map_of (rev (dr_cells r)) k of Some (Some c) \<Rightarrow> c | _ \<Rightarrow> []"
  have names: "map asc fs = map fst (dr_cells r)" using assms(1) by (simp add: complete_row_def)
  have "?cell (fst c) = the (snd c)" if "c \<in> set (dr_cells r)" for c
  proof -
    have "distinct (map fst (rev (dr_cells r)))" using assms(2) names by (simp add: rev_map [symmetric])
    then have "map_of (rev (dr_cells r)) (fst c) = Some (snd c)" using that by (simp add: map_of_is_SomeI)
    moreover have "snd c \<noteq> None" using that assms(1) by (auto simp: complete_row_def list_all_iff)
    ultimately show ?thesis by auto
  qed
  then have "map ?cell (map fst (dr_cells r)) = map (\<lambda>c. the (snd c)) (dr_cells r)" by (simp del: set_rev)
  then show ?thesis by (simp only: written_row_def cells_text_def names)
qed

lemma write_rows_complete:
  assumes "list_all (complete_row fs) rows" and "distinct (map asc fs)"
  shows "write_rows (map asc fs) rows = (Inr (), csv_text (map cells_text rows))"
  using assms by (induction rows) (auto simp: csv_text_def written_row_complete complete_row_def [of fs "_ :: dict_row"])

lemma as_dict_row_complete: "complete_row fs (as_dict_row fs row)" "cells_text (as_dict_row fs row) = map (value_of row) fs"
  by (simp_all add: complete_row_def as_dict_row_def cells_text_def o_def list_all_iff)

lemma rewritten_reads_back:
  assumes "list_all (complete_row fs) existing" and "distinct (map asc fs)" and "fs \<noteq> []"
  shows "\<exists>text. rewrite_ledger fs existing row = (Inr (), text) \<and> text \<noteq> []
    \<and> dict_reader text = (Some (map asc fs), existing @ [as_dict_row fs row])"
proof -
  define rows where "rows = existing @ [as_dict_row fs row]"
  have complete: "list_all (complete_row fs) rows" using assms(1) by (simp add: rows_def as_dict_row_complete)
  have full: "cells_text r \<noteq> []" if "complete_row fs r" for r
    using that assms(3) by (auto simp: complete_row_def cells_text_def)
  have "rewrite_ledger fs existing row = (Inr (), csv_text (map asc fs # map cells_text rows))"
    by (simp add: rewrite_ledger_def write_rows_complete [OF assms(1,2)] Let_def csv_text_def rows_def as_dict_row_complete)
  moreover have "csv_rows (csv_text (map asc fs # map cells_text rows)) = map asc fs # map cells_text rows"
    using complete full assms(3) by (intro csv_rows_of_text) (auto simp: list_all_iff dest!: sym [of "[]"])
  moreover have "map (dict_row_of (map asc fs)) (filter (\<lambda>r. r \<noteq> []) (map cells_text rows)) = rows"
    using complete full by (induction rows) (auto simp: dict_row_of_cells)
  moreover have "csv_text (map asc fs # map cells_text rows) \<noteq> []" by (simp add: csv_text_def csv_row_def)
  ultimately show ?thesis by (simp add: dict_reader_def rows_def)
qed

lemma field_names: "distinct (map asc PILOT_FIELDS)" "PILOT_FIELDS \<noteq> []" "distinct (map asc ICP_FIELDS)" "ICP_FIELDS \<noteq> []"
  by (simp_all add: PILOT_FIELDS_def ICP_FIELDS_def asc_def)

lemma cell_of_as_dict_row:
  assumes "distinct (map asc fs)" and "key \<in> set fs"
  shows "cell_of key (as_dict_row fs row) = Inr (strip (value_of row key))"
proof -
  have "distinct (map fst (rev (dr_cells (as_dict_row fs row))))"
    using assms(1) by (simp add: as_dict_row_def rev_map [symmetric] o_def)
  moreover have "(asc key, Some (value_of row key)) \<in> set (rev (dr_cells (as_dict_row fs row)))"
    using assms(2) by (simp add: as_dict_row_def)
  ultimately have "map_of (rev (dr_cells (as_dict_row fs row))) (asc key) = Some (Some (value_of row key))"
    by (rule map_of_is_SomeI)
  then show ?thesis by (simp add: cell_of_def)
qed

lemma cell_of_given_row:
  assumes "distinct (map asc fs)" and "key \<in> set fs"
  shows "cell_of key (given_row fs row) = Inr (strip (value_of row key))"
proof (cases "row key")
  case None
  have "asc key \<noteq> asc k" if "k \<in> set fs" "row k \<noteq> None" for k
  proof -
    have "inj_on asc (set fs)" using assms(1) by (simp only: distinct_map)
    then show ?thesis using that None assms(2) inj_onD by metis
  qed
  then have "asc key \<notin> fst ` set (rev (dr_cells (given_row fs row)))"
    by (fastforce simp: given_row_def)
  then have "map_of (rev (dr_cells (given_row fs row))) (asc key) = None"
    by (simp only: map_of_eq_None_iff not_False_eq_True)
  then show ?thesis using None by (simp add: cell_of_def value_of_def strip_def lstrip_def)
next
  case (Some v)
  have "distinct (map fst (rev (dr_cells (given_row fs row))))"
    using assms(1) by (simp add: given_row_def rev_map [symmetric] o_def distinct_map inj_on_def)
  moreover have "(asc key, Some v) \<in> set (rev (dr_cells (given_row fs row)))"
    using assms(2) Some by (auto simp: given_row_def image_iff intro!: bexI [of _ key])
  ultimately have "map_of (rev (dr_cells (given_row fs row))) (asc key) = Some (Some v)"
    by (rule map_of_is_SomeI)
  then show ?thesis using Some by (simp add: cell_of_def value_of_def)
qed

lemma asc_lower_fields: "''human_confirmation'' \<in> set PILOT_FIELDS" "''payment_signal'' \<in> set PILOT_FIELDS"
  "''response_status'' \<in> set ICP_FIELDS" "''linked_pilot_task_id'' \<in> set ICP_FIELDS"
  by (simp_all add: PILOT_FIELDS_def ICP_FIELDS_def)

text \<open>The counts of the rows that the ledger has accepted.\<close>

definition pilot_counts :: "date_parsers \<Rightarrow> new_row list \<Rightarrow> pilot_summary" where
  "pilot_counts dp rows =
     \<lparr>ps_rows = length rows,
      ps_confirmed_tasks = length (filter (\<lambda>r. dp_lower dp (strip (value_of r ''human_confirmation'')) = asc ''confirmed'') rows),
      ps_payment_signals = length (filter (\<lambda>r. strip (value_of r ''payment_signal'') \<noteq> []) rows)\<rparr>"

definition icp_counts :: "date_parsers \<Rightarrow> new_row list \<Rightarrow> icp_summary" where
  "icp_counts dp rows =
     \<lparr>is_rows = length rows,
      is_touched_contacts =
        length (filter (\<lambda>r. dp_lower dp (strip (value_of r ''response_status'')) \<notin> {[], asc ''pending''}) rows),
      is_linked_pilot_tasks = length (filter (\<lambda>r. strip (value_of r ''linked_pilot_task_id'') \<noteq> []) rows)\<rparr>"

definition stored :: "string list \<Rightarrow> new_row list \<Rightarrow> dict_row list" where
  "stored fs rows = map (as_dict_row fs) rows"

lemma count_true_map: "count_true (map P xs) = length (filter P xs)"
  by (simp add: count_true_def filter_map o_def)

lemma validate_pilot_counts:
  assumes "d = as_dict_row PILOT_FIELDS \<or> d = given_row PILOT_FIELDS"
  shows "validate_pilot dp (stored PILOT_FIELDS rows @ [d row]) = Inr (pilot_counts dp (rows @ [row]))"
proof -
  have cell: "cell_of k (as_dict_row PILOT_FIELDS r) = Inr (strip (value_of r k))"
    "cell_of k (d r) = Inr (strip (value_of r k))" if "k \<in> set PILOT_FIELDS" for k r
    using that assms cell_of_as_dict_row cell_of_given_row field_names by auto
  have read: "map_result (\<lambda>r. map_sum id P (cell_of k r)) (stored PILOT_FIELDS rows @ [d row])
      = Inr (map (\<lambda>r. P (strip (value_of r k))) (rows @ [row]))" if "k \<in> set PILOT_FIELDS" for k and P :: "ustr \<Rightarrow> bool"
    using that by (induction rows) (simp_all add: stored_def cell)
  show ?thesis
    by (simp only: validate_pilot_def read [OF asc_lower_fields(1)] read [OF asc_lower_fields(2)] bind_result_simps count_true_map)
      (simp add: pilot_counts_def stored_def)
qed

lemma validate_icp_counts:
  assumes "d = as_dict_row ICP_FIELDS \<or> d = given_row ICP_FIELDS"
  shows "validate_icp dp (stored ICP_FIELDS rows @ [d row]) = Inr (icp_counts dp (rows @ [row]))"
proof -
  have cell: "cell_of k (as_dict_row ICP_FIELDS r) = Inr (strip (value_of r k))"
    "cell_of k (d r) = Inr (strip (value_of r k))" if "k \<in> set ICP_FIELDS" for k r
    using that assms cell_of_as_dict_row cell_of_given_row field_names by auto
  have read: "map_result (\<lambda>r. map_sum id P (cell_of k r)) (stored ICP_FIELDS rows @ [d row])
      = Inr (map (\<lambda>r. P (strip (value_of r k))) (rows @ [row]))" if "k \<in> set ICP_FIELDS" for k and P :: "ustr \<Rightarrow> bool"
    using that by (induction rows) (simp_all add: stored_def cell)
  show ?thesis
    by (simp only: validate_icp_def read [OF asc_lower_fields(3)] read [OF asc_lower_fields(4)] bind_result_simps count_true_map)
      (simp add: icp_counts_def stored_def)
qed

section \<open>A ledger holds what was appended\<close>

definition pilot_accepts :: "date_parsers \<Rightarrow> new_row \<Rightarrow> bool" where
  "pilot_accepts dp row \<longleftrightarrow> strip (value_of row ''task_id'') \<noteq> [] \<and> require_iso_datetime dp (value_of row ''received_at'') = Inr ()"

definition icp_accepts :: "date_parsers \<Rightarrow> new_row \<Rightarrow> bool" where
  "icp_accepts dp row \<longleftrightarrow> strip (value_of row ''contact_id'') \<noteq> [] \<and> require_iso_datetime dp (value_of row ''contacted_at'') = Inr ()
     \<and> validate_optional_date dp (value_of row ''next_step_due'') = Inr ()"

text \<open>The file holds these rows: there is none yet, or it reads back.\<close>

definition holds_rows :: "string list \<Rightarrow> new_row list \<Rightarrow> ustr option \<Rightarrow> bool" where
  "holds_rows fs rows f \<longleftrightarrow> (case f of
     None \<Rightarrow> rows = []
   | Some text \<Rightarrow> text \<noteq> [] \<and> rows \<noteq> [] \<and> dict_reader text = (Some (map asc fs), stored fs rows))"

lemma stored_complete: "list_all (complete_row fs) (stored fs rows)"
  by (simp add: stored_def list_all_iff as_dict_row_complete)

lemma rewrite_holds:
  assumes "holds_rows fs rows f" and "distinct (map asc fs)" and "fs \<noteq> []"
  shows "\<exists>text. read_existing fs f = Inr (stored fs rows) \<and> rewrite_ledger fs (stored fs rows) row = (Inr (), text)
    \<and> holds_rows fs (rows @ [row]) (Some text)"
proof -
  have "read_existing fs f = Inr (stored fs rows)"
    using assms(1) by (auto simp: holds_rows_def read_existing_def stored_def split: option.splits)
  moreover obtain t where "rewrite_ledger fs (stored fs rows) row = (Inr (), t)" "t \<noteq> []"
    "dict_reader t = (Some (map asc fs), stored fs rows @ [as_dict_row fs row])"
    using rewritten_reads_back [OF stored_complete assms(2,3)] by blast
  ultimately show ?thesis by (auto simp: holds_rows_def stored_def)
qed

lemma append_pilot_step:
  assumes "holds_rows PILOT_FIELDS rows f"
  shows "if pilot_accepts dp row
    then fst (append_pilot dp f row) = Inr (pilot_counts dp (rows @ [row])) \<and> holds_rows PILOT_FIELDS (rows @ [row]) (snd (append_pilot dp f row))
    else fst (append_pilot dp f row) = Inl ValueError \<and> snd (append_pilot dp f row) = f"
proof -
  obtain t where "read_existing PILOT_FIELDS f = Inr (stored PILOT_FIELDS rows)"
    "rewrite_ledger PILOT_FIELDS (stored PILOT_FIELDS rows) row = (Inr (), t)"
    "holds_rows PILOT_FIELDS (rows @ [row]) (Some t)"
    using rewrite_holds [OF assms field_names(1,2)] by blast
  moreover have "validate_pilot dp (stored PILOT_FIELDS rows @ [given_row PILOT_FIELDS row]) = Inr (pilot_counts dp (rows @ [row]))"
    by (rule validate_pilot_counts) simp
  ultimately show ?thesis
    by (auto simp: append_pilot_def pilot_accepts_def require_iso_datetime_def validate_optional_iso_datetime_def)
qed

lemma append_icp_step:
  assumes "holds_rows ICP_FIELDS rows f"
  shows "if icp_accepts dp row
    then fst (append_icp dp f row) = Inr (icp_counts dp (rows @ [row])) \<and> holds_rows ICP_FIELDS (rows @ [row]) (snd (append_icp dp f row))
    else fst (append_icp dp f row) = Inl ValueError \<and> snd (append_icp dp f row) = f"
proof -
  obtain t where "read_existing ICP_FIELDS f = Inr (stored ICP_FIELDS rows)"
    "rewrite_ledger ICP_FIELDS (stored ICP_FIELDS rows) row = (Inr (), t)"
    "holds_rows ICP_FIELDS (rows @ [row]) (Some t)"
    using rewrite_holds [OF assms field_names(3,4)] by blast
  moreover have "validate_icp dp (stored ICP_FIELDS rows @ [given_row ICP_FIELDS row]) = Inr (icp_counts dp (rows @ [row]))"
    by (rule validate_icp_counts) simp
  ultimately show ?thesis
    by (auto simp: append_icp_def icp_accepts_def require_iso_datetime_def validate_optional_iso_datetime_def validate_optional_date_def)
qed

lemma summarize_holds:
  "holds_rows PILOT_FIELDS rows f \<Longrightarrow> summarize_pilot dp f = Inr (pilot_counts dp rows)"
  "holds_rows ICP_FIELDS rows' f \<Longrightarrow> summarize_icp dp f = Inr (icp_counts dp rows')"
proof -
  have last: "stored fs xs = stored fs (butlast xs) @ [as_dict_row fs (List.last xs)]" if "xs \<noteq> []" for fs xs
    using that by (cases xs rule: rev_cases) (simp_all add: stored_def)
  show "summarize_pilot dp f = Inr (pilot_counts dp rows)" if "holds_rows PILOT_FIELDS rows f"
    using that validate_pilot_counts [of "as_dict_row PILOT_FIELDS" dp "butlast rows" "List.last rows"] last [of rows]
    by (cases f) (simp_all add: holds_rows_def summarize_pilot_def pilot_counts_def)
  show "summarize_icp dp f = Inr (icp_counts dp rows')" if "holds_rows ICP_FIELDS rows' f"
    using that validate_icp_counts [of "as_dict_row ICP_FIELDS" dp "butlast rows'" "List.last rows'"] last [of rows']
    by (cases f) (simp_all add: holds_rows_def summarize_icp_def icp_counts_def)
qed

text \<open>Rows appended one after the other, from no file on.\<close>

definition pilot_file :: "date_parsers \<Rightarrow> new_row list \<Rightarrow> ustr option" where
  "pilot_file dp rows = foldl (\<lambda>f row. snd (append_pilot dp f row)) None rows"

definition icp_file :: "date_parsers \<Rightarrow> new_row list \<Rightarrow> ustr option" where
  "icp_file dp rows = foldl (\<lambda>f row. snd (append_icp dp f row)) None rows"

lemma pilot_file_holds: "holds_rows PILOT_FIELDS (filter (pilot_accepts dp) rows) (pilot_file dp rows)"
proof (induction rows rule: rev_induct)
  case Nil
  show ?case by (simp add: holds_rows_def pilot_file_def)
next
  case (snoc row rows)
  then show ?case using append_pilot_step [OF snoc.IH, of dp row] by (simp add: pilot_file_def split: if_splits)
qed

lemma icp_file_holds: "holds_rows ICP_FIELDS (filter (icp_accepts dp) rows) (icp_file dp rows)"
proof (induction rows rule: rev_induct)
  case Nil
  show ?case by (simp add: holds_rows_def icp_file_def)
next
  case (snoc row rows)
  then show ?case using append_icp_step [OF snoc.IH, of dp row] by (simp add: icp_file_def split: if_splits)
qed


text \<open>A ledger that was edited by hand so that a row has more cells than the header is cut off at that row by the next append:
  the file is open for writing when the writer refuses it.\<close>

lemma surplus_truncates:
  assumes "read_existing PILOT_FIELDS f = Inr (row' # rest)" and "dr_surplus row' \<noteq> []" and "pilot_accepts dp row"
  shows "append_pilot dp f row = (Inl ValueError, Some (csv_row (map asc PILOT_FIELDS)))"
  using assms by (simp add: append_pilot_def pilot_accepts_def rewrite_ledger_def Let_def)

end
