(* ===== verification/Ground_Truth.thy ===== *)
theory Ground_Truth
  imports Prelude
begin

text \<open>
  The review of the ground-truth labels: the ledger of candidates (\<open>src/work/ground_truth_review.py\<close>), the packet for the
  second reviewer (\<open>build_independent_review_packet.py\<close>), the prepared submission (\<open>prepare_user_review_submission.py\<close>)
  and its application (\<open>apply_independent_reviews.py\<close>). The JSON files are read with all the keys that the code reads;
  the files under review, their SHA-256 digest and \<open>str.upper\<close> are parameters, and so is the clock.
\<close>

section \<open>Ledger\<close>

datatype human_status = PENDING_INDEPENDENT_REVIEW | INDEPENDENTLY_CONFIRMED | INDEPENDENTLY_REJECTED | NEEDS_ADJUDICATION

datatype machine_status = LOCALLY_TRACEABLE | BLOCKED

datatype first_pass = FP_CONFIRMED | FP_REJECTED

record candidate =
  ca_category :: string
  ca_severity :: string
  ca_page :: int
  ca_quote :: ustr
  ca_polarity :: string

record fixture =
  fx_fixture_id :: ustr
  fx_source_path :: ustr
  fx_sha256 :: ustr
  fx_candidates :: "candidate list"

record gt_entry =
  ge_review_id :: ustr
  ge_fixture_id :: ustr
  ge_source_path :: ustr
  ge_source_sha256 :: ustr
  ge_source_exists :: bool
  ge_source_hash_matches :: bool
  ge_candidate :: candidate
  ge_machine_status :: machine_status
  ge_first_pass_status :: first_pass
  ge_human_status :: human_status
  ge_reviewer :: ustr
  ge_review_note :: ustr
  ge_reviewed_at :: timestamp
  ge_independent :: "(ustr \<times> ustr \<times> timestamp) option"

definition FIRST_PASS_REJECTIONS :: "ustr \<times> string \<Rightarrow> ustr option" where
  "FIRST_PASS_REJECTIONS key =
     (if key = (asc ''REAL-001'', ''DEADLINE'')
      then Some [35780, 20998, 19994, 32489, 26102, 38388, 33539, 22260, 65292, 19981, 26159, 25237, 26631, 47, 36882, 20132, 20851, 38190, 25130, 27490, 26102, 38388, 65292, 31867, 21035, 35823, 25253, 12290]
      else if key = (asc ''REAL-003'', ''SCORING'')
      then Some [20165, 35828, 26126, 36890, 29992, 35780, 26631, 26041, 27861, 65292, 26410, 21253, 21547, 20855, 20307, 35780, 20998, 22240, 32032, 25110, 20998, 20540, 65292, 31867, 21035, 35823, 25253, 12290]
      else None)"

definition first_pass_note :: ustr where
  "first_pass_note = [21407, 25991, 21253, 21547, 20855, 20307, 35201, 27714, 19988, 31867, 21035, 19982, 39029, 30721, 19968, 33268, 65307, 31561, 24453, 29420, 31435, 22797, 26680, 12290]"

definition first_pass_reviewer :: ustr where
  "first_pass_reviewer = asc ''codex_first_pass''"

text \<open>The number of a candidate has two digits at least.\<close>

definition review_id_of :: "ustr \<Rightarrow> nat \<Rightarrow> ustr" where
  "review_id_of fixture_id index =
     fixture_id @ asc ''-'' @ asc (if index < 10 then ''0'' @ decimal index else decimal index)"

text \<open>The files: their contents by path; the digest of a content as the hex text that the manifest has.\<close>

record 'a sources =
  so_file :: "ustr \<Rightarrow> 'a option"
  so_sha256 :: "'a \<Rightarrow> ustr"

definition hash_matches :: "'a sources \<Rightarrow> ustr \<Rightarrow> ustr \<Rightarrow> bool" where
  "hash_matches so path sha = (case so_file so path of None \<Rightarrow> False | Some data \<Rightarrow> so_sha256 so data = sha)"

definition gt_entry_of :: "'a sources \<Rightarrow> timestamp \<Rightarrow> fixture \<Rightarrow> nat \<times> candidate \<Rightarrow> gt_entry" where
  "gt_entry_of so now fx = (\<lambda>(index, ca).
     (let source_exists = so_file so (fx_source_path fx) \<noteq> None;
          matches = source_exists \<and> hash_matches so (fx_source_path fx) (fx_sha256 fx);
          rejection_reason = FIRST_PASS_REJECTIONS (fx_fixture_id fx, ca_category ca)
      in \<lparr>ge_review_id = review_id_of (fx_fixture_id fx) index,
          ge_fixture_id = fx_fixture_id fx,
          ge_source_path = fx_source_path fx,
          ge_source_sha256 = fx_sha256 fx,
          ge_source_exists = source_exists,
          ge_source_hash_matches = matches,
          ge_candidate = ca,
          ge_machine_status = (if source_exists \<and> matches then LOCALLY_TRACEABLE else BLOCKED),
          ge_first_pass_status = (if rejection_reason \<noteq> None then FP_REJECTED else FP_CONFIRMED),
          ge_human_status = PENDING_INDEPENDENT_REVIEW,
          ge_reviewer = first_pass_reviewer,
          ge_review_note = (case rejection_reason of None \<Rightarrow> first_pass_note | Some reason \<Rightarrow> reason),
          ge_reviewed_at = now,
          ge_independent = None\<rparr>))"

definition build_ledger :: "'a sources \<Rightarrow> timestamp \<Rightarrow> fixture list \<Rightarrow> gt_entry list" where
  "build_ledger so now manifest =
     concat (map (\<lambda>fx. map (gt_entry_of so now fx) (enumerate 1 (fx_candidates fx))) manifest)"

definition metric_eligible :: "gt_entry \<Rightarrow> bool" where
  "metric_eligible e \<longleftrightarrow> ge_machine_status e = LOCALLY_TRACEABLE \<and> ge_source_hash_matches e
     \<and> ge_first_pass_status e = FP_CONFIRMED \<and> ge_human_status e = INDEPENDENTLY_CONFIRMED"

definition metric_eligible_entries :: "gt_entry list \<Rightarrow> gt_entry list" where
  "metric_eligible_entries es = filter metric_eligible es"

section \<open>Decisions\<close>

text \<open>A decision is an object whose keys may be missing. Of entries with the same id the last one is meant.\<close>

record decision =
  dc_review_id :: "ustr option"
  dc_reviewer :: "ustr option"
  dc_decision :: "ustr option"
  dc_note :: "ustr option"

definition stripped :: "ustr option \<Rightarrow> ustr" where
  "stripped v = (case v of None \<Rightarrow> [] | Some s \<Rightarrow> strip s)"

definition entry_of :: "gt_entry list \<Rightarrow> ustr \<Rightarrow> gt_entry option" where
  "entry_of es review_id = find (\<lambda>e. ge_review_id e = review_id) (rev es)"

fun change_first :: "('e \<Rightarrow> bool) \<Rightarrow> ('e \<Rightarrow> 'e) \<Rightarrow> 'e list \<Rightarrow> 'e list" where
  "change_first P f [] = []"
| "change_first P f (e # es) = (if P e then f e # es else e # change_first P f es)"

definition change_entry :: "ustr \<Rightarrow> (gt_entry \<Rightarrow> gt_entry) \<Rightarrow> gt_entry list \<Rightarrow> gt_entry list" where
  "change_entry review_id f es = rev (change_first (\<lambda>e. ge_review_id e = review_id) f (rev es))"

fun check_decisions :: "(ustr \<Rightarrow> ustr) \<Rightarrow> gt_entry list \<Rightarrow> ustr set \<Rightarrow> decision list \<Rightarrow> unit result" where
  "check_decisions upper es seen [] = Inr ()"
| "check_decisions upper es seen (d # ds) =
     (let review_id = stripped (dc_review_id d);
          reviewer = stripped (dc_reviewer d);
          verdict = upper (stripped (dc_decision d));
          note = stripped (dc_note d)
      in case entry_of es review_id of
           None \<Rightarrow> Inl ValueError
         | Some e \<Rightarrow>
             if review_id \<in> seen then Inl ValueError
             else if reviewer = [] \<or> reviewer = ge_reviewer e then Inl ValueError
             else if verdict \<noteq> asc ''CONFIRM'' \<and> verdict \<noteq> asc ''REJECT'' then Inl ValueError
             else if note = [] then Inl ValueError
             else check_decisions upper es (insert review_id seen) ds)"

definition outcome_of :: "first_pass \<Rightarrow> ustr \<Rightarrow> human_status" where
  "outcome_of fp verdict =
     (if fp = FP_CONFIRMED \<and> verdict = asc ''CONFIRM'' \<or> fp = FP_REJECTED \<and> verdict = asc ''REJECT''
      then (if verdict = asc ''CONFIRM'' then INDEPENDENTLY_CONFIRMED else INDEPENDENTLY_REJECTED)
      else NEEDS_ADJUDICATION)"

definition judged :: "(ustr \<Rightarrow> ustr) \<Rightarrow> timestamp \<Rightarrow> ustr \<Rightarrow> ustr \<Rightarrow> ustr \<Rightarrow> gt_entry \<Rightarrow> gt_entry" where
  "judged upper now verdict reviewer note e =
     e\<lparr>ge_human_status := outcome_of (ge_first_pass_status e) (upper verdict),
       ge_independent := Some (strip reviewer, strip note, now)\<rparr>"

text \<open>The second pass reads the keys as they are, without stripping them.\<close>

fun apply_decisions :: "(ustr \<Rightarrow> ustr) \<Rightarrow> timestamp \<Rightarrow> gt_entry list \<Rightarrow> decision list \<Rightarrow> gt_entry list result" where
  "apply_decisions upper now es [] = Inr es"
| "apply_decisions upper now es (d # ds) =
     (case (dc_review_id d, dc_decision d, dc_reviewer d, dc_note d) of
        (Some review_id, Some verdict, Some reviewer, Some note) \<Rightarrow>
          if entry_of es review_id = None then Inl KeyError
          else apply_decisions upper now (change_entry review_id (judged upper now verdict reviewer note) es) ds
      | _ \<Rightarrow> Inl KeyError)"

definition apply_independent_reviews :: "(ustr \<Rightarrow> ustr) \<Rightarrow> timestamp \<Rightarrow> gt_entry list \<Rightarrow> decision list \<Rightarrow> gt_entry list result" where
  "apply_independent_reviews upper now es ds =
     bind_result (check_decisions upper es {} ds) (\<lambda>_. apply_decisions upper now es ds)"

section \<open>Submission\<close>

record review_summary =
  rs_reviewed :: nat
  rs_eligible :: nat
  rs_rejected :: nat
  rs_needs_adjudication :: nat

definition pending :: "gt_entry \<Rightarrow> bool" where
  "pending e \<longleftrightarrow> ge_human_status e = PENDING_INDEPENDENT_REVIEW"

definition verify_sources :: "'a sources \<Rightarrow> gt_entry list \<Rightarrow> unit result" where
  "verify_sources so es =
     (if list_all (\<lambda>e. hash_matches so (ge_source_path e) (ge_source_sha256 e)) es then Inr () else Inl ValueError)"

definition summary_of :: "gt_entry list \<Rightarrow> nat \<Rightarrow> review_summary" where
  "summary_of es n =
     \<lparr>rs_reviewed = n,
      rs_eligible = length (metric_eligible_entries es),
      rs_rejected = length (filter (\<lambda>e. ge_human_status e = INDEPENDENTLY_REJECTED) es),
      rs_needs_adjudication = length (filter (\<lambda>e. ge_human_status e = NEEDS_ADJUDICATION) es)\<rparr>"

definition submit_reviews ::
    "(ustr \<Rightarrow> ustr) \<Rightarrow> 'a sources \<Rightarrow> timestamp \<Rightarrow> gt_entry list \<Rightarrow> decision list \<Rightarrow> (gt_entry list \<times> review_summary) result" where
  "submit_reviews upper so now es ds =
     (let pending_ids = ge_review_id ` set (filter pending es);
          submitted_ids = map (\<lambda>d. stripped (dc_review_id d)) ds
      in if length submitted_ids \<noteq> card pending_ids \<or> set submitted_ids \<noteq> pending_ids then Inl ValueError
         else bind_result (verify_sources so es) (\<lambda>_.
              bind_result (apply_independent_reviews upper now es ds) (\<lambda>reviewed.
              Inr (reviewed, summary_of reviewed (length ds)))))"

section \<open>Packet and prepared submission\<close>

record packet_entry =
  pk_review_id :: ustr
  pk_fixture_id :: ustr
  pk_source_path :: ustr
  pk_source_sha256 :: ustr
  pk_page :: int
  pk_category :: string
  pk_severity :: string
  pk_quote :: ustr
  pk_first_pass_status :: first_pass

definition build_packet :: "gt_entry list \<Rightarrow> packet_entry list" where
  "build_packet es =
     map (\<lambda>e. \<lparr>pk_review_id = ge_review_id e, pk_fixture_id = ge_fixture_id e, pk_source_path = ge_source_path e,
            pk_source_sha256 = ge_source_sha256 e, pk_page = ca_page (ge_candidate e),
            pk_category = ca_category (ge_candidate e), pk_severity = ca_severity (ge_candidate e), pk_quote = ca_quote (ge_candidate e),
            pk_first_pass_status = ge_first_pass_status e\<rparr>)
       (filter pending es)"

definition REVIEWER :: ustr where
  "REVIEWER = asc ''user_independent_reviewer_20260826''"

definition NOTE :: ustr where
  "NOTE = [29992, 25143, 20316, 20026, 29420, 31435, 22797, 26680, 20154, 26126, 30830, 34920, 31034, 35748, 20026, 27809, 26377, 38382, 39064, 65292, 21516, 24847, 39318, 36718, 20998, 31867, 65307, 26412, 25552, 20132, 25353, 39318, 36718, 30830, 35748, 39033, 30830, 35748, 12289, 39318, 36718, 35823, 25253, 39033, 39539, 22238, 12290]"

definition prepared_submission :: "packet_entry list \<Rightarrow> decision list" where
  "prepared_submission packet =
     map (\<lambda>p. \<lparr>dc_review_id = Some (pk_review_id p), dc_reviewer = Some REVIEWER,
            dc_decision = Some (asc (if pk_first_pass_status p = FP_CONFIRMED then ''CONFIRM'' else ''REJECT'')),
            dc_note = Some NOTE\<rparr>) packet"

section \<open>What a label needs before it counts\<close>

text \<open>An entry after some decisions is the entry it was, or what one of the decisions on it made of it.\<close>

definition decided_by :: "(ustr \<Rightarrow> ustr) \<Rightarrow> timestamp \<Rightarrow> decision list \<Rightarrow> gt_entry \<Rightarrow> gt_entry \<Rightarrow> bool" where
  "decided_by upper now ds e e' \<longleftrightarrow> e' = e
     \<or> (\<exists>d\<in>set ds. \<exists>v r n. d = \<lparr>dc_review_id = Some (ge_review_id e), dc_reviewer = Some r, dc_decision = Some v, dc_note = Some n\<rparr>
          \<and> e' = judged upper now v r n e)"

lemma judged_facts [simp]:
  "ge_review_id (judged u now v r n e) = ge_review_id e" "ge_source_path (judged u now v r n e) = ge_source_path e"
  "ge_source_sha256 (judged u now v r n e) = ge_source_sha256 e" "ge_machine_status (judged u now v r n e) = ge_machine_status e"
  "ge_first_pass_status (judged u now v r n e) = ge_first_pass_status e" "ge_reviewer (judged u now v r n e) = ge_reviewer e"
  "ge_source_hash_matches (judged u now v r n e) = ge_source_hash_matches e"
  "ge_human_status (judged u now v r n e) = outcome_of (ge_first_pass_status e) (u v)"
  "judged u now v r n (judged u now v' r' n' e) = judged u now v r n e"
  by (simp_all add: judged_def)

lemma change_first_all2:
  "list_all2 (\<lambda>e e'. e' = e \<or> P e \<and> e' = f e) es (change_first P f es)"
  by (induction es) (auto simp: list_all2_same)

lemma change_entry_all2:
  "list_all2 (\<lambda>e e'. e' = e \<or> ge_review_id e = review_id \<and> e' = f e) es (change_entry review_id f es)"
  using change_first_all2 [of "\<lambda>e. ge_review_id e = review_id" f "rev es"] list_all2_rev [of _ es "change_entry review_id f es"]
  by (simp add: change_entry_def)

lemma apply_decisions_all2:
  "apply_decisions upper now es ds = Inr es' \<Longrightarrow> list_all2 (decided_by upper now ds) es es'"
proof (induction ds arbitrary: es)
  case Nil
  then show ?case by (simp add: decided_by_def list_all2_same)
next
  case (Cons d ds)
  from Cons.prems obtain rid v r n where d: "d = \<lparr>dc_review_id = Some rid, dc_reviewer = Some r, dc_decision = Some v, dc_note = Some n\<rparr>"
    and rest: "apply_decisions upper now (change_entry rid (judged upper now v r n) es) ds = Inr es'"
    by (cases d) (auto split: option.splits if_splits)
  have "list_all2 (decided_by upper now ds) (change_entry rid (judged upper now v r n) es) es'"
    using rest by (rule Cons.IH)
  with change_entry_all2 [of rid "judged upper now v r n" es] show ?case
    by (rule list_all2_trans [rotated 1]) (auto simp: decided_by_def d, blast?)
qed

lemma check_decisions_sound:
  assumes "check_decisions upper es seen ds = Inr ()" and "d \<in> set ds"
  shows "\<exists>e. entry_of es (stripped (dc_review_id d)) = Some e \<and> stripped (dc_reviewer d) \<noteq> []
    \<and> stripped (dc_reviewer d) \<noteq> ge_reviewer e \<and> stripped (dc_note d) \<noteq> []"
  using assms by (induction ds arbitrary: seen) (auto simp: Let_def split: option.splits if_splits)

lemma list_all2_right: "list_all2 R xs ys \<Longrightarrow> y \<in> set ys \<Longrightarrow> \<exists>x\<in>set xs. R x y"
  by (induction rule: list_all2_induct) auto

lemma entry_of_in: "entry_of es rid = Some e \<Longrightarrow> e \<in> set es \<and> ge_review_id e = rid"
  unfolding entry_of_def by (metis (mono_tags, lifting) find_Some_iff nth_mem set_rev)

lemma built_entry:
  assumes "e \<in> set (build_ledger so now manifest)"
  shows "ge_human_status e = PENDING_INDEPENDENT_REVIEW \<and> ge_reviewer e = first_pass_reviewer
    \<and> (ge_machine_status e = LOCALLY_TRACEABLE \<longleftrightarrow> hash_matches so (ge_source_path e) (ge_source_sha256 e))
    \<and> (ge_source_hash_matches e \<longleftrightarrow> hash_matches so (ge_source_path e) (ge_source_sha256 e))"
  using assms by (auto simp: build_ledger_def gt_entry_of_def Let_def hash_matches_def split: option.splits if_splits)

lemma submit_reviews_Inr:
  assumes "submit_reviews upper so now es ds = Inr (reviewed, s)"
  shows "list_all (\<lambda>e. hash_matches so (ge_source_path e) (ge_source_sha256 e)) es \<and> check_decisions upper es {} ds = Inr ()
    \<and> apply_decisions upper now es ds = Inr reviewed \<and> s = summary_of reviewed (length ds)"
  using assms
  by (auto simp: submit_reviews_def Let_def verify_sources_def apply_independent_reviews_def bind_result_Inr split: if_splits)

text \<open>C27: a candidate label is measured against only after two different reviewers confirmed it. Take the ledger as it is built
  from the manifest and any submission that is accepted: an entry of the reviewed ledger that the metrics may use was confirmed in
  the first pass, was found with the recorded digest in its source file when the ledger was built and again when the submission
  was applied, and the submission holds a decision on this entry, to confirm it, with a note, by a reviewer who is named and is
  not the one of the first pass. No entry counts before.\<close>

theorem labels_count_only_when_confirmed_twice:
  assumes "submit_reviews upper so' now' (build_ledger so now manifest) ds = Inr (reviewed, s)" and "e \<in> set (metric_eligible_entries reviewed)"
  shows "metric_eligible_entries (build_ledger so now manifest) = []
    \<and> ge_first_pass_status e = FP_CONFIRMED
    \<and> hash_matches so (ge_source_path e) (ge_source_sha256 e) \<and> hash_matches so' (ge_source_path e) (ge_source_sha256 e)
    \<and> (\<exists>d v. d \<in> set ds \<and> dc_review_id d = Some (ge_review_id e) \<and> dc_decision d = Some v \<and> upper v = asc ''CONFIRM''
        \<and> stripped (dc_reviewer d) \<noteq> [] \<and> stripped (dc_reviewer d) \<noteq> first_pass_reviewer \<and> stripped (dc_note d) \<noteq> [])"
proof -
  let ?es = "build_ledger so now manifest"
  have none: "metric_eligible_entries ?es = []"
    using built_entry by (force simp: metric_eligible_entries_def metric_eligible_def filter_empty_conv)
  have eligible: "metric_eligible e" and "e \<in> set reviewed" using assms(2) by (auto simp: metric_eligible_entries_def)
  then obtain e0 where e0: "e0 \<in> set ?es" "decided_by upper now' ds e0 e"
    using list_all2_right [OF apply_decisions_all2] submit_reviews_Inr [OF assms(1)] by blast
  note built = built_entry [OF e0(1)]
  obtain d v r n where d: "d \<in> set ds" "d = \<lparr>dc_review_id = Some (ge_review_id e0), dc_reviewer = Some r, dc_decision = Some v, dc_note = Some n\<rparr>"
    and e: "e = judged upper now' v r n e0"
    using e0(2) eligible built by (auto simp: decided_by_def metric_eligible_def)
  obtain e1 where "entry_of ?es (stripped (dc_review_id d)) = Some e1" "stripped (dc_reviewer d) \<noteq> []"
    "stripped (dc_reviewer d) \<noteq> ge_reviewer e1" "stripped (dc_note d) \<noteq> []"
    using check_decisions_sound submit_reviews_Inr [OF assms(1)] d(1) by blast
  moreover from this have "ge_reviewer e1 = first_pass_reviewer" using entry_of_in built_entry by blast
  moreover have "upper v = asc ''CONFIRM''"
    using eligible by (auto simp: e metric_eligible_def outcome_of_def split: if_splits)
  moreover have "hash_matches so' (ge_source_path e0) (ge_source_sha256 e0)"
    using submit_reviews_Inr [OF assms(1)] e0(1) by (auto simp: list_all_iff)
  ultimately show ?thesis using none eligible built d e by (auto simp: metric_eligible_def)
qed

lemma labels_count_only_when_confirmed_twice_witness:
  "\<exists>d v. d = \<lparr>dc_review_id = Some (asc ''F-01''), dc_reviewer = Some (asc ''second''), dc_decision = Some (asc ''CONFIRM''), dc_note = Some (asc ''read'')\<rparr>
     \<and> dc_decision d = Some v \<and> id v = asc ''CONFIRM''"
proof -
  define so :: "ustr sources" where "so = \<lparr>so_file = (\<lambda>_. Some (asc ''x'')), so_sha256 = id\<rparr>"
  define fx where "fx = \<lparr>fx_fixture_id = asc ''F'', fx_source_path = asc ''a.pdf'', fx_sha256 = asc ''x'',
    fx_candidates = [\<lparr>ca_category = ''BOND'', ca_severity = ''HIGH'', ca_page = 3, ca_quote = asc ''q'', ca_polarity = ''P''\<rparr>]\<rparr>"
  define d where "d = \<lparr>dc_review_id = Some (asc ''F-01''), dc_reviewer = Some (asc ''second''), dc_decision = Some (asc ''CONFIRM''), dc_note = Some (asc ''read'')\<rparr>"
  define e0 where "e0 = gt_entry_of so 5 fx (Suc 0, hd (fx_candidates fx))"
  define e where "e = judged id 9 (asc ''CONFIRM'') (asc ''second'') (asc ''read'') e0"
  have built: "build_ledger so 5 [fx] = [e0]" by (simp add: build_ledger_def e0_def fx_def)
  have entry: "ge_review_id e0 = asc ''F-01''" "pending e0" "hash_matches so (ge_source_path e0) (ge_source_sha256 e0)"
    "ge_reviewer e0 = asc ''codex_first_pass''"
    by (simp_all add: e0_def gt_entry_of_def Let_def fx_def so_def hash_matches_def pending_def first_pass_reviewer_def
      review_id_of_def decimal.simps asc_def)
  have "check_decisions id [e0] {} [d] = Inr ()"
    by (simp add: entry entry_of_def d_def stripped_def strip_def lstrip_def asc_def is_space_def Let_def)
  moreover have "apply_decisions id 9 [e0] [d] = Inr [e]"
    by (simp add: entry entry_of_def d_def change_entry_def e_def)
  ultimately have "apply_independent_reviews id 9 [e0] [d] = Inr [e]" by (simp only: apply_independent_reviews_def bind_result_simps)
  moreover have "stripped (dc_review_id d) = asc ''F-01''"
    by (simp add: d_def stripped_def strip_def lstrip_def asc_def is_space_def)
  ultimately have "submit_reviews id so 9 (build_ledger so 5 [fx]) [d] = Inr ([e], summary_of [e] 1)"
    by (simp add: submit_reviews_def built entry verify_sources_def)
  moreover have "metric_eligible e"
    by (simp add: e_def e0_def metric_eligible_def outcome_of_def gt_entry_of_def Let_def fx_def so_def hash_matches_def
      FIRST_PASS_REJECTIONS_def asc_def)
  ultimately have "\<exists>d' v. d' \<in> set [d] \<and> dc_decision d' = Some v \<and> id v = asc ''CONFIRM''"
    using labels_count_only_when_confirmed_twice [of id so 9 so 5 "[fx]" "[d]" "[e]" "summary_of [e] 1" e]
    by (fastforce simp: metric_eligible_entries_def)
  then show ?thesis by (auto simp: d_def)
qed

section \<open>The prepared submission is applied as a whole\<close>

definition prepared_decision :: "gt_entry \<Rightarrow> decision" where
  "prepared_decision e =
     \<lparr>dc_review_id = Some (ge_review_id e), dc_reviewer = Some REVIEWER,
      dc_decision = Some (asc (if ge_first_pass_status e = FP_CONFIRMED then ''CONFIRM'' else ''REJECT'')), dc_note = Some NOTE\<rparr>"

definition prepared_outcome :: "(ustr \<Rightarrow> ustr) \<Rightarrow> timestamp \<Rightarrow> gt_entry \<Rightarrow> gt_entry" where
  "prepared_outcome upper now e =
     judged upper now (asc (if ge_first_pass_status e = FP_CONFIRMED then ''CONFIRM'' else ''REJECT'')) REVIEWER NOTE e"

lemma prepared_submission_of_packet:
  "prepared_submission (build_packet es) = map prepared_decision (filter pending es)"
  by (simp add: prepared_submission_def build_packet_def prepared_decision_def)

lemma find_split: "list_all (\<lambda>x. \<not> P x) xs \<Longrightarrow> P y \<Longrightarrow> find P (xs @ y # ys) = Some y"
  by (induction xs) auto

lemma change_first_split: "list_all (\<lambda>x. \<not> P x) xs \<Longrightarrow> P y \<Longrightarrow> change_first P f (xs @ y # ys) = xs @ f y # ys"
  by (induction xs) auto

lemma entry_at:
  assumes "distinct (map ge_review_id (pre @ e # post))"
  shows "entry_of (pre @ e # post) (ge_review_id e) = Some e"
    and "change_entry (ge_review_id e) f (pre @ e # post) = pre @ f e # post"
proof -
  have "list_all (\<lambda>x. \<not> ge_review_id x = ge_review_id e) (rev post)"
    using assms by (simp add: list_all_iff) (metis image_eqI)
  note here = find_split [OF this refl, of "rev pre"] change_first_split [OF this refl, of f "rev pre"]
  show "entry_of (pre @ e # post) (ge_review_id e) = Some e" using here(1) by (simp add: entry_of_def)
  show "change_entry (ge_review_id e) f (pre @ e # post) = pre @ f e # post" using here(2) by (simp add: change_entry_def)
qed

lemma apply_prepared:
  "distinct (map ge_review_id (pre @ es)) \<Longrightarrow>
    apply_decisions upper now (pre @ es) (map prepared_decision es) = Inr (pre @ map (prepared_outcome upper now) es)"
proof (induction es arbitrary: pre)
  case (Cons e es)
  have "distinct (map ge_review_id ((pre @ [prepared_outcome upper now e]) @ es))"
    using Cons.prems by (simp add: prepared_outcome_def)
  from Cons.IH [OF this] show ?case
    using entry_at [OF Cons.prems] by (simp add: prepared_decision_def prepared_outcome_def)
qed simp

lemma prepared_names: "strip REVIEWER = REVIEWER" "REVIEWER \<noteq> []" "REVIEWER \<noteq> first_pass_reviewer" "strip NOTE = NOTE" "NOTE \<noteq> []"
  "strip (asc ''CONFIRM'') = asc ''CONFIRM''" "strip (asc ''REJECT'') = asc ''REJECT''"
  by (simp_all add: REVIEWER_def NOTE_def first_pass_reviewer_def strip_def lstrip_def asc_def is_space_def)

lemma prepared_fields:
  "dc_review_id (prepared_decision e) = Some (ge_review_id e)" "dc_reviewer (prepared_decision e) = Some REVIEWER"
  "dc_decision (prepared_decision e) = Some (asc (if ge_first_pass_status e = FP_CONFIRMED then ''CONFIRM'' else ''REJECT''))"
  "dc_note (prepared_decision e) = Some NOTE"
  by (simp_all add: prepared_decision_def)

lemma check_prepared:
  assumes "upper (asc ''CONFIRM'') = asc ''CONFIRM''" and "upper (asc ''REJECT'') = asc ''REJECT''"
    and "distinct (map ge_review_id es)" and "list_all (\<lambda>e. strip (ge_review_id e) = ge_review_id e \<and> ge_reviewer e = first_pass_reviewer) es"
  shows "xs @ ys = es \<Longrightarrow> check_decisions upper es (ge_review_id ` set xs) (map prepared_decision ys) = Inr ()"
proof (induction ys arbitrary: xs)
  case (Cons y ys)
  have "entry_of es (ge_review_id y) = Some y" using entry_at(1) [of xs y ys] Cons.prems assms(3) by simp
  moreover have "check_decisions upper es (insert (ge_review_id y) (ge_review_id ` set xs)) (map prepared_decision ys) = Inr ()"
    using Cons.IH [of "xs @ [y]"] Cons.prems by simp
  moreover have "ge_review_id y \<notin> ge_review_id ` set xs" "strip (ge_review_id y) = ge_review_id y" "ge_reviewer y = first_pass_reviewer"
    using Cons.prems assms(3,4) by auto
  ultimately show ?case
    by (simp add: prepared_fields stripped_def prepared_names assms(1,2) Let_def)
qed simp

text \<open>the prepared submission settles the whole ledger. For a ledger built from files that carry their recorded digests, with
  ids that differ and have no outer blanks, the submission prepared from the packet is accepted: every entry is decided, those
  confirmed in the first pass become the ones the metrics may use, the others are rejected, and none needs adjudication.\<close>

lemma prepared_submission_settles_the_ledger:
  fixes so :: "'a sources"
  assumes "distinct (map ge_review_id (build_ledger so now manifest))"
    and "list_all (\<lambda>e. strip (ge_review_id e) = ge_review_id e) (build_ledger so now manifest)"
    and "list_all (\<lambda>e. hash_matches so (ge_source_path e) (ge_source_sha256 e)) (build_ledger so now manifest)"
    and "upper (asc ''CONFIRM'') = asc ''CONFIRM''" and "upper (asc ''REJECT'') = asc ''REJECT''"
  shows "\<exists>reviewed s. submit_reviews upper so now' (build_ledger so now manifest)
        (prepared_submission (build_packet (build_ledger so now manifest))) = Inr (reviewed, s)
    \<and> rs_reviewed s = length (build_ledger so now manifest) \<and> rs_needs_adjudication s = 0
    \<and> rs_eligible s + rs_rejected s = rs_reviewed s
    \<and> map ge_review_id (metric_eligible_entries reviewed)
        = map ge_review_id (filter (\<lambda>e. ge_first_pass_status e = FP_CONFIRMED) (build_ledger so now manifest))"
proof -
  let ?es = "build_ledger so now manifest"
  let ?out = "map (prepared_outcome upper now') ?es"
  have pend: "filter pending ?es = ?es" using built_entry by (fastforce simp: filter_id_conv pending_def)
  have ids: "map (\<lambda>d. stripped (dc_review_id d)) (map prepared_decision ?es) = map ge_review_id ?es"
    using assms(2) by (simp add: prepared_decision_def stripped_def list_all_iff)
  have id_set: "set (map (\<lambda>d. stripped (dc_review_id d)) (map prepared_decision ?es)) = ge_review_id ` set ?es"
    by (simp only: ids set_map)
  have "apply_decisions upper now' ?es (map prepared_decision ?es) = Inr ?out"
    using apply_prepared [of "[]"] assms(1) by simp
  moreover have "check_decisions upper ?es {} (map prepared_decision ?es) = Inr ()"
    using check_prepared [OF assms(4,5,1), of "[]"] assms(2) built_entry by (fastforce simp: list_all_iff)
  moreover have "card (ge_review_id ` set ?es) = length ?es"
    using distinct_card [OF assms(1)] by simp
  ultimately have run: "submit_reviews upper so now' ?es (prepared_submission (build_packet ?es)) = Inr (?out, summary_of ?out (length ?es))"
    using assms(3) id_set by (simp add: submit_reviews_def prepared_submission_of_packet pend verify_sources_def apply_independent_reviews_def Let_def)
  have out: "metric_eligible (prepared_outcome upper now' e) \<longleftrightarrow> ge_first_pass_status e = FP_CONFIRMED"
    "ge_human_status (prepared_outcome upper now' e) = INDEPENDENTLY_REJECTED \<longleftrightarrow> ge_first_pass_status e \<noteq> FP_CONFIRMED"
    "ge_human_status (prepared_outcome upper now' e) \<noteq> NEEDS_ADJUDICATION" if "e \<in> set ?es" for e
    using built_entry [OF that] that assms(3-5) first_pass.exhaust [of "ge_first_pass_status e"]
    by (auto simp: prepared_outcome_def metric_eligible_def outcome_of_def list_all_iff asc_def)
  have eligible: "metric_eligible_entries ?out = map (prepared_outcome upper now') (filter (\<lambda>e. ge_first_pass_status e = FP_CONFIRMED) ?es)"
    by (simp add: metric_eligible_entries_def filter_map o_def out cong: filter_cong)
  have "filter (\<lambda>e. ge_human_status e = INDEPENDENTLY_REJECTED) ?out
      = map (prepared_outcome upper now') (filter (\<lambda>e. ge_first_pass_status e \<noteq> FP_CONFIRMED) ?es)"
    by (simp add: filter_map o_def out cong: filter_cong)
  moreover have "filter (\<lambda>e. ge_human_status e = NEEDS_ADJUDICATION) ?out = []"
    using out(3) by (auto simp: filter_empty_conv)
  moreover have "ge_review_id (prepared_outcome upper now' e) = ge_review_id e" for e by (simp add: prepared_outcome_def)
  ultimately show ?thesis
    unfolding run by (simp add: summary_of_def eligible o_def sum_length_filter_compl)
qed

lemma prepared_submission_example:
  "\<exists>fx so :: ustr sources. fx_candidates fx \<noteq> [] \<and>
    (\<exists>reviewed s. submit_reviews id so 9 (build_ledger so 5 [fx]) (prepared_submission (build_packet (build_ledger so 5 [fx]))) = Inr (reviewed, s)
      \<and> rs_reviewed s = 1)"
proof -
  define so :: "ustr sources" where "so = \<lparr>so_file = (\<lambda>_. Some (asc ''x'')), so_sha256 = id\<rparr>"
  define fx where "fx = \<lparr>fx_fixture_id = asc ''F'', fx_source_path = asc ''a.pdf'', fx_sha256 = asc ''x'',
    fx_candidates = [\<lparr>ca_category = ''BOND'', ca_severity = ''HIGH'', ca_page = 3, ca_quote = asc ''q'', ca_polarity = ''P''\<rparr>]\<rparr>"
  define e0 where "e0 = gt_entry_of so 5 fx (Suc 0, hd (fx_candidates fx))"
  have built: "build_ledger so 5 [fx] = [e0]" by (simp add: build_ledger_def e0_def fx_def)
  have "strip (ge_review_id e0) = ge_review_id e0" "hash_matches so (ge_source_path e0) (ge_source_sha256 e0)"
    by (simp_all add: e0_def gt_entry_of_def Let_def fx_def so_def hash_matches_def review_id_of_def decimal.simps asc_def
      strip_def lstrip_def is_space_def)
  then have "\<exists>reviewed s. submit_reviews id so 9 (build_ledger so 5 [fx]) (prepared_submission (build_packet (build_ledger so 5 [fx]))) = Inr (reviewed, s)
      \<and> rs_reviewed s = 1"
    using prepared_submission_settles_the_ledger [of so 5 "[fx]" id 9] unfolding built by auto
  moreover have "fx_candidates fx \<noteq> []" by (simp add: fx_def)
  ultimately show ?thesis by blast
qed

text \<open>The validation strips the keys of a decision, the application does not: a padded verdict that was validated as a
  confirmation leaves the entry for adjudication, and a padded id ends the application with a \<open>KeyError\<close>.\<close>

lemma padded_decisions:
  assumes "entry_of es (ge_review_id e) = Some e" and "strip pid = ge_review_id e" and "entry_of es pid = None"
    and "ge_reviewer e \<noteq> REVIEWER"
  shows "check_decisions id es {} [\<lparr>dc_review_id = Some pid, dc_reviewer = Some REVIEWER, dc_decision = Some (asc ''CONFIRM''), dc_note = Some NOTE\<rparr>] = Inr ()"
    and "apply_decisions id now es [\<lparr>dc_review_id = Some pid, dc_reviewer = Some REVIEWER, dc_decision = Some (asc ''CONFIRM''), dc_note = Some NOTE\<rparr>]
      = Inl KeyError"
    and "outcome_of fp (asc '' CONFIRM'') = NEEDS_ADJUDICATION"
  using assms by (simp_all add: stripped_def prepared_names Let_def) (simp add: outcome_of_def asc_def)

end
