(* ===== verification/Workflow.thy ===== *)
theory Workflow
  imports Models
begin

text \<open>
  The check of the project-state file (\<open>src/app/workflow.py\<close>). The state is a JSON value without fractions, as parsed. What
  the check reports is a list of complaints; what it raises on values that it does not expect is an exception. The text
  that \<open>str\<close> gives for values that are no strings, and what the file system says of a path, are parameters.
\<close>

section \<open>Values\<close>

datatype raised = Type_Error | Attribute_Error | Key_Error | Stop_Iteration | State_Error

definition go :: "raised + 'a \<Rightarrow> ('a \<Rightarrow> raised + 'b) \<Rightarrow> raised + 'b" where
  "go r k = (case r of Inl e \<Rightarrow> Inl e | Inr x \<Rightarrow> k x)"

lemma go_Inr: "go r k = Inr y \<longleftrightarrow> (\<exists>x. r = Inr x \<and> k x = Inr y)"
  by (simp add: go_def split: sum.split)

fun each :: "('a \<Rightarrow> raised + 'b list) \<Rightarrow> 'a list \<Rightarrow> raised + 'b list" where
  "each f [] = Inr []"
| "each f (x # xs) = go (f x) (\<lambda>y. go (each f xs) (\<lambda>ys. Inr (y @ ys)))"

definition dict_get :: "string \<Rightarrow> json \<Rightarrow> (string \<times> json) list \<Rightarrow> json" where
  "dict_get k absent kvs = (case map_of kvs k of None \<Rightarrow> absent | Some v \<Rightarrow> v)"

fun truth :: "json \<Rightarrow> bool" where
  "truth JNull = False"
| "truth (JBool b) = b"
| "truth (JInt n) = (n \<noteq> 0)"
| "truth (JStr s) = (s \<noteq> [])"
| "truth (JList xs) = (xs \<noteq> [])"
| "truth (JObj kvs) = (kvs \<noteq> [])"

text \<open>Iteration, and membership in a set: lists and objects have no hash; \<open>True\<close> is equal to \<open>1\<close>.\<close>

fun iterate :: "json \<Rightarrow> raised + json list" where
  "iterate (JList xs) = Inr xs"
| "iterate (JObj kvs) = Inr (map (\<lambda>(k, _). JStr (asc k)) kvs)"
| "iterate (JStr s) = Inr (map (\<lambda>c. JStr [c]) s)"
| "iterate v = Inl Type_Error"

fun hashed :: "json \<Rightarrow> raised + json" where
  "hashed (JList xs) = Inl Type_Error"
| "hashed (JObj kvs) = Inl Type_Error"
| "hashed (JBool b) = Inr (JInt (if b then 1 else 0))"
| "hashed v = Inr v"

definition is_in :: "json \<Rightarrow> json list \<Rightarrow> raised + bool" where
  "is_in v s = go (hashed v) (\<lambda>h. Inr (h \<in> set s))"

definition names :: "string list \<Rightarrow> json list" where
  "names ns = map (\<lambda>n. JStr (asc n)) ns"

definition ALLOWED_STATUSES :: "string list" where
  "ALLOWED_STATUSES = [''pending'', ''in_progress'', ''completed'', ''blocked'', ''needs_verification'', ''pending_audit'']"

definition DONE :: "string list" where
  "DONE = [''completed'', ''verified'', ''archived'']"

text \<open>In the order of sorting.\<close>

definition REQUIRED_TOP_LEVEL :: "string list" where
  "REQUIRED_TOP_LEVEL = [''artifacts'', ''backlog'', ''completed'', ''current_stage'', ''decisions'', ''dependencies'', ''goal'',
     ''in_progress'', ''next_best_action'', ''open_questions'', ''project_id'', ''risks'', ''schema_version'', ''stage_status'',
     ''success_criteria'', ''updated_at'']"

section \<open>The check\<close>

datatype complaint =
    Missing string | Bad_Schema_Version | Bad_Project_Id | Bad_Stage_Status
  | Not_A_List string | Task_Without_Id string | Duplicate_Task ustr | Bad_Task_Status ustr | Dependencies_No_List ustr
  | Unknown_Dependency json json | Next_Action_No_Object | Next_Action_Unknown json | Next_Action_Completed json
  | Next_Action_Blocked json | Artifact_Without_Path | Artifact_Escapes ustr | Artifact_Missing ustr

record wf_env =
  wf_str :: "json \<Rightarrow> ustr"
  wf_inside :: "ustr \<Rightarrow> bool"
  wf_exists :: "ustr \<Rightarrow> bool"

definition str_of :: "wf_env \<Rightarrow> json \<Rightarrow> ustr" where
  "str_of we v = (case v of JStr s \<Rightarrow> s | _ \<Rightarrow> wf_str we v)"

definition complain :: "bool \<Rightarrow> complaint \<Rightarrow> complaint list" where
  "complain b c = (if b then [c] else [])"

text \<open>The ids that the file declares as dependencies.\<close>

definition declared_dependencies :: "(string \<times> json) list \<Rightarrow> raised + json list" where
  "declared_dependencies state =
     go (iterate (dict_get ''dependencies'' (JList []) state)) (\<lambda>items.
     each (\<lambda>item. case item of JObj kvs \<Rightarrow> go (hashed (dict_get ''id'' JNull kvs)) (\<lambda>h. Inr [h]) | _ \<Rightarrow> Inr []) items)"

text \<open>The look at each dependency within the first loop: it reports nothing, but it may raise.\<close>

fun probe_dependencies :: "(string \<times> json) list \<Rightarrow> ustr list \<Rightarrow> json list \<Rightarrow> raised + unit" where
  "probe_dependencies state ids [] = Inr ()"
| "probe_dependencies state ids (v # vs) =
     go (hashed v) (\<lambda>h.
     if h \<in> JStr ` set ids then probe_dependencies state ids vs
     else go (declared_dependencies state) (\<lambda>_. probe_dependencies state ids vs))"

fun check_tasks :: "wf_env \<Rightarrow> (string \<times> json) list \<Rightarrow> string \<Rightarrow> json list \<Rightarrow> ustr list \<Rightarrow> raised + complaint list \<times> ustr list" where
  "check_tasks we state grp [] ids = Inr ([], ids)"
| "check_tasks we state grp (task # tasks) ids =
     (case task of
        JObj kvs \<Rightarrow>
          if truth (dict_get ''id'' JNull kvs)
          then let task_id = str_of we (dict_get ''id'' JNull kvs); ids1 = task_id # ids
               in go (is_in (dict_get ''status'' JNull kvs) (names (ALLOWED_STATUSES @ [''verified'', ''archived'']))) (\<lambda>known.
                  go (case dict_get ''dependencies'' (JList []) kvs of
                        JList vs \<Rightarrow> go (probe_dependencies state ids1 vs) (\<lambda>_. Inr [])
                      | _ \<Rightarrow> Inr [Dependencies_No_List task_id]) (\<lambda>dep_errors.
                  go (check_tasks we state grp tasks ids1) (\<lambda>(errors, ids2).
                  Inr (complain (task_id \<in> set ids) (Duplicate_Task task_id) @ complain (\<not> known) (Bad_Task_Status task_id)
                    @ dep_errors @ errors, ids2))))
          else go (check_tasks we state grp tasks ids) (\<lambda>(errors, ids2). Inr (Task_Without_Id grp # errors, ids2))
      | _ \<Rightarrow> go (check_tasks we state grp tasks ids) (\<lambda>(errors, ids2). Inr (Task_Without_Id grp # errors, ids2)))"

definition GROUPS :: "string list" where
  "GROUPS = [''completed'', ''in_progress'', ''backlog'']"

definition group_of :: "(string \<times> json) list \<Rightarrow> string \<Rightarrow> json" where
  "group_of state grp = dict_get grp (JList []) state"

fun check_groups :: "wf_env \<Rightarrow> (string \<times> json) list \<Rightarrow> string list \<Rightarrow> ustr list \<Rightarrow> raised + complaint list \<times> ustr list" where
  "check_groups we state [] ids = Inr ([], ids)"
| "check_groups we state (grp # grps) ids =
     (case group_of state grp of
        JList tasks \<Rightarrow>
          go (check_tasks we state grp tasks ids) (\<lambda>(errors1, ids1).
          go (check_groups we state grps ids1) (\<lambda>(errors2, ids2). Inr (errors1 @ errors2, ids2)))
      | _ \<Rightarrow> go (check_groups we state grps ids) (\<lambda>(errors2, ids2). Inr (Not_A_List grp # errors2, ids2)))"

definition unknown_dependencies :: "json list \<Rightarrow> json \<Rightarrow> raised + complaint list" where
  "unknown_dependencies declared task =
     (case task of
        JObj kvs \<Rightarrow>
          go (iterate (dict_get ''dependencies'' (JList []) kvs)) (\<lambda>vs.
          each (\<lambda>v. go (is_in v declared) (\<lambda>known. Inr (complain (\<not> known) (Unknown_Dependency (dict_get ''id'' (JStr (asc ''<unknown>'')) kvs) v)))) vs)
      | _ \<Rightarrow> Inr [])"

definition check_dependencies :: "(string \<times> json) list \<Rightarrow> json list \<Rightarrow> raised + complaint list" where
  "check_dependencies state declared =
     each (\<lambda>grp. case group_of state grp of JList tasks \<Rightarrow> each (unknown_dependencies declared) tasks | _ \<Rightarrow> Inr []) GROUPS"

text \<open>The first task with the id of the next action.\<close>

fun find_task :: "json \<Rightarrow> json list \<Rightarrow> raised + (string \<times> json) list option" where
  "find_task next_id [] = Inr None"
| "find_task next_id (task # tasks) =
     (case task of
        JObj kvs \<Rightarrow> if dict_get ''id'' JNull kvs = next_id then Inr (Some kvs) else find_task next_id tasks
      | _ \<Rightarrow> Inl Attribute_Error)"

fun find_in_groups :: "(string \<times> json) list \<Rightarrow> json \<Rightarrow> string list \<Rightarrow> raised + (string \<times> json) list" where
  "find_in_groups state next_id [] = Inl Stop_Iteration"
| "find_in_groups state next_id (grp # grps) =
     go (iterate (group_of state grp)) (\<lambda>tasks.
     go (find_task next_id tasks) (\<lambda>found.
     case found of Some kvs \<Rightarrow> Inr kvs | None \<Rightarrow> find_in_groups state next_id grps))"

definition completed_ids :: "(string \<times> json) list \<Rightarrow> raised + json list" where
  "completed_ids state =
     go (iterate (group_of state ''completed'')) (\<lambda>items.
     each (\<lambda>item. case item of
        JObj kvs \<Rightarrow>
          go (is_in (dict_get ''status'' JNull kvs) (names DONE)) (\<lambda>over.
          if over then go (hashed (dict_get ''id'' JNull kvs)) (\<lambda>h. Inr [h]) else Inr [])
      | _ \<Rightarrow> Inr []) items)"

definition check_next :: "(string \<times> json) list \<Rightarrow> ustr list \<Rightarrow> raised + complaint list" where
  "check_next state ids =
     (case dict_get ''next_best_action'' JNull state of
        JObj action \<Rightarrow>
          (let next_id = dict_get ''task_id'' JNull action
           in go (hashed next_id) (\<lambda>h.
              if h \<notin> JStr ` set ids then Inr [Next_Action_Unknown next_id]
              else go (find_in_groups state next_id GROUPS) (\<lambda>task.
                   go (is_in (dict_get ''status'' JNull task) (names DONE)) (\<lambda>over.
                   go (completed_ids state) (\<lambda>completed.
                   go (iterate (dict_get ''dependencies'' (JList []) task)) (\<lambda>vs.
                   go (each (\<lambda>v. go (is_in v completed) (\<lambda>met. Inr (complain (\<not> met) (Next_Action_Blocked v)))) vs) (\<lambda>blocked.
                   Inr (complain over (Next_Action_Completed next_id) @ blocked))))))))
      | _ \<Rightarrow> Inr [Next_Action_No_Object])"

definition check_artifact :: "wf_env \<Rightarrow> json \<Rightarrow> raised + complaint list" where
  "check_artifact we artifact =
     (case artifact of
        JObj kvs \<Rightarrow>
          (let path = dict_get ''path'' JNull kvs
           in if \<not> truth path then Inr [Artifact_Without_Path]
              else case path of
                JStr p \<Rightarrow>
                  if \<not> wf_inside we p then Inr [Artifact_Escapes p]
                  else Inr (complain (dict_get ''status'' JNull kvs = JStr (asc ''verified'') \<and> \<not> wf_exists we p) (Artifact_Missing p))
              | _ \<Rightarrow> Inl Type_Error)
      | _ \<Rightarrow> Inr [Artifact_Without_Path])"

definition validate_state :: "wf_env \<Rightarrow> (string \<times> json) list \<Rightarrow> raised + complaint list" where
  "validate_state we state =
     go (is_in (dict_get ''stage_status'' JNull state) (names ALLOWED_STATUSES)) (\<lambda>stage_known.
     go (check_groups we state GROUPS []) (\<lambda>(task_errors, ids).
     go (declared_dependencies state) (\<lambda>declared.
     go (check_dependencies state (map JStr ids @ declared)) (\<lambda>dependency_errors.
     go (check_next state ids) (\<lambda>next_errors.
     go (iterate (dict_get ''artifacts'' (JList []) state)) (\<lambda>artifacts.
     go (each (check_artifact we) artifacts) (\<lambda>artifact_errors.
     Inr (map Missing (filter (\<lambda>k. k \<notin> fst ` set state) REQUIRED_TOP_LEVEL)
       @ complain (dict_get ''schema_version'' JNull state \<noteq> JStr (asc ''1.0'')) Bad_Schema_Version
       @ complain (dict_get ''project_id'' JNull state \<noteq> JStr (asc ''project-025-bid-evidence-agent'')) Bad_Project_Id
       @ complain (\<not> stage_known) Bad_Stage_Status
       @ task_errors @ dependency_errors @ next_errors @ artifact_errors))))))))"

text \<open>The action, unless its task is listed as completed.\<close>

definition workflow_next_action :: "(string \<times> json) list \<Rightarrow> raised + json" where
  "workflow_next_action state =
     (case map_of state ''next_best_action'' of
        Some (JObj action) \<Rightarrow>
          (case map_of action ''task_id'' of
             None \<Rightarrow> Inl Key_Error
           | Some next_id \<Rightarrow>
               go (iterate (group_of state ''completed'')) (\<lambda>tasks.
               go (each (\<lambda>task. case task of JObj kvs \<Rightarrow> go (hashed (dict_get ''id'' JNull kvs)) (\<lambda>h. Inr [h]) | _ \<Rightarrow> Inl Attribute_Error) tasks) (\<lambda>ids.
               go (is_in next_id ids) (\<lambda>over.
               if over then Inl State_Error else Inr (JObj action)))))
      | Some _ \<Rightarrow> Inl Type_Error
      | None \<Rightarrow> Inl Key_Error)"

text \<open>The commands: the state file is absent, no JSON, or a value. The answer is the exit code, and the action that is printed.\<close>

definition load_state :: "json option option \<Rightarrow> raised + (string \<times> json) list" where
  "load_state content = (case content of Some (Some (JObj state)) \<Rightarrow> Inr state | _ \<Rightarrow> Inl State_Error)"

definition run_check :: "wf_env \<Rightarrow> json option option \<Rightarrow> raised + int" where
  "run_check we content =
     (case go (load_state content) (validate_state we) of
        Inl e \<Rightarrow> if e = State_Error then Inr 1 else Inl e
      | Inr errors \<Rightarrow> Inr (if errors \<noteq> [] then 1 else 0))"

definition print_next_action :: "wf_env \<Rightarrow> json option option \<Rightarrow> raised + int \<times> json option" where
  "print_next_action we content =
     (case go (load_state content) (\<lambda>state. go (validate_state we state) (\<lambda>errors.
        if errors \<noteq> [] then Inr (1, None) else go (workflow_next_action state) (\<lambda>action. Inr (0, Some action)))) of
        Inl e \<Rightarrow> if e = State_Error then Inr (1, None) else Inl e
      | Inr r \<Rightarrow> Inr r)"

section \<open>What a state that passes is\<close>

definition task_id_of :: "wf_env \<Rightarrow> json \<Rightarrow> ustr" where
  "task_id_of we task = (case task of JObj kvs \<Rightarrow> str_of we (dict_get ''id'' JNull kvs) | _ \<Rightarrow> [])"

definition tasks_in :: "(string \<times> json) list \<Rightarrow> string \<Rightarrow> json list" where
  "tasks_in state grp = (case group_of state grp of JList tasks \<Rightarrow> tasks | _ \<Rightarrow> [])"

definition all_tasks :: "(string \<times> json) list \<Rightarrow> json list" where
  "all_tasks state = concat (map (tasks_in state) GROUPS)"

definition task_ok :: "json \<Rightarrow> bool" where
  "task_ok task \<longleftrightarrow> (\<exists>kvs vs. task = JObj kvs \<and> truth (dict_get ''id'' JNull kvs)
     \<and> hashed (dict_get ''status'' JNull kvs) \<in> Inr ` set (names (ALLOWED_STATUSES @ [''verified'', ''archived'']))
     \<and> dict_get ''dependencies'' (JList []) kvs = JList vs)"

lemma each_Nil: "each f xs = Inr [] \<longleftrightarrow> (\<forall>x\<in>set xs. f x = Inr [])"
  by (induction xs) (auto simp: go_def split: sum.splits)

lemma each_in: "each f xs = Inr ys \<Longrightarrow> y \<in> set ys \<Longrightarrow> \<exists>x\<in>set xs. \<exists>zs. f x = Inr zs \<and> y \<in> set zs"
  by (induction xs arbitrary: ys) (auto simp: go_Inr)

lemma complain_Nil [simp]: "complain b c = [] \<longleftrightarrow> \<not> b"
  by (simp add: complain_def)

lemma is_in_Inr: "is_in v s = Inr b \<longleftrightarrow> (\<exists>h. hashed v = Inr h \<and> b = (h \<in> set s))"
  by (auto simp: is_in_def go_Inr)

lemma check_tasks_passed:
  "check_tasks we state grp tasks ids = Inr ([], ids') \<Longrightarrow>
    list_all task_ok tasks \<and> ids' = rev (map (task_id_of we) tasks) @ ids \<and> (distinct ids \<longrightarrow> distinct ids')"
proof (induction tasks arbitrary: ids)
  case (Cons task tasks)
  then obtain kvs where task: "task = JObj kvs" "truth (dict_get ''id'' JNull kvs)"
    by (cases task) (auto simp: go_Inr split: if_splits)
  let ?id = "str_of we (dict_get ''id'' JNull kvs)"
  have facts: "?id \<notin> set ids" "hashed (dict_get ''status'' JNull kvs) \<in> Inr ` set (names (ALLOWED_STATUSES @ [''verified'', ''archived'']))"
    "\<exists>vs. dict_get ''dependencies'' (JList []) kvs = JList vs" "check_tasks we state grp tasks (?id # ids) = Inr ([], ids')"
    using Cons.prems task by (auto simp: go_Inr is_in_Inr Let_def split: json.splits)
  note rest = Cons.IH [OF facts(4)]
  have "task_ok task" using task facts by (auto simp: task_ok_def)
  moreover have "ids' = rev (map (task_id_of we) (task # tasks)) @ ids" using rest task(1) by (simp add: task_id_of_def)
  moreover have "distinct ids'" if "distinct ids"
  proof -
    have "distinct (?id # ids)" using that facts(1) by simp
    then show ?thesis using rest by iprover
  qed
  ultimately show ?case using rest by simp
qed simp

lemma check_groups_passed:
  "check_groups we state grps ids = Inr ([], ids') \<Longrightarrow>
    (\<forall>grp\<in>set grps. group_of state grp = JList (tasks_in state grp) \<and> list_all task_ok (tasks_in state grp))
    \<and> ids' = rev (map (task_id_of we) (concat (map (tasks_in state) grps))) @ ids \<and> (distinct ids \<longrightarrow> distinct ids')"
proof (induction grps arbitrary: ids)
  case (Cons grp grps)
  then obtain ids1 where "group_of state grp = JList (tasks_in state grp)" "check_tasks we state grp (tasks_in state grp) ids = Inr ([], ids1)"
    "check_groups we state grps ids1 = Inr ([], ids')"
    by (auto simp: tasks_in_def go_Inr split: json.splits)
  note first = this and here = check_tasks_passed [OF this(2)] and rest = Cons.IH [OF this(3)]
  have "ids' = rev (map (task_id_of we) (concat (map (tasks_in state) (grp # grps)))) @ ids" using here rest by simp
  moreover have "distinct ids \<Longrightarrow> distinct ids'" using here rest by iprover
  ultimately show ?case using first(1) here rest by (auto simp del: distinct_append)
qed simp

lemma find_task_Some: "find_task next_id tasks = Inr (Some kvs) \<Longrightarrow> JObj kvs \<in> set tasks \<and> dict_get ''id'' JNull kvs = next_id"
  by (induction tasks) (auto split: json.splits if_splits)

lemma find_in_groups_Inr:
  "find_in_groups state next_id grps = Inr kvs \<Longrightarrow> \<forall>grp\<in>set grps. group_of state grp = JList (tasks_in state grp) \<Longrightarrow>
    JObj kvs \<in> set (concat (map (tasks_in state) grps)) \<and> dict_get ''id'' JNull kvs = next_id"
  by (induction grps) (auto simp: go_Inr dest!: find_task_Some split: option.splits)

lemma completed_ids_in:
  assumes "completed_ids state = Inr cs" and "c \<in> set cs" and "group_of state ''completed'' = JList (tasks_in state ''completed'')"
  shows "\<exists>kvs. JObj kvs \<in> set (tasks_in state ''completed'') \<and> hashed (dict_get ''status'' JNull kvs) \<in> Inr ` set (names DONE)
    \<and> hashed (dict_get ''id'' JNull kvs) = Inr c"
  using assms by (force simp: completed_ids_def go_Inr is_in_Inr dest!: each_in split: json.splits if_splits)

text \<open>A dependency that is the id of a task or declared in the file; a task that can be done now; an artifact in its place.\<close>

definition dependency_known :: "wf_env \<Rightarrow> (string \<times> json) list \<Rightarrow> json \<Rightarrow> bool" where
  "dependency_known we state v \<longleftrightarrow> (\<exists>h declared. hashed v = Inr h \<and> declared_dependencies state = Inr declared
     \<and> (h \<in> (\<lambda>t. JStr (task_id_of we t)) ` set (all_tasks state) \<or> h \<in> set declared))"

definition can_be_done :: "(string \<times> json) list \<Rightarrow> (string \<times> json) list \<Rightarrow> bool" where
  "can_be_done state task \<longleftrightarrow> hashed (dict_get ''status'' JNull task) \<notin> Inr ` set (names DONE)
     \<and> (\<exists>vs. dict_get ''dependencies'' (JList []) task = JList vs
          \<and> (\<forall>v\<in>set vs. \<exists>finished. JObj finished \<in> set (tasks_in state ''completed'')
                \<and> hashed (dict_get ''status'' JNull finished) \<in> Inr ` set (names DONE)
                \<and> hashed (dict_get ''id'' JNull finished) = hashed v))"

definition artifact_ok :: "wf_env \<Rightarrow> json \<Rightarrow> bool" where
  "artifact_ok we a \<longleftrightarrow> (\<exists>kvs p. a = JObj kvs \<and> dict_get ''path'' JNull kvs = JStr p \<and> wf_inside we p
     \<and> (dict_get ''status'' JNull kvs = JStr (asc ''verified'') \<longrightarrow> wf_exists we p))"

lemma validate_parts:
  assumes "validate_state we state = Inr []"
  obtains ids declared arts where "check_groups we state GROUPS [] = Inr ([], ids)" "declared_dependencies state = Inr declared"
    "check_dependencies state (map JStr ids @ declared) = Inr []" "check_next state ids = Inr []"
    "iterate (dict_get ''artifacts'' (JList []) state) = Inr arts" "each (check_artifact we) arts = Inr []"
    "filter (\<lambda>k. k \<notin> fst ` set state) REQUIRED_TOP_LEVEL = []"
  using assms by (auto simp: validate_state_def go_Inr)

lemma next_passed:
  assumes "check_next state ids = Inr []" and "\<forall>grp\<in>set GROUPS. group_of state grp = JList (tasks_in state grp)"
    and "list_all task_ok (all_tasks state)"
  shows "\<exists>action task. dict_get ''next_best_action'' JNull state = JObj action \<and> JObj task \<in> set (all_tasks state)
    \<and> dict_get ''id'' JNull task = dict_get ''task_id'' JNull action \<and> can_be_done state task"
proof -
  obtain action task completed vs where action: "dict_get ''next_best_action'' JNull state = JObj action"
    and task: "find_in_groups state (dict_get ''task_id'' JNull action) GROUPS = Inr task"
    and status: "is_in (dict_get ''status'' JNull task) (names DONE) = Inr False"
    and completed: "completed_ids state = Inr completed"
    and vs: "iterate (dict_get ''dependencies'' (JList []) task) = Inr vs" "\<forall>v\<in>set vs. \<exists>met. is_in v completed = Inr met \<and> met"
    using assms(1) by (auto simp: check_next_def go_Inr each_Nil Let_def split: json.splits if_splits)
  have found: "JObj task \<in> set (all_tasks state)" "dict_get ''id'' JNull task = dict_get ''task_id'' JNull action"
    using find_in_groups_Inr [OF task assms(2)] by (simp_all add: all_tasks_def)
  then obtain vs' where "dict_get ''dependencies'' (JList []) task = JList vs'"
    using assms(3) by (auto simp: list_all_iff task_ok_def)
  moreover have "\<exists>finished. JObj finished \<in> set (tasks_in state ''completed'')
      \<and> hashed (dict_get ''status'' JNull finished) \<in> Inr ` set (names DONE) \<and> hashed (dict_get ''id'' JNull finished) = hashed v"
    if "v \<in> set vs" for v
    using that vs(2) completed_ids_in [OF completed] assms(2) by (fastforce simp: is_in_Inr GROUPS_def)
  moreover have "hashed (dict_get ''status'' JNull task) \<notin> Inr ` set (names DONE)"
    using status by (auto simp: is_in_Inr)
  ultimately have "can_be_done state task" using vs(1) by (simp add: can_be_done_def)
  then show ?thesis using action found by blast
qed

lemma artifact_passed: "check_artifact we a = Inr [] \<Longrightarrow> artifact_ok we a"
  by (auto simp: check_artifact_def artifact_ok_def Let_def split: json.splits if_splits)

text \<open>C28: a project state that passes the check is consistent: every required field is there, every task of the three lists is
  an object with an id that no other has, a known status and a list of dependencies, each of which is a task or declared;
  the next action names a task that is not finished and whose dependencies are all finished; every artifact lies inside the
  project, and those called verified exist.\<close>

theorem valid_state_is_consistent:
  assumes "validate_state we state = Inr []"
  shows "set REQUIRED_TOP_LEVEL \<subseteq> fst ` set state
    \<and> list_all task_ok (all_tasks state) \<and> distinct (map (task_id_of we) (all_tasks state))
    \<and> (\<forall>task vs v. JObj task \<in> set (all_tasks state) \<and> dict_get ''dependencies'' (JList []) task = JList vs \<and> v \<in> set vs
         \<longrightarrow> dependency_known we state v)
    \<and> (\<exists>action task. dict_get ''next_best_action'' JNull state = JObj action \<and> JObj task \<in> set (all_tasks state)
         \<and> dict_get ''id'' JNull task = dict_get ''task_id'' JNull action \<and> can_be_done state task)
    \<and> (\<exists>arts. iterate (dict_get ''artifacts'' (JList []) state) = Inr arts \<and> list_all (artifact_ok we) arts)"
proof -
  obtain ids declared arts where parts: "check_groups we state GROUPS [] = Inr ([], ids)" "declared_dependencies state = Inr declared"
    "check_dependencies state (map JStr ids @ declared) = Inr []" "check_next state ids = Inr []"
    "iterate (dict_get ''artifacts'' (JList []) state) = Inr arts" "each (check_artifact we) arts = Inr []"
    "filter (\<lambda>k. k \<notin> fst ` set state) REQUIRED_TOP_LEVEL = []"
    using assms by (rule validate_parts)
  have groups: "\<forall>grp\<in>set GROUPS. group_of state grp = JList (tasks_in state grp) \<and> list_all task_ok (tasks_in state grp)"
    and ids: "ids = rev (map (task_id_of we) (all_tasks state))" "distinct (map (task_id_of we) (all_tasks state))"
    using check_groups_passed [OF parts(1)] unfolding all_tasks_def by (simp_all only: append_Nil2 distinct.simps distinct_rev) auto
  have ok: "list_all task_ok (all_tasks state)" using groups by (auto simp: all_tasks_def list_all_iff)
  have "dependency_known we state v" if v: "JObj task \<in> set (all_tasks state)" "dict_get ''dependencies'' (JList []) task = JList vs" "v \<in> set vs" for task vs v
  proof -
    have "unknown_dependencies (map JStr ids @ declared) (JObj task) = Inr []"
      using parts(3) v(1) groups by (force simp: check_dependencies_def each_Nil all_tasks_def)
    then have "is_in v (map JStr ids @ declared) = Inr True"
      using v(2,3) by (auto simp: unknown_dependencies_def each_Nil go_Inr)
    then show ?thesis using parts(2) ids(1) by (auto simp: dependency_known_def is_in_Inr)
  qed
  moreover have "list_all (artifact_ok we) arts" using parts(6) artifact_passed by (auto simp: each_Nil list_all_iff)
  moreover have "set REQUIRED_TOP_LEVEL \<subseteq> fst ` set state" using parts(7) by (auto simp: filter_empty_conv)
  ultimately show ?thesis using ok ids next_passed [OF parts(4) _ ok] groups parts(5) by simp blast
qed

definition demo_state :: "json \<Rightarrow> (string \<times> json) list" where
  "demo_state task =
     [(''schema_version'', JStr (asc ''1.0'')), (''project_id'', JStr (asc ''project-025-bid-evidence-agent'')), (''goal'', JNull),
      (''success_criteria'', JNull), (''current_stage'', JNull), (''stage_status'', JStr (asc ''pending'')), (''completed'', JList []),
      (''in_progress'', JList []), (''backlog'', JList [task]), (''dependencies'', JList []), (''decisions'', JNull),
      (''open_questions'', JNull), (''risks'', JNull), (''artifacts'', JList []),
      (''next_best_action'', JObj [(''task_id'', JStr (asc ''5''))]), (''updated_at'', JNull)]"

lemmas check_defs = validate_state_def demo_state_def dict_get_def is_in_def go_def names_def ALLOWED_STATUSES_def GROUPS_def group_of_def
  declared_dependencies_def check_dependencies_def unknown_dependencies_def check_next_def completed_ids_def DONE_def
  REQUIRED_TOP_LEVEL_def complain_def str_of_def Let_def asc_def

lemma valid_state_is_consistent_witness:
  "\<exists>we. \<exists>action task. dict_get ''next_best_action'' JNull (demo_state (JObj [(''id'', JStr (asc ''5'')), (''status'', JStr (asc ''pending''))])) = JObj action
     \<and> dict_get ''id'' JNull task = dict_get ''task_id'' JNull action
     \<and> can_be_done (demo_state (JObj [(''id'', JStr (asc ''5'')), (''status'', JStr (asc ''pending''))])) task"
proof -
  define we where "we = \<lparr>wf_str = (\<lambda>_. []), wf_inside = (\<lambda>_. False), wf_exists = (\<lambda>_. False)\<rparr>"
  have "validate_state we (demo_state (JObj [(''id'', JStr (asc ''5'')), (''status'', JStr (asc ''pending''))])) = Inr []"
    by (simp add: check_defs)
  then show ?thesis using valid_state_is_consistent by blast
qed

text \<open>A number as the id of the task of the next action is not reported: the check raises.\<close>

lemma numeric_id_is_not_reported:
  assumes "wf_str we (JInt 5) = asc ''5''"
  shows "validate_state we (demo_state (JObj [(''id'', JInt 5), (''status'', JStr (asc ''pending''))])) = Inl Stop_Iteration"
  using assms by (simp add: check_defs)

end
