(* ===== verification/Delivery.thy ===== *)
theory Delivery
  imports Models
begin

text \<open>
  Delivery of sign-in codes (\<open>src/app/auth_delivery.py\<close>): which channels are switched on, what the program does on the mail
  connection, and which answers of the providers count as accepted. The environment variables, \<open>int\<close>, the mail server and
  the HTTP exchange (\<open>oidc._fetch_json\<close>, which fails or answers an object) are parameters. A \<open>DeliveryError\<close> is a \<open>RuntimeError\<close>.
  Of a mail the sender, the recipient and the code are kept, of a request its address and its form; the headers with the
  credentials go with it.
\<close>

section \<open>Settings\<close>

datatype transmission =
    Connect ustr int bool
  | Start_Tls
  | Login ustr ustr
  | Send_Message ustr ustr ustr
  | Post ustr "(string \<times> ustr) list"

record delivery_env =
  dl_environ :: "string \<Rightarrow> ustr option"
  dl_environment :: ustr
  dl_int :: "ustr \<Rightarrow> int option"
  dl_smtp :: "transmission list \<Rightarrow> bool"
  dl_fetch :: "transmission \<Rightarrow> (string \<times> json) list option"

definition setting :: "delivery_env \<Rightarrow> string \<Rightarrow> string \<Rightarrow> ustr" where
  "setting de name absent = strip (case dl_environ de (''BIDPROOF_'' @ name) of None \<Rightarrow> asc absent | Some v \<Rightarrow> v)"

definition otp_secret :: "delivery_env \<Rightarrow> ustr" where
  "otp_secret de = setting de ''OTP_SECRET'' ''''"

definition hex_digit :: "nat \<Rightarrow> bool" where
  "hex_digit c \<longleftrightarrow> 48 \<le> c \<and> c \<le> 57 \<or> 97 \<le> c \<and> c \<le> 102 \<or> 65 \<le> c \<and> c \<le> 70"

definition account_pattern :: "ustr \<Rightarrow> bool" where
  "account_pattern s \<longleftrightarrow> length s = 34 \<and> take 2 s = asc ''AC'' \<and> list_all hex_digit (drop 2 s)"

definition LOCAL_HOSTS :: "ustr list" where
  "LOCAL_HOSTS = [asc ''localhost'', asc ''127.0.0.1'', asc ''::1'']"

definition plain_allowed :: "delivery_env \<Rightarrow> bool" where
  "plain_allowed de \<longleftrightarrow> setting de ''SMTP_SECURITY'' ''starttls'' = asc ''plain'' \<and> dl_environment de \<noteq> asc ''production''
     \<and> setting de ''SMTP_HOST'' '''' \<in> set LOCAL_HOSTS"

definition delivery_enabled :: "delivery_env \<Rightarrow> string \<Rightarrow> bool" where
  "delivery_enabled de channel \<longleftrightarrow>
     \<not> length (otp_secret de) < 32
     \<and> (if channel = ''email''
        then (let provider = setting de ''EMAIL_PROVIDER'' ''smtp''
              in if provider = asc ''resend'' then setting de ''RESEND_API_KEY'' '''' \<noteq> [] \<and> setting de ''EMAIL_FROM'' '''' \<noteq> []
                 else if provider \<noteq> asc ''smtp'' then False
                 else let secure = setting de ''SMTP_SECURITY'' ''starttls'';
                          transport_ok = (secure \<in> {asc ''starttls'', asc ''tls''} \<or> plain_allowed de)
                      in setting de ''SMTP_HOST'' '''' \<noteq> [] \<and> setting de ''SMTP_FROM'' '''' \<noteq> [] \<and> transport_ok)
        else if channel = ''sms''
        then account_pattern (setting de ''TWILIO_ACCOUNT_SID'' '''') \<and> setting de ''TWILIO_AUTH_TOKEN'' '''' \<noteq> []
          \<and> setting de ''TWILIO_FROM'' '''' \<noteq> [] \<and> setting de ''SMS_ALLOWED_PREFIXES'' '''' \<noteq> []
        else False)"

section \<open>Mail\<close>

text \<open>One step after the other, as long as the server goes along; a step that fails was tried. The argument of the server is what
  was done so far, the step included.\<close>

fun carry_out :: "(transmission list \<Rightarrow> bool) \<Rightarrow> transmission list \<Rightarrow> transmission list \<Rightarrow> transmission list \<times> bool" where
  "carry_out server before [] = (before, True)"
| "carry_out server before (a # plan) =
     (if server (before @ [a]) then carry_out server (before @ [a]) plan else (before @ [a], False))"

definition mail_plan :: "delivery_env \<Rightarrow> int \<Rightarrow> ustr \<Rightarrow> ustr \<Rightarrow> transmission list" where
  "mail_plan de port recipient code =
     (let security = setting de ''SMTP_SECURITY'' ''starttls''
      in [Connect (setting de ''SMTP_HOST'' '''') port (security = asc ''tls'')]
       @ (if security = asc ''starttls'' then [Start_Tls] else [])
       @ (if setting de ''SMTP_USERNAME'' '''' \<noteq> [] then [Login (setting de ''SMTP_USERNAME'' '''') (setting de ''SMTP_PASSWORD'' '''')] else [])
       @ [Send_Message (setting de ''SMTP_FROM'' '''') recipient code])"

definition send_mail :: "delivery_env \<Rightarrow> ustr \<Rightarrow> ustr \<Rightarrow> transmission list \<times> unit result" where
  "send_mail de recipient code =
     (case dl_int de (setting de ''SMTP_PORT'' (if setting de ''SMTP_SECURITY'' ''starttls'' = asc ''tls'' then ''465'' else ''587'')) of
        None \<Rightarrow> ([], Inl RuntimeError)
      | Some port \<Rightarrow>
          (case carry_out (dl_smtp de) [] (mail_plan de port recipient code) of
             (done_so_far, ok) \<Rightarrow> (done_so_far, if ok then Inr () else Inl RuntimeError)))"

section \<open>Providers\<close>

fun filled :: "json \<Rightarrow> bool" where
  "filled JNull = False"
| "filled (JBool b) = b"
| "filled (JInt n) = (n \<noteq> 0)"
| "filled (JStr s) = (s \<noteq> [])"
| "filled (JList xs) = (xs \<noteq> [])"
| "filled (JObj kvs) = (kvs \<noteq> [])"

definition answer_of :: "string \<Rightarrow> (string \<times> json) list \<Rightarrow> json" where
  "answer_of k kvs = (case map_of kvs k of None \<Rightarrow> JNull | Some v \<Rightarrow> v)"

text \<open>A status that is a list or an object has no hash.\<close>

definition sms_accepted :: "(string \<times> json) list \<Rightarrow> unit result" where
  "sms_accepted kvs =
     (if \<not> filled (answer_of ''sid'' kvs) then Inl RuntimeError
      else case answer_of ''status'' kvs of
        JList _ \<Rightarrow> Inl TypeError
      | JObj _ \<Rightarrow> Inl TypeError
      | status \<Rightarrow> if status \<in> {JStr (asc ''failed''), JStr (asc ''undelivered''), JStr (asc ''canceled'')} then Inl RuntimeError else Inr ())"

definition send_sms :: "delivery_env \<Rightarrow> ustr \<Rightarrow> ustr \<Rightarrow> transmission list \<times> unit result" where
  "send_sms de recipient code =
     (let sid = setting de ''TWILIO_ACCOUNT_SID'' '''';
          request = Post (asc ''https://api.twilio.com/2010-04-01/Accounts/'' @ sid @ asc ''/Messages.json'')
            [(''To'', recipient), (''From'', setting de ''TWILIO_FROM'' ''''),
             (''Body'', asc ''[BidProof] '' @ [39564, 35777, 30721, 32] @ code @ [65292, 53, 32, 20998, 38047, 20869, 26377, 25928, 65292, 35831, 21247, 36716, 21457, 12290])]
      in ([request], case dl_fetch de request of None \<Rightarrow> Inl RuntimeError | Some kvs \<Rightarrow> sms_accepted kvs))"

definition resend_accepted :: "(string \<times> json) list \<Rightarrow> unit result" where
  "resend_accepted kvs = (case answer_of ''id'' kvs of JStr (c # s) \<Rightarrow> Inr () | _ \<Rightarrow> Inl RuntimeError)"

definition send_resend :: "delivery_env \<Rightarrow> ustr \<Rightarrow> ustr \<Rightarrow> transmission list \<times> unit result" where
  "send_resend de recipient code =
     (let request = Post (asc ''https://api.resend.com/emails'')
            [(''from'', setting de ''EMAIL_FROM'' ''''), (''to'', recipient), (''subject'', asc ''BidProof '' @ [30331, 24405, 39564, 35777, 30721]),
             (''text'', [20320, 30340, 32, 66, 105, 100, 80, 114, 111, 111, 102, 32, 39564, 35777, 30721, 26159, 65306] @ code
               @ [10, 10] @ [53, 32, 20998, 38047, 20869, 26377, 25928, 65292, 35831, 21247, 36716, 21457, 32473, 20182, 20154, 12290] @ [10] @ [22914, 26524, 19981, 26159, 20320, 26412, 20154, 25805, 20316, 65292, 35831, 24573, 30053, 27492, 37038, 20214, 12290])]
      in ([request], case dl_fetch de request of None \<Rightarrow> Inl RuntimeError | Some kvs \<Rightarrow> resend_accepted kvs))"

definition deliver :: "delivery_env \<Rightarrow> string \<Rightarrow> ustr \<Rightarrow> ustr \<Rightarrow> transmission list \<times> unit result" where
  "deliver de channel recipient code =
     (if \<not> delivery_enabled de channel then ([], Inl RuntimeError)
      else if channel = ''email''
        then if setting de ''EMAIL_PROVIDER'' ''smtp'' = asc ''resend'' then send_resend de recipient code else send_mail de recipient code
      else send_sms de recipient code)"

section \<open>Codes travel encrypted\<close>

fun confidential :: "transmission \<Rightarrow> bool" where
  "confidential (Connect h p t) = False"
| "confidential Start_Tls = False"
| "confidential _ = True"

fun encrypts :: "transmission \<Rightarrow> bool" where
  "encrypts (Connect h p t) = t"
| "encrypts Start_Tls = True"
| "encrypts _ = False"

fun over_https :: "transmission \<Rightarrow> bool" where
  "over_https (Post url fs) = (take 8 url = asc ''https://'')"
| "over_https _ = False"

lemma carry_out_prefix:
  "\<exists>n \<le> length plan. fst (carry_out server before plan) = before @ take n plan"
proof (induction plan arbitrary: before)
  case (Cons a plan)
  obtain n where n: "n \<le> length plan" "fst (carry_out server (before @ [a]) plan) = (before @ [a]) @ take n plan"
    using Cons.IH by blast
  show ?case
  proof (cases "server (before @ [a])")
    case True
    then show ?thesis using n by (intro exI [of _ "Suc n"]) simp
  qed (auto intro!: exI [of _ "Suc 0"])
qed simp

lemma mail_plan_encrypts:
  assumes "setting de ''SMTP_SECURITY'' ''starttls'' \<in> {asc ''starttls'', asc ''tls''}" and "k < length (mail_plan de port recipient code)"
    and "confidential (mail_plan de port recipient code ! k)"
  shows "\<exists>j < k. encrypts (mail_plan de port recipient code ! j)"
proof (cases "setting de ''SMTP_SECURITY'' ''starttls'' = asc ''tls''")
  case True
  then have "encrypts (mail_plan de port recipient code ! 0)" "\<not> confidential (mail_plan de port recipient code ! 0)"
    by (simp_all add: mail_plan_def Let_def)
  then show ?thesis using assms(3) by (metis gr0I)
next
  case False
  then have plan: "setting de ''SMTP_SECURITY'' ''starttls'' = asc ''starttls''" using assms(1) by simp
  then have "encrypts (mail_plan de port recipient code ! 1)" "\<not> confidential (mail_plan de port recipient code ! 0)"
    "\<not> confidential (mail_plan de port recipient code ! 1)"
    by (simp_all add: mail_plan_def Let_def)
  then show ?thesis using assms(3) by (metis gr0I less_one linorder_neqE_nat)
qed


definition demo_mail :: delivery_env where
  "demo_mail = \<lparr>dl_environ = map_of [(''BIDPROOF_OTP_SECRET'', asc ''0123456789abcdef0123456789abcdef''), (''BIDPROOF_SMTP_HOST'', asc ''mail''), (''BIDPROOF_SMTP_FROM'', asc ''a'')],
     dl_environment = asc ''production'', dl_int = (\<lambda>_. Some 587), dl_smtp = (\<lambda>_. True), dl_fetch = (\<lambda>_. None)\<rparr>"


end
