(* ===== verification/Spec2Isabelle.thy ===== *)
theory Spec2Isabelle
  imports Job_Life Run_Service Rules Sign_In Uploads Worker Workspace_Service Office Gates Deployment Account_Routes Reports Ledgers Ground_Truth Workflow Delivery
begin

text \<open>
  BidProof checks tender documents against the evidence of a bidder. A scan stores the uploaded files, reads
  their pages, finds the requirements of the tender by keyword rules and looks for evidence of each; reviewers
  confirm or reject the suggestions and record a decision; every change is recorded in an audit trail. The
  program is a web service (\<open>src/app\<close>) over an SQL database, with a queue of scan jobs that workers claim.

  \<^bold>\<open>How the model is built.\<close> The database is the record \<open>db\<close> of theory \<open>Models\<close>: one list of rows per table of
  \<open>src/app/models.py\<close>. The SQL statements are the table operations of \<open>Prelude\<close> (\<open>sql_select\<close>, \<open>sql_update\<close>,
  \<open>sql_upsert\<close> and so on); ORDER BY is a stable sort. A data-layer function is a function on \<open>db\<close>. A service call
  is a \<open>handler\<close>: it takes the state, returns a value or an exception and the new state, and what it wrote before
  it raised stays written, unless it ran inside \<open>uow.transaction\<close> (\<open>atomically\<close>). Points in time are numbers of
  microseconds. Text that the code inspects is a list of code points, other text is a \<open>string\<close>. What the program
  takes from outside is a parameter: clocks, fresh identifiers and secrets, digests, the PBKDF2 and HMAC
  functions, the Fernet client, string methods such as \<open>lower\<close>, the parsers and recognition engines, the
  directory and the identity provider.

  \<^bold>\<open>Parts and theories.\<close>
  \<^item> Data layer (\<open>src/app/db.py\<close>, \<open>models.py\<close>): \<open>Models\<close>, \<open>Workspaces\<close> (workspaces, projects, access to a
    project), \<open>Jobs\<close> (scan jobs and the leases of \<open>job_leases.py\<close>), \<open>Run_Store\<close> (runs, their encryption with
    \<open>crypto.py\<close>, optimistic locking, listings), \<open>Audit_Log\<close> (the hash chain), \<open>Collaboration\<close> (comments,
    remediation, accuracy feedback), \<open>Accounts\<close> (users, sessions, links, tokens, second factors, flows).
  \<^item> Queue: \<open>Job_Queue\<close> is a step relation with one rule per call that writes a job, in any order. Its
    invariant gives that a job is published at most once, that a cancelled job stays cancelled, that a lost
    lease stays lost, that attempts are bounded and that no job is stranded. \<open>Job_Life\<close> states the life cycle of
    one job as an abstract step relation, and the queue as its refinement.
  \<^item> Scans: \<open>Rules\<close> (\<open>rules.py\<close>: patterns, extraction, evidence matching), \<open>Uploads\<close> (\<open>uploads.py\<close>,
    \<open>file_safety.py\<close>, \<open>request_limits.py\<close>), \<open>Scan\<close> (\<open>services/scan_service.py\<close>, \<open>queue.py\<close>: the pipeline over the
    database and the upload directories, staging, and the turn of a worker), \<open>Worker\<close> (\<open>job_runner.py\<close>, \<open>worker.py\<close>:
    the supervision of a child process, whose behaviour is any change of the store, and the polling loop).
  \<^item> Runs: \<open>Presenters\<close> (\<open>presenters.py\<close>, rows of reports), \<open>Run_Service\<close> (\<open>state.py\<close>,
    \<open>services/run_service.py\<close>: review, decision, metadata, bulk changes, deletion, listings), \<open>Workspace_Service\<close>
    (\<open>services/workspace_service.py\<close>: the retention purge, notifications, accuracy, health, the evidence index).
  \<^item> Documents: \<open>Regex\<close> (the regular expressions the code uses, with the meaning of their matcher), \<open>Ocr_Privacy\<close>
    (\<open>ocr_privacy.py\<close>: the privacy gate and the redaction of a page), \<open>Ocr\<close> (\<open>ocr.py\<close>: the adapters, their
    selection, retries and fallbacks; what is sent to the cloud is part of the answer), \<open>Pdf_Extraction\<close>
    (\<open>extraction.py\<close>: the pages of a PDF document over the answers of the library), \<open>Office\<close> (the same file: text and
    Office files, and the choice by suffix).
  \<^item> Identity: \<open>Auth_Limits\<close> (\<open>ratelimit.py\<close>, \<open>repositories/challenges.py\<close>), \<open>Credentials\<close> (\<open>security.py\<close>,
    \<open>totp.py\<close>, \<open>csrf.py\<close>, the password policy), \<open>Authz\<close> (\<open>authz.py\<close>, \<open>identity.py\<close>), \<open>Auth_Service\<close>
    (\<open>services/auth_service.py\<close>), \<open>Passwordless\<close> (\<open>services/passwordless_service.py\<close>); \<open>Sign_In\<close> holds their
    properties. \<open>Delivery\<close> (\<open>auth_delivery.py\<close>) is what is transmitted to deliver a code. \<open>Federation\<close> holds the exchanges with identity providers and directories (\<open>oidc.py\<close>, \<open>directory.py\<close>,
    \<open>services/social_auth_service.py\<close>).
  \<^item> Service: \<open>Request_Gate\<close> (\<open>http.py\<close>, \<open>request_context.py\<close>: what a request passes before its route runs and what
    its answer gets), \<open>Deployment\<close> (\<open>config.py\<close>, \<open>license.py\<close>: the checks at the start), \<open>Downloads\<close> (source files and
    page previews), \<open>Backup\<close> (\<open>src/work/backup_restore.py\<close>).
  \<^item> Routes (\<open>src/app/api\<close>): \<open>Run_Routes\<close> (\<open>runs.py\<close>) and \<open>Workspace_Routes\<close> (\<open>jobs.py\<close>, \<open>projects.py\<close>, \<open>members.py\<close>,
    \<open>admin.py\<close>) are handlers that check a permission and the scope of what the request names, then call the service;
    \<open>Tenants\<close> is the service as one function of a caller and a request (\<open>serve\<close>), with what holds across all of them;
    \<open>Account_Routes\<close> adds the routes on accounts (\<open>auth.py\<close> after sign-in, the writes of \<open>members.py\<close>, and the two
    routes of \<open>health.py\<close> that ask for a permission).
  \<^item> Reports and ledgers: \<open>Csv\<close> (the writer and the reader of Python's \<open>csv\<close> module), \<open>Reports\<close> (\<open>reporting.py\<close>: the pages of
    the PDF report as placed lines; \<open>services/report_service.py\<close>, \<open>api/reports.py\<close>), \<open>Ledgers\<close> (\<open>pilot_ledger.py\<close>,
    \<open>icp_ledger.py\<close>, \<open>ledger_dates.py\<close>, \<open>pilot_readiness.py\<close> of \<open>src/work\<close>), \<open>Ground_Truth\<close> (\<open>ground_truth_review.py\<close>,
    \<open>apply_independent_reviews.py\<close> and the packet and submission of the second reviewer), \<open>Workflow\<close>
    (\<open>src/app/workflow.py\<close>: the check of the project-state file).
  \<^item> Quality of recognition (\<open>src/work/eval\<close>): \<open>Edit_Distance\<close> (\<open>ocr_benchmark.py\<close>, \<open>rapidocr_line_cer.py\<close>: the row-wise
    edit distance, the error rates, the matching of lines), \<open>Table_Similarity\<close> (\<open>teds_score.py\<close>: the tree of a table
    from the callbacks of the HTML parser, the memoised distance, the score), \<open>Gates\<close> (\<open>sandbox_gates.py\<close>,
    \<open>key_field_f1.py\<close>, \<open>teds_harness.py\<close> and \<open>src/app/quality_gates.py\<close>: the scores and what they allow the product).
    Rates are rational numbers where the code has floats; a metric may also be NaN.

  \<^bold>\<open>Interfaces.\<close> \<open>one_shot\<close> (\<open>Prelude\<close>) is a conditional write that one caller wins: saves against a revision,
  reset links, login flows and codes interpret it. \<open>inv_system\<close> is an event system with an invariant: the job
  queue interprets it. \<open>run_promise\<close> (\<open>Run_Service\<close>) is a promise about stored runs that the run calls keep; it is
  interpreted for citations and for the types of the rows. \<open>scan_steps\<close> (\<open>Scan\<close>) says what storing a file, a refusal and
  a publication do to a predicate, and derives what a whole scan does; it is interpreted for what a failed scan
  leaves behind, for what a successful one can load again, for how a leased job is settled, and for what a worker
  leaves alone.

  \<^bold>\<open>What is shown.\<close> Each property carries its number in the text before it. Scans: the rule engine misses no
  keyword and never passes a requirement by itself; a scan is all or nothing; a worker never leaves a job
  running, supervision ends and settles its job, and turns of the worker empty the queue; the chunked search for active content equals the search of the whole file; an upload is stored whole
  and inside its directory, or refused. Runs: what is saved is what is loaded, one writer wins per revision, a
  passed requirement is always cited, the audit chain verifies after every append and its newest hash fixes the
  history, and every stored row decodes, with counts that agree with its document; the retention purge deletes exactly the expired runs and their directories.
  Documents: a redaction that counts as clean covers every line with personal data, and unless the first pass itself
  is the cloud, only such redactions are sent; the pages of any file are numbered without gaps and their summary fields
  agree with their text. Queue: as above. Quality: the
  edit distance is the length of a shortest script, the memoised table distance is the plain one, the score lies
  between zero and one, the key-field score is the textbook one, and the product's gate opens exactly when all
  three metrics are there and good. Identity: a session needs the password and the factor, a code or link works once,
  guesses are bounded, an external identity takes over no account, a token grants no more than its maker has,
  and a provider's or directory's answer signs in only the subject it is bound to. Service: a route runs only
  behind the guards, production starts only with the security settings on, a preview stays inside the directory of its run
  and bounded in size, and a restored backup is the state that was saved. Routes: a request is answered only to a caller
  with its permission, and changes nothing of another workspace, nor its accounts; the pending invitations are the exception
  (\<open>invitations_cross_workspaces\<close>). Reports: a PDF report holds every
  requirement, inside the margins of its pages, and a CSV export or a ledger reads back as the rows that went in. A label
  counts as ground truth only when two different reviewers confirmed it, and a project state that passes its check is
  consistent. Codes are delivered over encrypted connections. A few lemmas state what the code does where that may surprise:
  a late write of the staging step can publish a job twice, a metadata change can overwrite a concurrent
  one, a metric that is not a number opens the gate, the cloud adapter as first pass gets original pages, and the
  lines of a strip are painted at the wrong place, so that a number stays in sight.

  \<^bold>\<open>Termination.\<close> All functions are total. Loops over data are structural recursion; the searches of regular
  expressions, the decimal numerals, the reading of a file in chunks and the table distance recurse with a measure.
  The supervisor's loop is a function of the rounds it gets, which answers whether it ended; that it does end is
  a property. The loop that looks for a free backup directory gets a bound on its tries; one more than
  the names taken is enough (\<open>new_backup_dir_found\<close>); so does the one that looks for a free name in an archive of
  reports (\<open>free_archive_name_found\<close>).

  \<^bold>\<open>Not modelled.\<close> The routes that sign in only forward to the modelled services, and the readiness probe looks at files; metrics and logs, the web pages, migrations and
  engine set-up, the parsers of documents and the recognition engines (third-party; their answers are parameters), the mail and HTTP libraries, the drawing of glyphs, operating-system processes and
  signals, the collection of benchmark data and the command-line tools under \<open>src/work\<close> and \<open>src/scripts\<close>.
\<close>

end
